(* ===== verification/Prelude.thy ===== *)
theory Prelude
  imports Main "HOL-Library.Word"
begin

text \<open>
  Shared ground of the development: the machine-integer types of the C code, the ways a
  C computation can fail (an \<open>assert\<close>, a \<open>panic\<close>, or undefined behaviour), the result
  type with its sequencing operator, little-endian bytes, C's truncating division, and the
  generic lemmas the components share.
\<close>

unbundle bit_operations_syntax

section \<open>Types of the C code\<close>

type_synonym u8 = "8 word"
type_synonym u16 = "16 word"
type_synonym u32 = "32 word"
type_synonym u64 = "64 word"

text \<open>
  How a run can stop abnormally. \<open>AssertFail\<close> is the C library's \<open>assert\<close>, \<open>Panic\<close> the
  \<open>panic\<close>/\<open>Assert\<close> macros of \<open>debug.h\<close>; the others are undefined behaviour of C that the
  code does not check for: an access outside an array, a null pointer dereference, a division
  by zero or a signed division that overflows (both trap on the host). \<open>HostExit\<close> is a call of
  \<open>exit\<close>, \<open>err\<close> or \<open>errx\<close> with its status, \<open>BadShift\<close> a shift by the width of its operand or
  more.
\<close>

datatype c_error = AssertFail | Panic | OutOfBounds | NullDeref | DivTrap | HostExit int | BadShift

type_synonym 'a res = "c_error + 'a"

definition bind_res :: "'a res \<Rightarrow> ('a \<Rightarrow> 'b res) \<Rightarrow> 'b res" where
  "bind_res m f = (case m of Inl e \<Rightarrow> Inl e | Inr x \<Rightarrow> f x)"

text \<open>\<open>assert(c)\<close> followed by the rest of the function.\<close>

definition assert_then :: "bool \<Rightarrow> 'a res \<Rightarrow> 'a res" where
  "assert_then c m = (if c then m else Inl AssertFail)"

named_theorems res_simps
  \<open>evaluation of sequenced results\<close>
named_theorems field_simps_rv
  \<open>bit fields of encoded instructions\<close>

lemma bind_res_Inr [simp, res_simps]: "bind_res (Inr x) f = f x"
  by (simp add: bind_res_def)

lemma bind_res_Inl [simp, res_simps]: "bind_res (Inl e) f = Inl e"
  by (simp add: bind_res_def)

lemma bind_res_eq_Inr [res_simps]:
  "bind_res m f = Inr y \<longleftrightarrow> (\<exists>x. m = Inr x \<and> f x = Inr y)"
  by (cases m) auto

lemma bind_res_assoc: "bind_res (bind_res m f) g = bind_res m (\<lambda>x. bind_res (f x) g)"
  by (cases m) auto

lemma bind_resE:
  assumes "bind_res m f = Inr y"
  obtains x where "m = Inr x" and "f x = Inr y"
  using assms by (cases m) auto

lemma bind_res_cong [fundef_cong]:
  "m = m' \<Longrightarrow> (\<And>x. m' = Inr x \<Longrightarrow> f x = f' x) \<Longrightarrow> bind_res m f = bind_res m' f'"
  by (cases m') auto

lemma assert_then_True [simp, res_simps]: "assert_then True m = m"
  by (simp add: assert_then_def)

lemma assert_then_False [simp, res_simps]: "assert_then False m = Inl AssertFail"
  by (simp add: assert_then_def)

lemma assert_then_eq_Inr [res_simps]: "assert_then c m = Inr y \<longleftrightarrow> c \<and> m = Inr y"
  by (simp add: assert_then_def)

section \<open>Computations that may not return\<close>

text \<open>\<open>None\<close> is a computation that does not return.\<close>

type_synonym 'a run = "'a res option"

definition bind_run :: "'a run \<Rightarrow> ('a \<Rightarrow> 'b run) \<Rightarrow> 'b run" where
  "bind_run m f = Option.bind m (case_sum (\<lambda>e. Some (Inl e)) f)"

lemma bind_run_mono [partial_function_mono]:
  assumes "mono_option B" and "\<And>y. mono_option (\<lambda>f. C y f)"
  shows "mono_option (\<lambda>f. bind_run (B f) (\<lambda>y. C y f))"
  unfolding bind_run_def
proof (intro bind_mono assms(1))
  fix y
  show "mono_option (\<lambda>f. case_sum (\<lambda>e. Some (Inl e)) (\<lambda>y. C y f) y)"
    using assms(2) by (cases y) (auto intro: option.const_mono)
qed

lemma bind_run_simps [simp]:
  "bind_run (Some (Inl e)) f = Some (Inl e)" "bind_run (Some (Inr x)) f = f x" "bind_run None f = None"
  by (simp_all add: bind_run_def)

lemma bind_run_assoc: "bind_run (bind_run m f) h = bind_run m (\<lambda>x. bind_run (f x) h)"
  by (cases m) (auto simp: bind_run_def split: sum.splits)

lemma bind_run_eq_Inr:
  "bind_run m f = Some (Inr y) \<longleftrightarrow> (\<exists>x. m = Some (Inr x) \<and> f x = Some (Inr y))"
  by (cases m) (auto simp: bind_run_def split: sum.splits)

section \<open>Signed division\<close>

text \<open>
  C's \<open>/\<close> and \<open>%\<close> truncate towards zero; a zero divisor and \<open>INT_MIN / -1\<close> are undefined
  (the host processor traps).
\<close>

definition c_div :: "int \<Rightarrow> int \<Rightarrow> int" where
  "c_div a b = sgn a * sgn b * (\<bar>a\<bar> div \<bar>b\<bar>)"

definition c_mod :: "int \<Rightarrow> int \<Rightarrow> int" where
  "c_mod a b = a - c_div a b * b"

lemma c_div_mod: "c_div a b * b + c_mod a b = a"
  by (simp add: c_mod_def)

lemma c_mod_sgn: "c_mod a b = sgn a * (\<bar>a\<bar> mod \<bar>b\<bar>)"
proof (cases "b = 0")
  case False
  have "c_div a b * b = sgn a * (\<bar>a\<bar> div \<bar>b\<bar> * \<bar>b\<bar>)"
    by (simp add: c_div_def abs_sgn mult.commute mult.left_commute)
  then show ?thesis
    by (simp add: c_mod_def minus_div_mult_eq_mod [symmetric] right_diff_distrib mult_sgn_abs)
qed (simp add: c_mod_def c_div_def mult_sgn_abs)

lemma c_mod_abs_less: "b \<noteq> 0 \<Longrightarrow> \<bar>c_mod a b\<bar> < \<bar>b\<bar>"
proof -
  assume b: "b \<noteq> 0"
  have "\<bar>c_mod a b\<bar> \<le> \<bar>a\<bar> mod \<bar>b\<bar>"
    unfolding c_mod_sgn using b by (cases "a = 0") (auto simp: abs_mult sgn_if)
  also have "\<dots> < \<bar>b\<bar>" using b by simp
  finally show ?thesis .
qed

section \<open>Little-endian bytes\<close>

fun le_word :: "u8 list \<Rightarrow> u32" where
  "le_word [] = 0"
| "le_word (b # bs) = ucast b OR push_bit 8 (le_word bs)"

definition le_bytes :: "nat \<Rightarrow> u32 \<Rightarrow> u8 list" where
  "le_bytes n w = map (\<lambda>i. ucast (drop_bit (8 * i) w)) [0..<n]"

lemma length_le_bytes [simp]: "length (le_bytes n w) = n"
  by (simp add: le_bytes_def)

lemma le_bytes_nth [simp]: "i < n \<Longrightarrow> le_bytes n w ! i = ucast (drop_bit (8 * i) w)"
  by (simp add: le_bytes_def)

lemma bit_le_word:
  "bit (le_word bs) n \<longleftrightarrow> n < 32 \<and> n div 8 < length bs \<and> bit (bs ! (n div 8)) (n mod 8)"
proof (induction bs arbitrary: n)
  case Nil
  then show ?case by simp
next
  case (Cons b bs)
  show ?case
  proof (cases "n < 8")
    case True
    then show ?thesis by (auto simp: bit_simps)
  next
    case False
    then have "n div 8 = Suc ((n - 8) div 8)" and "(n - 8) mod 8 = n mod 8"
      by (auto simp: le_div_geq le_mod_geq)
    with False show ?thesis
      by (auto simp: bit_simps Cons.IH dest: bit_imp_le_length)
  qed
qed

text \<open>Reading back the bytes of a word gives its low bytes.\<close>

lemma le_word_le_bytes: "n \<le> 4 \<Longrightarrow> le_word (le_bytes n w) = take_bit (8 * n) w"
proof (rule bit_word_eqI)
  fix i assume "n \<le> 4" "i < LENGTH(32)"
  have "8 * (i div 8) + i mod 8 = i" by simp
  moreover have "i div 8 < n \<longleftrightarrow> i < 8 * n" by auto
  ultimately show "bit (le_word (le_bytes n w)) i \<longleftrightarrow> bit (take_bit (8 * n) w) i"
    using \<open>i < LENGTH(32)\<close> by (auto simp: bit_le_word bit_simps)
qed

lemma le_word_le_bytes4 [simp]: "le_word (le_bytes 4 w) = w"
  using le_word_le_bytes [of 4 w] take_bit_length_eq [of w] by simp

end
