(* ===== verification/Decode.thy ===== *)
theory Decode
  imports Prelude
begin

text \<open>
  The decoding macros of NEMU: \<open>BITMASK\<close>, \<open>BITS\<close> and \<open>SEXT\<close> of \<open>include/macro.h\<close>, and the
  pattern mechanism of \<open>include/cpu/decode.h\<close>: \<open>pattern_decode\<close> and \<open>pattern_decode_hex\<close>
  turn a pattern string into a key, a mask and a shift, and a list of \<open>INSTPAT\<close> entries is
  searched in order for the first pattern an instruction word matches. The main lemma says
  that the key/mask/shift test accepts exactly the words that agree with the pattern at
  every position that is not a question mark.
\<close>

section \<open>Bit fields\<close>

definition BITMASK :: "nat \<Rightarrow> u64" where
  "BITMASK bits = push_bit bits 1 - 1"

definition BITS :: "u64 \<Rightarrow> nat \<Rightarrow> nat \<Rightarrow> u64" where
  "BITS x hi lo = drop_bit lo x AND BITMASK (hi - lo + 1)"

text \<open>Storing into the bit field \<open>int64_t n : len\<close> and reading it back.\<close>

definition SEXT :: "u64 \<Rightarrow> nat \<Rightarrow> u64" where
  "SEXT x len = signed_take_bit (len - 1) x"

section \<open>Patterns\<close>

text \<open>
  One character of a pattern updates \<open>__key\<close>, \<open>__mask\<close> and \<open>__shift\<close>; a space is skipped,
  any other character fails the \<open>Assert\<close>. The unrolled \<open>macro64(0)\<close> handles 64 characters
  and then panics, so the terminating test is only reached for shorter strings.
\<close>

fun pattern_loop :: "string \<Rightarrow> u64 \<Rightarrow> u64 \<Rightarrow> u64 \<Rightarrow> (u64 \<times> u64 \<times> u64) res" where
  "pattern_loop [] key msk shift = Inr (key, msk, shift)"
| "pattern_loop (c # cs) key msk shift =
     (if c = CHR '' '' then pattern_loop cs key msk shift
      else if c = CHR ''0'' \<or> c = CHR ''1'' \<or> c = CHR ''?'' then
        pattern_loop cs
          (push_bit 1 key OR (if c = CHR ''1'' then 1 else 0))
          (push_bit 1 msk OR (if c = CHR ''?'' then 0 else 1))
          (if c = CHR ''?'' then shift + 1 else 0)
      else Inl Panic)"

definition pattern_decode :: "string \<Rightarrow> (u64 \<times> u64 \<times> u64) res" where
  "pattern_decode str =
     (if length str < 64 then
        bind_res (pattern_loop str 0 0 0) (\<lambda>(key, msk, shift).
          Inr (drop_bit (unat shift) key, drop_bit (unat shift) msk, shift))
      else Inl Panic)"

definition hex_digit_value :: "char \<Rightarrow> u64" where
  "hex_digit_value c =
     (if c = CHR ''?'' then 0
      else if of_char c < (58 :: nat) then of_nat (of_char c - 48)
      else of_nat (of_char c - 97 + 10))"

definition hex_pattern_char :: "char \<Rightarrow> bool" where
  "hex_pattern_char c \<longleftrightarrow>
     (48 \<le> (of_char c :: nat) \<and> (of_char c :: nat) \<le> 57)
     \<or> (97 \<le> (of_char c :: nat) \<and> (of_char c :: nat) \<le> 102) \<or> c = CHR ''?''"

fun pattern_hex_loop :: "string \<Rightarrow> u64 \<Rightarrow> u64 \<Rightarrow> u64 \<Rightarrow> (u64 \<times> u64 \<times> u64) res" where
  "pattern_hex_loop [] key msk shift = Inr (key, msk, shift)"
| "pattern_hex_loop (c # cs) key msk shift =
     (if c = CHR '' '' then pattern_hex_loop cs key msk shift
      else if hex_pattern_char c then
        pattern_hex_loop cs
          (push_bit 4 key OR hex_digit_value c)
          (push_bit 4 msk OR (if c = CHR ''?'' then 0 else 15))
          (if c = CHR ''?'' then shift + 4 else 0)
      else Inl Panic)"

definition pattern_decode_hex :: "string \<Rightarrow> (u64 \<times> u64 \<times> u64) res" where
  "pattern_decode_hex str =
     (if length str < 16 then
        bind_res (pattern_hex_loop str 0 0 0) (\<lambda>(key, msk, shift).
          Inr (drop_bit (unat shift) key, drop_bit (unat shift) msk, shift))
      else Inl Panic)"

text \<open>The test of \<open>INSTPAT\<close>, and a block of \<open>INSTPAT\<close> entries: the first match is taken.\<close>

definition INSTPAT :: "string \<Rightarrow> u64 \<Rightarrow> bool res" where
  "INSTPAT pattern inst =
     bind_res (pattern_decode pattern) (\<lambda>(key, msk, shift).
       Inr (drop_bit (unat shift) inst AND msk = key))"

fun instpat_find :: "(string \<times> 'a) list \<Rightarrow> u64 \<Rightarrow> 'a option res" where
  "instpat_find [] inst = Inr None"
| "instpat_find ((p, x) # ps) inst =
     bind_res (INSTPAT p inst) (\<lambda>b. if b then Inr (Some x) else instpat_find ps inst)"

section \<open>What a pattern means\<close>

definition pattern_chars :: "string \<Rightarrow> string" where
  "pattern_chars str = filter (\<lambda>c. c \<noteq> CHR '' '') str"

definition valid_pattern :: "string \<Rightarrow> bool" where
  "valid_pattern str \<longleftrightarrow>
     length str < 64 \<and> set str \<subseteq> {CHR '' '', CHR ''0'', CHR ''1'', CHR ''?''}"

text \<open>
  The reference reading: written most significant bit first, every \<open>0\<close> and \<open>1\<close> names the
  value of its bit and a \<open>?\<close> leaves it free. Bits above the pattern are free as well.
\<close>

definition pattern_matches :: "string \<Rightarrow> u64 \<Rightarrow> bool" where
  "pattern_matches str inst \<longleftrightarrow>
     (let cs = rev (pattern_chars str) in
      \<forall>i < length cs. cs ! i \<noteq> CHR ''?'' \<longrightarrow> (bit inst i \<longleftrightarrow> cs ! i = CHR ''1''))"

text \<open>The state of the loop after a prefix, in terms of the reversed prefix.\<close>

definition loop_inv :: "string \<Rightarrow> u64 \<Rightarrow> u64 \<Rightarrow> u64 \<Rightarrow> bool" where
  "loop_inv cs key msk shift \<longleftrightarrow>
     (\<forall>i < 64. (bit key i \<longleftrightarrow> i < length cs \<and> cs ! i = CHR ''1'')
             \<and> (bit msk i \<longleftrightarrow> i < length cs \<and> cs ! i \<noteq> CHR ''?''))
     \<and> unat shift = length (takeWhile (\<lambda>c. c = CHR ''?'') cs)"

lemma loop_inv_step:
  assumes inv: "loop_inv cs key msk shift" and len: "length cs < 64"
    and c: "c \<in> {CHR ''0'', CHR ''1'', CHR ''?''}"
  shows "loop_inv (c # cs)
           (push_bit 1 key OR (if c = CHR ''1'' then 1 else 0))
           (push_bit 1 msk OR (if c = CHR ''?'' then 0 else 1))
           (if c = CHR ''?'' then shift + 1 else 0)"
proof -
  have bits: "bit (push_bit 1 (w :: u64) OR (if b then 1 else 0)) i
      \<longleftrightarrow> (case i of 0 \<Rightarrow> b | Suc j \<Rightarrow> bit w j)" if "i < 64" for w b i
    unfolding bit_or_iff bit_push_bit_iff
    using that by (cases i) (simp_all add: bit_1_iff possible_bit_def)
  have keep: "(if c = CHR ''?'' then (0 :: u64) else 1) = (if c \<noteq> CHR ''?'' then 1 else 0)"
    by simp
  have nth: "P ((c # cs) ! i) \<and> i < length (c # cs)
      \<longleftrightarrow> (case i of 0 \<Rightarrow> P c | Suc j \<Rightarrow> j < length cs \<and> P (cs ! j))" for P i
    by (cases i) auto
  have old: "bit key i \<longleftrightarrow> i < length cs \<and> cs ! i = CHR ''1''"
    "bit msk i \<longleftrightarrow> i < length cs \<and> cs ! i \<noteq> CHR ''?''" if "i < 64" for i
    using inv that by (simp_all add: loop_inv_def)
  have "bit (push_bit 1 key OR (if c = CHR ''1'' then 1 else 0)) i
          \<longleftrightarrow> i < length (c # cs) \<and> (c # cs) ! i = CHR ''1''" if "i < 64" for i
    using bits [OF that, of key "c = CHR ''1''"] nth [of "\<lambda>x. x = CHR ''1''" i] old that
    by (auto split: nat.splits)
  moreover have "bit (push_bit 1 msk OR (if c = CHR ''?'' then 0 else 1)) i
          \<longleftrightarrow> i < length (c # cs) \<and> (c # cs) ! i \<noteq> CHR ''?''" if "i < 64" for i
    unfolding keep
    using bits [OF that, of msk "c \<noteq> CHR ''?''"] nth [of "\<lambda>x. x \<noteq> CHR ''?''" i] old that
    by (auto split: nat.splits)
  moreover have "length (takeWhile (\<lambda>c. c = CHR ''?'') cs) < 64"
    using len length_takeWhile_le [of "\<lambda>c. c = CHR ''?''" cs] by linarith
  then have "unat (shift + 1) = Suc (unat shift)"
    using inv by (simp add: loop_inv_def unat_word_ariths)
  then have "unat (if c = CHR ''?'' then shift + 1 else 0)
               = length (takeWhile (\<lambda>c. c = CHR ''?'') (c # cs))"
    using inv by (simp add: loop_inv_def)
  ultimately show ?thesis by (simp add: loop_inv_def)
qed

lemma pattern_loop_correct:
  assumes "set str \<subseteq> {CHR '' '', CHR ''0'', CHR ''1'', CHR ''?''}"
    and "loop_inv cs key msk shift" and "length str + length cs < 64"
  shows "\<exists>key' msk' shift'. pattern_loop str key msk shift = Inr (key', msk', shift')
           \<and> loop_inv (rev (pattern_chars str) @ cs) key' msk' shift'"
  using assms
proof (induction str arbitrary: cs key msk shift)
  case Nil
  then show ?case by (simp add: pattern_chars_def)
next
  case (Cons c str)
  show ?case
  proof (cases "c = CHR '' ''")
    case True
    with Cons show ?thesis by (simp add: pattern_chars_def)
  next
    case False
    with Cons.prems(1) have c: "c \<in> {CHR ''0'', CHR ''1'', CHR ''?''}" by auto
    have "loop_inv (c # cs)
        (push_bit 1 key OR (if c = CHR ''1'' then 1 else 0))
        (push_bit 1 msk OR (if c = CHR ''?'' then 0 else 1))
        (if c = CHR ''?'' then shift + 1 else 0)"
      using Cons.prems c by (intro loop_inv_step) auto
    from Cons.IH [OF _ this] Cons.prems False c show ?thesis
      by (auto simp: pattern_chars_def)
  qed
qed

lemma takeWhile_nth_hit:
  "i < length (takeWhile P xs) \<Longrightarrow> P (xs ! i)"
  by (metis nth_mem set_takeWhileD takeWhile_nth)

lemma shifted_match:
  assumes inv: "loop_inv cs key msk shift" and len: "length cs < 64"
  shows "drop_bit (unat shift) inst AND drop_bit (unat shift) msk = drop_bit (unat shift) key
     \<longleftrightarrow> (\<forall>i < length cs. cs ! i \<noteq> CHR ''?'' \<longrightarrow> (bit inst i \<longleftrightarrow> cs ! i = CHR ''1''))"
proof -
  define s where "s = unat shift"
  have s: "s = length (takeWhile (\<lambda>c. c = CHR ''?'') cs)" using inv by (simp add: loop_inv_def s_def)
  then have below: "cs ! i = CHR ''?''" if "i < s" for i using takeWhile_nth_hit that by fastforce
  have key: "bit key i \<longleftrightarrow> i < length cs \<and> cs ! i = CHR ''1''"
    and msk: "bit msk i \<longleftrightarrow> i < length cs \<and> cs ! i \<noteq> CHR ''?''" if "i < 64" for i
    using inv that by (auto simp: loop_inv_def)
  have "drop_bit s inst AND drop_bit s msk = drop_bit s key
    \<longleftrightarrow> (\<forall>i < 64. s \<le> i \<longrightarrow> (bit inst i \<and> bit msk i \<longleftrightarrow> bit key i))" (is "?L \<longleftrightarrow> ?R")
  proof
    assume L: ?L
    show ?R
    proof (intro allI impI)
      fix i assume "i < 64" "s \<le> i"
      have "bit (drop_bit s inst AND drop_bit s msk) (i - s) = bit (drop_bit s key) (i - s)"
        using L by simp
      with \<open>s \<le> i\<close> show "bit inst i \<and> bit msk i \<longleftrightarrow> bit key i" by (simp add: bit_simps)
    qed
  next
    assume R: ?R
    show ?L
    proof (rule bit_word_eqI)
      fix n assume "n < LENGTH(64)"
      show "bit (drop_bit s inst AND drop_bit s msk) n \<longleftrightarrow> bit (drop_bit s key) n"
        using R [rule_format, of "s + n"] bit_imp_le_length [of key "s + n"]
          bit_imp_le_length [of msk "s + n"]
        by (cases "s + n < 64") (auto simp: bit_simps)
    qed
  qed
  also have "\<dots> \<longleftrightarrow> (\<forall>i < length cs. cs ! i \<noteq> CHR ''?'' \<longrightarrow> (bit inst i \<longleftrightarrow> cs ! i = CHR ''1''))"
    (is "_ \<longleftrightarrow> ?S")
  proof
    assume R: "\<forall>i < 64. s \<le> i \<longrightarrow> (bit inst i \<and> bit msk i \<longleftrightarrow> bit key i)"
    show ?S
    proof (intro allI impI)
      fix i assume i: "i < length cs" "cs ! i \<noteq> CHR ''?''"
      with below have "s \<le> i" by (meson not_less)
      moreover from i len have "i < 64" by simp
      ultimately show "bit inst i \<longleftrightarrow> cs ! i = CHR ''1''" using R key msk i by blast
    qed
  next
    assume S: ?S
    show "\<forall>i < 64. s \<le> i \<longrightarrow> (bit inst i \<and> bit msk i \<longleftrightarrow> bit key i)"
    proof (intro allI impI)
      fix i :: nat assume "i < 64"
      from S [rule_format, of i] show "bit inst i \<and> bit msk i \<longleftrightarrow> bit key i"
        unfolding key [OF \<open>i < 64\<close>] msk [OF \<open>i < 64\<close>] by auto
    qed
  qed
  finally show ?thesis by (simp add: s_def)
qed

lemma pattern_decode_valid:
  assumes "valid_pattern str"
  obtains key msk shift where
    "pattern_loop str 0 0 0 = Inr (key, msk, shift)"
    "loop_inv (rev (pattern_chars str)) key msk shift"
proof -
  have "loop_inv [] 0 0 0" by (simp add: loop_inv_def)
  from pattern_loop_correct [OF _ this] assms show thesis
    by (auto simp: valid_pattern_def intro: that)
qed

lemma pattern_loop_invalid:
  "\<not> set str \<subseteq> {CHR '' '', CHR ''0'', CHR ''1'', CHR ''?''}
   \<Longrightarrow> pattern_loop str key msk shift = Inl Panic"
proof (induction str arbitrary: key msk shift)
  case Nil
  then show ?case by simp
next
  case (Cons c str)
  then show ?case
    by (cases "c \<in> {CHR '' '', CHR ''0'', CHR ''1'', CHR ''?''}") auto
qed

section \<open>Bit-field lemmas\<close>

lemma BITMASK_mask: "BITMASK n = mask n"
  by (simp add: BITMASK_def mask_eq_exp_minus_1 push_bit_of_1)

lemma BITS_take_bit: "BITS x hi lo = take_bit (hi - lo + 1) (drop_bit lo x)"
  by (simp add: BITS_def BITMASK_mask take_bit_eq_mask)

lemma bit_BITS [bit_simps]: "bit (BITS x hi lo) n \<longleftrightarrow> n \<le> hi - lo \<and> bit x (lo + n)"
  by (auto simp: BITS_take_bit bit_simps)

lemma unat_BITS_less: "hi - lo + 1 < 64 \<Longrightarrow> unat (BITS x hi lo) < 2 ^ (hi - lo + 1)"
  by (simp only: BITS_take_bit unsigned_take_bit_eq) (rule take_bit_nat_less_exp)

lemma bit_SEXT [bit_simps]:
  "bit (SEXT x len) n \<longleftrightarrow> n < 64 \<and> bit x (min n (len - 1))"
  by (auto simp: SEXT_def bit_signed_take_bit_iff possible_bit_def min.commute)

section \<open>Properties\<close>

text \<open>
  C1: the optimised pattern test of \<open>INSTPAT\<close> (key, mask and shift computed from the pattern
  string) is equivalent to reading the pattern position by position: for a well-formed pattern
  it accepts exactly the words that agree with every \<open>0\<close> and \<open>1\<close> of the pattern, and a
  pattern with a foreign character or 64 or more characters panics.
\<close>

theorem INSTPAT_pattern_matches:
  "INSTPAT str inst = (if valid_pattern str then Inr (pattern_matches str inst) else Inl Panic)"
proof (cases "valid_pattern str")
  case True
  then obtain key msk shift where loop: "pattern_loop str 0 0 0 = Inr (key, msk, shift)"
    and inv: "loop_inv (rev (pattern_chars str)) key msk shift" by (rule pattern_decode_valid)
  have "length (pattern_chars str) \<le> length str" by (simp add: pattern_chars_def)
  with True have "length (rev (pattern_chars str)) < 64" by (simp add: valid_pattern_def)
  from shifted_match [OF inv this] loop True show ?thesis
    by (simp add: INSTPAT_def pattern_decode_def pattern_matches_def valid_pattern_def Let_def)
next
  case False
  then show ?thesis
    by (auto simp: INSTPAT_def pattern_decode_def valid_pattern_def pattern_loop_invalid)
qed

end
