(* ===== verification/Host.thy ===== *)
theory Host
  imports Prelude
begin

text \<open>
  Host memory, \<open>include/memory/host.h\<close>: \<open>host_read\<close> and \<open>host_write\<close> access 1, 2 or 4 bytes
  of a host array in little-endian order; another length fails the \<open>assert\<close> of the
  \<open>CONFIG_RT_CHECK\<close> build. An array is a size and its bytes by offset; an access that leaves
  the array is undefined behaviour of C and is the error \<open>OutOfBounds\<close>. The locale
  \<open>word_store\<close> is the contract every memory of the emulator offers its users.
\<close>

type_synonym bytes = "nat \<Rightarrow> u8"

definition access_len :: "nat \<Rightarrow> bool" where
  "access_len len \<longleftrightarrow> len = 1 \<or> len = 2 \<or> len = 4"

definition load_bytes :: "bytes \<Rightarrow> nat \<Rightarrow> nat \<Rightarrow> u8 list" where
  "load_bytes m a n = map m [a..<a + n]"

definition store_bytes :: "bytes \<Rightarrow> nat \<Rightarrow> u8 list \<Rightarrow> bytes" where
  "store_bytes m a bs = (\<lambda>i. if a \<le> i \<and> i < a + length bs then bs ! (i - a) else m i)"

definition host_read :: "nat \<Rightarrow> bytes \<Rightarrow> nat \<Rightarrow> nat \<Rightarrow> u32 res" where
  "host_read sz m addr len =
     (if access_len len then
        (if addr + len \<le> sz then Inr (le_word (load_bytes m addr len)) else Inl OutOfBounds)
      else Inl AssertFail)"

definition host_write :: "nat \<Rightarrow> bytes \<Rightarrow> nat \<Rightarrow> nat \<Rightarrow> u32 \<Rightarrow> bytes res" where
  "host_write sz m addr len data =
     (if access_len len then
        (if addr + len \<le> sz then Inr (store_bytes m addr (le_bytes len data))
         else Inl OutOfBounds)
      else Inl AssertFail)"

section \<open>The contract of a memory\<close>

locale word_store =
  fixes rd :: "'m \<Rightarrow> nat \<Rightarrow> nat \<Rightarrow> u32 res"
    and wr :: "'m \<Rightarrow> nat \<Rightarrow> nat \<Rightarrow> u32 \<Rightarrow> 'm res"
    and fits :: "nat \<Rightarrow> nat \<Rightarrow> bool"
  assumes rd_total: "fits a n \<Longrightarrow> \<exists>v. rd m a n = Inr v"
    and wr_total: "fits a n \<Longrightarrow> \<exists>m'. wr m a n v = Inr m'"
    and wr_fits: "wr m a n v = Inr m' \<Longrightarrow> fits a n"
    and rd_wr_same: "wr m a n v = Inr m' \<Longrightarrow> rd m' a n = Inr (take_bit (8 * n) v)"
    and rd_wr_apart:
      "wr m a n v = Inr m' \<Longrightarrow> a + n \<le> b \<or> b + k \<le> a \<Longrightarrow> rd m' b k = rd m b k"
begin

text \<open>The last of two writes to one place wins, and writes to separate places commute.\<close>

lemma rd_wr_wr:
  assumes "wr m a n v = Inr m1" and "wr m1 a n w = Inr m2"
  shows "rd m2 a n = Inr (take_bit (8 * n) w)"
  using rd_wr_same [OF assms(2)] .

lemma rd_wr_other:
  assumes "wr m a n v = Inr m1" and "wr m1 b k w = Inr m2" and "a + n \<le> b \<or> b + k \<le> a"
  shows "rd m2 a n = Inr (take_bit (8 * n) v) \<and> rd m2 b k = Inr (take_bit (8 * k) w)"
proof -
  have "b + k \<le> a \<or> a + n \<le> b" using assms(3) by blast
  from rd_wr_apart [OF assms(2) this] rd_wr_same [OF assms(1)] rd_wr_same [OF assms(2)]
  show ?thesis by simp
qed

lemma wr_order_irrelevant:
  assumes "wr m a n v = Inr m1" "wr m1 b k w = Inr m2"
    and "wr m b k w = Inr n1" "wr n1 a n v = Inr n2"
    and "a + n \<le> b \<or> b + k \<le> a" and "c + l \<le> a \<or> a + n \<le> c" and "c + l \<le> b \<or> b + k \<le> c"
  shows "rd m2 c l = rd n2 c l"
proof -
  have "a + n \<le> c \<or> c + l \<le> a" and "b + k \<le> c \<or> c + l \<le> b" using assms(6,7) by blast+
  then show ?thesis
    by (simp add: rd_wr_apart [OF assms(1)] rd_wr_apart [OF assms(2)]
        rd_wr_apart [OF assms(3)] rd_wr_apart [OF assms(4)])
qed

end

section \<open>Host memory keeps the contract\<close>

lemma length_load_bytes [simp]: "length (load_bytes m a n) = n"
  by (simp add: load_bytes_def)

lemma load_store_same [simp]: "length bs = n \<Longrightarrow> load_bytes (store_bytes m a bs) a n = bs"
  by (rule nth_equalityI) (auto simp: load_bytes_def store_bytes_def)

lemma load_store_apart:
  "a + length bs \<le> b \<or> b + n \<le> a \<Longrightarrow> load_bytes (store_bytes m a bs) b n = load_bytes m b n"
  by (rule nth_equalityI) (auto simp: load_bytes_def store_bytes_def)

lemma load_bytes_cong:
  "(\<And>i. a \<le> i \<Longrightarrow> i < a + n \<Longrightarrow> m i = m' i) \<Longrightarrow> load_bytes m a n = load_bytes m' a n"
  by (auto simp: load_bytes_def)

lemma access_len_le: "access_len n \<Longrightarrow> n \<le> 4"
  by (auto simp: access_len_def)

lemma host_read_eq_Inr:
  "host_read sz m a n = Inr v \<longleftrightarrow>
     access_len n \<and> a + n \<le> sz \<and> v = le_word (load_bytes m a n)"
  by (auto simp: host_read_def)

lemma host_write_eq_Inr:
  "host_write sz m a n d = Inr m' \<longleftrightarrow>
     access_len n \<and> a + n \<le> sz \<and> m' = store_bytes m a (le_bytes n d)"
  by (auto simp: host_write_def)

lemma host_write_total:
  "access_len n \<Longrightarrow> a + n \<le> sz \<Longrightarrow> host_write sz m a n d = Inr (store_bytes m a (le_bytes n d))"
  by (simp add: host_write_def)

interpretation host: word_store "host_read sz" "host_write sz"
    "\<lambda>a n. access_len n \<and> a + n \<le> sz" for sz
  by unfold_locales
    (auto simp: host_write_eq_Inr host_write_total host_read_def le_word_le_bytes access_len_le
       load_store_apart)

end
