(* ===== verification/Utils.thy ===== *)
theory Utils
  imports Prelude
begin

text \<open>
  NEMU's utilities: the emulator state of \<open>src/utils/state.c\<close> and \<open>include/utils.h\<close> with
  \<open>set_nemu_state\<close> of \<open>src/engine/interpreter/hostcall.c\<close>'s data, the host clock of
  \<open>src/utils/timer.c\<close>, the log window of \<open>src/utils/log.c\<close> and the alarm dispatcher of
  \<open>src/device/alarm.c\<close>. The record \<open>utils\<close> holds their static variables; every other state
  record of the emulator extends it. The host clock is the environment: an arbitrary
  function from the number of readings taken so far to the microseconds read.
\<close>

datatype nemu_run = NEMU_RUNNING | NEMU_STOP | NEMU_END | NEMU_ABORT | NEMU_QUIT

record NEMUState =
  run_state :: nemu_run
  halt_pc :: u32
  halt_ret :: u32

datatype alarm_handler = TimerIntr

record utils =
  nemu_state :: NEMUState
  g_nr_guest_inst :: u64
  host_clock :: "nat \<Rightarrow> u64"
  host_ticks :: nat
  boot_time :: u64
  alarm_handlers :: "alarm_handler list"

definition initial_nemu_state :: NEMUState where
  "initial_nemu_state = \<lparr>run_state = NEMU_STOP, halt_pc = 0, halt_ret = 0\<rparr>"

definition set_run_state :: "nemu_run \<Rightarrow> 'a utils_scheme \<Rightarrow> 'a utils_scheme" where
  "set_run_state r s = s\<lparr>nemu_state := (nemu_state s)\<lparr>run_state := r\<rparr>\<rparr>"

definition ended :: "nemu_run \<Rightarrow> bool" where
  "ended r \<longleftrightarrow> r = NEMU_END \<or> r = NEMU_ABORT \<or> r = NEMU_QUIT"

definition is_exit_status_bad :: "'a utils_scheme \<Rightarrow> bool" where
  "is_exit_status_bad s =
     (let good = (run_state (nemu_state s) = NEMU_END \<and> halt_ret (nemu_state s) = 0)
                 \<or> run_state (nemu_state s) = NEMU_QUIT
      in \<not> good)"

section \<open>\<open>timer.c\<close>\<close>

definition get_time_internal :: "'a utils_scheme \<Rightarrow> u64 \<times> 'a utils_scheme" where
  "get_time_internal s = (host_clock s (host_ticks s), s\<lparr>host_ticks := Suc (host_ticks s)\<rparr>)"

definition get_time :: "'a utils_scheme \<Rightarrow> u64 \<times> 'a utils_scheme" where
  "get_time s =
     (let s1 = (if boot_time s = 0
                then (case get_time_internal s of (t, s') \<Rightarrow> s'\<lparr>boot_time := t\<rparr>) else s) in
      case get_time_internal s1 of (now, s2) \<Rightarrow> (now - boot_time s2, s2))"

section \<open>\<open>log.c\<close>\<close>

definition CONFIG_TRACE_START :: u64 where "CONFIG_TRACE_START = 0"
definition CONFIG_TRACE_END :: u64 where "CONFIG_TRACE_END = 10000"

definition log_enable :: "'a utils_scheme \<Rightarrow> bool" where
  "log_enable s \<longleftrightarrow>
     CONFIG_TRACE_START \<le> g_nr_guest_inst s \<and> g_nr_guest_inst s \<le> CONFIG_TRACE_END"

section \<open>\<open>alarm.c\<close> and the timer interrupt\<close>

definition MAX_HANDLER :: nat where "MAX_HANDLER = 8"

definition TIMER_HZ :: u64 where "TIMER_HZ = 60"

definition add_alarm_handle :: "alarm_handler \<Rightarrow> 'a utils_scheme \<Rightarrow> 'a utils_scheme res" where
  "add_alarm_handle h s =
     assert_then (length (alarm_handlers s) < MAX_HANDLER)
       (Inr (s\<lparr>alarm_handlers := alarm_handlers s @ [h]\<rparr>))"

definition dev_raise_intr :: "'a utils_scheme \<Rightarrow> 'a utils_scheme" where
  "dev_raise_intr s = s"

definition timer_intr :: "'a utils_scheme \<Rightarrow> 'a utils_scheme" where
  "timer_intr s = (if run_state (nemu_state s) = NEMU_RUNNING then dev_raise_intr s else s)"

fun run_alarm :: "alarm_handler \<Rightarrow> 'a utils_scheme \<Rightarrow> 'a utils_scheme" where
  "run_alarm TimerIntr s = timer_intr s"

definition alarm_sig_handler :: "'a utils_scheme \<Rightarrow> 'a utils_scheme" where
  "alarm_sig_handler s = fold run_alarm (alarm_handlers s) s"

section \<open>Lemmas\<close>

lemma run_state_set [simp]: "run_state (nemu_state (set_run_state r s)) = r"
  by (simp add: set_run_state_def)

lemma alarm_sig_handler_id: "alarm_sig_handler s = s"
proof -
  have "run_alarm h t = t" for h and t :: "'a utils_scheme"
    by (cases h) (simp add: timer_intr_def dev_raise_intr_def)
  then have "fold run_alarm hs t = t" for hs and t :: "'a utils_scheme"
    by (induction hs) simp_all
  then show ?thesis by (simp add: alarm_sig_handler_def)
qed

text \<open>
  With a clock that never runs backwards, the time since boot is the difference to the first
  reading, and it never decreases from one reading to the next.
\<close>

definition clock_mono :: "(nat \<Rightarrow> u64) \<Rightarrow> bool" where
  "clock_mono c \<longleftrightarrow> (\<forall>i j. i \<le> j \<longrightarrow> c i \<le> c j) \<and> 0 < c 0"

lemma get_time_booted:
  "boot_time s \<noteq> 0 \<Longrightarrow>
   get_time s = (host_clock s (host_ticks s) - boot_time s, s\<lparr>host_ticks := Suc (host_ticks s)\<rparr>)"
  by (simp add: get_time_def get_time_internal_def)

lemma get_time_first:
  assumes "boot_time s = 0"
  shows "get_time s = (host_clock s (Suc (host_ticks s)) - host_clock s (host_ticks s),
           s\<lparr>host_ticks := Suc (Suc (host_ticks s)), boot_time := host_clock s (host_ticks s)\<rparr>)"
  using assms by (simp add: get_time_def get_time_internal_def)

end
