(* ===== verification/Bus.thy ===== *)
theory Bus
  imports Host Utils
begin

text \<open>
  Memory-mapped and port I/O: \<open>include/device/map.h\<close>, \<open>src/device/io/map.c\<close>,
  \<open>src/device/io/mmio.c\<close> and \<open>src/device/io/port-io.c\<close>.

  The record \<open>bus\<close> holds the static variables of those files (the I/O space and its
  allocation pointer, the two tables of maps) and the two of \<open>difftest/dut.c\<close> that
  \<open>find_mapid_by_addr\<close> writes through \<open>difftest_skip_ref\<close>. Host pointers into the I/O space
  are offsets. A callback is a function pointer: a name, given its meaning by the parameter
  \<open>cb\<close> of the access functions.
\<close>

section \<open>State\<close>

datatype callback = CbNone | CbSerial | CbRtc | CbKeyboard | CbAudio | CbSdcard

record iomap =
  mapname :: string
  low :: u32
  high :: u32
  space :: nat
  callback :: callback

record bus = utils +
  io_space :: bytes
  p_space :: nat
  mmio_maps :: "iomap list"
  pio_maps :: "iomap list"
  is_skip_ref :: bool
  skip_dut_nr_inst :: int

definition IO_SPACE_MAX :: nat where
  "IO_SPACE_MAX = 32 * 1024 * 1024"

definition NR_MAP :: nat where
  "NR_MAP = 16"

definition PORT_IO_SPACE_MAX :: nat where
  "PORT_IO_SPACE_MAX = 65535"

definition PAGE_SHIFT :: nat where
  "PAGE_SHIFT = 12"

definition PAGE_SIZE :: u64 where
  "PAGE_SIZE = push_bit PAGE_SHIFT 1"

definition PAGE_MASK :: u64 where
  "PAGE_MASK = PAGE_SIZE - 1"

definition CONFIG_MBASE :: u32 where
  "CONFIG_MBASE = 0x80000000"

definition CONFIG_MSIZE :: nat where
  "CONFIG_MSIZE = 0x8000000"

definition PMEM_LEFT :: u32 where
  "PMEM_LEFT = CONFIG_MBASE"

definition PMEM_RIGHT :: u32 where
  "PMEM_RIGHT = CONFIG_MBASE + of_nat CONFIG_MSIZE - 1"

definition in_pmem :: "u32 \<Rightarrow> bool" where
  "in_pmem addr \<longleftrightarrow> unat (addr - CONFIG_MBASE) < CONFIG_MSIZE"

section \<open>\<open>map.c\<close> and \<open>map.h\<close>\<close>

text \<open>The size is rounded up to whole pages before the pointer moves.\<close>

definition page_round :: "nat \<Rightarrow> nat" where
  "page_round sz = unat ((of_nat sz + (PAGE_SIZE - 1)) AND NOT PAGE_MASK)"

definition new_space :: "nat \<Rightarrow> 'a bus_scheme \<Rightarrow> (nat \<times> 'a bus_scheme) res" where
  "new_space sz b =
     (let p = p_space b; p' = p_space b + page_round sz in
      assert_then (p' < IO_SPACE_MAX) (Inr (p, b\<lparr>p_space := p'\<rparr>)))"

definition init_map :: "'a bus_scheme \<Rightarrow> 'a bus_scheme" where
  "init_map b = b\<lparr>p_space := 0\<rparr>"

definition difftest_skip_ref :: "'a bus_scheme \<Rightarrow> 'a bus_scheme" where
  "difftest_skip_ref b = b\<lparr>is_skip_ref := True, skip_dut_nr_inst := 0\<rparr>"

definition map_inside :: "iomap \<Rightarrow> u32 \<Rightarrow> bool" where
  "map_inside m addr \<longleftrightarrow> low m \<le> addr \<and> addr \<le> high m"

text \<open>
  The loop of \<open>find_mapid_by_addr\<close> returns the first index whose map holds the address and
  tells the differential tester to skip the instruction; \<open>None\<close> stands for -1.
\<close>

fun find_mapid_from :: "nat \<Rightarrow> iomap list \<Rightarrow> u32 \<Rightarrow> nat option" where
  "find_mapid_from i [] addr = None"
| "find_mapid_from i (m # ms) addr =
     (if map_inside m addr then Some i else find_mapid_from (Suc i) ms addr)"

definition find_mapid_by_addr ::
  "iomap list \<Rightarrow> u32 \<Rightarrow> 'a bus_scheme \<Rightarrow> nat option \<times> 'a bus_scheme" where
  "find_mapid_by_addr ms addr b =
     (case find_mapid_from 0 ms addr of
        Some i \<Rightarrow> (Some i, difftest_skip_ref b)
      | None \<Rightarrow> (None, b))"

definition check_bound :: "iomap option \<Rightarrow> u32 \<Rightarrow> iomap res" where
  "check_bound mo addr =
     (case mo of
        None \<Rightarrow> Inl Panic
      | Some m \<Rightarrow> if addr \<le> high m \<and> low m \<le> addr then Inr m else Inl Panic)"

type_synonym 'b handler = "u32 \<Rightarrow> nat \<Rightarrow> bool \<Rightarrow> 'b \<Rightarrow> 'b res"

definition invoke_callback ::
  "(callback \<Rightarrow> 'b handler) \<Rightarrow> callback \<Rightarrow> 'b handler" where
  "invoke_callback cb c offset len is_write b =
     (if c = CbNone then Inr b else cb c offset len is_write b)"

definition map_read ::
  "(callback \<Rightarrow> 'a bus_scheme handler) \<Rightarrow> u32 \<Rightarrow> nat \<Rightarrow> iomap option
     \<Rightarrow> 'a bus_scheme \<Rightarrow> (u32 \<times> 'a bus_scheme) res" where
  "map_read cb addr len mo b =
     assert_then (1 \<le> len \<and> len \<le> 8)
       (bind_res (check_bound mo addr) (\<lambda>m.
          let offset = addr - low m in
          bind_res (invoke_callback cb (callback m) offset len False b) (\<lambda>b1.
          bind_res (host_read IO_SPACE_MAX (io_space b1) (space m + unat offset) len) (\<lambda>ret.
          Inr (ret, b1)))))"

definition map_write ::
  "(callback \<Rightarrow> 'a bus_scheme handler) \<Rightarrow> u32 \<Rightarrow> nat \<Rightarrow> u32 \<Rightarrow> iomap option
     \<Rightarrow> 'a bus_scheme \<Rightarrow> 'a bus_scheme res" where
  "map_write cb addr len data mo b =
     assert_then (1 \<le> len \<and> len \<le> 8)
       (bind_res (check_bound mo addr) (\<lambda>m.
          let offset = addr - low m in
          bind_res (host_write IO_SPACE_MAX (io_space b) (space m + unat offset) len data) (\<lambda>sp.
          invoke_callback cb (callback m) offset len True (b\<lparr>io_space := sp\<rparr>))))"

section \<open>\<open>mmio.c\<close>\<close>

definition fetch_mmio_map ::
  "u32 \<Rightarrow> 'a bus_scheme \<Rightarrow> iomap option \<times> 'a bus_scheme" where
  "fetch_mmio_map addr b =
     (case find_mapid_by_addr (mmio_maps b) addr b of
        (None, b1) \<Rightarrow> (None, b1)
      | (Some i, b1) \<Rightarrow> (Some (mmio_maps b ! i), b1))"

text \<open>\<open>report_mmio_overlap\<close> is a panic, so both overlap tests end the run.\<close>

definition add_mmio_map ::
  "string \<Rightarrow> u32 \<Rightarrow> nat \<Rightarrow> u32 \<Rightarrow> callback \<Rightarrow> 'a bus_scheme \<Rightarrow> 'a bus_scheme res" where
  "add_mmio_map nm addr sp len c b =
     assert_then (length (mmio_maps b) < NR_MAP)
       (let left = addr; right = addr + len - 1 in
        if in_pmem left \<or> in_pmem right then Inl Panic
        else if \<exists>m \<in> set (mmio_maps b). left \<le> high m \<and> low m \<le> right then Inl Panic
        else Inr (b\<lparr>mmio_maps := mmio_maps b @
               [\<lparr>mapname = nm, low = addr, high = addr + len - 1, space = sp, callback = c\<rparr>]\<rparr>))"

definition mmio_read ::
  "(callback \<Rightarrow> 'a bus_scheme handler) \<Rightarrow> u32 \<Rightarrow> nat \<Rightarrow> 'a bus_scheme
     \<Rightarrow> (u32 \<times> 'a bus_scheme) res" where
  "mmio_read cb addr len b =
     (case fetch_mmio_map addr b of (mo, b1) \<Rightarrow> map_read cb addr len mo b1)"

definition mmio_write ::
  "(callback \<Rightarrow> 'a bus_scheme handler) \<Rightarrow> u32 \<Rightarrow> nat \<Rightarrow> u32 \<Rightarrow> 'a bus_scheme
     \<Rightarrow> 'a bus_scheme res" where
  "mmio_write cb addr len data b =
     (case fetch_mmio_map addr b of (mo, b1) \<Rightarrow> map_write cb addr len data mo b1)"

section \<open>\<open>port-io.c\<close>\<close>

text \<open>
  Port addresses are 16 bits wide. In the \<open>assert\<close>s the address is promoted before the sum,
  which is unsigned 32-bit arithmetic for \<open>add_pio_map\<close> (\<open>len\<close> is a \<open>uint32_t\<close>) and signed
  for the accesses.
\<close>

definition add_pio_map ::
  "string \<Rightarrow> u16 \<Rightarrow> nat \<Rightarrow> u32 \<Rightarrow> callback \<Rightarrow> 'a bus_scheme \<Rightarrow> 'a bus_scheme res" where
  "add_pio_map nm addr sp len c b =
     assert_then (length (pio_maps b) < NR_MAP)
       (assert_then (unat (ucast addr + len) \<le> PORT_IO_SPACE_MAX)
         (Inr (b\<lparr>pio_maps := pio_maps b @
            [\<lparr>mapname = nm, low = ucast addr, high = ucast addr + len - 1, space = sp,
              callback = c\<rparr>]\<rparr>)))"

definition pio_read ::
  "(callback \<Rightarrow> 'a bus_scheme handler) \<Rightarrow> u16 \<Rightarrow> nat \<Rightarrow> 'a bus_scheme
     \<Rightarrow> (u32 \<times> 'a bus_scheme) res" where
  "pio_read cb addr len b =
     assert_then (int (unat addr) + int len - 1 < int PORT_IO_SPACE_MAX)
       (case find_mapid_by_addr (pio_maps b) (ucast addr) b of
          (None, b1) \<Rightarrow> Inl AssertFail
        | (Some i, b1) \<Rightarrow> map_read cb (ucast addr) len (Some (pio_maps b ! i)) b1)"

definition pio_write ::
  "(callback \<Rightarrow> 'a bus_scheme handler) \<Rightarrow> u16 \<Rightarrow> nat \<Rightarrow> u32 \<Rightarrow> 'a bus_scheme
     \<Rightarrow> 'a bus_scheme res" where
  "pio_write cb addr len data b =
     assert_then (int (unat addr) + int len - 1 < int PORT_IO_SPACE_MAX)
       (case find_mapid_by_addr (pio_maps b) (ucast addr) b of
          (None, b1) \<Rightarrow> Inl AssertFail
        | (Some i, b1) \<Rightarrow> map_write cb (ucast addr) len data (Some (pio_maps b ! i)) b1)"

section \<open>The address map\<close>

text \<open>No address is inside two maps.\<close>

definition maps_disjoint :: "iomap list \<Rightarrow> bool" where
  "maps_disjoint ms \<longleftrightarrow>
     (\<forall>i j a. i < j \<longrightarrow> j < length ms \<longrightarrow> \<not> (map_inside (ms ! i) a \<and> map_inside (ms ! j) a))"

lemma find_mapid_from_Some:
  "find_mapid_from k ms a = Some i \<Longrightarrow>
     k \<le> i \<and> i < k + length ms \<and> map_inside (ms ! (i - k)) a"
proof (induction ms arbitrary: k)
  case Nil
  then show ?case by simp
next
  case (Cons m ms)
  show ?case
  proof (cases "map_inside m a")
    case True
    with Cons.prems show ?thesis by auto
  next
    case False
    with Cons have "Suc k \<le> i" and "i < Suc k + length ms" and "map_inside (ms ! (i - Suc k)) a"
      by fastforce+
    then show ?thesis by (simp add: nth_Cons' Suc_le_eq)
  qed
qed

lemma find_mapid_from_None:
  "find_mapid_from k ms a = None \<longleftrightarrow> (\<forall>m \<in> set ms. \<not> map_inside m a)"
  by (induction ms arbitrary: k) auto

lemma find_mapid_hit:
  assumes "find_mapid_from 0 ms a = Some i"
  shows "i < length ms" and "map_inside (ms ! i) a"
  using find_mapid_from_Some [OF assms] by auto

text \<open>In a disjoint table the map found is the only one that holds the address.\<close>

lemma find_mapid_unique:
  assumes dis: "maps_disjoint ms" and j: "j < length ms" "map_inside (ms ! j) a"
  shows "find_mapid_from 0 ms a = Some j"
proof -
  from j have "find_mapid_from 0 ms a \<noteq> None" by (auto simp: find_mapid_from_None)
  then obtain i where i: "find_mapid_from 0 ms a = Some i" by auto
  with find_mapid_hit [OF i] dis j have "i = j"
    by (metis maps_disjoint_def nat_neq_iff)
  with i show ?thesis by simp
qed

lemma maps_disjoint_snoc:
  assumes "maps_disjoint ms" and "\<forall>m \<in> set ms. \<forall>a. \<not> (map_inside m a \<and> map_inside n a)"
  shows "maps_disjoint (ms @ [n])"
  using assms by (auto simp: maps_disjoint_def nth_append less_Suc_eq)

lemma inside_both:
  assumes "map_inside m a" and "left \<le> a" and "a \<le> right"
  shows "left \<le> high m \<and> low m \<le> right"
  using assms unfolding map_inside_def by (meson order_trans)

lemma add_mmio_map_eq_Inr:
  "add_mmio_map nm addr sp len c b = Inr b' \<longleftrightarrow>
     length (mmio_maps b) < NR_MAP \<and> \<not> in_pmem addr \<and> \<not> in_pmem (addr + len - 1)
     \<and> (\<forall>m \<in> set (mmio_maps b). \<not> (addr \<le> high m \<and> low m \<le> addr + len - 1))
     \<and> b' = b\<lparr>mmio_maps := mmio_maps b @
          [\<lparr>mapname = nm, low = addr, high = addr + len - 1, space = sp, callback = c\<rparr>]\<rparr>"
  unfolding add_mmio_map_def Let_def assert_then_def by (auto split: if_splits)

section \<open>What accesses keep\<close>

text \<open>
  The contract between the bus and the device callbacks, for any relation between states that
  a callback respects: the accesses through the bus respect it too. The devices satisfy it for
  the relation that fixes the two tables, the allocation pointer, guest memory and the CPU.
\<close>

definition same_maps :: "'a bus_scheme \<Rightarrow> 'a bus_scheme \<Rightarrow> bool" where
  "same_maps b b' \<longleftrightarrow>
     mmio_maps b' = mmio_maps b \<and> pio_maps b' = pio_maps b \<and> p_space b' = p_space b"

lemma same_maps_refl [simp]: "same_maps b b"
  by (simp add: same_maps_def)

lemma same_maps_trans: "same_maps a b \<Longrightarrow> same_maps b c \<Longrightarrow> same_maps a c"
  by (simp add: same_maps_def)

lemma same_maps_skip [simp]: "same_maps b (difftest_skip_ref b)"
  by (simp add: same_maps_def difftest_skip_ref_def)

lemma same_maps_io_space [simp]: "same_maps b (b\<lparr>io_space := sp\<rparr>)"
  by (simp add: same_maps_def)

locale bus_handlers =
  fixes cb :: "callback \<Rightarrow> 'a bus_scheme handler"
    and rel :: "'a bus_scheme \<Rightarrow> 'a bus_scheme \<Rightarrow> bool"
  assumes rel_refl: "rel x x"
    and rel_trans: "rel x y \<Longrightarrow> rel y z \<Longrightarrow> rel x z"
    and rel_io: "rel x (x\<lparr>io_space := sp\<rparr>)"
    and rel_skip: "rel x (difftest_skip_ref x)"
    and rel_cb: "cb c offset len w b = Inr b' \<Longrightarrow> rel b b'"
begin

lemma invoke_rel: "invoke_callback cb c offset len w b = Inr b' \<Longrightarrow> rel b b'"
  by (auto simp: invoke_callback_def rel_refl split: if_splits dest: rel_cb)

lemma map_read_rel: "map_read cb a len mo b = Inr (v, b') \<Longrightarrow> rel b b'"
  by (auto simp: map_read_def Let_def res_simps dest: invoke_rel)

lemma map_write_rel:
  assumes "map_write cb a len d mo b = Inr b'"
  shows "rel b b'"
proof -
  from assms obtain c off sp where
    "invoke_callback cb c off len True (b\<lparr>io_space := sp\<rparr>) = Inr b'"
    unfolding map_write_def Let_def by (auto simp: assert_then_eq_Inr elim!: bind_resE)
  from invoke_rel [OF this] show ?thesis by (rule rel_trans [OF rel_io])
qed

lemma fetch_rel: "fetch_mmio_map a b = (mo, b') \<Longrightarrow> rel b b'"
  by (auto simp: fetch_mmio_map_def find_mapid_by_addr_def rel_refl rel_skip
      split: option.splits prod.splits)

lemma mmio_read_rel:
  assumes "mmio_read cb a len b = Inr (v, b')"
  shows "rel b b'"
proof (cases "fetch_mmio_map a b")
  case (Pair mo b1)
  with assms have "map_read cb a len mo b1 = Inr (v, b')" by (simp add: mmio_read_def)
  from rel_trans [OF fetch_rel [OF Pair] map_read_rel [OF this]] show ?thesis .
qed

lemma mmio_write_rel:
  assumes "mmio_write cb a len d b = Inr b'"
  shows "rel b b'"
proof (cases "fetch_mmio_map a b")
  case (Pair mo b1)
  with assms have "map_write cb a len d mo b1 = Inr b'" by (simp add: mmio_write_def)
  from rel_trans [OF fetch_rel [OF Pair] map_write_rel [OF this]] show ?thesis .
qed

end

section \<open>Properties\<close>

text \<open>
  C2: registering an MMIO region keeps the regions disjoint: when \<open>add_mmio_map\<close> accepts a
  region (instead of panicking), no address of the new table lies in two regions, the region
  was added at the end of the table, and the table still has at most 16 entries.
\<close>

theorem add_mmio_map_disjoint:
  assumes "maps_disjoint (mmio_maps b)" and "add_mmio_map nm addr sp len c b = Inr b'"
  shows "maps_disjoint (mmio_maps b') \<and> length (mmio_maps b') = Suc (length (mmio_maps b))
    \<and> length (mmio_maps b') \<le> NR_MAP"
proof -
  define n where "n = \<lparr>mapname = nm, low = addr, high = addr + len - 1, space = sp, callback = c\<rparr>"
  from assms(2) have new: "mmio_maps b' = mmio_maps b @ [n]"
    and len: "length (mmio_maps b) < NR_MAP"
    and free: "\<forall>m \<in> set (mmio_maps b). \<not> (addr \<le> high m \<and> low m \<le> addr + len - 1)"
    by (simp_all add: add_mmio_map_eq_Inr n_def)
  have "\<forall>m \<in> set (mmio_maps b). \<forall>a. \<not> (map_inside m a \<and> map_inside n a)"
  proof (intro ballI allI notI)
    fix m a assume m: "m \<in> set (mmio_maps b)" and in2: "map_inside m a \<and> map_inside n a"
    then have "addr \<le> a" and "a \<le> addr + len - 1" by (simp_all add: map_inside_def n_def)
    with in2 inside_both m free show False by blast
  qed
  with assms(1) new len show ?thesis by (simp add: maps_disjoint_snoc)
qed

text \<open>Two regions added one after the other: the serial port and the clock.\<close>

theorem add_mmio_map_disjoint_witness:
  "maps_disjoint [\<lparr>mapname = ''serial'', low = 0xa00003f8, high = 0xa00003ff, space = 0,
      callback = CbSerial\<rparr>,
    \<lparr>mapname = ''rtc'', low = 0xa0000048, high = 0xa000004f, space = 4096, callback = CbRtc\<rparr>]"
proof -
  define b :: bus where "b = \<lparr>nemu_state = initial_nemu_state, g_nr_guest_inst = 0,
    host_clock = (\<lambda>_. 0), host_ticks = 0, boot_time = 0, alarm_handlers = [],
    io_space = (\<lambda>_. 0), p_space = 0,
    mmio_maps = [\<lparr>mapname = ''serial'', low = 0xa00003f8, high = 0xa00003ff, space = 0,
      callback = CbSerial\<rparr>], pio_maps = [], is_skip_ref = False, skip_dut_nr_inst = 0\<rparr>"
  have dis: "maps_disjoint (mmio_maps b)" by (simp add: b_def maps_disjoint_def)
  have add: "add_mmio_map ''rtc'' 0xa0000048 4096 8 CbRtc b = Inr (b\<lparr>mmio_maps := mmio_maps b @
      [\<lparr>mapname = ''rtc'', low = 0xa0000048, high = 0xa000004f, space = 4096, callback = CbRtc\<rparr>]\<rparr>)"
    by (simp add: add_mmio_map_eq_Inr b_def NR_MAP_def in_pmem_def CONFIG_MBASE_def CONFIG_MSIZE_def)
  from add_mmio_map_disjoint [OF dis add] show ?thesis by (simp add: b_def)
qed



end
