(* ===== verification/Devices.thy ===== *)
theory Devices
  imports Bus
begin

text \<open>
  NEMU's devices, \<open>src/device/\<close>: serial port, real-time clock, keyboard, VGA, audio, SD card,
  the dispatcher \<open>device_update\<close> and \<open>init_device\<close>. The record \<open>dev\<close> adds the static
  variables of these files to the bus. SDL (the events and the scan codes), the host's
  standard error and the SD card image file are the environment: the events arrive as a list,
  the scan codes are a parameter, the bytes written to standard error are collected, and the
  image is a list of bytes with a file position.
\<close>

section \<open>State\<close>

text \<open>
  \<open>sdl_input k\<close> are the events waiting at the \<open>k\<close>-th time the queue is polled.
\<close>

datatype sdl_event = SDL_QUIT | SDL_KEY u8 bool | SDL_OTHER

record dev = bus +
  serial_base :: nat
  serial_out :: "u8 list"
  rtc_port_base :: nat
  keymap :: "nat \<Rightarrow> u32"
  key_queue :: "nat \<Rightarrow> u32"
  key_f :: nat
  key_r :: nat
  i8042_data_port_base :: nat
  vmem :: nat
  vgactl_port_base :: nat
  sbuf :: nat
  audio_base :: nat
  sd_fp :: "u8 list option"
  sd_pos :: nat
  sd_base :: nat
  blkcnt :: u32
  blk_addr :: u64
  sd_addr :: u32
  write_cmd :: bool
  read_ext_csd :: bool
  device_last :: u64
  sdl_input :: "nat \<Rightarrow> sdl_event list"
  sdl_polls :: nat

text \<open>The configuration constants of \<open>src/device/Kconfig\<close>.\<close>

record devcfg =
  has_port_io :: bool
  serial_port :: u16
  serial_mmio :: u32
  rtc_port :: u16
  rtc_mmio :: u32
  i8042_port :: u16
  i8042_mmio :: u32
  vga_ctl_port :: u16
  vga_ctl_mmio :: u32
  fb_addr :: u32
  vga_800x600 :: bool
  audio_ctl_port :: u16
  audio_ctl_mmio :: u32
  sb_addr :: u32
  sb_size :: nat
  sdcard_ctl_mmio :: u32
  has_serial :: bool
  has_timer :: bool
  has_vga :: bool
  has_keyboard :: bool
  has_audio :: bool
  has_sdcard :: bool

text \<open>The defaults of the menu, for an ISA without port I/O.\<close>

definition default_devcfg :: devcfg where
  "default_devcfg = \<lparr>has_port_io = False,
     serial_port = 0x3f8, serial_mmio = 0xa00003f8,
     rtc_port = 0x48, rtc_mmio = 0xa0000048,
     i8042_port = 0x60, i8042_mmio = 0xa0000060,
     vga_ctl_port = 0x100, vga_ctl_mmio = 0xa0000100, fb_addr = 0xa1000000, vga_800x600 = False,
     audio_ctl_port = 0x200, audio_ctl_mmio = 0xa0000200, sb_addr = 0xa1200000, sb_size = 0x10000,
     sdcard_ctl_mmio = 0xa3000000,
     has_serial = True, has_timer = True, has_vga = True, has_keyboard = True, has_audio = True,
     has_sdcard = False\<rparr>"

text \<open>The static variables before \<open>main\<close> runs: all zero, the emulator stopped.\<close>

definition initial_dev :: dev where
  "initial_dev = \<lparr>nemu_state = initial_nemu_state, g_nr_guest_inst = 0, host_clock = (\<lambda>_. 0),
     host_ticks = 0, boot_time = 0, alarm_handlers = [],
     io_space = (\<lambda>_. 0), p_space = 0, mmio_maps = [], pio_maps = [], is_skip_ref = False,
     skip_dut_nr_inst = 0,
     serial_base = 0, serial_out = [], rtc_port_base = 0, keymap = (\<lambda>_. 0), key_queue = (\<lambda>_. 0),
     key_f = 0, key_r = 0, i8042_data_port_base = 0, vmem = 0, vgactl_port_base = 0, sbuf = 0,
     audio_base = 0, sd_fp = None, sd_pos = 0, sd_base = 0, blkcnt = 0, blk_addr = 0, sd_addr = 0,
     write_cmd = False, read_ext_csd = False, device_last = 0,
     sdl_input = (\<lambda>_. []), sdl_polls = 0\<rparr>"

text \<open>Words and bytes of a device's space, accessed through its C pointer.\<close>

definition peek8 :: "nat \<Rightarrow> 'a bus_scheme \<Rightarrow> u8" where
  "peek8 p b = io_space b p"

definition peek32 :: "nat \<Rightarrow> nat \<Rightarrow> 'a bus_scheme \<Rightarrow> u32" where
  "peek32 base i b = le_word (load_bytes (io_space b) (base + 4 * i) 4)"

definition poke_bytes :: "nat \<Rightarrow> u8 list \<Rightarrow> 'a bus_scheme \<Rightarrow> 'a bus_scheme" where
  "poke_bytes p bs b = b\<lparr>io_space := store_bytes (io_space b) p bs\<rparr>"

definition poke32 :: "nat \<Rightarrow> nat \<Rightarrow> u32 \<Rightarrow> 'a bus_scheme \<Rightarrow> 'a bus_scheme" where
  "poke32 base i w b = poke_bytes (base + 4 * i) (le_bytes 4 w) b"

definition add_io_map ::
  "bool \<Rightarrow> string \<Rightarrow> u16 \<Rightarrow> u32 \<Rightarrow> nat \<Rightarrow> u32 \<Rightarrow> callback \<Rightarrow> 'a bus_scheme \<Rightarrow> 'a bus_scheme res" where
  "add_io_map port_io nm port mmio sp len c b =
     (if port_io then add_pio_map nm port sp len c b else add_mmio_map nm mmio sp len c b)"

section \<open>\<open>serial.c\<close>\<close>

definition CH_OFFSET :: u32 where "CH_OFFSET = 0"

definition serial_putc :: "u8 \<Rightarrow> 'a dev_scheme \<Rightarrow> 'a dev_scheme" where
  "serial_putc ch s = s\<lparr>serial_out := serial_out s @ [ch]\<rparr>"

definition serial_io_handler :: "u32 \<Rightarrow> nat \<Rightarrow> bool \<Rightarrow> 'a dev_scheme \<Rightarrow> 'a dev_scheme res" where
  "serial_io_handler offset len is_write s =
     assert_then (len = 1)
       (if offset = CH_OFFSET then
          (if is_write then Inr (serial_putc (peek8 (serial_base s) s) s) else Inl Panic)
        else Inl Panic)"

definition init_serial :: "devcfg \<Rightarrow> 'a dev_scheme \<Rightarrow> 'a dev_scheme res" where
  "init_serial cfg s =
     bind_res (new_space 8 s) (\<lambda>(p, s1).
       add_io_map (has_port_io cfg) ''serial'' (serial_port cfg) (serial_mmio cfg) p 8 CbSerial
         (s1\<lparr>serial_base := p\<rparr>))"

section \<open>\<open>timer.c\<close>\<close>

definition rtc_io_handler :: "u32 \<Rightarrow> nat \<Rightarrow> bool \<Rightarrow> 'a dev_scheme \<Rightarrow> 'a dev_scheme res" where
  "rtc_io_handler offset len is_write s =
     assert_then (offset = 0 \<or> offset = 4)
       (Inr (if \<not> is_write \<and> offset = 4 then
          (case get_time s of (us, s1) \<Rightarrow>
             poke32 (rtc_port_base s) 1 (ucast (drop_bit 32 us))
               (poke32 (rtc_port_base s) 0 (ucast us) s1))
        else s))"

definition init_timer :: "devcfg \<Rightarrow> 'a dev_scheme \<Rightarrow> 'a dev_scheme res" where
  "init_timer cfg s =
     bind_res (new_space 8 s) (\<lambda>(p, s1).
     bind_res (add_io_map (has_port_io cfg) ''rtc'' (rtc_port cfg) (rtc_mmio cfg) p 8 CbRtc
         (s1\<lparr>rtc_port_base := p\<rparr>)) (\<lambda>s2.
     add_alarm_handle TimerIntr s2))"

section \<open>\<open>keyboard.c\<close>\<close>

definition KEYDOWN_MASK :: u32 where "KEYDOWN_MASK = 0x8000"

definition KEY_QUEUE_LEN :: nat where "KEY_QUEUE_LEN = 1024"

definition NEMU_KEY_NONE :: u32 where "NEMU_KEY_NONE = 0"

text \<open>The macro list \<open>NEMU_KEYS\<close>; the enumeration numbers them from 1 in this order.\<close>

definition NEMU_KEYS :: "string list" where
  "NEMU_KEYS =
    [''ESCAPE'', ''F1'', ''F2'', ''F3'', ''F4'', ''F5'', ''F6'', ''F7'', ''F8'', ''F9'', ''F10'',
     ''F11'', ''F12'', ''GRAVE'', ''1'', ''2'', ''3'', ''4'', ''5'', ''6'', ''7'', ''8'', ''9'',
     ''0'', ''MINUS'', ''EQUALS'', ''BACKSPACE'', ''TAB'', ''Q'', ''W'', ''E'', ''R'', ''T'', ''Y'',
     ''U'', ''I'', ''O'', ''P'', ''LEFTBRACKET'', ''RIGHTBRACKET'', ''BACKSLASH'', ''CAPSLOCK'',
     ''A'', ''S'', ''D'', ''F'', ''G'', ''H'', ''J'', ''K'', ''L'', ''SEMICOLON'', ''APOSTROPHE'',
     ''RETURN'', ''LSHIFT'', ''Z'', ''X'', ''C'', ''V'', ''B'', ''N'', ''M'', ''COMMA'', ''PERIOD'',
     ''SLASH'', ''RSHIFT'', ''LCTRL'', ''APPLICATION'', ''LALT'', ''SPACE'', ''RALT'', ''RCTRL'',
     ''UP'', ''DOWN'', ''LEFT'', ''RIGHT'', ''INSERT'', ''DELETE'', ''HOME'', ''END'', ''PAGEUP'',
     ''PAGEDOWN'']"

text \<open>\<open>scancode\<close> gives the value of the macro \<open>SDL_SCANCODE_<name>\<close> of the SDL headers.\<close>

definition init_keymap :: "(string \<Rightarrow> nat) \<Rightarrow> 'a dev_scheme \<Rightarrow> 'a dev_scheme" where
  "init_keymap scancode s =
     s\<lparr>keymap := fold (\<lambda>(k, code) m. m(scancode k := of_nat code))
                   (zip NEMU_KEYS [1..<Suc (length NEMU_KEYS)]) (keymap s)\<rparr>"

definition key_enqueue :: "u32 \<Rightarrow> 'a dev_scheme \<Rightarrow> 'a dev_scheme res" where
  "key_enqueue am_scancode s =
     (let s1 = s\<lparr>key_queue := (key_queue s)(key_r s := am_scancode),
                 key_r := (key_r s + 1) mod KEY_QUEUE_LEN\<rparr> in
      if key_r s1 \<noteq> key_f s1 then Inr s1 else Inl Panic)"

definition key_dequeue :: "'a dev_scheme \<Rightarrow> u32 \<times> 'a dev_scheme" where
  "key_dequeue s =
     (if key_f s \<noteq> key_r s
      then (key_queue s (key_f s), s\<lparr>key_f := (key_f s + 1) mod KEY_QUEUE_LEN\<rparr>)
      else (NEMU_KEY_NONE, s))"

definition send_key :: "u8 \<Rightarrow> bool \<Rightarrow> 'a dev_scheme \<Rightarrow> 'a dev_scheme res" where
  "send_key scancode is_keydown s =
     (if run_state (nemu_state s) = NEMU_RUNNING \<and> keymap s (unat scancode) \<noteq> NEMU_KEY_NONE
      then key_enqueue (keymap s (unat scancode) OR (if is_keydown then KEYDOWN_MASK else 0)) s
      else Inr s)"

definition i8042_data_io_handler ::
  "u32 \<Rightarrow> nat \<Rightarrow> bool \<Rightarrow> 'a dev_scheme \<Rightarrow> 'a dev_scheme res" where
  "i8042_data_io_handler offset len is_write s =
     assert_then (\<not> is_write)
       (assert_then (offset = 0)
         (case key_dequeue s of (k, s1) \<Rightarrow> Inr (poke32 (i8042_data_port_base s1) 0 k s1)))"

definition init_i8042 ::
  "devcfg \<Rightarrow> (string \<Rightarrow> nat) \<Rightarrow> 'a dev_scheme \<Rightarrow> 'a dev_scheme res" where
  "init_i8042 cfg scancode s =
     bind_res (new_space 4 s) (\<lambda>(p, s1).
     bind_res (add_io_map (has_port_io cfg) ''keyboard'' (i8042_port cfg) (i8042_mmio cfg) p 4
         CbKeyboard (poke32 p 0 NEMU_KEY_NONE (s1\<lparr>i8042_data_port_base := p\<rparr>))) (\<lambda>s2.
     Inr (init_keymap scancode s2)))"

section \<open>\<open>vga.c\<close>\<close>

definition screen_width :: "devcfg \<Rightarrow> u32" where
  "screen_width cfg = (if vga_800x600 cfg then 800 else 400)"

definition screen_height :: "devcfg \<Rightarrow> u32" where
  "screen_height cfg = (if vga_800x600 cfg then 600 else 300)"

definition screen_size :: "devcfg \<Rightarrow> u32" where
  "screen_size cfg = screen_width cfg * screen_height cfg * 4"

definition vga_update_screen :: "'a dev_scheme \<Rightarrow> 'a dev_scheme" where
  "vga_update_screen s = s"

text \<open>The final \<open>memset\<close> clears the frame buffer when the screen is shown.\<close>

definition init_vga :: "devcfg \<Rightarrow> 'a dev_scheme \<Rightarrow> 'a dev_scheme res" where
  "init_vga cfg s =
     bind_res (new_space 8 s) (\<lambda>(p, s1).
     bind_res (add_io_map (has_port_io cfg) ''vgactl'' (vga_ctl_port cfg) (vga_ctl_mmio cfg) p 8
         CbNone
         (poke32 p 0 (push_bit 16 (screen_width cfg) OR screen_height cfg)
           (s1\<lparr>vgactl_port_base := p\<rparr>))) (\<lambda>s2.
     bind_res (new_space (unat (screen_size cfg)) s2) (\<lambda>(q, s3).
     bind_res (add_mmio_map ''vmem'' (fb_addr cfg) q (screen_size cfg) CbNone (s3\<lparr>vmem := q\<rparr>))
       (\<lambda>s4. Inr (poke_bytes q (replicate (unat (screen_size cfg)) 0) s4)))))"

section \<open>\<open>audio.c\<close>\<close>

definition nr_reg :: nat where "nr_reg = 6"

definition audio_io_handler :: "u32 \<Rightarrow> nat \<Rightarrow> bool \<Rightarrow> 'a dev_scheme \<Rightarrow> 'a dev_scheme res" where
  "audio_io_handler offset len is_write s = Inr s"

definition init_audio :: "devcfg \<Rightarrow> 'a dev_scheme \<Rightarrow> 'a dev_scheme res" where
  "init_audio cfg s =
     bind_res (new_space (4 * nr_reg) s) (\<lambda>(p, s1).
     bind_res (add_io_map (has_port_io cfg) ''audio'' (audio_ctl_port cfg) (audio_ctl_mmio cfg) p
         (of_nat (4 * nr_reg)) CbAudio (s1\<lparr>audio_base := p\<rparr>)) (\<lambda>s2.
     bind_res (new_space (sb_size cfg) s2) (\<lambda>(q, s3).
     add_mmio_map ''audio-sbuf'' (sb_addr cfg) q (of_nat (sb_size cfg)) CbNone
       (s3\<lparr>sbuf := q\<rparr>))))"

end
