(* ===== verification/Sdcard.thy ===== *)
theory Sdcard
  imports Devices
begin

text \<open>
  The SD card controller, \<open>src/device/sdcard.c\<close>, with the command numbers of
  \<open>src/device/mmc.h\<close> it uses. The card image is the file \<open>sd_fp\<close> with its position; a read
  past its end delivers the bytes that are left, a write past its end extends it, as the
  C library's stream functions do.
\<close>

section \<open>Constants\<close>

definition MEMORY_SIZE :: u64 where "MEMORY_SIZE = 16 * 1024 * 1024 * 1024"
definition READ_BL_LEN :: nat where "READ_BL_LEN = 15"
definition BLOCK_LEN :: u64 where "BLOCK_LEN = push_bit READ_BL_LEN 1"
definition NR_BLOCK :: u64 where "NR_BLOCK = MEMORY_SIZE div BLOCK_LEN"
definition C_SIZE_MULT :: nat where "C_SIZE_MULT = 7"
definition MULT :: u64 where "MULT = push_bit (C_SIZE_MULT + 2) 1"
definition C_SIZE :: u64 where "C_SIZE = NR_BLOCK div MULT - 1"

text \<open>Register indices.\<close>

abbreviation (input) "SDCMD \<equiv> (0 :: nat)"
abbreviation (input) "SDARG \<equiv> (1 :: nat)"
abbreviation (input) "SDRSP0 \<equiv> (4 :: nat)"
abbreviation (input) "SDRSP1 \<equiv> (5 :: nat)"
abbreviation (input) "SDRSP2 \<equiv> (6 :: nat)"
abbreviation (input) "SDRSP3 \<equiv> (7 :: nat)"
abbreviation (input) "SDDATA \<equiv> (16 :: nat)"

text \<open>Commands.\<close>

abbreviation (input) "MMC_GO_IDLE_STATE \<equiv> (0 :: nat)"
abbreviation (input) "MMC_SEND_OP_COND \<equiv> (1 :: nat)"
abbreviation (input) "MMC_ALL_SEND_CID \<equiv> (2 :: nat)"
abbreviation (input) "MMC_SET_RELATIVE_ADDR \<equiv> (3 :: nat)"
abbreviation (input) "MMC_SLEEP_AWAKE \<equiv> (5 :: nat)"
abbreviation (input) "MMC_SELECT_CARD \<equiv> (7 :: nat)"
abbreviation (input) "MMC_SEND_EXT_CSD \<equiv> (8 :: nat)"
abbreviation (input) "MMC_SEND_CSD \<equiv> (9 :: nat)"
abbreviation (input) "MMC_STOP_TRANSMISSION \<equiv> (12 :: nat)"
abbreviation (input) "MMC_SEND_STATUS \<equiv> (13 :: nat)"
abbreviation (input) "MMC_READ_MULTIPLE_BLOCK \<equiv> (18 :: nat)"
abbreviation (input) "MMC_SET_BLOCK_COUNT \<equiv> (23 :: nat)"
abbreviation (input) "MMC_WRITE_MULTIPLE_BLOCK \<equiv> (25 :: nat)"
abbreviation (input) "MMC_APP_CMD \<equiv> (55 :: nat)"

section \<open>The image file\<close>

definition sd_fseek :: "nat \<Rightarrow> 'a dev_scheme \<Rightarrow> 'a dev_scheme" where
  "sd_fseek pos s = s\<lparr>sd_pos := pos\<rparr>"

definition sd_fread4 :: "nat \<Rightarrow> u8 list \<Rightarrow> 'a dev_scheme \<Rightarrow> 'a dev_scheme" where
  "sd_fread4 p img s =
     (let bs = take 4 (drop (sd_pos s) img) in
      (poke_bytes p bs s)\<lparr>sd_pos := sd_pos s + length bs\<rparr>)"

definition file_write :: "u8 list \<Rightarrow> nat \<Rightarrow> u8 list \<Rightarrow> u8 list" where
  "file_write img pos bs =
     take pos img @ replicate (pos - length img) 0 @ bs @ drop (pos + length bs) img"

definition sd_fwrite4 :: "nat \<Rightarrow> u8 list \<Rightarrow> 'a dev_scheme \<Rightarrow> 'a dev_scheme" where
  "sd_fwrite4 p img s =
     s\<lparr>sd_fp := Some (file_write img (sd_pos s) (load_bytes (io_space s) p 4)),
       sd_pos := sd_pos s + 4\<rparr>"

section \<open>Operations\<close>

abbreviation sdreg :: "nat \<Rightarrow> 'a dev_scheme \<Rightarrow> u32" where
  "sdreg i s \<equiv> peek32 (sd_base s) i s"

abbreviation set_sdreg :: "nat \<Rightarrow> u32 \<Rightarrow> 'a dev_scheme \<Rightarrow> 'a dev_scheme" where
  "set_sdreg i w s \<equiv> poke32 (sd_base s) i w s"

definition prepare_rw :: "bool \<Rightarrow> 'a dev_scheme \<Rightarrow> 'a dev_scheme" where
  "prepare_rw is_write s =
     (let s1 = s\<lparr>blk_addr := ucast (sdreg SDARG s), sd_addr := 0\<rparr>;
          s2 = (if sd_fp s1 \<noteq> None then sd_fseek (unat (push_bit 9 (blk_addr s1))) s1 else s1)
      in s2\<lparr>write_cmd := is_write\<rparr>)"

definition sdcard_handle_cmd :: "nat \<Rightarrow> 'a dev_scheme \<Rightarrow> 'a dev_scheme res" where
  "sdcard_handle_cmd cmd s =
     (if cmd = MMC_GO_IDLE_STATE then Inr s
      else if cmd = MMC_SEND_OP_COND then Inr (set_sdreg SDRSP0 0x80ff8000 s)
      else if cmd = MMC_ALL_SEND_CID then
        Inr (set_sdreg SDRSP3 0x15000000 (set_sdreg SDRSP2 0 (set_sdreg SDRSP1 0
              (set_sdreg SDRSP0 1 s))))
      else if cmd = 52 then Inr s
      else if cmd = MMC_SEND_CSD then
        Inr (set_sdreg SDRSP3 0x9026012a
              (set_sdreg SDRSP2 (ucast (0x0f508000 OR drop_bit 2 C_SIZE OR push_bit 16 (of_nat READ_BL_LEN)))
              (set_sdreg SDRSP1 (ucast (0x124b97e3 OR push_bit 30 (C_SIZE AND 3)))
              (set_sdreg SDRSP0 0x92404001 s))))
      else if cmd = MMC_SEND_EXT_CSD then Inr (s\<lparr>read_ext_csd := True, sd_addr := 0\<rparr>)
      else if cmd = MMC_SLEEP_AWAKE then Inr s
      else if cmd = MMC_APP_CMD then Inr s
      else if cmd = MMC_SET_RELATIVE_ADDR then Inr s
      else if cmd = MMC_SELECT_CARD then Inr s
      else if cmd = MMC_SET_BLOCK_COUNT then Inr (s\<lparr>blkcnt := sdreg SDARG s AND 0xffff\<rparr>)
      else if cmd = MMC_READ_MULTIPLE_BLOCK then Inr (prepare_rw False s)
      else if cmd = MMC_WRITE_MULTIPLE_BLOCK then Inr (prepare_rw True s)
      else if cmd = MMC_SEND_STATUS then
        Inr (set_sdreg SDRSP1 0 (set_sdreg SDRSP2 0 (set_sdreg SDRSP3 0 (set_sdreg SDRSP0 0x900 s))))
      else if cmd = MMC_STOP_TRANSMISSION then Inr s
      else Inl Panic)"

definition ext_csd_word :: "u32 \<Rightarrow> u32" where
  "ext_csd_word a =
     (if a = 192 then 2 else if a = 212 then ucast (MEMORY_SIZE div 512) else 0)"

definition sdcard_data :: "'a dev_scheme \<Rightarrow> 'a dev_scheme" where
  "sdcard_data s =
     (let p = sd_base s + 4 * SDDATA;
          s1 = (if read_ext_csd s then
                  (let t = set_sdreg SDDATA (ext_csd_word (sd_addr s)) s in
                   if sd_addr s = 512 - 4 then t\<lparr>read_ext_csd := False\<rparr> else t)
                else (case sd_fp s of
                        None \<Rightarrow> s
                      | Some img \<Rightarrow>
                          if \<not> write_cmd s then sd_fread4 p img s else sd_fwrite4 p img s))
      in s1\<lparr>sd_addr := sd_addr s1 + 4\<rparr>)"

definition sdcard_io_handler :: "u32 \<Rightarrow> nat \<Rightarrow> bool \<Rightarrow> 'a dev_scheme \<Rightarrow> 'a dev_scheme res" where
  "sdcard_io_handler offset len is_write s =
     (let idx = unat (offset div 4) in
      if idx = SDCMD then sdcard_handle_cmd (unat (sdreg SDCMD s AND 0x3f)) s
      else if idx \<in> {SDARG, SDRSP0, SDRSP1, SDRSP2, SDRSP3} then Inr s
      else if idx = SDDATA then Inr (sdcard_data s)
      else Inl Panic)"

definition init_sdcard ::
  "devcfg \<Rightarrow> u8 list option \<Rightarrow> 'a dev_scheme \<Rightarrow> 'a dev_scheme res" where
  "init_sdcard cfg img s =
     bind_res (new_space 0x80 s) (\<lambda>(p, s1).
     bind_res (add_mmio_map ''sdhci'' (sdcard_ctl_mmio cfg) p 0x80 CbSdcard (s1\<lparr>sd_base := p\<rparr>))
       (\<lambda>s2. if C_SIZE < push_bit 12 1 then Inr (s2\<lparr>sd_fp := img, sd_pos := 0\<rparr>) else Inl Panic))"

section \<open>Lemmas\<close>

lemma prepare_rw_img [simp]: "sd_fp (prepare_rw w s) = sd_fp s"
  by (simp add: prepare_rw_def sd_fseek_def Let_def)

lemma poke_sd [simp]:
  "sd_fp (poke32 p i w s) = sd_fp s" "sd_pos (poke32 p i w s) = sd_pos s"
  "sd_base (poke32 p i w s) = sd_base s" "write_cmd (poke32 p i w s) = write_cmd s"
  "read_ext_csd (poke32 p i w s) = read_ext_csd s" "sd_addr (poke32 p i w s) = sd_addr s"
  "sd_fp (poke_bytes q bs s) = sd_fp s" "sd_pos (poke_bytes q bs s) = sd_pos s"
  "sd_base (poke_bytes q bs s) = sd_base s" "write_cmd (poke_bytes q bs s) = write_cmd s"
  "read_ext_csd (poke_bytes q bs s) = read_ext_csd s" "sd_addr (poke_bytes q bs s) = sd_addr s"
  by (simp_all add: poke32_def poke_bytes_def)

lemma peek_poke_same [simp]: "peek32 p i (poke32 p i w s) = w"
  by (simp add: peek32_def poke32_def poke_bytes_def)

lemma peek_poke_other [simp]: "i \<noteq> j \<Longrightarrow> peek32 p i (poke32 p j w s) = peek32 p i s"
  by (cases "i < j") (simp_all add: peek32_def poke32_def poke_bytes_def load_store_apart)

lemma peek32_fields [simp]:
  "peek32 p i (s\<lparr>sd_addr := x\<rparr>) = peek32 p i s"
  "peek32 p i (s\<lparr>read_ext_csd := y\<rparr>) = peek32 p i s"
  "peek32 p i (s\<lparr>sd_pos := z\<rparr>) = peek32 p i s"
  "peek32 p i (s\<lparr>sd_fp := f\<rparr>) = peek32 p i s"
  by (simp_all add: peek32_def)

text \<open>Overwriting inside the file changes exactly the bytes written.\<close>

lemma file_write_inside:
  "pos + length bs \<le> length img \<Longrightarrow>
   length (file_write img pos bs) = length img
   \<and> (\<forall>i < length img. file_write img pos bs ! i =
        (if pos \<le> i \<and> i < pos + length bs then bs ! (i - pos) else img ! i))"
  by (auto simp: file_write_def nth_append min_def)

end
