(* ===== verification/DeviceTop.thy ===== *)
theory DeviceTop
  imports Sdcard
begin

text \<open>
  \<open>src/device/device.c\<close>: the dispatcher called after every instruction, the event queue, the
  start-up of all devices, and the meaning of the callback names of the bus. The locale
  \<open>bus_handlers\<close> is interpreted here on the real callbacks, and the locale \<open>fifo\<close> states what
  a bounded queue promises and is interpreted on the keyboard's ring buffer.
\<close>

section \<open>Definitions\<close>

fun device_callback :: "callback \<Rightarrow> u32 \<Rightarrow> nat \<Rightarrow> bool \<Rightarrow> 'a dev_scheme \<Rightarrow> 'a dev_scheme res" where
  "device_callback CbNone offset len w s = Inr s"
| "device_callback CbSerial offset len w s = serial_io_handler offset len w s"
| "device_callback CbRtc offset len w s = rtc_io_handler offset len w s"
| "device_callback CbKeyboard offset len w s = i8042_data_io_handler offset len w s"
| "device_callback CbAudio offset len w s = audio_io_handler offset len w s"
| "device_callback CbSdcard offset len w s = sdcard_io_handler offset len w s"

fun poll_events :: "sdl_event list \<Rightarrow> 'a dev_scheme \<Rightarrow> 'a dev_scheme res" where
  "poll_events [] s = Inr s"
| "poll_events (SDL_QUIT # es) s = poll_events es (set_run_state NEMU_QUIT s)"
| "poll_events (SDL_KEY k is_keydown # es) s =
     bind_res (send_key k is_keydown s) (poll_events es)"
| "poll_events (SDL_OTHER # es) s = poll_events es s"

text \<open>The \<open>while (SDL_PollEvent(&event))\<close> loop handles the events that are waiting.\<close>

definition device_update :: "'a dev_scheme \<Rightarrow> 'a dev_scheme res" where
  "device_update s =
     (case get_time s of (now, s1) \<Rightarrow>
        if now - device_last s1 < 1000000 div TIMER_HZ then Inr s1
        else let s2 = vga_update_screen (s1\<lparr>device_last := now\<rparr>) in
             poll_events (sdl_input s2 (sdl_polls s2)) (s2\<lparr>sdl_polls := Suc (sdl_polls s2)\<rparr>))"

text \<open>\<open>sdl_clear_event_queue\<close> drops the events that are waiting.\<close>

definition sdl_clear_event_queue :: "'a dev_scheme \<Rightarrow> 'a dev_scheme" where
  "sdl_clear_event_queue s = s\<lparr>sdl_polls := Suc (sdl_polls s)\<rparr>"

definition if_config :: "bool \<Rightarrow> ('s \<Rightarrow> 's res) \<Rightarrow> 's \<Rightarrow> 's res" where
  "if_config c f s = (if c then f s else Inr s)"

definition init_device ::
  "devcfg \<Rightarrow> (string \<Rightarrow> nat) \<Rightarrow> u8 list option \<Rightarrow> 'a dev_scheme \<Rightarrow> 'a dev_scheme res" where
  "init_device cfg scancode img s =
     bind_res (if_config (has_serial cfg) (init_serial cfg) (init_map s)) (\<lambda>s1.
     bind_res (if_config (has_timer cfg) (init_timer cfg) s1) (\<lambda>s2.
     bind_res (if_config (has_vga cfg) (init_vga cfg) s2) (\<lambda>s3.
     bind_res (if_config (has_keyboard cfg) (init_i8042 cfg scancode) s3) (\<lambda>s4.
     bind_res (if_config (has_audio cfg) (init_audio cfg) s4) (\<lambda>s5.
     if_config (has_sdcard cfg) (init_sdcard cfg img) s5)))))"

section \<open>What the callbacks keep\<close>

text \<open>
  A callback changes neither the address map, nor the run state, nor what lies beyond the
  devices: guest memory and the CPU.
\<close>

definition kept :: "'a dev_scheme \<Rightarrow> 'a dev_scheme \<Rightarrow> bool" where
  "kept s s' \<longleftrightarrow> mmio_maps s' = mmio_maps s \<and> pio_maps s' = pio_maps s
     \<and> p_space s' = p_space s \<and> nemu_state s' = nemu_state s
     \<and> g_nr_guest_inst s' = g_nr_guest_inst s \<and> dev.more s' = dev.more s"

lemma kept_dev [simp]:
  "kept s s" "kept s (poke_bytes p bs s)" "kept s (poke32 p i v s)"
  "kept s (s\<lparr>serial_out := so\<rparr>)" "kept s (s\<lparr>key_f := kf\<rparr>)"
  "kept s (s\<lparr>host_ticks := t\<rparr>)" "kept s (s\<lparr>sd_addr := ad, read_ext_csd := r\<rparr>)"
  "kept s (s\<lparr>blkcnt := bc\<rparr>)"
  by (simp_all add: kept_def poke_bytes_def poke32_def)

lemma get_time_kept: "get_time s = (t, s') \<Longrightarrow> kept s s'"
  by (auto simp: get_time_def get_time_internal_def Let_def kept_def split: if_splits)

lemma serial_kept: "serial_io_handler off len w s = Inr s' \<Longrightarrow> kept s s'"
  by (auto simp: serial_io_handler_def serial_putc_def res_simps split: if_splits)

lemma rtc_kept:
  assumes "rtc_io_handler off len w s = Inr s'"
  shows "kept s s'"
proof (cases "get_time s")
  case (Pair us s1)
  then have "kept s s1" by (rule get_time_kept)
  with assms Pair show ?thesis
    by (auto simp: rtc_io_handler_def res_simps kept_def poke32_def poke_bytes_def
        split: if_splits)
qed

lemma keyboard_kept: "i8042_data_io_handler off len w s = Inr s' \<Longrightarrow> kept s s'"
  by (auto simp: i8042_data_io_handler_def key_dequeue_def res_simps kept_def poke32_def
      poke_bytes_def split: if_splits)

lemma sd_cmd_kept: "sdcard_handle_cmd cmd s = Inr s' \<Longrightarrow> kept s s'"
  unfolding sdcard_handle_cmd_def
  by (auto simp: kept_def poke32_def poke_bytes_def prepare_rw_def sd_fseek_def Let_def
      split: if_split_asm)

lemma sd_data_kept: "kept s (sdcard_data s)"
  by (auto simp: sdcard_data_def kept_def poke32_def poke_bytes_def sd_fread4_def sd_fwrite4_def
      Let_def split: option.splits)

lemma sdcard_kept: "sdcard_io_handler off len w s = Inr s' \<Longrightarrow> kept s s'"
  by (auto simp: sdcard_io_handler_def Let_def sd_data_kept dest: sd_cmd_kept
      split: if_splits)

lemma device_callback_kept: "device_callback c off len w s = Inr s' \<Longrightarrow> kept s s'"
  by (cases c)
    (auto simp: audio_io_handler_def dest: serial_kept rtc_kept keyboard_kept
      sdcard_kept)

interpretation dev: bus_handlers device_callback kept
  by unfold_locales
    (auto simp: kept_def difftest_skip_ref_def device_callback_kept [unfolded kept_def])

section \<open>The keyboard queue\<close>

text \<open>Taking \<open>n\<close> elements in a row, and adding a list of elements in a row.\<close>

fun drain :: "('s \<Rightarrow> 'e \<times> 's) \<Rightarrow> nat \<Rightarrow> 's \<Rightarrow> 'e list \<times> 's" where
  "drain deq 0 s = ([], s)"
| "drain deq (Suc n) s =
     (case deq s of (x, s1) \<Rightarrow> case drain deq n s1 of (xs, s2) \<Rightarrow> (x # xs, s2))"

fun enq_all :: "('e \<Rightarrow> 's \<Rightarrow> 's res) \<Rightarrow> 'e list \<Rightarrow> 's \<Rightarrow> 's res" where
  "enq_all enq [] s = Inr s"
| "enq_all enq (x # xs) s = bind_res (enq x s) (enq_all enq xs)"

locale fifo =
  fixes enq :: "'e \<Rightarrow> 's \<Rightarrow> 's res"
    and deq :: "'s \<Rightarrow> 'e \<times> 's"
    and contents :: "'s \<Rightarrow> 'e list"
    and inv :: "'s \<Rightarrow> bool"
    and cap :: nat
    and none :: 'e
  assumes enq_room: "inv s \<Longrightarrow> length (contents s) < cap \<Longrightarrow>
      \<exists>s'. enq x s = Inr s' \<and> inv s' \<and> contents s' = contents s @ [x]"
    and enq_full: "inv s \<Longrightarrow> length (contents s) = cap \<Longrightarrow> enq x s = Inl Panic"
    and inv_cap: "inv s \<Longrightarrow> length (contents s) \<le> cap"
    and deq_empty: "inv s \<Longrightarrow> contents s = [] \<Longrightarrow> deq s = (none, s)"
    and deq_some: "inv s \<Longrightarrow> contents s = x # xs \<Longrightarrow>
      \<exists>s'. deq s = (x, s') \<and> inv s' \<and> contents s' = xs"
begin

lemma enq_all_room:
  "inv s \<Longrightarrow> length (contents s) + length xs \<le> cap \<Longrightarrow>
   \<exists>s'. enq_all enq xs s = Inr s' \<and> inv s' \<and> contents s' = contents s @ xs"
proof (induction xs arbitrary: s)
  case Nil
  then show ?case by simp
next
  case (Cons x xs)
  then obtain s1 where "enq x s = Inr s1" "inv s1" "contents s1 = contents s @ [x]"
    using enq_room [of s x] by auto
  with Cons.IH [of s1] Cons.prems show ?case by auto
qed

lemma enq_all_overflow:
  "inv s \<Longrightarrow> cap < length (contents s) + length xs \<Longrightarrow> enq_all enq xs s = Inl Panic"
proof (induction xs arbitrary: s)
  case Nil
  then show ?case using inv_cap by fastforce
next
  case (Cons x xs)
  show ?case
  proof (cases "length (contents s) < cap")
    case True
    then obtain s1 where "enq x s = Inr s1" "inv s1" "contents s1 = contents s @ [x]"
      using enq_room [of s x] Cons.prems by auto
    with Cons.IH [of s1] Cons.prems show ?thesis by simp
  next
    case False
    with inv_cap [of s] Cons.prems have "length (contents s) = cap" by simp
    with enq_full Cons.prems show ?thesis by simp
  qed
qed

lemma drain_contents:
  "inv s \<Longrightarrow> contents s = xs \<Longrightarrow>
   \<exists>s'. drain deq (length xs) s = (xs, s') \<and> inv s' \<and> contents s' = []"
proof (induction xs arbitrary: s)
  case Nil
  then show ?case by simp
next
  case (Cons x xs)
  then obtain s1 where "deq s = (x, s1)" "inv s1" "contents s1 = xs"
    using deq_some by blast
  with Cons.IH [of s1] show ?case by auto
qed

lemma in_order:
  assumes "inv s" and "length (contents s) + length xs \<le> cap"
  shows "\<exists>s' s''. enq_all enq xs s = Inr s'
     \<and> drain deq (length (contents s) + length xs) s' = (contents s @ xs, s'') \<and> contents s'' = []"
proof -
  obtain s' where s': "enq_all enq xs s = Inr s'" "inv s'" "contents s' = contents s @ xs"
    using enq_all_room [OF assms] by blast
  with drain_contents [OF s'(2,3)] show ?thesis by auto
qed

end

definition kb_inv :: "'a dev_scheme \<Rightarrow> bool" where
  "kb_inv s \<longleftrightarrow> key_f s < KEY_QUEUE_LEN \<and> key_r s < KEY_QUEUE_LEN"

definition kb_count :: "'a dev_scheme \<Rightarrow> nat" where
  "kb_count s = (if key_f s \<le> key_r s then key_r s - key_f s
                 else key_r s + KEY_QUEUE_LEN - key_f s)"

definition kb_contents :: "'a dev_scheme \<Rightarrow> u32 list" where
  "kb_contents s =
     map (\<lambda>i. key_queue s ((key_f s + i) mod KEY_QUEUE_LEN)) [0..<kb_count s]"

lemma length_kb_contents [simp]: "length (kb_contents s) = kb_count s"
  by (simp add: kb_contents_def)

lemma ring_index:
  assumes "f < KEY_QUEUE_LEN" and "i < KEY_QUEUE_LEN"
  shows "(f + i) mod KEY_QUEUE_LEN = (if f + i < KEY_QUEUE_LEN then f + i else f + i - KEY_QUEUE_LEN)"
  using assms by (simp add: KEY_QUEUE_LEN_def mod_if)

lemma ring_next:
  "r < KEY_QUEUE_LEN \<Longrightarrow>
   (r + 1) mod KEY_QUEUE_LEN = (if r + 1 = KEY_QUEUE_LEN then 0 else r + 1)"
  by (simp add: KEY_QUEUE_LEN_def mod_if)

lemma kb_enqueue_room:
  assumes inv: "kb_inv s" and room: "kb_count s < KEY_QUEUE_LEN - 1"
  shows "\<exists>s'. key_enqueue x s = Inr s' \<and> kb_inv s' \<and> kb_contents s' = kb_contents s @ [x]"
proof -
  define s' where "s' = s\<lparr>key_queue := (key_queue s)(key_r s := x),
     key_r := (key_r s + 1) mod KEY_QUEUE_LEN\<rparr>"
  have r: "key_r s < KEY_QUEUE_LEN" and f: "key_f s < KEY_QUEUE_LEN"
    using inv by (simp_all add: kb_inv_def)
  have cnt: "kb_count s' = Suc (kb_count s)"
    using r f room ring_next [OF r]
    by (auto simp: kb_count_def s'_def KEY_QUEUE_LEN_def split: if_splits)
  have last: "(key_f s + kb_count s) mod KEY_QUEUE_LEN = key_r s"
    using r f by (simp add: kb_count_def)
  have other: "(key_f s + i) mod KEY_QUEUE_LEN \<noteq> key_r s" if "i < kb_count s" for i
    using that r f by (subst ring_index) (auto simp: kb_count_def split: if_splits)
  have "key_r s' \<noteq> key_f s'" "kb_inv s'"
    using r f room by (auto simp: s'_def kb_inv_def kb_count_def KEY_QUEUE_LEN_def mod_if)
  moreover have "kb_contents s' = kb_contents s @ [x]"
    using other last by (simp add: kb_contents_def cnt) (simp add: s'_def)
  ultimately show ?thesis by (simp add: key_enqueue_def s'_def Let_def)
qed

lemma kb_enqueue_full:
  assumes "kb_inv s" and "kb_count s = KEY_QUEUE_LEN - 1"
  shows "key_enqueue x s = Inl Panic"
  using assms
  by (auto simp: key_enqueue_def kb_inv_def kb_count_def KEY_QUEUE_LEN_def mod_if split: if_splits)

lemma kb_dequeue_some:
  assumes inv: "kb_inv s" and c: "kb_contents s = x # xs"
  shows "\<exists>s'. key_dequeue s = (x, s') \<and> kb_inv s' \<and> kb_contents s' = xs"
proof -
  have r: "key_r s < KEY_QUEUE_LEN" and f: "key_f s < KEY_QUEUE_LEN"
    using inv by (simp_all add: kb_inv_def)
  have n: "kb_count s = Suc (length xs)" using arg_cong [OF c, of length] by simp
  define s' where "s' = s\<lparr>key_f := (key_f s + 1) mod KEY_QUEUE_LEN\<rparr>"
  have ne: "key_f s \<noteq> key_r s" using n by (auto simp: kb_count_def)
  have x: "key_queue s (key_f s) = x"
    using arg_cong [OF c, of "\<lambda>l. l ! 0"] n f by (simp add: kb_contents_def del: upt_Suc)
  have cnt: "kb_count s' = length xs"
    using n r f ne ring_next [OF f]
    by (auto simp: kb_count_def s'_def KEY_QUEUE_LEN_def split: if_splits)
  have "kb_contents s' ! i = xs ! i" if "i < length xs" for i
  proof -
    have "kb_contents s' ! i = kb_contents s ! Suc i"
      using that n by (simp add: kb_contents_def cnt del: upt_Suc)
        (simp add: s'_def mod_simps)
    with c show ?thesis by simp
  qed
  then have "kb_contents s' = xs" by (intro nth_equalityI) (simp_all add: cnt)
  moreover have "kb_inv s'" using r f by (simp add: kb_inv_def s'_def KEY_QUEUE_LEN_def)
  ultimately show ?thesis using ne x by (simp add: key_dequeue_def s'_def)
qed

lemma kb_count_cap: "kb_inv s \<Longrightarrow> kb_count s \<le> KEY_QUEUE_LEN - 1"
  by (auto simp: kb_inv_def kb_count_def KEY_QUEUE_LEN_def)

lemma kb_dequeue_empty: "kb_inv s \<Longrightarrow> kb_count s = 0 \<Longrightarrow> key_dequeue s = (NEMU_KEY_NONE, s)"
proof -
  assume "kb_inv s" "kb_count s = 0"
  then have "key_f s = key_r s"
    unfolding kb_inv_def kb_count_def by (cases "key_f s \<le> key_r s") simp_all
  then show ?thesis by (simp add: key_dequeue_def)
qed

interpretation kb: fifo key_enqueue key_dequeue kb_contents kb_inv "KEY_QUEUE_LEN - 1" NEMU_KEY_NONE
proof unfold_locales
  fix s :: "'a dev_scheme" and x
  assume inv: "kb_inv s" and "length (kb_contents s) < KEY_QUEUE_LEN - 1"
  then show "\<exists>s'. key_enqueue x s = Inr s' \<and> kb_inv s' \<and> kb_contents s' = kb_contents s @ [x]"
    using kb_enqueue_room [OF inv] by simp
next
  fix s :: "'a dev_scheme" and x
  assume "kb_inv s" and "length (kb_contents s) = KEY_QUEUE_LEN - 1"
  then show "key_enqueue x s = Inl Panic" using kb_enqueue_full by simp
next
  fix s :: "'a dev_scheme"
  assume "kb_inv s"
  then show "length (kb_contents s) \<le> KEY_QUEUE_LEN - 1" using kb_count_cap by simp
next
  fix s :: "'a dev_scheme"
  assume "kb_inv s" and "kb_contents s = []"
  then have "kb_count s = 0" by (metis length_kb_contents list.size(3))
  with \<open>kb_inv s\<close> show "key_dequeue s = (NEMU_KEY_NONE, s)" by (rule kb_dequeue_empty)
next
  fix s :: "'a dev_scheme" and x xs
  assume "kb_inv s" and "kb_contents s = x # xs"
  then show "\<exists>s'. key_dequeue s = (x, s') \<and> kb_inv s' \<and> kb_contents s' = xs"
    by (rule kb_dequeue_some)
qed

section \<open>Properties\<close>

text \<open>
  C5: the keyboard queue is a first-in first-out queue of at most 1023 keys: from any
  well-formed queue, as many keys as there is room for are accepted, and reading the queue
  then gives the keys that were waiting followed by the new ones in the order they were
  pressed; one key more panics (the check in the code runs after the slot was written).
\<close>

theorem keyboard_fifo:
  assumes "kb_inv s"
  shows "(kb_count s + length ks < KEY_QUEUE_LEN \<longrightarrow>
            (\<exists>s' s''. enq_all key_enqueue ks s = Inr s'
               \<and> drain key_dequeue (kb_count s + length ks) s' = (kb_contents s @ ks, s'')
               \<and> key_dequeue s'' = (NEMU_KEY_NONE, s'')))
       \<and> (KEY_QUEUE_LEN \<le> kb_count s + length ks \<longrightarrow> enq_all key_enqueue ks s = Inl Panic)"
proof (intro conjI impI)
  assume "kb_count s + length ks < KEY_QUEUE_LEN"
  then obtain s' where s': "enq_all key_enqueue ks s = Inr s'" "kb_inv s'"
      "kb_contents s' = kb_contents s @ ks"
    using kb.enq_all_room [OF assms, of ks] by (auto simp: KEY_QUEUE_LEN_def)
  with kb.drain_contents [OF s'(2,3)] obtain s'' where
    "drain key_dequeue (kb_count s + length ks) s' = (kb_contents s @ ks, s'')"
    "kb_inv s''" "kb_contents s'' = []" by auto
  with s'(1) kb.deq_empty show "\<exists>s' s''. enq_all key_enqueue ks s = Inr s'
      \<and> drain key_dequeue (kb_count s + length ks) s' = (kb_contents s @ ks, s'')
      \<and> key_dequeue s'' = (NEMU_KEY_NONE, s'')" by blast
next
  assume "KEY_QUEUE_LEN \<le> kb_count s + length ks"
  then show "enq_all key_enqueue ks s = Inl Panic"
    using kb.enq_all_overflow [OF assms, of ks] by (simp add: KEY_QUEUE_LEN_def)
qed

text \<open>The static variables before \<open>main\<close>, and three keys pressed in a row.\<close>

theorem keyboard_fifo_witness:
  "\<exists>s' s''. enq_all key_enqueue [7, 0x8007, 9] initial_dev = Inr s'
     \<and> drain key_dequeue 3 s' = ([7, 0x8007, 9], s'') \<and> key_dequeue s'' = (NEMU_KEY_NONE, s'')"
proof -
  have "kb_inv initial_dev" by (simp add: kb_inv_def initial_dev_def KEY_QUEUE_LEN_def)
  note * = keyboard_fifo [OF this, of "[7, 0x8007, 9]"]
  have "kb_contents initial_dev = []" "kb_count initial_dev = 0"
    by (simp_all add: kb_contents_def kb_count_def initial_dev_def)
  with * show ?thesis
    by (simp add: KEY_QUEUE_LEN_def eval_nat_numeral del: enq_all.simps drain.simps)
qed

end
