(* ===== verification/Memory.thy ===== *)
theory Memory
  imports DeviceTop
begin

text \<open>
  Guest memory: \<open>src/memory/paddr.c\<close>, \<open>include/memory/paddr.h\<close> and \<open>src/memory/vaddr.c\<close>.
  The record \<open>mem\<close> adds the array \<open>pmem\<close> of \<open>CONFIG_MSIZE\<close> bytes, indexed by the offset
  that \<open>guest_to_host\<close> computes, and the build option \<open>CONFIG_DEVICE\<close>. An access outside
  \<open>pmem\<close> goes to the devices when they are built in and panics otherwise.
\<close>

record mem = dev +
  pmem :: bytes
  conf_device :: bool

definition guest_to_host :: "u32 \<Rightarrow> nat" where
  "guest_to_host paddr = unat (paddr - CONFIG_MBASE)"

definition host_to_guest :: "nat \<Rightarrow> u32" where
  "host_to_guest haddr = of_nat haddr + CONFIG_MBASE"

definition CONFIG_PC_RESET_OFFSET :: u32 where "CONFIG_PC_RESET_OFFSET = 0"

definition RESET_VECTOR :: u32 where
  "RESET_VECTOR = PMEM_LEFT + CONFIG_PC_RESET_OFFSET"

definition pmem_read :: "u32 \<Rightarrow> nat \<Rightarrow> 'a mem_scheme \<Rightarrow> u32 res" where
  "pmem_read addr len s = host_read CONFIG_MSIZE (pmem s) (guest_to_host addr) len"

definition pmem_write :: "u32 \<Rightarrow> nat \<Rightarrow> u32 \<Rightarrow> 'a mem_scheme \<Rightarrow> 'a mem_scheme res" where
  "pmem_write addr len data s =
     bind_res (host_write CONFIG_MSIZE (pmem s) (guest_to_host addr) len data) (\<lambda>m.
       Inr (s\<lparr>pmem := m\<rparr>))"

definition out_of_bound :: "u32 \<Rightarrow> 'b res" where
  "out_of_bound addr = Inl Panic"

text \<open>\<open>memset(pmem, rand(), CONFIG_MSIZE)\<close>: every byte gets the same random value.\<close>

definition init_mem :: "u8 \<Rightarrow> 'a mem_scheme \<Rightarrow> 'a mem_scheme" where
  "init_mem r s = s\<lparr>pmem := (\<lambda>i. if i < CONFIG_MSIZE then r else pmem s i)\<rparr>"

definition paddr_read :: "u32 \<Rightarrow> nat \<Rightarrow> 'a mem_scheme \<Rightarrow> (u32 \<times> 'a mem_scheme) res" where
  "paddr_read addr len s =
     (if in_pmem addr then bind_res (pmem_read addr len s) (\<lambda>v. Inr (v, s))
      else if conf_device s then mmio_read device_callback addr len s
      else out_of_bound addr)"

definition paddr_write :: "u32 \<Rightarrow> nat \<Rightarrow> u32 \<Rightarrow> 'a mem_scheme \<Rightarrow> 'a mem_scheme res" where
  "paddr_write addr len data s =
     (if in_pmem addr then pmem_write addr len data s
      else if conf_device s then mmio_write device_callback addr len data s
      else out_of_bound addr)"

definition vaddr_ifetch :: "u32 \<Rightarrow> nat \<Rightarrow> 'a mem_scheme \<Rightarrow> (u32 \<times> 'a mem_scheme) res" where
  "vaddr_ifetch addr len s = paddr_read addr len s"

definition vaddr_read :: "u32 \<Rightarrow> nat \<Rightarrow> 'a mem_scheme \<Rightarrow> (u32 \<times> 'a mem_scheme) res" where
  "vaddr_read addr len s = paddr_read addr len s"

definition vaddr_write :: "u32 \<Rightarrow> nat \<Rightarrow> u32 \<Rightarrow> 'a mem_scheme \<Rightarrow> 'a mem_scheme res" where
  "vaddr_write addr len data s = paddr_write addr len data s"

text \<open>\<open>include/cpu/ifetch.h\<close>: fetch and advance the program counter passed by reference.\<close>

definition inst_fetch ::
  "u32 \<Rightarrow> nat \<Rightarrow> 'a mem_scheme \<Rightarrow> (u32 \<times> u32 \<times> 'a mem_scheme) res" where
  "inst_fetch p len s =
     bind_res (vaddr_ifetch p len s) (\<lambda>(i, s1). Inr (i, p + of_nat len, s1))"

text \<open>\<open>memcpy\<close> into guest memory, used to load images.\<close>

definition pmem_copy :: "u32 \<Rightarrow> u8 list \<Rightarrow> 'a mem_scheme \<Rightarrow> 'a mem_scheme res" where
  "pmem_copy addr bs s =
     (if guest_to_host addr + length bs \<le> CONFIG_MSIZE
      then Inr (s\<lparr>pmem := store_bytes (pmem s) (guest_to_host addr) bs\<rparr>) else Inl OutOfBounds)"

section \<open>Lemmas\<close>

lemma in_pmem_iff: "in_pmem a \<longleftrightarrow> 0x80000000 \<le> unat a \<and> unat a < 0x88000000"
proof -
  have "unat (a - 0x80000000) = (if 0x80000000 \<le> unat a then unat a - 0x80000000
           else unat a + 2 ^ 32 - 0x80000000)"
    by (simp add: unat_sub_if' word_le_nat_alt)
  then show ?thesis
    using unsigned_less [of a, where ?'a = nat] by (auto simp: in_pmem_def CONFIG_MBASE_def CONFIG_MSIZE_def)
qed

lemma guest_to_host_in_pmem: "in_pmem a \<Longrightarrow> guest_to_host a = unat a - 0x80000000"
  by (simp add: in_pmem_iff guest_to_host_def CONFIG_MBASE_def unat_sub_if' word_le_nat_alt)

lemma host_guest_inverse: "host_to_guest (guest_to_host a) = a"
  by (simp add: host_to_guest_def guest_to_host_def)

lemma guest_host_inverse: "h < CONFIG_MSIZE \<Longrightarrow> guest_to_host (host_to_guest h) = h"
  by (simp add: host_to_guest_def guest_to_host_def CONFIG_MSIZE_def unat_of_nat)

lemma paddr_read_pmem:
  "in_pmem a \<Longrightarrow> access_len n \<Longrightarrow> guest_to_host a + n \<le> CONFIG_MSIZE \<Longrightarrow>
   paddr_read a n s = Inr (le_word (load_bytes (pmem s) (guest_to_host a) n), s)"
  by (simp add: paddr_read_def pmem_read_def host_read_def)

lemma paddr_write_pmem:
  "in_pmem a \<Longrightarrow> access_len n \<Longrightarrow> guest_to_host a + n \<le> CONFIG_MSIZE \<Longrightarrow>
   paddr_write a n d s =
     Inr (s\<lparr>pmem := store_bytes (pmem s) (guest_to_host a) (le_bytes n d)\<rparr>)"
  by (simp add: paddr_write_def pmem_write_def host_write_total)

lemma pmem_write_fst:
  "in_pmem a \<Longrightarrow> paddr_write a n d s = Inr s' \<longleftrightarrow>
     (\<exists>m. host_write CONFIG_MSIZE (pmem s) (guest_to_host a) n d = Inr m \<and> s' = s\<lparr>pmem := m\<rparr>)"
  by (auto simp: paddr_write_def pmem_write_def res_simps)

text \<open>No access to memory or to a device changes what lies beyond memory: the CPU.\<close>

lemma paddr_read_keeps:
  assumes "paddr_read a n s = Inr (v, s')"
  shows "mem.more s' = mem.more s \<and> nemu_state s' = nemu_state s \<and> pmem s' = pmem s
    \<and> g_nr_guest_inst s' = g_nr_guest_inst s"
proof (cases "in_pmem a \<or> \<not> conf_device s")
  case True
  with assms show ?thesis
    by (auto simp: paddr_read_def out_of_bound_def res_simps split: if_splits)
next
  case False
  with assms have "mmio_read device_callback a n s = Inr (v, s')" by (simp add: paddr_read_def)
  from dev.mmio_read_rel [OF this] have "kept s s'" .
  then show ?thesis by (cases s, cases s') (simp add: kept_def)
qed

lemma paddr_write_keeps:
  assumes "paddr_write a n d s = Inr s'"
  shows "mem.more s' = mem.more s \<and> nemu_state s' = nemu_state s
    \<and> g_nr_guest_inst s' = g_nr_guest_inst s"
proof (cases "in_pmem a \<or> \<not> conf_device s")
  case True
  with assms show ?thesis
    by (auto simp: paddr_write_def pmem_write_def out_of_bound_def res_simps split: if_splits)
next
  case False
  with assms have "mmio_write device_callback a n d s = Inr s'" by (simp add: paddr_write_def)
  from dev.mmio_write_rel [OF this] have "kept s s'" .
  then show ?thesis by (cases s, cases s') (simp add: kept_def)
qed

text \<open>Only the low bytes of the data matter to a store.\<close>

lemma host_write_take_bit: "host_write sz m a n (take_bit (8 * n) d) = host_write sz m a n d"
proof -
  have "le_bytes n (take_bit (8 * n) d) = le_bytes n d"
    by (rule nth_equalityI, simp, rule bit_word_eqI) (auto simp: bit_simps)
  then show ?thesis by (simp add: host_write_def)
qed

lemma paddr_write_take_bit: "paddr_write a n (take_bit (8 * n) d) s = paddr_write a n d s"
  by (simp add: paddr_write_def pmem_write_def mmio_write_def map_write_def host_write_take_bit)

section \<open>Properties\<close>

text \<open>
  C4: guest memory remembers what is stored: after a store that succeeds in \<open>pmem\<close>, a load of
  the same width at the same address gives the low bytes of the data, a load of any width at a
  place the store did not touch gives what it gave before, and the store changed nothing but
  guest memory.
\<close>

theorem vaddr_store_load:
  assumes "in_pmem a" and "vaddr_write a n d s = Inr s'"
  shows "vaddr_read a n s' = Inr (take_bit (8 * n) d, s')
       \<and> (in_pmem b \<and> (guest_to_host a + n \<le> guest_to_host b \<or> guest_to_host b + k \<le> guest_to_host a)
            \<longrightarrow> vaddr_read b k s' = bind_res (vaddr_read b k s) (\<lambda>(v, _). Inr (v, s')))
       \<and> s'\<lparr>pmem := pmem s\<rparr> = s"
proof -
  from assms obtain m where
    w: "host_write CONFIG_MSIZE (pmem s) (guest_to_host a) n d = Inr m" and s': "s' = s\<lparr>pmem := m\<rparr>"
    by (auto simp: vaddr_write_def pmem_write_fst)
  have "vaddr_read a n s' = Inr (take_bit (8 * n) d, s')"
    using assms(1) host.rd_wr_same [OF w] s'
    by (simp add: vaddr_read_def paddr_read_def pmem_read_def)
  moreover have "vaddr_read b k s' = bind_res (vaddr_read b k s) (\<lambda>(v, _). Inr (v, s'))"
    if "in_pmem b" "guest_to_host a + n \<le> guest_to_host b \<or> guest_to_host b + k \<le> guest_to_host a"
    using that(1) host.rd_wr_apart [OF w that(2)] s'
    by (simp add: vaddr_read_def paddr_read_def pmem_read_def bind_res_assoc)
  ultimately show ?thesis using s' by simp
qed

text \<open>A word stored at the start of a zeroed memory, and a half word after it.\<close>

definition initial_mem :: mem where
  "initial_mem = dev.extend initial_dev (mem.fields (\<lambda>_. 0) False)"

theorem vaddr_store_load_witness:
  "\<exists>s'. vaddr_write 0x80000004 4 0xdeadbeef initial_mem = Inr s'
      \<and> vaddr_read 0x80000004 4 s' = Inr (0xdeadbeef, s')
      \<and> vaddr_read 0x80000008 2 s' = bind_res (vaddr_read 0x80000008 2 initial_mem) (\<lambda>(v, _). Inr (v, s'))"
proof -
  have a: "in_pmem 0x80000004" and b: "in_pmem 0x80000008" by (simp_all add: in_pmem_iff)
  obtain s' where w: "vaddr_write 0x80000004 4 0xdeadbeef initial_mem = Inr s'"
    using a by (simp add: vaddr_write_def paddr_write_pmem access_len_def guest_to_host_in_pmem CONFIG_MSIZE_def)
  have "take_bit (8 * 4) (0xdeadbeef :: u32) = 0xdeadbeef" by simp
  with vaddr_store_load [OF a w, of "0x80000008" 2] w a b show ?thesis
    by (auto simp: guest_to_host_in_pmem)
qed

end
