(* ===== verification/Isa.thy ===== *)
theory Isa
  imports Memory Decode
begin

text \<open>
  What the three fixed-width ISAs of NEMU share: the CPU state of their
  \<open>include/isa-def.h\<close> (32 general registers and the program counter), the \<open>Decode\<close>
  structure of \<open>include/cpu/decode.h\<close>, the checked register access \<open>gpr(i)\<close> of their
  \<open>local-include/reg.h\<close>, and the traps of \<open>src/engine/interpreter/hostcall.c\<close>.
  The record \<open>nemu\<close> adds the variable \<open>cpu\<close> to memory and devices.
\<close>

record CPU =
  gpr :: "nat \<Rightarrow> u32"
  pc :: u32

record nemu = mem +
  cpu :: CPU

record Decode =
  d_pc :: u32
  snpc :: u32
  dnpc :: u32
  isa_inst :: u32

text \<open>What \<open>isa_reg_display\<close> prints: registers with index and name, and the program counter.\<close>

datatype reg_row = RegRow nat string u32 | PcRow u32

text \<open>\<open>check_reg_idx\<close> asserts that the index is below 32.\<close>

definition gpr_get :: "nat \<Rightarrow> 'a nemu_scheme \<Rightarrow> u32 res" where
  "gpr_get i s = assert_then (i < 32) (Inr (gpr (cpu s) i))"

definition gpr_set :: "nat \<Rightarrow> u32 \<Rightarrow> 'a nemu_scheme \<Rightarrow> 'a nemu_scheme res" where
  "gpr_set i v s = assert_then (i < 32) (Inr (s\<lparr>cpu := (cpu s)\<lparr>gpr := (gpr (cpu s))(i := v)\<rparr>\<rparr>))"

text \<open>\<open>SEXT(x, 12)\<close> and the like, stored into a \<open>word_t\<close>.\<close>

definition to_word :: "u64 \<Rightarrow> u32" where
  "to_word x = ucast x"

definition set_nemu_state :: "nemu_run \<Rightarrow> u32 \<Rightarrow> u32 \<Rightarrow> 'a bus_scheme \<Rightarrow> 'a bus_scheme" where
  "set_nemu_state st p ret b =
     (difftest_skip_ref b)\<lparr>nemu_state := \<lparr>run_state = st, halt_pc = p, halt_ret = ret\<rparr>\<rparr>"

definition NEMUTRAP :: "u32 \<Rightarrow> u32 \<Rightarrow> 'a bus_scheme \<Rightarrow> 'a bus_scheme" where
  "NEMUTRAP thispc code b = set_nemu_state NEMU_END thispc code b"

text \<open>
  \<open>invalid_inst\<close> fetches two words at the faulting instruction for its message, which can
  itself leave memory, and then aborts the emulation.
\<close>

definition invalid_inst :: "u32 \<Rightarrow> 'a mem_scheme \<Rightarrow> 'a mem_scheme res" where
  "invalid_inst thispc s =
     bind_res (inst_fetch thispc 4 s) (\<lambda>(t0, p1, s1).
     bind_res (inst_fetch p1 4 s1) (\<lambda>(t1, p2, s2).
     Inr (set_nemu_state NEMU_ABORT thispc (- 1) s2)))"

text \<open>\<open>R(rd) = v\<close>, and an execute body that only assigns.\<close>

definition assign_reg :: "Decode \<Rightarrow> nat \<Rightarrow> u32 \<Rightarrow> 'a nemu_scheme \<Rightarrow> (Decode \<times> 'a nemu_scheme) res" where
  "assign_reg d rd v s = bind_res (gpr_set rd v s) (\<lambda>s1. Inr (d, s1))"

definition load_reg ::
  "Decode \<Rightarrow> nat \<Rightarrow> u32 \<Rightarrow> nat \<Rightarrow> (u32 \<Rightarrow> u32) \<Rightarrow> 'a nemu_scheme \<Rightarrow> (Decode \<times> 'a nemu_scheme) res" where
  "load_reg d rd addr len ext s =
     bind_res (vaddr_read addr len s) (\<lambda>(v, s1). assign_reg d rd (ext v) s1)"

definition store_mem ::
  "Decode \<Rightarrow> u32 \<Rightarrow> nat \<Rightarrow> u32 \<Rightarrow> 'a nemu_scheme \<Rightarrow> (Decode \<times> 'a nemu_scheme) res" where
  "store_mem d addr len data s = bind_res (vaddr_write addr len data s) (\<lambda>s1. Inr (d, s1))"

lemma gpr_get_ok [simp]: "i < 32 \<Longrightarrow> gpr_get i s = Inr (gpr (cpu s) i)"
  by (simp add: gpr_get_def)

lemma gpr_set_ok [simp]:
  "i < 32 \<Longrightarrow> gpr_set i v s = Inr (s\<lparr>cpu := (cpu s)\<lparr>gpr := (gpr (cpu s))(i := v)\<rparr>\<rparr>)"
  by (simp add: gpr_set_def)

lemma fetch_pmem:
  "in_pmem p \<Longrightarrow> guest_to_host p + 4 \<le> CONFIG_MSIZE \<Longrightarrow>
   inst_fetch p 4 s = Inr (le_word (load_bytes (pmem s) (guest_to_host p) 4), p + 4, s)"
  by (simp add: inst_fetch_def vaddr_ifetch_def paddr_read_pmem access_len_def)

lemma next_in_pmem:
  assumes "in_pmem p" and "guest_to_host p + n < CONFIG_MSIZE"
  shows "in_pmem (p + of_nat n) \<and> guest_to_host (p + of_nat n) = guest_to_host p + n"
proof -
  have n: "unat (of_nat n :: u32) = n"
    using assms by (simp add: CONFIG_MSIZE_def unsigned_of_nat take_bit_nat_eq_self_iff)
  have p: "0x80000000 \<le> unat p" "unat p < 0x88000000" "unat p - 0x80000000 + n < 0x8000000"
    using assms by (auto simp: in_pmem_iff guest_to_host_in_pmem CONFIG_MSIZE_def)
  have "unat (p + of_nat n) = unat p + n"
    using p by (subst unat_plus_if') (simp add: n)
  then show ?thesis using p by (simp add: in_pmem_iff guest_to_host_in_pmem)
qed

lemma assign_reg_ok [simp]:
  "rd < 32 \<Longrightarrow> assign_reg d rd v s = Inr (d, s\<lparr>cpu := (cpu s)\<lparr>gpr := (gpr (cpu s))(rd := v)\<rparr>\<rparr>)"
  by (simp add: assign_reg_def)

lemma BITS_reg_less [simp]: "unat (BITS x (lo + 4) lo) < 32"
  using unat_BITS_less [of "lo + 4" lo x] by simp

lemma vaddr_read_cpu: "vaddr_read a n s = Inr (v, s1) \<Longrightarrow> cpu s1 = cpu s"
  using paddr_read_keeps [of a n s v s1] by (cases s, cases s1) (simp add: vaddr_read_def)

lemma vaddr_write_cpu: "vaddr_write a n v s = Inr s1 \<Longrightarrow> cpu s1 = cpu s"
  using paddr_write_keeps [of a n v s s1] by (cases s, cases s1) (simp add: vaddr_write_def)

lemma cpu_set_nemu_state [simp]: "cpu (set_nemu_state st p r s) = cpu s"
  by (cases s) (simp add: set_nemu_state_def difftest_skip_ref_def)

lemma inst_fetch_cpu: "inst_fetch p n s = Inr (i, p', s') \<Longrightarrow> cpu s' = cpu s"
  by (auto simp: inst_fetch_def vaddr_ifetch_def res_simps dest: vaddr_read_cpu [unfolded vaddr_read_def])

lemma invalid_inst_cpu:
  assumes "invalid_inst p s = Inr s'"
  shows "cpu s' = cpu s"
proof -
  from assms obtain t0 p1 s1 t1 p2 s2 where
    f: "inst_fetch p 4 s = Inr (t0, p1, s1)" "inst_fetch p1 4 s1 = Inr (t1, p2, s2)"
    and s': "s' = set_nemu_state NEMU_ABORT p (- 1) s2"
    by (auto simp: invalid_inst_def elim!: bind_resE)
  show ?thesis unfolding s' by (simp add: inst_fetch_cpu [OF f(1)] inst_fetch_cpu [OF f(2)])
qed

lemma cpu_NEMUTRAP [simp]: "cpu (NEMUTRAP p r s) = cpu s"
  by (simp add: NEMUTRAP_def)

text \<open>
  What an instruction keeps, whatever it does: all state beyond the CPU, the instruction count,
  and the run state unless it ends the run.
\<close>

definition isa_keeps :: "'a nemu_scheme \<Rightarrow> 'a nemu_scheme \<Rightarrow> bool" where
  "isa_keeps s s' \<longleftrightarrow> nemu.more s' = nemu.more s \<and> g_nr_guest_inst s' = g_nr_guest_inst s
     \<and> (run_state (nemu_state s') = run_state (nemu_state s) \<or> ended (run_state (nemu_state s')))"

lemma isa_keeps_refl [simp]: "isa_keeps s s"
  by (simp add: isa_keeps_def)

lemma isa_keeps_trans: "isa_keeps s t \<Longrightarrow> isa_keeps t u \<Longrightarrow> isa_keeps s u"
  by (auto simp: isa_keeps_def)

lemma isa_keeps_cpu [simp]: "isa_keeps s (s\<lparr>cpu := c\<rparr>)"
  by (simp add: isa_keeps_def)

lemma isa_keeps_read: "paddr_read a n s = Inr (v, s') \<Longrightarrow> isa_keeps s s'"
  using paddr_read_keeps [of a n s v s'] by (cases s, cases s') (simp add: isa_keeps_def)

lemma isa_keeps_write: "paddr_write a n v s = Inr s' \<Longrightarrow> isa_keeps s s'"
  using paddr_write_keeps [of a n v s s'] by (cases s, cases s') (simp add: isa_keeps_def)

lemma isa_keeps_state: "ended st \<Longrightarrow> isa_keeps s (set_nemu_state st p r s)"
  by (cases s) (simp add: isa_keeps_def set_nemu_state_def difftest_skip_ref_def)

lemma isa_keeps_trap [simp]: "isa_keeps s (NEMUTRAP p r s)"
  by (simp add: NEMUTRAP_def isa_keeps_state ended_def)

lemma isa_keeps_fetch: "inst_fetch p n s = Inr (i, p', s') \<Longrightarrow> isa_keeps s s'"
  by (auto simp: inst_fetch_def vaddr_ifetch_def res_simps dest: isa_keeps_read)

lemma isa_keeps_inv:
  assumes "invalid_inst p s = Inr s'"
  shows "isa_keeps s s'"
proof -
  from assms obtain t0 p1 s1 t1 p2 s2 where
    "inst_fetch p 4 s = Inr (t0, p1, s1)" "inst_fetch p1 4 s1 = Inr (t1, p2, s2)"
    and s': "s' = set_nemu_state NEMU_ABORT p (- 1) s2"
    by (auto simp: invalid_inst_def elim!: bind_resE)
  from isa_keeps_trans [OF isa_keeps_fetch [OF this(1)] isa_keeps_fetch [OF this(2)]]
  show ?thesis unfolding s' by (rule isa_keeps_trans) (simp add: isa_keeps_state ended_def)
qed

lemma isa_keeps_gpr_set: "gpr_set i v s = Inr s' \<Longrightarrow> isa_keeps s s'"
  by (auto simp: gpr_set_def res_simps)

lemma isa_keeps_assign: "assign_reg d rd v s = Inr (d', s') \<Longrightarrow> isa_keeps s s'"
  by (auto simp: assign_reg_def res_simps dest: isa_keeps_gpr_set)

lemma isa_keeps_load: "load_reg d rd a n ext s = Inr (d', s') \<Longrightarrow> isa_keeps s s'"
  by (auto simp: load_reg_def vaddr_read_def elim!: bind_resE
      intro: isa_keeps_trans dest!: isa_keeps_read isa_keeps_assign)

lemma isa_keeps_store: "store_mem d a n v s = Inr (d', s') \<Longrightarrow> isa_keeps s s'"
  by (auto simp: store_mem_def vaddr_write_def elim!: bind_resE dest!: isa_keeps_write)

lemmas isa_keeps_step = isa_keeps_assign isa_keeps_load isa_keeps_store isa_keeps_inv isa_keeps_gpr_set

text \<open>The static variables of the emulator before \<open>main\<close>.\<close>

definition initial_nemu :: nemu where
  "initial_nemu = mem.extend initial_mem (nemu.fields \<lparr>gpr = (\<lambda>_. 0), pc = 0\<rparr>)"

lemma cpu_initial_nemu [simp]: "cpu initial_nemu = \<lparr>gpr = (\<lambda>_. 0), pc = 0\<rparr>"
  by (simp add: initial_nemu_def initial_mem_def mem.defs dev.defs initial_dev_def nemu.defs)

end
