(* ===== verification/Riscv32.thy ===== *)
theory Riscv32
  imports Isa
begin

text \<open>
  The RISC-V guest, \<open>src/isa/riscv32/\<close>: the decoder and executor of \<open>inst.c\<close>, the register
  names of \<open>reg.c\<close>, the built-in image and reset of \<open>init.c\<close>, and the MMU, interrupt and
  difftest stubs. The pattern table is kept as the source has it, pattern strings included;
  one constructor of \<open>rv_inst\<close> stands for each \<open>INSTPAT\<close> entry's execute body.
\<close>

section \<open>\<open>inst.c\<close>\<close>

datatype rv_type = TYPE_R | TYPE_I | TYPE_S | TYPE_B | TYPE_U | TYPE_J | TYPE_N

datatype rv_inst =
    I_auipc | I_lbu | I_sb0
  | I_add | I_sub | I_and | I_or | I_xor | I_sll | I_srl | I_sra | I_slt | I_sltu
  | I_mul | I_mulh | I_div | I_divu | I_rem | I_remu
  | I_addi | I_andi | I_ori | I_xori | I_slli | I_srli | I_srai | I_slti | I_sltiu
  | I_lw | I_lh | I_lhu | I_jalr
  | I_sw | I_sh | I_sb | I_lui
  | I_beq | I_bne | I_blt | I_bge | I_bltu | I_bgeu
  | I_jal | I_ebreak | I_inv

definition immI :: "u64 \<Rightarrow> u32" where
  "immI i = to_word (SEXT (BITS i 31 20) 12)"

definition immU :: "u64 \<Rightarrow> u32" where
  "immU i = to_word (push_bit 12 (SEXT (BITS i 31 12) 20))"

definition immS :: "u64 \<Rightarrow> u32" where
  "immS i = to_word (push_bit 5 (SEXT (BITS i 31 25) 7) OR BITS i 11 7)"

definition immB :: "u64 \<Rightarrow> u32" where
  "immB i = to_word (push_bit 12 (SEXT (BITS i 31 31) 1) OR push_bit 5 (BITS i 30 25)
              OR push_bit 1 (BITS i 11 8) OR push_bit 11 (BITS i 7 7))"

definition immJ :: "u64 \<Rightarrow> u32" where
  "immJ i = to_word (push_bit 20 (SEXT (BITS i 31 31) 1) OR push_bit 1 (BITS i 30 21)
              OR push_bit 11 (BITS i 20 20) OR push_bit 12 (BITS i 19 12))"

text \<open>\<open>decode_operand\<close> sets \<open>rd\<close>, \<open>src1\<close>, \<open>src2\<close> and \<open>imm\<close>, which start as 0.\<close>

definition rv_decode_operand ::
  "u32 \<Rightarrow> rv_type \<Rightarrow> 'a nemu_scheme \<Rightarrow> (nat \<times> u32 \<times> u32 \<times> u32) res" where
  "rv_decode_operand inst ty s =
     (let i = ucast inst;
          rs1 = unat (BITS i 19 15);
          rs2 = unat (BITS i 24 20);
          rd = unat (BITS i 11 7) in
      case ty of
        TYPE_R \<Rightarrow> bind_res (gpr_get rs1 s) (\<lambda>a. bind_res (gpr_get rs2 s) (\<lambda>b. Inr (rd, a, b, 0)))
      | TYPE_I \<Rightarrow> bind_res (gpr_get rs1 s) (\<lambda>a. Inr (rd, a, 0, immI i))
      | TYPE_S \<Rightarrow> bind_res (gpr_get rs1 s) (\<lambda>a. bind_res (gpr_get rs2 s) (\<lambda>b. Inr (rd, a, b, immS i)))
      | TYPE_U \<Rightarrow> Inr (rd, 0, 0, immU i)
      | TYPE_B \<Rightarrow> bind_res (gpr_get rs1 s) (\<lambda>a. bind_res (gpr_get rs2 s) (\<lambda>b. Inr (rd, a, b, immB i)))
      | TYPE_J \<Rightarrow> Inr (rd, 0, 0, immJ i)
      | TYPE_N \<Rightarrow> Inr (rd, 0, 0, 0))"

text \<open>The pattern table between \<open>INSTPAT_START\<close> and \<open>INSTPAT_END\<close>.\<close>

definition rv_instpats :: "(string \<times> rv_inst \<times> rv_type) list" where
  "rv_instpats =
    [(''??????? ????? ????? ??? ????? 00101 11'', I_auipc, TYPE_U),
     (''??????? ????? ????? 100 ????? 00000 11'', I_lbu, TYPE_I),
     (''??????? ????? ????? 000 ????? 01000 11'', I_sb0, TYPE_S),
     (''0000000 ????? ????? 000 ????? 01100 11'', I_add, TYPE_R),
     (''0100000 ????? ????? 000 ????? 01100 11'', I_sub, TYPE_R),
     (''0000000 ????? ????? 111 ????? 01100 11'', I_and, TYPE_R),
     (''0000000 ????? ????? 110 ????? 01100 11'', I_or, TYPE_R),
     (''0000000 ????? ????? 100 ????? 01100 11'', I_xor, TYPE_R),
     (''0000000 ????? ????? 001 ????? 01100 11'', I_sll, TYPE_R),
     (''0000000 ????? ????? 101 ????? 01100 11'', I_srl, TYPE_R),
     (''0100000 ????? ????? 101 ????? 01100 11'', I_sra, TYPE_R),
     (''0000000 ????? ????? 010 ????? 01100 11'', I_slt, TYPE_R),
     (''0000000 ????? ????? 011 ????? 01100 11'', I_sltu, TYPE_R),
     (''0000001 ????? ????? 000 ????? 01100 11'', I_mul, TYPE_R),
     (''0000001 ????? ????? 001 ????? 01100 11'', I_mulh, TYPE_R),
     (''0000001 ????? ????? 100 ????? 01100 11'', I_div, TYPE_R),
     (''0000001 ????? ????? 101 ????? 01100 11'', I_divu, TYPE_R),
     (''0000001 ????? ????? 110 ????? 01100 11'', I_rem, TYPE_R),
     (''0000001 ????? ????? 111 ????? 01100 11'', I_remu, TYPE_R),
     (''??????? ????? ????? 000 ????? 00100 11'', I_addi, TYPE_I),
     (''??????? ????? ????? 111 ????? 00100 11'', I_andi, TYPE_I),
     (''??????? ????? ????? 110 ????? 00100 11'', I_ori, TYPE_I),
     (''??????? ????? ????? 100 ????? 00100 11'', I_xori, TYPE_I),
     (''0000000 ????? ????? 001 ????? 00100 11'', I_slli, TYPE_I),
     (''0000000 ????? ????? 101 ????? 00100 11'', I_srli, TYPE_I),
     (''0100000 ????? ????? 101 ????? 00100 11'', I_srai, TYPE_I),
     (''??????? ????? ????? 010 ????? 00100 11'', I_slti, TYPE_I),
     (''??????? ????? ????? 011 ????? 00100 11'', I_sltiu, TYPE_I),
     (''??????? ????? ????? 010 ????? 00000 11'', I_lw, TYPE_I),
     (''??????? ????? ????? 001 ????? 00000 11'', I_lh, TYPE_I),
     (''??????? ????? ????? 101 ????? 00000 11'', I_lhu, TYPE_I),
     (''??????? ????? ????? 000 ????? 11001 11'', I_jalr, TYPE_I),
     (''??????? ????? ????? 010 ????? 01000 11'', I_sw, TYPE_S),
     (''??????? ????? ????? 001 ????? 01000 11'', I_sh, TYPE_S),
     (''??????? ????? ????? 000 ????? 01000 11'', I_sb, TYPE_S),
     (''??????? ????? ????? ??? ????? 01101 11'', I_lui, TYPE_U),
     (''??????? ????? ????? 000 ????? 11000 11'', I_beq, TYPE_B),
     (''??????? ????? ????? 001 ????? 11000 11'', I_bne, TYPE_B),
     (''??????? ????? ????? 100 ????? 11000 11'', I_blt, TYPE_B),
     (''??????? ????? ????? 101 ????? 11000 11'', I_bge, TYPE_B),
     (''??????? ????? ????? 110 ????? 11000 11'', I_bltu, TYPE_B),
     (''??????? ????? ????? 111 ????? 11000 11'', I_bgeu, TYPE_B),
     (''??????? ????? ????? ??? ????? 11011 11'', I_jal, TYPE_J),
     (''0000000 00001 00000 000 00000 11100 11'', I_ebreak, TYPE_N),
     (''??????? ????? ????? ??? ????? ????? ??'', I_inv, TYPE_N)]"

text \<open>
  The execute bodies. Comparisons and shifts follow C's conversions: \<open>(int32_t)src1 < imm\<close> of
  \<open>slti\<close> compares an \<open>int32_t\<close> with a \<open>uint32_t\<close>, which is an unsigned comparison; \<open>sltiu\<close>
  compares with \<open>imm & 0xfff\<close>. Division traps on the host for a zero divisor and for the one
  overflowing signed division.
\<close>

definition shamt :: "u32 \<Rightarrow> nat" where
  "shamt w = unat (w AND 0x1f)"

definition sdiv_traps :: "u32 \<Rightarrow> u32 \<Rightarrow> bool" where
  "sdiv_traps a b \<longleftrightarrow> b = 0 \<or> (sint a = - (2 ^ 31) \<and> sint b = - 1)"

definition branch :: "bool \<Rightarrow> u32 \<Rightarrow> Decode \<Rightarrow> Decode" where
  "branch c imm d = d\<lparr>dnpc := (if c then d_pc d + imm else snpc d)\<rparr>"

fun rv_execute ::
  "rv_inst \<Rightarrow> Decode \<Rightarrow> nat \<Rightarrow> u32 \<Rightarrow> u32 \<Rightarrow> u32 \<Rightarrow> 'a nemu_scheme \<Rightarrow> (Decode \<times> 'a nemu_scheme) res" where
  "rv_execute I_auipc d rd src1 src2 imm s = assign_reg d rd (d_pc d + imm) s"
| "rv_execute I_lbu d rd src1 src2 imm s = load_reg d rd (src1 + imm) 1 (\<lambda>v. v) s"
| "rv_execute I_sb0 d rd src1 src2 imm s = store_mem d (src1 + imm) 1 src2 s"
| "rv_execute I_add d rd src1 src2 imm s = assign_reg d rd (src1 + src2) s"
| "rv_execute I_sub d rd src1 src2 imm s = assign_reg d rd (src1 - src2) s"
| "rv_execute I_and d rd src1 src2 imm s = assign_reg d rd (src1 AND src2) s"
| "rv_execute I_or d rd src1 src2 imm s = assign_reg d rd (src1 OR src2) s"
| "rv_execute I_xor d rd src1 src2 imm s = assign_reg d rd (src1 XOR src2) s"
| "rv_execute I_sll d rd src1 src2 imm s = assign_reg d rd (push_bit (shamt src2) src1) s"
| "rv_execute I_srl d rd src1 src2 imm s = assign_reg d rd (drop_bit (shamt src2) src1) s"
| "rv_execute I_sra d rd src1 src2 imm s = assign_reg d rd (signed_drop_bit (shamt src2) src1) s"
| "rv_execute I_slt d rd src1 src2 imm s = assign_reg d rd (of_bool (sint src1 < sint src2)) s"
| "rv_execute I_sltu d rd src1 src2 imm s = assign_reg d rd (of_bool (src1 < src2)) s"
| "rv_execute I_mul d rd src1 src2 imm s = assign_reg d rd (src1 * src2) s"
| "rv_execute I_mulh d rd src1 src2 imm s =
     assign_reg d rd (to_word (drop_bit 32 (SEXT (ucast src1) 32 * SEXT (ucast src2) 32))) s"
| "rv_execute I_div d rd src1 src2 imm s =
     (if sdiv_traps src1 src2 then Inl DivTrap
      else assign_reg d rd (word_of_int (c_div (sint src1) (sint src2))) s)"
| "rv_execute I_divu d rd src1 src2 imm s =
     (if src2 = 0 then Inl DivTrap else assign_reg d rd (src1 div src2) s)"
| "rv_execute I_rem d rd src1 src2 imm s =
     (if sdiv_traps src1 src2 then Inl DivTrap
      else assign_reg d rd (word_of_int (c_mod (sint src1) (sint src2))) s)"
| "rv_execute I_remu d rd src1 src2 imm s =
     (if src2 = 0 then Inl DivTrap else assign_reg d rd (src1 mod src2) s)"
| "rv_execute I_addi d rd src1 src2 imm s = assign_reg d rd (src1 + imm) s"
| "rv_execute I_andi d rd src1 src2 imm s = assign_reg d rd (src1 AND imm) s"
| "rv_execute I_ori d rd src1 src2 imm s = assign_reg d rd (src1 OR imm) s"
| "rv_execute I_xori d rd src1 src2 imm s = assign_reg d rd (src1 XOR imm) s"
| "rv_execute I_slli d rd src1 src2 imm s = assign_reg d rd (push_bit (shamt imm) src1) s"
| "rv_execute I_srli d rd src1 src2 imm s = assign_reg d rd (drop_bit (shamt imm) src1) s"
| "rv_execute I_srai d rd src1 src2 imm s = assign_reg d rd (signed_drop_bit (shamt imm) src1) s"
| "rv_execute I_slti d rd src1 src2 imm s = assign_reg d rd (of_bool (src1 < imm)) s"
| "rv_execute I_sltiu d rd src1 src2 imm s = assign_reg d rd (of_bool (src1 < imm AND 0xfff)) s"
| "rv_execute I_lw d rd src1 src2 imm s = load_reg d rd (src1 + imm) 4 (\<lambda>v. v) s"
| "rv_execute I_lh d rd src1 src2 imm s =
     load_reg d rd (src1 + imm) 2 (\<lambda>v. to_word (SEXT (ucast v) 16)) s"
| "rv_execute I_lhu d rd src1 src2 imm s = load_reg d rd (src1 + imm) 2 (\<lambda>v. v) s"
| "rv_execute I_jalr d rd src1 src2 imm s = assign_reg (d\<lparr>dnpc := src1 + imm\<rparr>) rd (snpc d) s"
| "rv_execute I_sw d rd src1 src2 imm s = store_mem d (src1 + imm) 4 src2 s"
| "rv_execute I_sh d rd src1 src2 imm s = store_mem d (src1 + imm) 2 (src2 AND 0xffff) s"
| "rv_execute I_sb d rd src1 src2 imm s = store_mem d (src1 + imm) 1 (src2 AND 0xff) s"
| "rv_execute I_lui d rd src1 src2 imm s = assign_reg d rd imm s"
| "rv_execute I_beq d rd src1 src2 imm s = Inr (branch (src1 = src2) imm d, s)"
| "rv_execute I_bne d rd src1 src2 imm s = Inr (branch (src1 \<noteq> src2) imm d, s)"
| "rv_execute I_blt d rd src1 src2 imm s = Inr (branch (sint src1 < sint src2) imm d, s)"
| "rv_execute I_bge d rd src1 src2 imm s = Inr (branch (sint src2 \<le> sint src1) imm d, s)"
| "rv_execute I_bltu d rd src1 src2 imm s = Inr (branch (src1 < src2) imm d, s)"
| "rv_execute I_bgeu d rd src1 src2 imm s = Inr (branch (src2 \<le> src1) imm d, s)"
| "rv_execute I_jal d rd src1 src2 imm s = assign_reg (d\<lparr>dnpc := d_pc d + imm\<rparr>) rd (snpc d) s"
| "rv_execute I_ebreak d rd src1 src2 imm s =
     bind_res (gpr_get 10 s) (\<lambda>a0. Inr (d, NEMUTRAP (d_pc d) a0 s))"
| "rv_execute I_inv d rd src1 src2 imm s =
     bind_res (invalid_inst (d_pc d) s) (\<lambda>s1. Inr (d, s1))"

definition rv_instpat_match ::
  "Decode \<Rightarrow> rv_inst \<Rightarrow> rv_type \<Rightarrow> 'a nemu_scheme \<Rightarrow> (Decode \<times> 'a nemu_scheme) res" where
  "rv_instpat_match d nm ty s =
     bind_res (rv_decode_operand (isa_inst d) ty s) (\<lambda>(rd, src1, src2, imm).
       rv_execute nm d rd src1 src2 imm s)"

definition rv_decode_exec :: "Decode \<Rightarrow> 'a nemu_scheme \<Rightarrow> (Decode \<times> 'a nemu_scheme) res" where
  "rv_decode_exec d s =
     (let d0 = d\<lparr>dnpc := snpc d\<rparr> in
      bind_res (instpat_find rv_instpats (ucast (isa_inst d0))) (\<lambda>hit.
      bind_res (case hit of None \<Rightarrow> Inr (d0, s) | Some (nm, ty) \<Rightarrow> rv_instpat_match d0 nm ty s)
        (\<lambda>(d1, s1).
      bind_res (gpr_set 0 0 s1) (\<lambda>s2. Inr (d1, s2)))))"

definition rv_isa_exec_once :: "Decode \<Rightarrow> 'a nemu_scheme \<Rightarrow> (Decode \<times> 'a nemu_scheme) res" where
  "rv_isa_exec_once d s =
     bind_res (inst_fetch (snpc d) 4 s) (\<lambda>(i, p, s1).
       rv_decode_exec (d\<lparr>isa_inst := i, snpc := p\<rparr>) s1)"

section \<open>\<open>reg.c\<close>\<close>

definition rv_regs :: "string list" where
  "rv_regs =
    [''$0'', ''ra'', ''sp'', ''gp'', ''tp'', ''t0'', ''t1'', ''t2'',
     ''s0'', ''s1'', ''a0'', ''a1'', ''a2'', ''a3'', ''a4'', ''a5'',
     ''a6'', ''a7'', ''s2'', ''s3'', ''s4'', ''s5'', ''s6'', ''s7'',
     ''s8'', ''s9'', ''s10'', ''s11'', ''t3'', ''t4'', ''t5'', ''t6'']"

text \<open>
  The result and the value of \<open>*success\<close>; \<open>s + 1\<close> skips the first character. On the empty
  string the second comparison reads past the terminator, so the model takes it as a string
  that matches no name.
\<close>

definition rv_isa_reg_display :: "'a nemu_scheme \<Rightarrow> reg_row list" where
  "rv_isa_reg_display s =
     concat (map (\<lambda>i. [RegRow i (rv_regs ! i) (gpr (cpu s) i), RegRow (i + 16) (rv_regs ! (i + 16)) (gpr (cpu s) (i + 16))])
       [0..<16]) @ [PcRow (pc (cpu s))]"

definition rv_isa_reg_str2val :: "string \<Rightarrow> 'a nemu_scheme \<Rightarrow> u32 \<times> bool" where
  "rv_isa_reg_str2val str s =
     (if str = rv_regs ! 0 then (gpr (cpu s) 0, True)
      else if str = ''$pc'' then (pc (cpu s), True)
      else case find (\<lambda>i. str \<noteq> [] \<and> tl str = rv_regs ! i) [1..<32] of
             Some i \<Rightarrow> (gpr (cpu s) i, True)
           | None \<Rightarrow> (0, False))"

section \<open>\<open>init.c\<close> and the system stubs\<close>

definition rv_img :: "u32 list" where
  "rv_img =
    [0b00000000000100000000011000010011,
     0b00000001111100000000011010010011,
     0b00000000110101100001011100110011,
     0b00000000000001110010011110000011,
     0b00000000000100000000011010010011,
     0b00000000110101100000010001100011,
     0b00000000000000001000000001100111,
     0b11111111110111111111000011101111,
     0x00100073]"

definition rv_restart :: "'a nemu_scheme \<Rightarrow> 'a nemu_scheme" where
  "rv_restart s = s\<lparr>cpu := \<lparr>gpr = (gpr (cpu s))(0 := 0), pc = RESET_VECTOR\<rparr>\<rparr>"

definition rv_init_isa :: "'a nemu_scheme \<Rightarrow> 'a nemu_scheme res" where
  "rv_init_isa s =
     bind_res (pmem_copy RESET_VECTOR (concat (map (le_bytes 4) rv_img)) s) (\<lambda>s1.
       Inr (rv_restart s1))"

definition rv_isa_raise_intr :: "u32 \<Rightarrow> u32 \<Rightarrow> u32" where
  "rv_isa_raise_intr no epc = 0"

definition INTR_EMPTY :: u32 where "INTR_EMPTY = - 1"

definition rv_isa_query_intr :: u32 where
  "rv_isa_query_intr = INTR_EMPTY"

definition MEM_RET_FAIL :: u32 where "MEM_RET_FAIL = 1"

definition rv_isa_mmu_translate :: "u32 \<Rightarrow> nat \<Rightarrow> nat \<Rightarrow> u32" where
  "rv_isa_mmu_translate vaddr len ty = MEM_RET_FAIL"

definition rv_isa_difftest_checkregs :: "CPU \<Rightarrow> u32 \<Rightarrow> 'a nemu_scheme \<Rightarrow> bool" where
  "rv_isa_difftest_checkregs ref_r p s = False"

section \<open>What an instruction keeps\<close>

lemma rv_execute_keeps: "rv_execute nm d rd a b imm s = Inr (d', s') \<Longrightarrow> isa_keeps s s'"
  by (cases nm) (auto simp: res_simps dest: isa_keeps_step split: if_splits)

lemma rv_decode_exec_keeps:
  assumes "rv_decode_exec d s = Inr (d', s')"
  shows "isa_keeps s s' \<and> gpr (cpu s') 0 = 0"
proof -
  from assms obtain hit d1 s1 where
    body: "(case hit of None \<Rightarrow> Inr (d\<lparr>dnpc := snpc d\<rparr>, s)
       | Some (nm, ty) \<Rightarrow> rv_instpat_match (d\<lparr>dnpc := snpc d\<rparr>) nm ty s) = Inr (d1, s1)"
    and last: "gpr_set 0 0 s1 = Inr s'"
    by (auto simp: rv_decode_exec_def Let_def elim!: bind_resE)
  have "isa_keeps s s1"
    using body by (auto simp: rv_instpat_match_def elim!: bind_resE dest: rv_execute_keeps split: option.splits)
  from isa_keeps_trans [OF this isa_keeps_gpr_set [OF last]] last show ?thesis by auto
qed

lemma rv_isa_exec_once_keeps:
  assumes "rv_isa_exec_once d s = Inr (d', s')"
  shows "isa_keeps s s' \<and> gpr (cpu s') 0 = 0"
proof -
  from assms obtain i p s1 where "inst_fetch (snpc d) 4 s = Inr (i, p, s1)"
    and "rv_decode_exec (d\<lparr>isa_inst := i, snpc := p\<rparr>) s1 = Inr (d', s')"
    by (auto simp: rv_isa_exec_once_def elim!: bind_resE)
  with rv_decode_exec_keeps [OF this(2)] isa_keeps_trans [OF isa_keeps_fetch] show ?thesis by blast
qed

end
