(* ===== verification/RiscvSpec.thy ===== *)
theory RiscvSpec
  imports Riscv32
begin

text \<open>
  The reference for the RISC-V interpreter: the instructions of RV32IM as a datatype, their
  encoding by the formats of the instruction-set manual, and one architectural step, written
  on integers and without bit patterns. The refinement theorem says that \<open>decode_exec\<close> of
  \<open>inst.c\<close>, given the encoding of an instruction, does the architectural step. The side
  condition \<open>faithful\<close> names the cases in which it does not: signed comparison with an
  immediate, an odd jump target, and the divisions that trap on the host.
\<close>

section \<open>Instructions and their encoding\<close>

type_synonym rid = "5 word"

datatype alu = A_ADD | A_SUB | A_SLL | A_SLT | A_SLTU | A_XOR | A_SRL | A_SRA | A_OR | A_AND
datatype muldiv = MUL | MULH | DIV | DIVU | REM | REMU
datatype alui = ADDI | SLTI | SLTIU | XORI | ORI | ANDI
datatype shifti = SLLI | SRLI | SRAI
datatype cond = BEQ | BNE | BLT | BGE | BLTU | BGEU
datatype loadop = LW | LH | LHU | LBU
datatype storeop = SW | SH | SB

text \<open>Branch and jump offsets are in units of two bytes.\<close>

datatype instr =
    Lui rid "20 word"
  | Auipc rid "20 word"
  | Jal rid "20 word"
  | Jalr rid rid "12 word"
  | Branch cond rid rid "12 word"
  | Load loadop rid rid "12 word"
  | Store storeop rid rid "12 word"
  | OpImm alui rid rid "12 word"
  | ShiftImm shifti rid rid "5 word"
  | Op alu rid rid rid
  | MulDiv muldiv rid rid rid
  | Ebreak

text \<open>The six fields of the R format; the other formats fill the fields with immediate bits.\<close>

definition enc_r :: "7 word \<Rightarrow> rid \<Rightarrow> rid \<Rightarrow> 3 word \<Rightarrow> rid \<Rightarrow> 7 word \<Rightarrow> u32" where
  "enc_r f7 rs2 rs1 f3 rd op =
     push_bit 25 (ucast f7) OR push_bit 20 (ucast rs2) OR push_bit 15 (ucast rs1)
     OR push_bit 12 (ucast f3) OR push_bit 7 (ucast rd) OR ucast op"

definition enc_i :: "12 word \<Rightarrow> rid \<Rightarrow> 3 word \<Rightarrow> rid \<Rightarrow> 7 word \<Rightarrow> u32" where
  "enc_i imm rs1 f3 rd op = enc_r (ucast (drop_bit 5 imm)) (ucast imm) rs1 f3 rd op"

definition enc_s :: "12 word \<Rightarrow> rid \<Rightarrow> rid \<Rightarrow> 3 word \<Rightarrow> 7 word \<Rightarrow> u32" where
  "enc_s imm rs2 rs1 f3 op = enc_r (ucast (drop_bit 5 imm)) rs2 rs1 f3 (ucast imm) op"

definition enc_b :: "12 word \<Rightarrow> rid \<Rightarrow> rid \<Rightarrow> 3 word \<Rightarrow> 7 word \<Rightarrow> u32" where
  "enc_b k rs2 rs1 f3 op =
     enc_r (push_bit 6 (ucast (drop_bit 11 k)) OR take_bit 6 (ucast (drop_bit 4 k))) rs2 rs1 f3
       (push_bit 1 (ucast k) OR take_bit 1 (ucast (drop_bit 10 k))) op"

definition enc_u :: "20 word \<Rightarrow> rid \<Rightarrow> 7 word \<Rightarrow> u32" where
  "enc_u imm rd op =
     enc_r (ucast (drop_bit 13 imm)) (ucast (drop_bit 8 imm)) (ucast (drop_bit 3 imm)) (ucast imm) rd op"

definition enc_j :: "20 word \<Rightarrow> rid \<Rightarrow> 7 word \<Rightarrow> u32" where
  "enc_j k rd op =
     enc_r (push_bit 6 (ucast (drop_bit 19 k)) OR take_bit 6 (ucast (drop_bit 4 k)))
       (push_bit 1 (ucast k) OR take_bit 1 (ucast (drop_bit 10 k)))
       (ucast (drop_bit 14 k)) (ucast (drop_bit 11 k)) rd op"

fun alu_code :: "alu \<Rightarrow> 7 word \<times> 3 word" where
  "alu_code A_ADD = (0, 0)"
| "alu_code A_SUB = (0x20, 0)"
| "alu_code A_SLL = (0, 1)"
| "alu_code A_SLT = (0, 2)"
| "alu_code A_SLTU = (0, 3)"
| "alu_code A_XOR = (0, 4)"
| "alu_code A_SRL = (0, 5)"
| "alu_code A_SRA = (0x20, 5)"
| "alu_code A_OR = (0, 6)"
| "alu_code A_AND = (0, 7)"

fun muldiv_code :: "muldiv \<Rightarrow> 3 word" where
  "muldiv_code MUL = 0"
| "muldiv_code MULH = 1"
| "muldiv_code DIV = 4"
| "muldiv_code DIVU = 5"
| "muldiv_code REM = 6"
| "muldiv_code REMU = 7"

fun alui_code :: "alui \<Rightarrow> 3 word" where
  "alui_code ADDI = 0"
| "alui_code SLTI = 2"
| "alui_code SLTIU = 3"
| "alui_code XORI = 4"
| "alui_code ORI = 6"
| "alui_code ANDI = 7"

fun shifti_code :: "shifti \<Rightarrow> 7 word \<times> 3 word" where
  "shifti_code SLLI = (0, 1)"
| "shifti_code SRLI = (0, 5)"
| "shifti_code SRAI = (0x20, 5)"

fun cond_code :: "cond \<Rightarrow> 3 word" where
  "cond_code BEQ = 0"
| "cond_code BNE = 1"
| "cond_code BLT = 4"
| "cond_code BGE = 5"
| "cond_code BLTU = 6"
| "cond_code BGEU = 7"

fun load_code :: "loadop \<Rightarrow> 3 word" where
  "load_code LW = 2"
| "load_code LH = 1"
| "load_code LHU = 5"
| "load_code LBU = 4"

fun store_code :: "storeop \<Rightarrow> 3 word" where
  "store_code SW = 2"
| "store_code SH = 1"
| "store_code SB = 0"

fun encode :: "instr \<Rightarrow> u32" where
  "encode (Lui rd imm) = enc_u imm rd 0x37"
| "encode (Auipc rd imm) = enc_u imm rd 0x17"
| "encode (Jal rd k) = enc_j k rd 0x6f"
| "encode (Jalr rd rs1 imm) = enc_i imm rs1 0 rd 0x67"
| "encode (Branch c rs1 rs2 k) = enc_b k rs2 rs1 (cond_code c) 0x63"
| "encode (Load l rd rs1 imm) = enc_i imm rs1 (load_code l) rd 0x03"
| "encode (Store st rs1 rs2 imm) = enc_s imm rs2 rs1 (store_code st) 0x23"
| "encode (OpImm a rd rs1 imm) = enc_i imm rs1 (alui_code a) rd 0x13"
| "encode (ShiftImm a rd rs1 sh) = enc_r (fst (shifti_code a)) sh rs1 (snd (shifti_code a)) rd 0x13"
| "encode (Op a rd rs1 rs2) = enc_r (fst (alu_code a)) rs2 rs1 (snd (alu_code a)) rd 0x33"
| "encode (MulDiv a rd rs1 rs2) = enc_r 1 rs2 rs1 (muldiv_code a) rd 0x33"
| "encode Ebreak = enc_i 1 0 0 0 0x73"

section \<open>The architectural step\<close>

definition xreg :: "rid \<Rightarrow> 'a nemu_scheme \<Rightarrow> u32" where
  "xreg r s = (if r = 0 then 0 else gpr (cpu s) (unat r))"

definition set_xreg :: "rid \<Rightarrow> u32 \<Rightarrow> 'a nemu_scheme \<Rightarrow> 'a nemu_scheme" where
  "set_xreg r v s =
     (if r = 0 then s else s\<lparr>cpu := (cpu s)\<lparr>gpr := (gpr (cpu s))(unat r := v)\<rparr>\<rparr>)"

definition truth :: "bool \<Rightarrow> u32" where
  "truth b = (if b then 1 else 0)"

fun alu_sem :: "alu \<Rightarrow> u32 \<Rightarrow> u32 \<Rightarrow> u32" where
  "alu_sem A_ADD a b = word_of_int (uint a + uint b)"
| "alu_sem A_SUB a b = word_of_int (uint a - uint b)"
| "alu_sem A_SLL a b = word_of_int (uint a * 2 ^ (unat b mod 32))"
| "alu_sem A_SLT a b = truth (sint a < sint b)"
| "alu_sem A_SLTU a b = truth (uint a < uint b)"
| "alu_sem A_XOR a b = a XOR b"
| "alu_sem A_SRL a b = word_of_int (uint a div 2 ^ (unat b mod 32))"
| "alu_sem A_SRA a b = word_of_int (sint a div 2 ^ (unat b mod 32))"
| "alu_sem A_OR a b = a OR b"
| "alu_sem A_AND a b = a AND b"

text \<open>
  Division by zero gives all ones and the dividend as remainder; the overflowing signed
  division gives the dividend and remainder 0.
\<close>

fun muldiv_sem :: "muldiv \<Rightarrow> u32 \<Rightarrow> u32 \<Rightarrow> u32" where
  "muldiv_sem MUL a b = word_of_int (uint a * uint b)"
| "muldiv_sem MULH a b = word_of_int (sint a * sint b div 2 ^ 32)"
| "muldiv_sem DIV a b = (if b = 0 then - 1 else word_of_int (c_div (sint a) (sint b)))"
| "muldiv_sem DIVU a b = (if b = 0 then - 1 else word_of_int (uint a div uint b))"
| "muldiv_sem REM a b = (if b = 0 then a else word_of_int (c_mod (sint a) (sint b)))"
| "muldiv_sem REMU a b = (if b = 0 then a else word_of_int (uint a mod uint b))"

fun alui_sem :: "alui \<Rightarrow> u32 \<Rightarrow> u32 \<Rightarrow> u32" where
  "alui_sem ADDI a b = alu_sem A_ADD a b"
| "alui_sem SLTI a b = alu_sem A_SLT a b"
| "alui_sem SLTIU a b = alu_sem A_SLTU a b"
| "alui_sem XORI a b = alu_sem A_XOR a b"
| "alui_sem ORI a b = alu_sem A_OR a b"
| "alui_sem ANDI a b = alu_sem A_AND a b"

fun shifti_sem :: "shifti \<Rightarrow> u32 \<Rightarrow> u32 \<Rightarrow> u32" where
  "shifti_sem SLLI a b = alu_sem A_SLL a b"
| "shifti_sem SRLI a b = alu_sem A_SRL a b"
| "shifti_sem SRAI a b = alu_sem A_SRA a b"

fun cond_sem :: "cond \<Rightarrow> u32 \<Rightarrow> u32 \<Rightarrow> bool" where
  "cond_sem BEQ a b \<longleftrightarrow> a = b"
| "cond_sem BNE a b \<longleftrightarrow> a \<noteq> b"
| "cond_sem BLT a b \<longleftrightarrow> sint a < sint b"
| "cond_sem BGE a b \<longleftrightarrow> sint a \<ge> sint b"
| "cond_sem BLTU a b \<longleftrightarrow> uint a < uint b"
| "cond_sem BGEU a b \<longleftrightarrow> uint a \<ge> uint b"

fun load_sem :: "loadop \<Rightarrow> nat \<times> (u32 \<Rightarrow> u32)" where
  "load_sem LW = (4, \<lambda>v. v)"
| "load_sem LH = (2, \<lambda>v. scast (ucast v :: u16))"
| "load_sem LHU = (2, \<lambda>v. ucast (ucast v :: u16))"
| "load_sem LBU = (1, \<lambda>v. ucast (ucast v :: u8))"

fun store_len :: "storeop \<Rightarrow> nat" where
  "store_len SW = 4"
| "store_len SH = 2"
| "store_len SB = 1"

text \<open>One instruction at \<open>pc\<close>: the next program counter and the new state.\<close>

fun arch_step :: "instr \<Rightarrow> u32 \<Rightarrow> 'a nemu_scheme \<Rightarrow> (u32 \<times> 'a nemu_scheme) res" where
  "arch_step (Lui rd imm) p s = Inr (p + 4, set_xreg rd (push_bit 12 (ucast imm)) s)"
| "arch_step (Auipc rd imm) p s = Inr (p + 4, set_xreg rd (p + push_bit 12 (ucast imm)) s)"
| "arch_step (Jal rd k) p s = Inr (p + 2 * scast k, set_xreg rd (p + 4) s)"
| "arch_step (Jalr rd rs1 imm) p s =
     Inr ((xreg rs1 s + scast imm) AND NOT 1, set_xreg rd (p + 4) s)"
| "arch_step (Branch c rs1 rs2 k) p s =
     Inr (if cond_sem c (xreg rs1 s) (xreg rs2 s) then p + 2 * scast k else p + 4, s)"
| "arch_step (Load l rd rs1 imm) p s =
     bind_res (vaddr_read (xreg rs1 s + scast imm) (fst (load_sem l)) s) (\<lambda>(v, s1).
       Inr (p + 4, set_xreg rd (snd (load_sem l) v) s1))"
| "arch_step (Store st rs1 rs2 imm) p s =
     bind_res (vaddr_write (xreg rs1 s + scast imm) (store_len st) (xreg rs2 s) s) (\<lambda>s1.
       Inr (p + 4, s1))"
| "arch_step (OpImm a rd rs1 imm) p s = Inr (p + 4, set_xreg rd (alui_sem a (xreg rs1 s) (scast imm)) s)"
| "arch_step (ShiftImm a rd rs1 sh) p s =
     Inr (p + 4, set_xreg rd (shifti_sem a (xreg rs1 s) (ucast sh)) s)"
| "arch_step (Op a rd rs1 rs2) p s = Inr (p + 4, set_xreg rd (alu_sem a (xreg rs1 s) (xreg rs2 s)) s)"
| "arch_step (MulDiv a rd rs1 rs2) p s =
     Inr (p + 4, set_xreg rd (muldiv_sem a (xreg rs1 s) (xreg rs2 s)) s)"
| "arch_step Ebreak p s = Inr (p + 4, NEMUTRAP p (xreg 10 s) s)"

fun faithful :: "instr \<Rightarrow> 'a nemu_scheme \<Rightarrow> bool" where
  "faithful (Jalr rd rs1 imm) s \<longleftrightarrow> even (xreg rs1 s + scast imm)"
| "faithful (OpImm a rd rs1 imm) s \<longleftrightarrow> a \<noteq> SLTI \<and> (a = SLTIU \<longrightarrow> 0 \<le> sint imm)"
| "faithful (MulDiv a rd rs1 rs2) s \<longleftrightarrow>
     (a = DIV \<or> a = REM \<longrightarrow> \<not> sdiv_traps (xreg rs1 s) (xreg rs2 s))
     \<and> (a = DIVU \<or> a = REMU \<longrightarrow> xreg rs2 s \<noteq> 0)"
| "faithful i s \<longleftrightarrow> True"

section \<open>Fields of an encoded instruction\<close>

text \<open>A test against a mask is a test of the fields the mask covers.\<close>

lemma mask_707f:
  "(w :: u64) AND 0x707f = k \<longleftrightarrow>
     k AND 0x707f = k \<and> w AND 0x7f = k AND 0x7f \<and> BITS w 14 12 = BITS k 14 12"
proof -
  have m: "(0x707f :: u64) = mask 7 OR push_bit 12 (mask 3)"
    "(0x7f :: u64) = mask 7"
    by (simp_all add: mask_eq_exp_minus_1)
  have split: "x AND 0x707f = (x AND 0x7f) OR push_bit 12 (BITS x 14 12)"
    for x :: u64
    by (rule bit_word_eqI) (auto simp: m bit_simps)
  have fields: "(x AND 0x707f) AND 0x7f = x AND 0x7f" "BITS (x AND 0x707f) 14 12 = BITS x 14 12" for x :: u64
    by (rule bit_word_eqI, auto simp: m bit_simps)+
  show ?thesis
  proof
    assume "w AND 0x707f = k"
    then have k: "k = w AND 0x707f" by simp
    show "k AND 0x707f = k \<and> w AND 0x7f = k AND 0x7f \<and> BITS w 14 12 = BITS k 14 12"
      unfolding k fields by (simp add: and.assoc)
  next
    assume "k AND 0x707f = k \<and> w AND 0x7f = k AND 0x7f \<and> BITS w 14 12 = BITS k 14 12"
    then show "w AND 0x707f = k" using split [of w] split [of k] by simp
  qed
qed

lemma mask_fe00707f:
  "(w :: u64) AND 0xfe00707f = k \<longleftrightarrow>
     k AND 0xfe00707f = k \<and> w AND 0x7f = k AND 0x7f \<and> BITS w 14 12 = BITS k 14 12
     \<and> BITS w 31 25 = BITS k 31 25"
proof -
  have m: "(0xfe00707f :: u64) = mask 7 OR push_bit 12 (mask 3) OR push_bit 25 (mask 7)"
    "(0x7f :: u64) = mask 7"
    by (simp_all add: mask_eq_exp_minus_1)
  have split: "x AND 0xfe00707f = (x AND 0x7f) OR push_bit 12 (BITS x 14 12) OR push_bit 25 (BITS x 31 25)"
    for x :: u64
    by (rule bit_word_eqI) (auto simp: m bit_simps)
  have fields: "(x AND 0xfe00707f) AND 0x7f = x AND 0x7f" "BITS (x AND 0xfe00707f) 14 12 = BITS x 14 12"
    "BITS (x AND 0xfe00707f) 31 25 = BITS x 31 25" for x :: u64
    by (rule bit_word_eqI, auto simp: m bit_simps)+
  show ?thesis
  proof
    assume "w AND 0xfe00707f = k"
    then have k: "k = w AND 0xfe00707f" by simp
    show "k AND 0xfe00707f = k \<and> w AND 0x7f = k AND 0x7f \<and> BITS w 14 12 = BITS k 14 12
        \<and> BITS w 31 25 = BITS k 31 25"
      unfolding k fields by (simp add: and.assoc)
  next
    assume "k AND 0xfe00707f = k \<and> w AND 0x7f = k AND 0x7f \<and> BITS w 14 12 = BITS k 14 12
      \<and> BITS w 31 25 = BITS k 31 25"
    then show "w AND 0xfe00707f = k" using split [of w] split [of k] by simp
  qed
qed

lemma bit_enc_r:
  "bit (enc_r f7 rs2 rs1 f3 rd op) n \<longleftrightarrow>
     (if n < 7 then bit op n else if n < 12 then bit rd (n - 7) else if n < 15 then bit f3 (n - 12)
      else if n < 20 then bit rs1 (n - 15) else if n < 25 then bit rs2 (n - 20)
      else n < 32 \<and> bit f7 (n - 25))"
  by (auto simp: enc_r_def bit_simps dest: bit_imp_le_length)

lemma word32_eqI:
  "list_all (\<lambda>n. bit v n \<longleftrightarrow> bit w n)
     [0, 1, 2, 3, 4, 5, 6, 7, 8, 9, 10, 11, 12, 13, 14, 15, 16, 17, 18, 19, 20, 21, 22, 23, 24, 25,
      26, 27, 28, 29, 30, 31]
   \<Longrightarrow> v = (w :: u32)"
proof (rule bit_word_eqI)
  fix n
  assume all: "list_all (\<lambda>n. bit v n \<longleftrightarrow> bit w n)
     [0, 1, 2, 3, 4, 5, 6, 7, 8, 9, 10, 11, 12, 13, 14, 15, 16, 17, 18, 19, 20, 21, 22, 23, 24, 25,
      26, 27, 28, 29, 30, 31]" and "n < LENGTH(32)"
  then have "n \<in> set [0, 1, 2, 3, 4, 5, 6, 7, 8, 9, 10, 11, 12, 13, 14, 15, 16, 17, 18, 19, 20, 21,
      22, 23, 24, 25, 26, 27, 28, 29, 30, 31]" by (simp add: numeral_eq_Suc less_Suc_eq)
  with all show "bit v n \<longleftrightarrow> bit w n" unfolding list_all_iff by blast
qed

lemma bit_twice: "bit ((x :: 'a::len word) * 2) n \<longleftrightarrow> n \<noteq> 0 \<and> n < LENGTH('a) \<and> bit x (n - 1)"
  by (cases n) (auto simp: mult.commute [of x] bit_double_iff possible_bit_def dest: bit_imp_le_length)

lemma enc_fields [field_simps_rv]:
  "ucast (enc_r f7 rs2 rs1 f3 rd op) AND (0x7f :: u64) = ucast op"
  "BITS (ucast (enc_r f7 rs2 rs1 f3 rd op)) 14 12 = ucast f3"
  "BITS (ucast (enc_r f7 rs2 rs1 f3 rd op)) 31 25 = ucast f7"
  "BITS (ucast (enc_r f7 rs2 rs1 f3 rd op)) 11 7 = ucast rd"
  "BITS (ucast (enc_r f7 rs2 rs1 f3 rd op)) 19 15 = ucast rs1"
  "BITS (ucast (enc_r f7 rs2 rs1 f3 rd op)) 24 20 = ucast rs2"
proof -
  have m: "(0x7f :: u64) = mask 7" by (simp add: mask_eq_exp_minus_1)
  show "ucast (enc_r f7 rs2 rs1 f3 rd op) AND (0x7f :: u64) = ucast op"
    by (rule bit_word_eqI) (auto simp: m bit_enc_r bit_simps dest: bit_imp_le_length)
qed (rule bit_word_eqI, auto simp: bit_enc_r bit_simps dest: bit_imp_le_length)+

lemma bit_immI: "bit (immI (ucast (w :: u32))) n \<longleftrightarrow> n < 32 \<and> bit w (20 + min n 11)"
  by (auto simp: immI_def to_word_def bit_simps min_def)

lemma bit_immS:
  "bit (immS (ucast (w :: u32))) n \<longleftrightarrow> n < 32 \<and> (if n < 5 then bit w (7 + n) else bit w (20 + min n 11))"
  by (auto simp: immS_def to_word_def bit_simps min_def not_less not_le)

lemma bit_immU:
  "bit (immU (ucast (w :: u32))) n \<longleftrightarrow> 12 \<le> n \<and> n < 32 \<and> bit w n"
  by (auto simp: immU_def to_word_def bit_simps min_def not_less not_le)

lemma bit_immB:
  "bit (immB (ucast (w :: u32))) n \<longleftrightarrow> n < 32 \<and> n \<noteq> 0 \<and>
     (if n < 5 then bit w (7 + n) else if n < 11 then bit w (20 + n) else if n = 11 then bit w 7 else bit w 31)"
  unfolding immB_def to_word_def bit_simps
  by (auto simp: bit_simps min_def not_less not_le)

lemma bit_immJ:
  "bit (immJ (ucast (w :: u32))) n \<longleftrightarrow> n < 32 \<and> n \<noteq> 0 \<and>
     (if n < 11 then bit w (20 + n) else if n = 11 then bit w 20 else if n < 20 then bit w n else bit w 31)"
  unfolding immJ_def to_word_def bit_simps
  by (auto simp: bit_simps min_def not_less not_le)

lemma bit_scast:
  "LENGTH('a::len) \<le> 32 \<Longrightarrow>
   bit (scast (x :: 'a word) :: u32) n \<longleftrightarrow> n < 32 \<and> bit x (min n (LENGTH('a) - 1))"
proof (cases "n < LENGTH('a) - 1")
  case True
  then show "LENGTH('a) \<le> 32 \<Longrightarrow> ?thesis" by (auto simp: bit_simps min_def)
next
  case False
  then have "n < LENGTH('a) \<Longrightarrow> n = LENGTH('a) - 1" by linarith
  then show "LENGTH('a) \<le> 32 \<Longrightarrow> ?thesis" using False by (auto simp: bit_simps min_def)
qed

lemmas enc_bits = bit_scast bit_enc_r bit_twice bit_0 [symmetric]

lemma immI_enc [field_simps_rv]: "immI (ucast (enc_i imm rs1 f3 rd op)) = scast imm"
  by (rule word32_eqI) (simp add: bit_immI enc_i_def enc_bits bit_simps del: bit_0)

lemma immS_enc [field_simps_rv]: "immS (ucast (enc_s imm rs2 rs1 f3 op)) = scast imm"
  by (rule word32_eqI) (simp add: bit_immS enc_s_def enc_bits bit_simps del: bit_0)

lemma immU_enc [field_simps_rv]: "immU (ucast (enc_u imm rd op)) = push_bit 12 (ucast imm)"
  by (rule word32_eqI) (simp add: bit_immU enc_u_def enc_bits bit_simps del: bit_0)

lemma immB_enc [field_simps_rv]: "immB (ucast (enc_b k rs2 rs1 f3 op)) = scast k * 2"
  by (rule word32_eqI) (simp add: bit_immB enc_b_def enc_bits bit_simps del: bit_0)

lemma immJ_enc [field_simps_rv]: "immJ (ucast (enc_j k rd op)) = scast k * 2"
  by (rule word32_eqI) (simp add: bit_immJ enc_j_def enc_bits bit_simps del: bit_0)

section \<open>Which entry of the table decodes an instruction\<close>

lemma rv_pattern_tests:
  "INSTPAT ''??????? ????? ????? ??? ????? 00101 11'' inst = Inr (inst AND 0x7f = 0x17)"
  "INSTPAT ''??????? ????? ????? 100 ????? 00000 11'' inst = Inr (inst AND 0x707f = 0x4003)"
  "INSTPAT ''??????? ????? ????? 000 ????? 01000 11'' inst = Inr (inst AND 0x707f = 0x23)"
  "INSTPAT ''0000000 ????? ????? 000 ????? 01100 11'' inst = Inr (inst AND 0xfe00707f = 0x33)"
  "INSTPAT ''0100000 ????? ????? 000 ????? 01100 11'' inst = Inr (inst AND 0xfe00707f = 0x40000033)"
  "INSTPAT ''0000000 ????? ????? 111 ????? 01100 11'' inst = Inr (inst AND 0xfe00707f = 0x7033)"
  "INSTPAT ''0000000 ????? ????? 110 ????? 01100 11'' inst = Inr (inst AND 0xfe00707f = 0x6033)"
  "INSTPAT ''0000000 ????? ????? 100 ????? 01100 11'' inst = Inr (inst AND 0xfe00707f = 0x4033)"
  "INSTPAT ''0000000 ????? ????? 001 ????? 01100 11'' inst = Inr (inst AND 0xfe00707f = 0x1033)"
  "INSTPAT ''0000000 ????? ????? 101 ????? 01100 11'' inst = Inr (inst AND 0xfe00707f = 0x5033)"
  "INSTPAT ''0100000 ????? ????? 101 ????? 01100 11'' inst = Inr (inst AND 0xfe00707f = 0x40005033)"
  "INSTPAT ''0000000 ????? ????? 010 ????? 01100 11'' inst = Inr (inst AND 0xfe00707f = 0x2033)"
  "INSTPAT ''0000000 ????? ????? 011 ????? 01100 11'' inst = Inr (inst AND 0xfe00707f = 0x3033)"
  "INSTPAT ''0000001 ????? ????? 000 ????? 01100 11'' inst = Inr (inst AND 0xfe00707f = 0x2000033)"
  "INSTPAT ''0000001 ????? ????? 001 ????? 01100 11'' inst = Inr (inst AND 0xfe00707f = 0x2001033)"
  "INSTPAT ''0000001 ????? ????? 100 ????? 01100 11'' inst = Inr (inst AND 0xfe00707f = 0x2004033)"
  "INSTPAT ''0000001 ????? ????? 101 ????? 01100 11'' inst = Inr (inst AND 0xfe00707f = 0x2005033)"
  "INSTPAT ''0000001 ????? ????? 110 ????? 01100 11'' inst = Inr (inst AND 0xfe00707f = 0x2006033)"
  "INSTPAT ''0000001 ????? ????? 111 ????? 01100 11'' inst = Inr (inst AND 0xfe00707f = 0x2007033)"
  "INSTPAT ''??????? ????? ????? 000 ????? 00100 11'' inst = Inr (inst AND 0x707f = 0x13)"
  "INSTPAT ''??????? ????? ????? 111 ????? 00100 11'' inst = Inr (inst AND 0x707f = 0x7013)"
  "INSTPAT ''??????? ????? ????? 110 ????? 00100 11'' inst = Inr (inst AND 0x707f = 0x6013)"
  "INSTPAT ''??????? ????? ????? 100 ????? 00100 11'' inst = Inr (inst AND 0x707f = 0x4013)"
  "INSTPAT ''0000000 ????? ????? 001 ????? 00100 11'' inst = Inr (inst AND 0xfe00707f = 0x1013)"
  "INSTPAT ''0000000 ????? ????? 101 ????? 00100 11'' inst = Inr (inst AND 0xfe00707f = 0x5013)"
  "INSTPAT ''0100000 ????? ????? 101 ????? 00100 11'' inst = Inr (inst AND 0xfe00707f = 0x40005013)"
  "INSTPAT ''??????? ????? ????? 010 ????? 00100 11'' inst = Inr (inst AND 0x707f = 0x2013)"
  "INSTPAT ''??????? ????? ????? 011 ????? 00100 11'' inst = Inr (inst AND 0x707f = 0x3013)"
  "INSTPAT ''??????? ????? ????? 010 ????? 00000 11'' inst = Inr (inst AND 0x707f = 0x2003)"
  "INSTPAT ''??????? ????? ????? 001 ????? 00000 11'' inst = Inr (inst AND 0x707f = 0x1003)"
  "INSTPAT ''??????? ????? ????? 101 ????? 00000 11'' inst = Inr (inst AND 0x707f = 0x5003)"
  "INSTPAT ''??????? ????? ????? 000 ????? 11001 11'' inst = Inr (inst AND 0x707f = 0x67)"
  "INSTPAT ''??????? ????? ????? 010 ????? 01000 11'' inst = Inr (inst AND 0x707f = 0x2023)"
  "INSTPAT ''??????? ????? ????? 001 ????? 01000 11'' inst = Inr (inst AND 0x707f = 0x1023)"
  "INSTPAT ''??????? ????? ????? ??? ????? 01101 11'' inst = Inr (inst AND 0x7f = 0x37)"
  "INSTPAT ''??????? ????? ????? 000 ????? 11000 11'' inst = Inr (inst AND 0x707f = 0x63)"
  "INSTPAT ''??????? ????? ????? 001 ????? 11000 11'' inst = Inr (inst AND 0x707f = 0x1063)"
  "INSTPAT ''??????? ????? ????? 100 ????? 11000 11'' inst = Inr (inst AND 0x707f = 0x4063)"
  "INSTPAT ''??????? ????? ????? 101 ????? 11000 11'' inst = Inr (inst AND 0x707f = 0x5063)"
  "INSTPAT ''??????? ????? ????? 110 ????? 11000 11'' inst = Inr (inst AND 0x707f = 0x6063)"
  "INSTPAT ''??????? ????? ????? 111 ????? 11000 11'' inst = Inr (inst AND 0x707f = 0x7063)"
  "INSTPAT ''??????? ????? ????? ??? ????? 11011 11'' inst = Inr (inst AND 0x7f = 0x6f)"
  "INSTPAT ''0000000 00001 00000 000 00000 11100 11'' inst = Inr (inst AND 0xffffffff = 0x100073)"
  "INSTPAT ''??????? ????? ????? ??? ????? ????? ??'' inst = Inr True"
  by (simp_all add: INSTPAT_def pattern_decode_def)

fun alu_entry :: "alu \<Rightarrow> rv_inst" where
  "alu_entry A_ADD = I_add"
| "alu_entry A_SUB = I_sub"
| "alu_entry A_SLL = I_sll"
| "alu_entry A_SLT = I_slt"
| "alu_entry A_SLTU = I_sltu"
| "alu_entry A_XOR = I_xor"
| "alu_entry A_SRL = I_srl"
| "alu_entry A_SRA = I_sra"
| "alu_entry A_OR = I_or"
| "alu_entry A_AND = I_and"

fun muldiv_entry :: "muldiv \<Rightarrow> rv_inst" where
  "muldiv_entry MUL = I_mul"
| "muldiv_entry MULH = I_mulh"
| "muldiv_entry DIV = I_div"
| "muldiv_entry DIVU = I_divu"
| "muldiv_entry REM = I_rem"
| "muldiv_entry REMU = I_remu"

fun alui_entry :: "alui \<Rightarrow> rv_inst" where
  "alui_entry ADDI = I_addi"
| "alui_entry SLTI = I_slti"
| "alui_entry SLTIU = I_sltiu"
| "alui_entry XORI = I_xori"
| "alui_entry ORI = I_ori"
| "alui_entry ANDI = I_andi"

fun shifti_entry :: "shifti \<Rightarrow> rv_inst" where
  "shifti_entry SLLI = I_slli"
| "shifti_entry SRLI = I_srli"
| "shifti_entry SRAI = I_srai"

fun cond_entry :: "cond \<Rightarrow> rv_inst" where
  "cond_entry BEQ = I_beq"
| "cond_entry BNE = I_bne"
| "cond_entry BLT = I_blt"
| "cond_entry BGE = I_bge"
| "cond_entry BLTU = I_bltu"
| "cond_entry BGEU = I_bgeu"

fun load_entry :: "loadop \<Rightarrow> rv_inst" where
  "load_entry LW = I_lw"
| "load_entry LH = I_lh"
| "load_entry LHU = I_lhu"
| "load_entry LBU = I_lbu"

fun store_entry :: "storeop \<Rightarrow> rv_inst" where
  "store_entry SW = I_sw"
| "store_entry SH = I_sh"
| "store_entry SB = I_sb0"

fun entry :: "instr \<Rightarrow> rv_inst \<times> rv_type" where
  "entry (Lui rd imm) = (I_lui, TYPE_U)"
| "entry (Auipc rd imm) = (I_auipc, TYPE_U)"
| "entry (Jal rd k) = (I_jal, TYPE_J)"
| "entry (Jalr rd rs1 imm) = (I_jalr, TYPE_I)"
| "entry (Branch c rs1 rs2 k) = (cond_entry c, TYPE_B)"
| "entry (Load l rd rs1 imm) = (load_entry l, TYPE_I)"
| "entry (Store st rs1 rs2 imm) = (store_entry st, TYPE_S)"
| "entry (OpImm a rd rs1 imm) = (alui_entry a, TYPE_I)"
| "entry (ShiftImm a rd rs1 sh) = (shifti_entry a, TYPE_I)"
| "entry (Op a rd rs1 rs2) = (alu_entry a, TYPE_R)"
| "entry (MulDiv a rd rs1 rs2) = (muldiv_entry a, TYPE_R)"
| "entry Ebreak = (I_ebreak, TYPE_N)"

text \<open>Searching the table by the fields of a word.\<close>

lemma BITS_numeral [simp]: "BITS (numeral k) hi lo = drop_bit lo (numeral k) AND BITMASK (hi - lo + 1)"
  by (simp add: BITS_def)

lemmas table_search = rv_instpats_def rv_pattern_tests mask_707f mask_fe00707f BITMASK_def

lemma find_op:
  "instpat_find rv_instpats (ucast (enc_r (fst (alu_code a)) rs2 rs1 (snd (alu_code a)) rd 0x33))
     = Inr (Some (alu_entry a, TYPE_R))"
  by (cases a) (simp_all add: table_search enc_fields)

lemma find_muldiv:
  "instpat_find rv_instpats (ucast (enc_r 1 rs2 rs1 (muldiv_code a) rd 0x33))
     = Inr (Some (muldiv_entry a, TYPE_R))"
  by (cases a) (simp_all add: table_search enc_fields)

lemma find_alui:
  "instpat_find rv_instpats (ucast (enc_i imm rs1 (alui_code a) rd 0x13)) = Inr (Some (alui_entry a, TYPE_I))"
  by (cases a) (simp_all add: table_search enc_i_def enc_fields)

lemma find_shifti:
  "instpat_find rv_instpats (ucast (enc_r (fst (shifti_code a)) sh rs1 (snd (shifti_code a)) rd 0x13))
     = Inr (Some (shifti_entry a, TYPE_I))"
  by (cases a) (simp_all add: table_search enc_fields)

lemma find_cond:
  "instpat_find rv_instpats (ucast (enc_b k rs2 rs1 (cond_code c) 0x63)) = Inr (Some (cond_entry c, TYPE_B))"
  by (cases c) (simp_all add: table_search enc_b_def enc_fields)

lemma find_load:
  "instpat_find rv_instpats (ucast (enc_i imm rs1 (load_code l) rd 0x03)) = Inr (Some (load_entry l, TYPE_I))"
  by (cases l) (simp_all add: table_search enc_i_def enc_fields)

lemma find_store:
  "instpat_find rv_instpats (ucast (enc_s imm rs2 rs1 (store_code st) 0x23))
     = Inr (Some (store_entry st, TYPE_S))"
  by (cases st) (simp_all add: table_search enc_s_def enc_fields)

lemma find_u:
  "instpat_find rv_instpats (ucast (enc_u imm rd 0x37)) = Inr (Some (I_lui, TYPE_U))"
  "instpat_find rv_instpats (ucast (enc_u imm rd 0x17)) = Inr (Some (I_auipc, TYPE_U))"
  by (simp_all add: table_search enc_u_def enc_fields)

lemma find_j:
  "instpat_find rv_instpats (ucast (enc_j k rd 0x6f)) = Inr (Some (I_jal, TYPE_J))"
  "instpat_find rv_instpats (ucast (enc_i imm rs1 0 rd 0x67)) = Inr (Some (I_jalr, TYPE_I))"
  by (simp_all add: table_search enc_j_def enc_i_def enc_fields)

lemma enc_ebreak: "enc_i 1 0 0 0 0x73 = 0x100073"
  by (simp add: enc_i_def enc_r_def)

lemma find_ebreak: "instpat_find rv_instpats 0x100073 = Inr (Some (I_ebreak, TYPE_N))"
  by (simp add: rv_instpats_def rv_pattern_tests)

lemma find_encode: "instpat_find rv_instpats (ucast (encode i)) = Inr (Some (entry i))"
  by (cases i) (simp_all add: find_op find_muldiv find_alui find_shifti find_cond find_load
      find_store find_u find_j find_ebreak enc_ebreak)

end
