(* ===== verification/RiscvRefine.thy ===== *)
theory RiscvRefine
  imports RiscvSpec
begin

text \<open>
  The refinement between the interpreter of \<open>Riscv32\<close> and the architectural step of
  \<open>RiscvSpec\<close>, and what follows from it: the zero register, the built-in image, and the
  places where the interpreter departs from the manual.
\<close>

section \<open>Operands and results\<close>

lemma unat_rid [simp]: "unat (ucast (r :: rid) :: u64) = unat r"
  using unsigned_less [of r, where ?'a = nat]
  by (simp add: unsigned_ucast_eq take_bit_nat_eq_self_iff)

lemma unat_rid_less [simp]: "unat (r :: rid) < 32"
  using unsigned_less [of r, where ?'a = nat] by simp

lemma xreg_gpr: "gpr (cpu s) 0 = 0 \<Longrightarrow> xreg r s = gpr (cpu s) (unat r)"
  by (auto simp: xreg_def)

lemma set_xreg_gpr:
  "gpr (cpu s) 0 = 0 \<Longrightarrow>
   s\<lparr>cpu := cpu s\<lparr>gpr := (gpr (cpu s))(unat r := v, 0 := 0)\<rparr>\<rparr> = set_xreg r v s"
  by (auto simp: set_xreg_def fun_upd_twist fun_upd_idem unsigned_eq_0_iff)

lemma gpr_reset: "gpr (cpu s) 0 = 0 \<Longrightarrow> s\<lparr>cpu := cpu s\<lparr>gpr := (gpr (cpu s))(0 := 0)\<rparr>\<rparr> = s"
  by (simp add: fun_upd_idem)

lemma shamt_mod: "shamt w = unat w mod 32"
proof -
  have "(0x1f :: u32) = mask 5" by (simp add: mask_eq_exp_minus_1)
  then have "shamt w = unat (take_bit 5 w)" by (simp add: shamt_def take_bit_eq_mask)
  then show ?thesis by (simp only: unsigned_take_bit_eq) (simp add: take_bit_eq_mod)
qed

lemma truth_of_bool: "truth b = of_bool b"
  by (simp add: truth_def)

lemma srl_div: "drop_bit n (a :: u32) = word_of_int (uint a div 2 ^ n)"
proof -
  have "uint (drop_bit n a) = drop_bit n (take_bit LENGTH(32) (uint a))"
    by (rule unsigned_drop_bit_eq)
  also have "\<dots> = uint a div 2 ^ n" 
    using unsigned_less [of a, where ?'a = int] by (simp add: drop_bit_eq_div take_bit_int_eq_self)
  finally show ?thesis by (metis word_of_int_uint)
qed

lemma sra_div: "signed_drop_bit n (a :: u32) = word_of_int (sint a div 2 ^ n)"
proof -
  have "sint (signed_drop_bit n a) = sint a div 2 ^ n"
    by (simp add: sint_signed_drop_bit_eq drop_bit_eq_div)
  then have "word_of_int (sint a div 2 ^ n) = (word_of_int (sint (signed_drop_bit n a)) :: u32)"
    by simp
  then show ?thesis by simp
qed

lemma sll_mult: "push_bit n (a :: u32) = word_of_int (uint a * 2 ^ n)"
  by (simp add: push_bit_eq_mult)

lemma alu_exec: "rv_execute (alu_entry a) d rd x y imm s = assign_reg d rd (alu_sem a x y) s"
  by (cases a)
    (simp_all add: shamt_mod truth_of_bool srl_div sra_div sll_mult word_less_def)

lemma SEXT_32: "SEXT (ucast (x :: u32)) 32 = word_of_int (sint x)"
  by (rule bit_word_eqI) (auto simp: SEXT_def bit_simps min_def)

lemma mulh_high:
  "to_word (drop_bit 32 (SEXT (ucast x) 32 * SEXT (ucast y) 32))
     = word_of_int (sint x * sint y div 2 ^ 32)" for x y :: u32
proof -
  have "SEXT (ucast x) 32 * SEXT (ucast y) 32 = word_of_int (sint x * sint y)"
    unfolding SEXT_32 by simp
  moreover have "to_word (drop_bit 32 (word_of_int p)) = word_of_int (drop_bit 32 p)" for p
    by (rule bit_word_eqI) (auto simp: to_word_def bit_simps)
  ultimately show ?thesis by (simp only: drop_bit_eq_div [symmetric])
qed

lemma muldiv_exec:
  assumes "a = DIV \<or> a = REM \<Longrightarrow> \<not> sdiv_traps x y" and "a = DIVU \<or> a = REMU \<Longrightarrow> y \<noteq> 0"
  shows "rv_execute (muldiv_entry a) d rd x y imm s = assign_reg d rd (muldiv_sem a x y) s"
  using assms
  by (cases a) (auto simp: mulh_high sdiv_traps_def word_div_def word_mod_def)

lemma shifti_exec:
  "rv_execute (shifti_entry a) d rd x 0 imm s = assign_reg d rd (shifti_sem a x imm) s"
  by (cases a) (simp_all add: shamt_mod srl_div sra_div sll_mult)

lemma cond_exec:
  "rv_execute (cond_entry c) d rd x y imm s = Inr (branch (cond_sem c x y) imm d, s)"
  by (cases c) (simp_all add: word_less_def word_le_def)

section \<open>The interpreter does the architectural step\<close>

text \<open>\<open>decode_exec\<close> on an encoded instruction: the entry's body, then the reset of \<open>R(0)\<close>.\<close>

definition reset_zero :: "Decode \<times> 'a nemu_scheme \<Rightarrow> (Decode \<times> 'a nemu_scheme) res" where
  "reset_zero r = bind_res (gpr_set 0 0 (snd r)) (\<lambda>s. Inr (fst r, s))"

lemma decode_exec_encode:
  assumes "isa_inst d = encode i"
  shows "rv_decode_exec d s =
    bind_res (rv_instpat_match (d\<lparr>dnpc := snpc d\<rparr>) (fst (entry i)) (snd (entry i)) s) reset_zero"
  using assms
  by (simp add: rv_decode_exec_def Let_def find_encode reset_zero_def [abs_def] case_prod_unfold)

lemma reset_assign:
  "gpr (cpu s) 0 = 0 \<Longrightarrow>
   reset_zero (d, s\<lparr>cpu := cpu s\<lparr>gpr := (gpr (cpu s))(unat r := v)\<rparr>\<rparr>)
     = Inr (d, set_xreg (r :: rid) v s)"
  using set_xreg_gpr [of s r v] by (simp add: reset_zero_def)

lemma reset_keep: "gpr (cpu s) 0 = 0 \<Longrightarrow> reset_zero (d, s) = Inr (d, s)"
  by (simp add: reset_zero_def gpr_reset)

text \<open>Operands of an encoded instruction, when the zero register holds 0.\<close>

lemma operand_r:
  "gpr (cpu s) 0 = 0 \<Longrightarrow>
   rv_decode_operand (enc_r f7 rs2 rs1 f3 rd op) TYPE_R s = Inr (unat rd, xreg rs1 s, xreg rs2 s, 0)"
  by (simp add: rv_decode_operand_def Let_def enc_fields xreg_gpr)

lemma operand_i:
  "gpr (cpu s) 0 = 0 \<Longrightarrow>
   rv_decode_operand (enc_i imm rs1 f3 rd op) TYPE_I s = Inr (unat rd, xreg rs1 s, 0, scast imm)"
  by (simp add: rv_decode_operand_def Let_def immI_enc) (simp add: enc_i_def enc_fields xreg_gpr)

lemma operand_s:
  "gpr (cpu s) 0 = 0 \<Longrightarrow>
   \<exists>rd. rv_decode_operand (enc_s imm rs2 rs1 f3 op) TYPE_S s = Inr (rd, xreg rs1 s, xreg rs2 s, scast imm)"
  by (simp add: rv_decode_operand_def Let_def immS_enc) (simp add: enc_s_def enc_fields xreg_gpr)

lemma operand_b:
  "gpr (cpu s) 0 = 0 \<Longrightarrow>
   \<exists>rd. rv_decode_operand (enc_b k rs2 rs1 f3 op) TYPE_B s
         = Inr (rd, xreg rs1 s, xreg rs2 s, scast k * 2)"
  by (simp add: rv_decode_operand_def Let_def immB_enc) (simp add: enc_b_def enc_fields xreg_gpr)

lemma operand_u: "rv_decode_operand (enc_u imm rd op) TYPE_U s = Inr (unat rd, 0, 0, push_bit 12 (ucast imm))"
  by (simp add: rv_decode_operand_def Let_def immU_enc) (simp add: enc_u_def enc_fields)

lemma operand_j: "rv_decode_operand (enc_j k rd op) TYPE_J s = Inr (unat rd, 0, 0, scast k * 2)"
  by (simp add: rv_decode_operand_def Let_def immJ_enc) (simp add: enc_j_def enc_fields)

text \<open>A shift amount is the low five bits of the immediate field.\<close>

lemma enc_shift: "enc_r f7 sh rs1 f3 rd op = enc_i (push_bit 5 (ucast f7) OR ucast sh) rs1 f3 rd op"
proof -
  have "ucast (drop_bit 5 (push_bit 5 (ucast f7) OR ucast sh :: 12 word)) = f7"
    by (rule bit_word_eqI) (auto simp: bit_simps dest: bit_imp_le_length)
  moreover have "ucast (push_bit 5 (ucast f7) OR ucast sh :: 12 word) = sh"
    by (rule bit_word_eqI) (auto simp: bit_simps)
  ultimately show ?thesis by (simp add: enc_i_def)
qed

lemma shamt_enc: "shamt (scast (push_bit 5 (ucast (f7 :: 7 word)) OR ucast (sh :: 5 word) :: 12 word)) = unat sh"
proof -
  have "take_bit 5 (scast (push_bit 5 (ucast f7) OR ucast sh :: 12 word) :: u32) = ucast sh"
    by (rule bit_word_eqI) (auto simp: bit_simps min_def dest: bit_imp_le_length)
  moreover have "shamt w = unat (take_bit 5 w)" for w
    by (simp only: unsigned_take_bit_eq) (simp add: shamt_mod take_bit_eq_mod)
  ultimately show ?thesis
    using order.strict_trans [OF unat_rid_less, of "2 ^ 32" sh]
    by (simp add: unsigned_ucast_eq take_bit_nat_eq_self_iff)
qed

lemma host_read_take_bit: "host_read sz m a n = Inr v \<Longrightarrow> take_bit (8 * n) v = v"
  by (rule bit_word_eqI) (auto simp: host_read_eq_Inr bit_le_word bit_simps)

lemma vaddr_read_take_bit:
  assumes "vaddr_read a n s = Inr (v, s')"
  shows "take_bit (8 * n) v = v"
proof -
  have "\<exists>sz m p. host_read sz m p n = Inr v"
    using assms
    by (cases "fetch_mmio_map a s")
      (fastforce simp: vaddr_read_def paddr_read_def pmem_read_def mmio_read_def map_read_def
        out_of_bound_def Let_def assert_then_eq_Inr split: if_splits elim!: bind_resE)
  then show ?thesis using host_read_take_bit by blast
qed

lemma load_exec:
  "rv_execute (load_entry l) d rd x 0 imm s =
     bind_res (vaddr_read (x + imm) (fst (load_sem l)) s) (\<lambda>(v, s1). assign_reg d rd (snd (load_sem l) v) s1)"
proof -
  have ext: "ucast (ucast v :: 'b::len word) = take_bit LENGTH('b) v" if "LENGTH('b) \<le> 32" for v :: u32
    using that by (intro bit_word_eqI) (auto simp: bit_simps)
  have sext: "to_word (SEXT (ucast v) 16) = scast (ucast v :: u16)" for v :: u32
    by (rule bit_word_eqI) (auto simp: to_word_def SEXT_def bit_simps min_def)
  have zext: "take_bit 8 v = v" if "vaddr_read a 1 s = Inr (v, s1)" for a v s1
    using vaddr_read_take_bit [OF that] by simp
  have zext2: "take_bit 16 v = v" if "vaddr_read a 2 s = Inr (v, s1)" for a v s1
    using vaddr_read_take_bit [OF that] by simp
  show ?thesis
    by (cases l) (auto simp: load_reg_def sext ext zext zext2 case_prod_unfold intro!: bind_res_cong)
qed

lemma alui_exec:
  assumes "a \<noteq> SLTI" and "a = SLTIU \<Longrightarrow> 0 \<le> sint imm"
  shows "rv_execute (alui_entry a) d rd x 0 (scast (imm :: 12 word)) s
    = assign_reg d rd (alui_sem a x (scast imm)) s"
proof -
  have "(scast imm :: u32) AND 0xfff = scast imm" if "0 \<le> sint imm"
  proof -
    have m: "(0xfff :: u32) = mask 12" by (simp add: mask_eq_exp_minus_1)
    have "\<not> bit imm 11" using that bit_last_iff [of imm] by simp
    then show ?thesis unfolding m
      by (intro bit_word_eqI) (auto simp: bit_scast bit_simps min_def not_less split: if_splits)
  qed
  with assms show ?thesis
    by (cases a) (simp_all add: truth_of_bool word_less_def)
qed

lemma shifti_sem_mod: "unat b mod 32 = unat c mod 32 \<Longrightarrow> shifti_sem a x b = shifti_sem a x c"
  by (cases a) simp_all

lemma shifti_exec_enc:
  "rv_execute (shifti_entry a) d rd x 0 (scast (push_bit 5 (ucast (f7 :: 7 word)) OR ucast sh :: 12 word)) s
     = assign_reg d rd (shifti_sem a x (ucast (sh :: 5 word))) s"
proof -
  have "unat (ucast sh :: u32) = unat sh"
    using order.strict_trans [OF unat_rid_less, of "2 ^ 32" sh]
    by (simp add: unsigned_ucast_eq take_bit_nat_eq_self_iff)
  then have "unat (scast (push_bit 5 (ucast f7) OR ucast sh :: 12 word) :: u32) mod 32
      = unat (ucast sh :: u32) mod 32"
    using shamt_enc [of f7 sh] by (simp add: shamt_mod)
  from shifti_sem_mod [OF this] show ?thesis by (simp add: shifti_exec)
qed

lemma even_clear: "even (w :: u32) \<Longrightarrow> w AND NOT 1 = w"
  by (rule bit_word_eqI) (auto simp: bit_simps bit_1_iff simp flip: bit_0 intro: gr0I)

lemma store_exec:
  "rv_execute (store_entry st) d rd x y imm s = store_mem d (x + imm) (store_len st) y s"
proof -
  have "(0xffff :: u32) = mask 16" by (simp add: mask_eq_exp_minus_1)
  then have m: "y AND 0xffff = take_bit 16 y" by (simp add: take_bit_eq_mask)
  have "vaddr_write (x + imm) 2 (y AND 0xffff) s = vaddr_write (x + imm) 2 y s"
    unfolding m using paddr_write_take_bit [of "x + imm" 2 y s] by (simp add: vaddr_write_def)
  then show ?thesis by (cases st) (simp_all add: store_mem_def)
qed

section \<open>Instructions the table does not have\<close>

lemma not_ebreak:
  assumes "(ucast (x :: u32) :: u64) AND 0x7f \<noteq> 0x73"
  shows "ucast x AND (0xffffffff :: u64) \<noteq> 0x100073"
proof
  assume "ucast x AND (0xffffffff :: u64) = 0x100073"
  then have "(ucast x AND (0xffffffff :: u64)) AND 0x7f = 0x73" by simp
  with assms show False by (simp add: and.assoc)
qed

lemma find_missing:
  "instpat_find rv_instpats (ucast (enc_i imm rs1 0 rd 0x03)) = Inr (Some (I_inv, TYPE_N))"
  "instpat_find rv_instpats (ucast (enc_r 1 rs2 rs1 2 rd 0x33)) = Inr (Some (I_inv, TYPE_N))"
  "instpat_find rv_instpats (ucast (enc_r 1 rs2 rs1 3 rd 0x33)) = Inr (Some (I_inv, TYPE_N))"
  "instpat_find rv_instpats (ucast (enc_i imm rs1 f3 rd 0x0f)) = Inr (Some (I_inv, TYPE_N))"
  by (simp_all add: table_search enc_i_def enc_fields not_ebreak)

lemma find_ecall: "instpat_find rv_instpats 0x73 = Inr (Some (I_inv, TYPE_N))"
  by (simp add: rv_instpats_def rv_pattern_tests)

lemma invalid_inst_pmem:
  assumes "in_pmem p" and "guest_to_host p + 8 \<le> CONFIG_MSIZE"
  shows "invalid_inst p s = Inr (set_nemu_state NEMU_ABORT p (- 1) s)"
  using assms next_in_pmem [of p 4] by (simp add: invalid_inst_def fetch_pmem)

lemma sint_uint_sign: "sint (x :: u32) = (if uint x < 2 ^ 31 then uint x else uint x - 2 ^ 32)"
proof -
  have "signed_take_bit 31 k = (if k < 2 ^ 31 then k else k - 2 ^ 32)" if "0 \<le> k" "k < 2 ^ 32" for k :: int
  proof (cases "k < 2 ^ 31")
    case False
    have e: "k + 2147483648 = (k - 2147483648) + 4294967296" by simp
    have "(k + 2147483648) mod 4294967296 = k - 2147483648"
      unfolding e mod_add_self2 using that False by (intro mod_pos_pos_trivial) simp_all
    with False show ?thesis by (simp add: signed_take_bit_eq_take_bit_shift take_bit_eq_mod)
  qed (use that in \<open>simp add: signed_take_bit_eq_take_bit_shift take_bit_eq_mod\<close>)
  from this [of "uint x"] show ?thesis
    using unsigned_less [of x, where ?'a = int] by (simp add: sint_uint)
qed

lemma unsigned_signed_less:
  "(uint x < uint y \<longleftrightarrow> sint x < sint y) \<longleftrightarrow> (sint x < 0 \<longleftrightarrow> sint y < 0)" for x y :: u32
proof -
  define f where "f = (\<lambda>k :: int. if k < 2 ^ 31 then k else k - 2 ^ 32)"
  have "(a < b \<longleftrightarrow> f a < f b) \<longleftrightarrow> (f a < 0 \<longleftrightarrow> f b < 0)"
    if "0 \<le> a" "a < 2 ^ 32" "0 \<le> b" "b < 2 ^ 32" for a b
    using that by (auto simp: f_def)
  from this [of "uint x" "uint y"] show ?thesis
    using unsigned_less [of x, where ?'a = int] unsigned_less [of y, where ?'a = int]
    by (simp add: sint_uint_sign f_def)
qed

lemma decode_exec_step:
  assumes zero: "gpr (cpu s) 0 = 0" and inst: "isa_inst d = encode i" and next_pc: "snpc d = d_pc d + 4"
    and faithful: "faithful i s"
  shows "rv_decode_exec d s =
    bind_res (arch_step i (d_pc d) s) (\<lambda>(p, s'). Inr (d\<lparr>dnpc := p\<rparr>, s'))"
proof -
  note step = decode_exec_encode [OF inst] rv_instpat_match_def inst next_pc
  show ?thesis
  proof (cases i)
    case (Lui rd imm)
    with zero show ?thesis by (simp add: step operand_u reset_assign)
  next
    case (Auipc rd imm)
    with zero show ?thesis by (simp add: step operand_u reset_assign)
  next
    case (Jal rd k)
    with zero show ?thesis by (simp add: step operand_j reset_assign)
  next
    case (Jalr rd rs1 imm)
    with faithful have "(xreg rs1 s + scast imm) AND NOT 1 = xreg rs1 s + scast imm"
      by (intro even_clear) simp
    with Jalr zero show ?thesis by (simp add: step operand_i reset_assign)
  next
    case (Branch c rs1 rs2 k)
    with zero operand_b [OF zero, of k rs2 rs1 "cond_code c" "0x63"] show ?thesis
      by (auto simp: step cond_exec reset_keep branch_def)
  next
    case (Load l rd rs1 imm)
    have keep: "gpr (cpu s1) 0 = 0" if "vaddr_read a n s = Inr (v, s1)" for a n v s1
      using vaddr_read_cpu [OF that] zero by simp
    from Load zero show ?thesis
      by (auto simp: step operand_i load_exec bind_res_assoc case_prod_unfold reset_assign
          intro!: bind_res_cong dest!: keep)
  next
    case (Store st rs1 rs2 imm)
    with zero operand_s [OF zero, of imm rs2 rs1 "store_code st" "0x23"] show ?thesis
      by (auto simp: step store_exec store_mem_def bind_res_assoc vaddr_write_cpu reset_keep
          intro!: bind_res_cong)
  next
    case (OpImm a rd rs1 imm)
    with zero faithful show ?thesis by (simp add: step operand_i alui_exec reset_assign)
  next
    case (ShiftImm a rd rs1 sh)
    with zero show ?thesis by (simp add: step enc_shift operand_i shifti_exec_enc reset_assign)
  next
    case (Op a rd rs1 rs2)
    with zero show ?thesis by (simp add: step operand_r alu_exec reset_assign)
  next
    case (MulDiv a rd rs1 rs2)
    with faithful have "rv_execute (muldiv_entry a) d' r (xreg rs1 s) (xreg rs2 s) 0 s
        = assign_reg d' r (muldiv_sem a (xreg rs1 s) (xreg rs2 s)) s" for d' r
      by (intro muldiv_exec) auto
    with MulDiv zero show ?thesis by (simp add: step operand_r reset_assign)
  next
    case Ebreak
    with zero show ?thesis 
      by (simp add: step enc_ebreak rv_decode_operand_def xreg_def cpu_NEMUTRAP reset_keep)
  qed
qed

section \<open>Properties\<close>

text \<open>
  C6: the RISC-V interpreter refines the instruction-set manual: given the encoding of an RV32IM
  instruction, \<open>decode_exec\<close> computes the next program counter and the new state of the
  architectural step, device accesses and failing accesses included, for every operand and every
  state whose zero register holds 0. Left out by \<open>faithful\<close> are only \<open>slti\<close>, \<open>sltiu\<close> with a negative
  immediate, \<open>jalr\<close> to an odd address, and the divisions that trap on the host.
\<close>

theorem decode_exec_refines:
  assumes zero: "gpr (cpu s) 0 = 0" and inst: "isa_inst d = encode i" and next_pc: "snpc d = d_pc d + 4"
    and faithful: "faithful i s"
  shows "rv_decode_exec d s =
    bind_res (arch_step i (d_pc d) s) (\<lambda>(p, s'). Inr (d\<lparr>dnpc := p\<rparr>, s'))"
  using assms by (rule decode_exec_step)

text \<open>\<open>addi ra, zero, -1\<close> in the state before \<open>main\<close>.\<close>

theorem decode_exec_refines_witness:
  "let d = \<lparr>d_pc = 0x80000000, snpc = 0x80000004, dnpc = 0, isa_inst = 0xfff00093\<rparr> in
   rv_decode_exec d initial_nemu =
     Inr (d\<lparr>dnpc := 0x80000004\<rparr>,
       initial_nemu\<lparr>cpu := (cpu initial_nemu)\<lparr>gpr := (gpr (cpu initial_nemu))(1 := - 1)\<rparr>\<rparr>)"
proof -
  have "0xfff00093 = encode (OpImm ADDI 1 0 0xfff)" by (simp add: enc_i_def enc_r_def)
  with decode_exec_refines [of initial_nemu
      "\<lparr>d_pc = 0x80000000, snpc = 0x80000004, dnpc = 0, isa_inst = 0xfff00093\<rparr>"
      "OpImm ADDI 1 0 0xfff"]
  show ?thesis by (simp add: set_xreg_def xreg_def)
qed

text \<open>
  C7: \<open>slti\<close> compares its operands as unsigned numbers, since C converts the \<open>int32_t\<close> to the type
  of the \<open>uint32_t\<close> immediate: the interpreter's result is right exactly when the operands have
  the same sign.
\<close>

theorem slti_compares_unsigned:
  assumes "gpr (cpu s) 0 = 0" and "isa_inst d = encode (OpImm SLTI rd rs1 imm)" and "snpc d = d_pc d + 4"
  shows "rv_decode_exec d s
      = Inr (d\<lparr>dnpc := d_pc d + 4\<rparr>, set_xreg rd (truth (uint (xreg rs1 s) < uint (scast imm :: u32))) s)
    \<and> (truth (uint (xreg rs1 s) < uint (scast imm :: u32)) = alui_sem SLTI (xreg rs1 s) (scast imm)
         \<longleftrightarrow> (sint (xreg rs1 s) < 0 \<longleftrightarrow> sint (scast imm :: u32) < 0))"
proof
  show "rv_decode_exec d s
      = Inr (d\<lparr>dnpc := d_pc d + 4\<rparr>, set_xreg rd (truth (uint (xreg rs1 s) < uint (scast imm :: u32))) s)"
    using assms
    by (simp add: decode_exec_encode [OF assms(2)] rv_instpat_match_def operand_i reset_assign
        word_less_def truth_of_bool)
next
  from unsigned_signed_less [of "xreg rs1 s" "scast imm"]
  show "truth (uint (xreg rs1 s) < uint (scast imm :: u32)) = alui_sem SLTI (xreg rs1 s) (scast imm)
         \<longleftrightarrow> (sint (xreg rs1 s) < 0 \<longleftrightarrow> sint (scast imm :: u32) < 0)"
    by (auto simp: truth_def)
qed

text \<open>\<open>slti x1, zero, -1\<close> gives 1, although 0 is not below -1.\<close>

theorem slti_compares_unsigned_witness:
  "let d = \<lparr>d_pc = 0x80000000, snpc = 0x80000004, dnpc = 0, isa_inst = 0xfff02093\<rparr> in
   (\<exists>s'. rv_decode_exec d initial_nemu = Inr (d\<lparr>dnpc := 0x80000004\<rparr>, s') \<and> gpr (cpu s') 1 = 1)
   \<and> alui_sem SLTI 0 (- 1) = 0"
proof -
  have "0xfff02093 = encode (OpImm SLTI 1 0 0xfff)" by (simp add: enc_i_def enc_r_def)
  with slti_compares_unsigned [of initial_nemu
      "\<lparr>d_pc = 0x80000000, snpc = 0x80000004, dnpc = 0, isa_inst = 0xfff02093\<rparr>" 1 0 "0xfff"]
  show ?thesis by (simp add: set_xreg_def xreg_def truth_def unsigned_minus_1_eq_mask mask_eq_exp_minus_1)
qed

text \<open>
  C8: the instructions of RV32IM that the table lacks (\<open>lb\<close>, \<open>mulhsu\<close>, \<open>mulhu\<close>, \<open>fence\<close>, \<open>ecall\<close>) stop
  the emulator: they set the state to \<open>NEMU_ABORT\<close> with the address of the instruction and
  the result -1, and change no register.
\<close>

theorem missing_instructions_abort:
  assumes "gpr (cpu s) 0 = 0" and "in_pmem (d_pc d)" and "guest_to_host (d_pc d) + 8 \<le> CONFIG_MSIZE"
    and "isa_inst d \<in> {enc_i imm rs1 0 rd 0x03, enc_r 1 rs2 rs1 2 rd 0x33, enc_r 1 rs2 rs1 3 rd 0x33,
           enc_i imm rs1 f3 rd 0x0f, 0x73}"
  shows "rv_decode_exec d s
    = Inr (d\<lparr>dnpc := snpc d\<rparr>, set_nemu_state NEMU_ABORT (d_pc d) (- 1) s)"
proof -
  from assms(4) have "instpat_find rv_instpats (ucast (isa_inst d)) = Inr (Some (I_inv, TYPE_N))"
    using find_missing find_ecall by auto
  with assms(1-3) show ?thesis
    by (simp add: rv_decode_exec_def rv_instpat_match_def rv_decode_operand_def invalid_inst_pmem Let_def)
      (rule gpr_reset [of "set_nemu_state NEMU_ABORT (d_pc d) (- 1) s", simplified])
qed

text \<open>\<open>ecall\<close> at the reset vector.\<close>

theorem missing_instructions_abort_witness:
  "let d = \<lparr>d_pc = 0x80000000, snpc = 0x80000004, dnpc = 0, isa_inst = 0x73\<rparr> in
   rv_decode_exec d initial_nemu
     = Inr (d\<lparr>dnpc := 0x80000004\<rparr>, set_nemu_state NEMU_ABORT 0x80000000 (- 1) initial_nemu)"
proof -
  have "in_pmem 0x80000000" by (simp add: in_pmem_iff)
  with missing_instructions_abort [of initial_nemu
      "\<lparr>d_pc = 0x80000000, snpc = 0x80000004, dnpc = 0, isa_inst = 0x73\<rparr>"]
  show ?thesis by (simp add: guest_to_host_in_pmem CONFIG_MSIZE_def)
qed

text \<open>
  The divisions the manual defines and C does not stop the interpreter with a host trap: a zero
  divisor for all four division instructions, and the overflowing signed division (the most
  negative number by -1) for \<open>div\<close> and \<open>rem\<close>. No other division does.
\<close>

theorem division_traps:
  assumes "gpr (cpu s) 0 = 0" and "isa_inst d = encode (MulDiv a rd rs1 rs2)"
    and "a = DIV \<or> a = DIVU \<or> a = REM \<or> a = REMU"
  shows "rv_decode_exec d s = Inl DivTrap \<longleftrightarrow>
     xreg rs2 s = 0 \<or> (a = DIV \<or> a = REM) \<and> sint (xreg rs1 s) = - (2 ^ 31) \<and> sint (xreg rs2 s) = - 1"
proof -
  have "rv_decode_exec d s = bind_res (rv_execute (muldiv_entry a) (d\<lparr>dnpc := snpc d\<rparr>) (unat rd)
      (xreg rs1 s) (xreg rs2 s) 0 s) reset_zero"
    using assms(1,2) by (simp add: decode_exec_encode [OF assms(2)] rv_instpat_match_def operand_r)
  moreover have "reset_zero r \<noteq> Inl DivTrap" for r :: "Decode \<times> 'a nemu_scheme"
    by (simp add: reset_zero_def)
  ultimately show ?thesis using assms(3) by (auto simp: sdiv_traps_def split: if_splits)
qed

text \<open>\<open>div x3, x1, x2\<close> with all registers 0.\<close>

theorem division_traps_witness:
  "rv_decode_exec \<lparr>d_pc = 0x80000000, snpc = 0x80000004, dnpc = 0, isa_inst = 0x0220c1b3\<rparr> initial_nemu
     = Inl DivTrap"
proof -
  have "0x0220c1b3 = encode (MulDiv DIV 3 1 2)" by (simp add: enc_r_def)
  with division_traps [of initial_nemu
      "\<lparr>d_pc = 0x80000000, snpc = 0x80000004, dnpc = 0, isa_inst = 0x0220c1b3\<rparr>" DIV 3 1 2]
  show ?thesis by (simp add: xreg_def)
qed

end
