(* ===== verification/SdbExpr.thy ===== *)
theory SdbExpr
  imports Isa "HOL-Library.Monad_Syntax"
begin

text \<open>
  The expression evaluator of the debugger, \<open>src/monitor/sdb/expr.c\<close>: the lexer \<open>make_token\<close>
  with its table of regular expressions, \<open>check_parentheses\<close>, \<open>get_main_op\<close>, \<open>tokenise\<close>,
  \<open>eval\<close> and \<open>expr\<close>. The token array has 32 entries, is never cleared, and stays between calls;
  \<open>eval\<close> recurses without a bound, so it is a partial function: \<open>None\<close> is a call that does
  not return. Messages on the terminal are not modelled.
\<close>

section \<open>Tokens and rules\<close>

text \<open>A token type is a character or one of the names of the enumeration.\<close>

datatype token_type =
    Chr char
  | TK_NOTYPE | TK_EQ | TK_HEX | TK_DEC | TK_MINUS | TK_AND | TK_REG | TK_NEQ | TK_DEREF

record token =
  tk_type :: token_type
  tk_str :: string

definition NR_TOKENS :: nat where "NR_TOKENS = 32"
definition TOKEN_STR :: nat where "TOKEN_STR = 32"

text \<open>
  The regular expressions of the table are sequences of single characters and repeated
  character classes, the repetition last; \<open>regexec\<close> finds the longest match.
\<close>

datatype regex_item = One "char \<Rightarrow> bool" | Many1 "char \<Rightarrow> bool"

fun re_match :: "regex_item list \<Rightarrow> string \<Rightarrow> nat option" where
  "re_match [] s = Some 0"
| "re_match (One p # r) s =
     (case s of [] \<Rightarrow> None
      | c # cs \<Rightarrow> if p c then map_option Suc (re_match r cs) else None)"
| "re_match (Many1 p # r) s =
     (let n = length (takeWhile p s) in
      if n = 0 then None else map_option (\<lambda>k. n + k) (re_match r (drop n s)))"

definition in_range :: "char \<Rightarrow> char \<Rightarrow> char \<Rightarrow> bool" where
  "in_range a b c \<longleftrightarrow> (of_char a :: nat) \<le> of_char c \<and> (of_char c :: nat) \<le> of_char b"

definition is_digit :: "char \<Rightarrow> bool" where
  "is_digit c \<longleftrightarrow> in_range (CHR ''0'') (CHR ''9'') c"

definition is_hex :: "char \<Rightarrow> bool" where
  "is_hex c \<longleftrightarrow> is_digit c \<or> in_range (CHR ''a'') (CHR ''f'') c \<or> in_range (CHR ''A'') (CHR ''F'') c"

definition is_alnum :: "char \<Rightarrow> bool" where
  "is_alnum c \<longleftrightarrow> is_digit c \<or> in_range (CHR ''a'') (CHR ''z'') c \<or> in_range (CHR ''A'') (CHR ''Z'') c"

definition rules :: "(regex_item list \<times> token_type) list" where
  "rules =
    [([Many1 (\<lambda>c. c = CHR '' '')], TK_NOTYPE),
     ([One (\<lambda>c. c = CHR ''+'')], Chr (CHR ''+'')),
     ([One (\<lambda>c. c = CHR ''-'')], Chr (CHR ''-'')),
     ([One (\<lambda>c. c = CHR ''*'')], Chr (CHR ''*'')),
     ([One (\<lambda>c. c = CHR ''/'')], Chr (CHR ''/'')),
     ([One (\<lambda>c. c = CHR ''('')], Chr (CHR ''('')),
     ([One (\<lambda>c. c = CHR '')'')], Chr (CHR '')'')),
     ([One (\<lambda>c. c = CHR ''=''), One (\<lambda>c. c = CHR ''='')], TK_EQ),
     ([One (\<lambda>c. c = CHR ''!''), One (\<lambda>c. c = CHR ''='')], TK_NEQ),
     ([One (\<lambda>c. c = CHR ''&''), One (\<lambda>c. c = CHR ''&'')], TK_AND),
     ([One (\<lambda>c. c = CHR ''$''), Many1 is_alnum], TK_REG),
     ([One (\<lambda>c. c = CHR ''0''), One (\<lambda>c. c = CHR ''x'' \<or> c = CHR ''X''), Many1 is_hex], TK_HEX),
     ([Many1 is_digit], TK_DEC)]"

fun first_rule :: "(regex_item list \<times> token_type) list \<Rightarrow> string \<Rightarrow> (token_type \<times> nat) option" where
  "first_rule [] s = None"
| "first_rule ((r, ty) # rs) s =
     (case re_match r s of Some n \<Rightarrow> Some (ty, n) | None \<Rightarrow> first_rule rs s)"

section \<open>The lexer\<close>

text \<open>The static variables of \<open>expr.c\<close>; the array is a list of its 32 entries.\<close>

record lexer =
  tokens :: "token list"
  nr_token :: nat
  length_token :: nat
  is_bad_expression :: bool

definition initial_lexer :: lexer where
  "initial_lexer = \<lparr>tokens = replicate NR_TOKENS \<lparr>tk_type = Chr (CHR 0x00), tk_str = ''''\<rparr>,
     nr_token = 0, length_token = 0, is_bad_expression = False\<rparr>"

text \<open>
  Recording a token: the 33rd token is written outside the array, and a token of 32 or more
  characters has its terminator written outside its string.
\<close>

definition put_token :: "token_type \<Rightarrow> string \<Rightarrow> lexer \<Rightarrow> lexer res" where
  "put_token ty str l =
     (if NR_TOKENS \<le> nr_token l \<or> TOKEN_STR \<le> length str then Inl OutOfBounds
      else Inr (l\<lparr>tokens := (tokens l)[nr_token l := \<lparr>tk_type = ty, tk_str = str\<rparr>],
                  nr_token := nr_token l + 1, length_token := length_token l + 1\<rparr>))"

lemma re_match_le: "re_match r s = Some n \<Longrightarrow> n \<le> length s"
proof (induction r s arbitrary: n rule: re_match.induct)
  case (1 s)
  then show ?case by simp
next
  case (2 p r s)
  then show ?case by (auto split: list.splits if_splits)
next
  case (3 p r s)
  from "3.prems" obtain k where k: "re_match r (drop (length (takeWhile p s)) s) = Some k"
    and n: "n = length (takeWhile p s) + k" and ne: "length (takeWhile p s) \<noteq> 0"
    by (auto simp: Let_def split: if_splits)
  from "3.IH" [OF refl ne k] n length_takeWhile_le [of p s] show ?case by simp
qed

lemma rules_ne: "\<forall>(r, t) \<in> set rules. r \<noteq> []"
  by (simp add: rules_def)

text \<open>One round of the loop always consumes input: no rule matches the empty string.\<close>

lemma first_rule_pos: "first_rule rules s = Some (ty, n) \<Longrightarrow> 0 < n \<and> n \<le> length s"
proof -
  have pos: "re_match (i # r) s = Some n \<Longrightarrow> 0 < n" for i r s n
    by (cases i) (auto simp: Let_def split: list.splits if_splits)
  have "first_rule rs s = Some (ty, n) \<Longrightarrow> (\<forall>(r, t) \<in> set rs. r \<noteq> []) \<Longrightarrow> 0 < n \<and> n \<le> length s" for rs
  proof (induction rs)
    case Nil
    then show ?case by simp
  next
    case (Cons a rs)
    obtain r t where a: "a = (r, t)" by (cases a)
    with Cons.prems obtain i r' where r: "r = i # r'" by (cases r) auto
    show ?case
    proof (cases "re_match r s")
      case None
      with Cons a show ?thesis by simp
    next
      case (Some m)
      with Cons.prems a have "m = n" by simp
      with Some pos [of i r' s m] re_match_le [of r s m] r show ?thesis by simp
    qed
  qed
  from this [of rules] show "first_rule rules s = Some (ty, n) \<Longrightarrow> 0 < n \<and> n \<le> length s"
    using rules_ne by blast
qed

text \<open>The loop of \<open>make_token\<close> on the rest of the string.\<close>

function make_token_loop :: "string \<Rightarrow> lexer \<Rightarrow> (bool \<times> lexer) res" where
  "make_token_loop s l =
     (if s = [] then Inr (True, l)
      else case first_rule rules s of
             None \<Rightarrow> Inr (False, l)
           | Some (ty, n) \<Rightarrow>
               (if ty = TK_NOTYPE then make_token_loop (drop n s) l
                else case put_token ty (take n s) l of
                       Inl e \<Rightarrow> Inl e
                     | Inr l1 \<Rightarrow> make_token_loop (drop n s) l1))"
  by pat_completeness auto
termination
  by (relation "measure (\<lambda>(s, l). length s)") (auto dest: first_rule_pos)

declare make_token_loop.simps [simp del]

definition make_token :: "string \<Rightarrow> lexer \<Rightarrow> (bool \<times> lexer) res" where
  "make_token e l = make_token_loop e (l\<lparr>nr_token := 0, length_token := 0\<rparr>)"

section \<open>Parentheses and the main operator\<close>

definition tk :: "token list \<Rightarrow> int \<Rightarrow> token_type" where
  "tk ts i = tk_type (ts ! nat i)"

text \<open>
  The loop of \<open>check_parentheses\<close> from \<open>i\<close> to \<open>q\<close>: \<open>None\<close> is a bad expression (a closing
  parenthesis too many, or one missing at the end), otherwise the value of
  \<open>is_full_parenthesed\<close>.
\<close>

function paren_loop :: "token list \<Rightarrow> int \<Rightarrow> int \<Rightarrow> nat \<Rightarrow> bool \<Rightarrow> bool option" where
  "paren_loop ts i q stack full =
     (if q < i then (if stack \<noteq> 0 then None else Some full)
      else if tk ts i = Chr (CHR ''('') then paren_loop ts (i + 1) q (stack + 1) full
      else if tk ts i = Chr (CHR '')'') then
        (if stack = 0 then None
         else paren_loop ts (i + 1) q (stack - 1) (if stack - 1 = 0 \<and> i \<noteq> q then False else full))
      else paren_loop ts (i + 1) q stack (if stack = 0 \<and> i \<noteq> q then False else full))"
  by pat_completeness auto
termination
  by (relation "measure (\<lambda>(ts, i, q, stack, full). nat (q + 1 - i))") auto

declare paren_loop.simps [simp del]

text \<open>The result of \<open>check_parentheses\<close> and the new value of \<open>is_bad_expression\<close>.\<close>

definition check_parentheses :: "token list \<Rightarrow> int \<Rightarrow> int \<Rightarrow> bool \<Rightarrow> bool \<times> bool" where
  "check_parentheses ts p q bad =
     (if q < p then (False, bad)
      else case paren_loop ts p q 0 True of
             None \<Rightarrow> (False, True)
           | Some full \<Rightarrow> (full, False))"

definition get_op_precedence :: "token_type \<Rightarrow> int" where
  "get_op_precedence ty =
     (if ty = Chr (CHR ''('') \<or> ty = Chr (CHR '')'') then 0
      else if ty = TK_MINUS \<or> ty = TK_DEREF then 1
      else if ty = Chr (CHR ''*'') \<or> ty = Chr (CHR ''/'') then 2
      else if ty = Chr (CHR ''+'') \<or> ty = Chr (CHR ''-'') then 3
      else if ty = TK_EQ \<or> ty = TK_NEQ then 4
      else if ty = TK_AND then 5
      else - 1)"

text \<open>
  The inner loop of \<open>get_main_op\<close>, looking for the end of a parenthesised group; the array is
  left when no end is found.
\<close>

function find_close :: "token list \<Rightarrow> int \<Rightarrow> int \<Rightarrow> bool \<Rightarrow> (int \<times> bool) res" where
  "find_close ts i j bad =
     (if int NR_TOKENS \<le> j then Inl OutOfBounds
      else case check_parentheses ts i j bad of
             (True, bad1) \<Rightarrow> Inr (j, bad1)
           | (False, bad1) \<Rightarrow> find_close ts i (j + 1) bad1)"
  by pat_completeness auto
termination
  by (relation "measure (\<lambda>(ts, i, j, bad). nat (int NR_TOKENS - j))") auto

declare find_close.simps [simp del]

text \<open>The operators pushed so far, the top first.\<close>

lemma find_close_le: "find_close ts i j bad = Inr (k, bad') \<Longrightarrow> j \<le> k"
proof (induction ts i j bad arbitrary: k bad' rule: find_close.induct)
  case (1 ts i j bad)
  show ?case
  proof (cases "int NR_TOKENS \<le> j")
    case True
    with "1.prems" show ?thesis by (simp add: find_close.simps [of ts i j])
  next
    case False
    obtain f b where c: "check_parentheses ts i j bad = (f, b)" by fastforce
    show ?thesis
    proof (cases f)
      case True
      with "1.prems" False c show ?thesis by (simp add: find_close.simps [of ts i j])
    next
      case f: False
      with "1.prems" False c have "find_close ts i (j + 1) b = Inr (k, bad')"
        by (simp add: find_close.simps [of ts i j])
      with "1.IH" [OF False c [symmetric]] f show ?thesis by simp
    qed
  qed
qed

function main_op_loop ::
  "token list \<Rightarrow> int \<Rightarrow> int \<Rightarrow> int list \<Rightarrow> bool \<Rightarrow> (int list \<times> bool) res" where
  "main_op_loop ts i q stack bad =
     (if q < i then Inr (stack, bad)
      else let prec = get_op_precedence (tk ts i) in
        if prec = - 1 then main_op_loop ts (i + 1) q stack bad
        else if prec \<noteq> 0 then
          (case stack of
             [] \<Rightarrow> main_op_loop ts (i + 1) q [i] bad
           | tp # _ \<Rightarrow>
               main_op_loop ts (i + 1) q
                 (if get_op_precedence (tk ts tp) \<le> prec then i # stack else stack) bad)
        else
          (case find_close ts i (i + 1) bad of
             Inl e \<Rightarrow> Inl e
           | Inr (j, bad1) \<Rightarrow>
               if j \<le> q then main_op_loop ts (j + 1) q stack bad1 else Inl AssertFail))"
  by pat_completeness auto
termination
  by (relation "measure (\<lambda>(ts, i, q, stack, bad). nat (q + 1 - i))") (auto dest!: find_close_le)

declare main_op_loop.simps [simp del]

definition get_main_op :: "token list \<Rightarrow> int \<Rightarrow> int \<Rightarrow> bool \<Rightarrow> (int \<times> bool) res" where
  "get_main_op ts p q bad =
     bind_res (main_op_loop ts p q [] bad) (\<lambda>(stack, bad1).
       Inr (case stack of [] \<Rightarrow> 0 | tp # _ \<Rightarrow> tp, bad1))"

section \<open>Unary operators\<close>

definition unary_of :: "token_type \<Rightarrow> token_type" where
  "unary_of ty =
     (if ty = Chr (CHR ''-'') then TK_MINUS else if ty = Chr (CHR ''*'') then TK_DEREF else ty)"

definition before_unary :: "token_type \<Rightarrow> bool" where
  "before_unary ty \<longleftrightarrow> ty \<in> {Chr (CHR ''+''), Chr (CHR ''-''), Chr (CHR ''*''), Chr (CHR ''/''), Chr (CHR ''('')}"

definition retype :: "nat \<Rightarrow> token list \<Rightarrow> token list" where
  "retype i ts = ts[i := (ts ! i)\<lparr>tk_type := unary_of (tk_type (ts ! i))\<rparr>]"

definition tokenise_step :: "nat \<Rightarrow> token list \<Rightarrow> token list" where
  "tokenise_step i ts = (if before_unary (tk_type (ts ! (i - 1))) then retype i ts else ts)"

definition tokenise :: "nat \<Rightarrow> token list \<Rightarrow> token list" where
  "tokenise len ts = fold tokenise_step [1..<len] (retype 0 ts)"

section \<open>Evaluation\<close>

text \<open>
  \<open>atoi\<close> and \<open>sscanf "%x"\<close> on the digits of a token: the C library computes in 64 bits,
  saturates, and the result is cut to 32 bits.
\<close>

definition digit_val :: "char \<Rightarrow> nat" where
  "digit_val c =
     (if is_digit c then of_char c - 48
      else if in_range (CHR ''a'') (CHR ''f'') c then of_char c - 87 else of_char c - 55)"

definition digits_val :: "nat \<Rightarrow> string \<Rightarrow> nat" where
  "digits_val base cs = foldl (\<lambda>a c. a * base + digit_val c) 0 cs"

definition atoi_digits :: "string \<Rightarrow> u32" where
  "atoi_digits cs = of_nat (min (digits_val 10 cs) (2 ^ 63 - 1))"

definition scan_hex :: "string \<Rightarrow> u32" where
  "scan_hex cs = of_nat (min (digits_val 16 (drop 2 cs)) (2 ^ 64 - 1))"

text \<open>
  The value of one token. \<open>reg\<close> is \<open>isa_reg_str2val\<close> of the guest; a name that is no
  register counts as 0.
\<close>

definition eval_token :: "(string \<Rightarrow> u32 \<times> bool) \<Rightarrow> token \<Rightarrow> u32 res" where
  "eval_token reg t =
     (if tk_type t = TK_DEC then Inr (atoi_digits (tk_str t))
      else if tk_type t = TK_HEX then Inr (scan_hex (tk_str t))
      else if tk_type t = TK_REG then
        (case reg (tk_str t) of (v, success) \<Rightarrow> Inr (if success then v else 0))
      else Inl AssertFail)"

text \<open>
  The \<open>switch\<close> on the operator. A dereference outside \<open>pmem\<close> prints a message and gives 0.
\<close>

definition eval_op :: "'a mem_scheme \<Rightarrow> token_type \<Rightarrow> u32 \<Rightarrow> u32 \<Rightarrow> u32 res" where
  "eval_op s op val1 val2 =
     (if op = Chr (CHR ''+'') then Inr (val1 + val2)
      else if op = Chr (CHR ''-'') then Inr (val1 - val2)
      else if op = Chr (CHR ''*'') then Inr (val1 * val2)
      else if op = Chr (CHR ''/'') then Inr (if val2 \<noteq> 0 then val1 div val2 else 0)
      else if op = TK_EQ then Inr (of_bool (val1 = val2))
      else if op = TK_NEQ then Inr (of_bool (val1 \<noteq> val2))
      else if op = TK_AND then Inr (of_bool (val1 \<noteq> 0 \<and> val2 \<noteq> 0))
      else if op = TK_MINUS then Inr (- val2)
      else if op = TK_DEREF then
        (if in_pmem val2 then bind_res (paddr_read val2 4 s) (\<lambda>(v, _). Inr v) else Inr 0)
      else Inr 0)"

partial_function (option) eval ::
  "(string \<Rightarrow> u32 \<times> bool) \<Rightarrow> 'a mem_scheme \<Rightarrow> token list \<Rightarrow> int \<Rightarrow> int \<Rightarrow> bool \<Rightarrow> (u32 \<times> bool) run" where
  "eval reg s ts p q bad =
     (case check_parentheses ts p q bad of (full, bad1) \<Rightarrow>
      if \<not> full \<and> bad1 then Some (Inr (0, bad1))
      else if q < p then Some (Inr (0, bad1))
      else if p = q then Some (bind_res (eval_token reg (ts ! nat p)) (\<lambda>v. Inr (v, bad1)))
      else (case check_parentheses ts p q bad1 of (full1, bad2) \<Rightarrow>
        if full1 then eval reg s ts (p + 1) (q - 1) bad2
        else bind_run (Some (get_main_op ts p q bad2)) (\<lambda>r.
             bind_run (eval reg s ts p (fst r - 1) (snd r)) (\<lambda>v1.
             bind_run (eval reg s ts (fst r + 1) q (snd v1)) (\<lambda>v2.
             Some (bind_res (eval_op s (tk ts (fst r)) (fst v1) (fst v2)) (\<lambda>v. Inr (v, snd v2))))))))"

definition expr ::
  "(string \<Rightarrow> u32 \<times> bool) \<Rightarrow> 'a mem_scheme \<Rightarrow> string \<Rightarrow> lexer \<Rightarrow> ((u32 \<times> bool) \<times> lexer) run" where
  "expr reg s e l =
     bind_run (Some (make_token e l)) (\<lambda>r.
       if \<not> fst r then Some (Inr ((0, False), snd r))
       else let l1 = (snd r)\<lparr>tokens := tokenise (length_token (snd r)) (tokens (snd r))\<rparr> in
         bind_run (eval reg s (tokens l1) 0 (int (length_token l1) - 1) (is_bad_expression l1)) (\<lambda>v.
           Some (Inr ((fst v, True), l1\<lparr>is_bad_expression := snd v\<rparr>))))"

end
