(* ===== verification/SdbExprSpec.thy ===== *)
theory SdbExprSpec
  imports SdbExpr
begin

text \<open>
  What the debugger's expressions mean: a syntax tree with C's precedences and left
  association, its value, its token sequence and its text. The theorems say that \<open>eval\<close> returns,
  with the value of the tree, that \<open>tokenise\<close> finds the unary operators, and that \<open>make_token\<close>
  reads the text back; together they make \<open>expr\<close> correct on every text of a tree.
\<close>

section \<open>Expressions\<close>

datatype binop = Plus | Minus | Times | Divide | Equal | NotEqual | Conj
datatype unop = Neg | Deref

datatype ex =
    Atom token
  | Par ex
  | Unary unop ex
  | Bin binop ex ex

fun bin_type :: "binop \<Rightarrow> token_type" where
  "bin_type Plus = Chr (CHR ''+'')"
| "bin_type Minus = Chr (CHR ''-'')"
| "bin_type Times = Chr (CHR ''*'')"
| "bin_type Divide = Chr (CHR ''/'')"
| "bin_type Equal = TK_EQ"
| "bin_type NotEqual = TK_NEQ"
| "bin_type Conj = TK_AND"

fun bin_text :: "binop \<Rightarrow> string" where
  "bin_text Plus = ''+''"
| "bin_text Minus = ''-''"
| "bin_text Times = ''*''"
| "bin_text Divide = ''/''"
| "bin_text Equal = ''==''"
| "bin_text NotEqual = ''!=''"
| "bin_text Conj = ''&&''"

text \<open>Binding strength: a smaller number binds tighter.\<close>

fun bin_prec :: "binop \<Rightarrow> int" where
  "bin_prec Plus = 3"
| "bin_prec Minus = 3"
| "bin_prec Times = 2"
| "bin_prec Divide = 2"
| "bin_prec Equal = 4"
| "bin_prec NotEqual = 4"
| "bin_prec Conj = 5"

fun un_type :: "unop \<Rightarrow> token_type" where
  "un_type Neg = TK_MINUS"
| "un_type Deref = TK_DEREF"

fun un_text :: "unop \<Rightarrow> string" where
  "un_text Neg = ''-''"
| "un_text Deref = ''*''"

fun prec :: "ex \<Rightarrow> int" where
  "prec (Atom t) = 0"
| "prec (Par e) = 0"
| "prec (Unary u e) = 1"
| "prec (Bin b l r) = bin_prec b"

definition mk :: "token_type \<Rightarrow> string \<Rightarrow> token" where
  "mk ty str = \<lparr>tk_type = ty, tk_str = str\<rparr>"

fun flat :: "ex \<Rightarrow> token list" where
  "flat (Atom t) = [t]"
| "flat (Par e) = mk (Chr (CHR ''('')) ''('' # flat e @ [mk (Chr (CHR '')'')) '')'']"
| "flat (Unary u e) = mk (un_type u) (un_text u) # flat e"
| "flat (Bin b l r) = flat l @ mk (bin_type b) (bin_text b) # flat r"

text \<open>
  The trees whose token sequence is written with the parentheses that precedence and left
  association require; a unary operator applies to a token or a parenthesis.
\<close>

fun wf :: "ex \<Rightarrow> bool" where
  "wf (Atom t) \<longleftrightarrow> tk_type t \<in> {TK_DEC, TK_HEX, TK_REG}"
| "wf (Par e) \<longleftrightarrow> wf e"
| "wf (Unary u e) \<longleftrightarrow> wf e \<and> prec e = 0"
| "wf (Bin b l r) \<longleftrightarrow> wf l \<and> wf r \<and> prec l \<le> bin_prec b \<and> prec r < bin_prec b"

fun bin_sem :: "binop \<Rightarrow> u32 \<Rightarrow> u32 \<Rightarrow> u32" where
  "bin_sem Plus a b = a + b"
| "bin_sem Minus a b = a - b"
| "bin_sem Times a b = a * b"
| "bin_sem Divide a b = (if b = 0 then 0 else a div b)"
| "bin_sem Equal a b = (if a = b then 1 else 0)"
| "bin_sem NotEqual a b = (if a = b then 0 else 1)"
| "bin_sem Conj a b = (if a = 0 \<or> b = 0 then 0 else 1)"

fun un_sem :: "'a mem_scheme \<Rightarrow> unop \<Rightarrow> u32 \<Rightarrow> u32 res" where
  "un_sem s Neg a = Inr (0 - a)"
| "un_sem s Deref a =
     (if in_pmem a then host_read CONFIG_MSIZE (pmem s) (guest_to_host a) 4 else Inr 0)"

fun sem :: "(string \<Rightarrow> u32 \<times> bool) \<Rightarrow> 'a mem_scheme \<Rightarrow> ex \<Rightarrow> u32 res" where
  "sem reg s (Atom t) = eval_token reg t"
| "sem reg s (Par e) = sem reg s e"
| "sem reg s (Unary u e) = bind_res (sem reg s e) (un_sem s u)"
| "sem reg s (Bin b l r) =
     bind_res (sem reg s l) (\<lambda>a. bind_res (sem reg s r) (\<lambda>c. Inr (bin_sem b a c)))"

text \<open>The expression stands in the array from \<open>p\<close> on.\<close>

definition stands :: "token list \<Rightarrow> nat \<Rightarrow> ex \<Rightarrow> bool" where
  "stands ts p e \<longleftrightarrow> p + length (flat e) \<le> length ts \<and> take (length (flat e)) (drop p ts) = flat e"

fun mainpos :: "ex \<Rightarrow> nat" where
  "mainpos (Bin b l r) = length (flat l)"
| "mainpos e = 0"

section \<open>Segments\<close>

lemma flat_ne [simp]: "flat e \<noteq> []"
  by (cases e) auto

lemma length_flat_pos [simp]: "0 < length (flat e)"
  by simp

lemma stands_nth: "stands ts p e \<Longrightarrow> i < length (flat e) \<Longrightarrow> ts ! (p + i) = flat e ! i"
  unfolding stands_def by (metis add_leD1 nth_drop nth_take)

lemma stands_sub:
  assumes "stands ts p e" and "flat e = xs @ flat e' @ ys"
  shows "stands ts (p + length xs) e'"
  unfolding stands_def
proof
  show "p + length xs + length (flat e') \<le> length ts" using assms by (simp add: stands_def)
  have "take (length (flat e')) (drop (p + length xs) ts)
      = take (length (flat e')) (drop (length xs) (take (length (flat e)) (drop p ts)))"
    using assms(2) by (simp add: drop_take add.commute)
  also have "\<dots> = flat e'" using assms by (simp add: stands_def)
  finally show "take (length (flat e')) (drop (p + length xs) ts) = flat e'" .
qed

lemma stands_Par:
  assumes "stands ts p (Par e)"
  shows "stands ts (Suc p) e" and "tk ts (int p) = Chr (CHR ''('')"
    and "tk ts (int (Suc p + length (flat e))) = Chr (CHR '')'')"
proof -
  show "stands ts (Suc p) e"
    using stands_sub [OF assms, of "[mk (Chr (CHR ''('')) ''('']" e] by simp
  show "tk ts (int p) = Chr (CHR ''('')"
    using stands_nth [OF assms, of 0] by (simp add: tk_def mk_def)
  have "ts ! (p + Suc (length (flat e))) = mk (Chr (CHR '')'')) '')''"
    using stands_nth [OF assms, of "Suc (length (flat e))"] by (simp add: nth_append)
  then show "tk ts (int (Suc p + length (flat e))) = Chr (CHR '')'')"
    by (simp only: tk_def nat_int) (simp add: mk_def)
qed

lemma stands_Unary:
  assumes "stands ts p (Unary u e)"
  shows "stands ts (Suc p) e" and "tk ts (int p) = un_type u"
proof -
  show "stands ts (Suc p) e"
    using stands_sub [OF assms, of "[mk (un_type u) (un_text u)]" e "[]"] by simp
  show "tk ts (int p) = un_type u"
    using stands_nth [OF assms, of 0] by (simp add: tk_def mk_def)
qed

lemma stands_Bin:
  assumes "stands ts p (Bin b l r)"
  shows "stands ts p l" and "tk ts (int (p + length (flat l))) = bin_type b"
    and "stands ts (Suc (p + length (flat l))) r"
proof -
  show "stands ts p l"
    using stands_sub [OF assms, of "[]" l "mk (bin_type b) (bin_text b) # flat r"] by simp
  show "tk ts (int (p + length (flat l))) = bin_type b"
    using stands_nth [OF assms, of "length (flat l)"] by (simp only: tk_def nat_int) (simp add: mk_def)
  show "stands ts (Suc (p + length (flat l))) r"
    using stands_sub [OF assms, of "flat l @ [mk (bin_type b) (bin_text b)]" r "[]"] by simp
qed

lemma stands_Atom: "stands ts p (Atom t) \<Longrightarrow> ts ! p = t"
  using stands_nth [of ts p "Atom t" 0] by simp

lemma bin_type_facts [simp]:
  "bin_type b \<noteq> Chr (CHR ''('')" "bin_type b \<noteq> Chr (CHR '')'')" "get_op_precedence (bin_type b) = bin_prec b"
  by (cases b; simp add: get_op_precedence_def)+

lemma un_type_facts [simp]:
  "un_type u \<noteq> Chr (CHR ''('')" "un_type u \<noteq> Chr (CHR '')'')" "get_op_precedence (un_type u) = 1"
  by (cases u; simp add: get_op_precedence_def)+

lemma bin_prec_pos [simp]: "0 < bin_prec b" "bin_prec b \<noteq> 0" "bin_prec b \<noteq> - 1"
  by (cases b; simp)+

lemma prec_nonneg [simp]: "0 \<le> prec e"
  by (cases e) (auto intro: less_imp_le)

section \<open>Parentheses are balanced\<close>

text \<open>Running over a whole expression leaves the stack as it was.\<close>

lemma paren_over:
  "wf e \<Longrightarrow> stands ts p e \<Longrightarrow> int (p + length (flat e)) \<le> q + 1 \<Longrightarrow>
   paren_loop ts (int p) q k full =
     paren_loop ts (int (p + length (flat e))) q k
       (if k = 0 then full \<and> prec e = 0 \<and> q = int (p + length (flat e)) - 1 else full)"
proof (induction e arbitrary: p k full)
  case (Atom t)
  then have t: "tk ts (int p) = tk_type t" by (simp add: tk_def stands_Atom)
  with Atom show ?case by (subst paren_loop.simps) (auto simp: add.commute)
next
  case (Par e)
  note st = stands_Par [OF Par.prems(2)]
  have "paren_loop ts (int p) q k full = paren_loop ts (int (Suc p)) q (Suc k) full"
    using Par.prems(3) st(2) by (subst paren_loop.simps) (simp add: add.commute)
  also have "\<dots> = paren_loop ts (int (Suc p + length (flat e))) q (Suc k) full"
    using Par.IH [OF _ st(1), of "Suc k" full] Par.prems by simp
  also have "\<dots> = paren_loop ts (int (p + length (flat (Par e)))) q k
      (if k = 0 \<and> int (Suc p + length (flat e)) \<noteq> q then False else full)"
    using Par.prems(3) st(3) by (subst paren_loop.simps) (simp add: algebra_simps)
  finally show ?case by (auto simp: algebra_simps)
next
  case (Unary u e)
  note st = stands_Unary [OF Unary.prems(2)]
  have "paren_loop ts (int p) q k full = paren_loop ts (int (Suc p)) q k (if k = 0 then False else full)"
    using Unary.prems(3) st(2) by (subst paren_loop.simps) (auto simp: add.commute)
  also have "\<dots> = paren_loop ts (int (Suc p + length (flat e))) q k (if k = 0 then False else full)"
    using Unary.IH [OF _ st(1), of k "if k = 0 then False else full"] Unary.prems by simp
  finally show ?case by simp
next
  case (Bin b l r)
  note st = stands_Bin [OF Bin.prems(2)]
  let ?m = "p + length (flat l)"
  let ?f = "if k = 0 then False else full"
  have "paren_loop ts (int p) q k full = paren_loop ts (int ?m) q k ?f"
    using Bin.IH(1) [OF _ st(1), of k full] Bin.prems by (auto split: if_splits)
  also have "\<dots> = paren_loop ts (int (Suc ?m)) q k ?f"
    using Bin.prems(3) st(2) by (subst paren_loop.simps) (auto simp: algebra_simps)
  also have "\<dots> = paren_loop ts (int (Suc ?m + length (flat r))) q k ?f"
    using Bin.IH(2) [OF _ st(3), of k ?f] Bin.prems by (auto split: if_splits)
  finally show ?case by (simp add: algebra_simps)
qed

text \<open>Stopping inside an expression, with a parenthesis open before it, is a bad expression.\<close>

lemma paren_cut:
  "wf e \<Longrightarrow> stands ts p e \<Longrightarrow> int p - 1 \<le> q \<Longrightarrow> q < int (p + length (flat e)) - 1 \<Longrightarrow> 0 < k \<Longrightarrow>
   paren_loop ts (int p) q k full = None"
proof (induction e arbitrary: p k full)
  case (Atom t)
  then show ?case by (subst paren_loop.simps) simp
next
  case (Par e)
  note st = stands_Par [OF Par.prems(2)]
  show ?case
  proof (cases "q < int p")
    case True
    with Par.prems show ?thesis by (subst paren_loop.simps) simp
  next
    case False
    then have step: "paren_loop ts (int p) q k full = paren_loop ts (int (Suc p)) q (Suc k) full"
      using st(2) by (subst paren_loop.simps) (simp add: add.commute)
    show ?thesis
    proof (cases "q < int (Suc p + length (flat e)) - 1")
      case True
      with Par.IH [OF _ st(1), of "Suc k" full] Par.prems False step show ?thesis by simp
    next
      case False2: False
      with Par.prems have q: "q = int (Suc p + length (flat e)) - 1" by simp
      have "paren_loop ts (int (Suc p)) q (Suc k) full
          = paren_loop ts (int (Suc p + length (flat e))) q (Suc k) full"
        using paren_over [OF _ st(1), of q "Suc k" full] Par.prems q by simp
      also have "\<dots> = None" using q by (subst paren_loop.simps) simp
      finally show ?thesis using step by simp
    qed
  qed
next
  case (Unary u e)
  note st = stands_Unary [OF Unary.prems(2)]
  show ?case
  proof (cases "q < int p")
    case True
    with Unary.prems show ?thesis by (subst paren_loop.simps) simp
  next
    case False
    then have "paren_loop ts (int p) q k full = paren_loop ts (int (Suc p)) q k full"
      using st(2) Unary.prems(5) by (subst paren_loop.simps) (simp add: add.commute)
    with Unary.IH [OF _ st(1), of k full] Unary.prems False show ?thesis by simp
  qed
next
  case (Bin b l r)
  note st = stands_Bin [OF Bin.prems(2)]
  let ?m = "p + length (flat l)"
  consider "q < int ?m - 1" | "q = int ?m - 1" | "int ?m \<le> q" by linarith
  then show ?case
  proof cases
    case 1
    with Bin.IH(1) [OF _ st(1), of k full] Bin.prems show ?thesis by simp
  next
    case 2
    then have "paren_loop ts (int p) q k full = paren_loop ts (int ?m) q k full"
      using paren_over [OF _ st(1), of q k full] Bin.prems by simp
    also have "\<dots> = None" using 2 Bin.prems by (subst paren_loop.simps) simp
    finally show ?thesis .
  next
    case 3
    then have "paren_loop ts (int p) q k full = paren_loop ts (int ?m) q k full"
      using paren_over [OF _ st(1), of q k full] Bin.prems by simp
    also have "\<dots> = paren_loop ts (int (Suc ?m)) q k full"
      using 3 st(2) Bin.prems(5) by (subst paren_loop.simps) (simp add: algebra_simps)
    also have "\<dots> = None"
      using Bin.IH(2) [OF _ st(3), of k full] Bin.prems 3 by (simp add: algebra_simps)
    finally show ?thesis .
  qed
qed

lemma check_whole:
  assumes "wf e" and "stands ts p e"
  shows "check_parentheses ts (int p) (int (p + length (flat e)) - 1) bad = (prec e = 0, False)"
proof -
  have "paren_loop ts (int p) (int (p + length (flat e)) - 1) 0 True
      = paren_loop ts (int (p + length (flat e))) (int (p + length (flat e)) - 1) 0 (prec e = 0)"
    using paren_over [OF assms, of "int (p + length (flat e)) - 1" 0 True] by simp
  also have "\<dots> = Some (prec e = 0)" by (subst paren_loop.simps) simp
  finally have "paren_loop ts (int p) (int (p + length (flat e)) - 1) 0 True = Some (prec e = 0)" .
  then show ?thesis by (simp add: check_parentheses_def not_less)
qed

lemma close_found:
  assumes e: "wf (Par e)" "stands ts p (Par e)" and len: "length ts \<le> NR_TOKENS"
  shows "int p < j \<Longrightarrow> j \<le> int (p + length (flat e)) + 1 \<Longrightarrow>
    find_close ts (int p) j bad = Inr (int (p + length (flat e)) + 1, False)"
proof (induction "nat (int (p + length (flat e)) + 1 - j)" arbitrary: j bad)
  case 0
  then have j: "j = int (p + length (flat (Par e))) - 1" by simp
  moreover have "j < int NR_TOKENS"
    using e(2) len j by (simp add: stands_def)
  ultimately show ?case
    using check_whole [OF e, of bad] by (subst find_close.simps) simp
next
  case (Suc n)
  note st = stands_Par [OF e(2)]
  have "paren_loop ts (int p) j 0 True = paren_loop ts (int (Suc p)) j (Suc 0) True"
    using st(2) Suc.prems by (subst paren_loop.simps) (simp add: add.commute)
  also have "\<dots> = None"
  proof (cases "j < int (Suc p + length (flat e)) - 1")
    case True
    with paren_cut [OF _ st(1), of j "Suc 0" True] Suc.prems e show ?thesis by simp
  next
    case False
    with Suc.hyps Suc.prems have j: "j = int (Suc p + length (flat e)) - 1" by simp
    with paren_over [OF _ st(1), of j "Suc 0" True] e
    have "paren_loop ts (int (Suc p)) j (Suc 0) True
        = paren_loop ts (int (Suc p + length (flat e))) j (Suc 0) True" by simp
    also have "\<dots> = None" using j by (subst paren_loop.simps) simp
    finally show ?thesis .
  qed
  finally have "check_parentheses ts (int p) j bad = (False, True)"
    using Suc.prems by (simp add: check_parentheses_def)
  moreover have "j < int NR_TOKENS"
    using e(2) len Suc.prems Suc.hyps(2) by (simp add: stands_def)
  moreover have "find_close ts (int p) (j + 1) True = Inr (int (p + length (flat e)) + 1, False)"
    using Suc.hyps Suc.prems by (intro Suc.hyps(1)) auto
  ultimately show ?case by (subst find_close.simps) simp
qed

section \<open>The main operator\<close>

text \<open>
  Running over an expression leaves the stack alone when the top binds tighter... otherwise
  the expression's own main operator comes to the top.
\<close>

definition tops :: "token list \<Rightarrow> int list \<Rightarrow> int \<Rightarrow> bool" where
  "tops ts st k \<longleftrightarrow> (case st of [] \<Rightarrow> True | t # _ \<Rightarrow> get_op_precedence (tk ts t) \<le> k)"

lemma main_over:
  "wf e \<Longrightarrow> stands ts p e \<Longrightarrow> length ts \<le> NR_TOKENS \<Longrightarrow> int (p + length (flat e)) \<le> q + 1 \<Longrightarrow>
   \<exists>st'. main_op_loop ts (int p) q st False = main_op_loop ts (int (p + length (flat e))) q st' False
     \<and> (if prec e \<noteq> 0 \<and> tops ts st (prec e) then \<exists>r. st' = int (p + mainpos e) # r else st' = st)
     \<and> (prec e \<noteq> 0 \<longrightarrow> get_op_precedence (tk ts (int (p + mainpos e))) = prec e)"
proof (induction e arbitrary: p st)
  case (Atom t)
  then have "tk ts (int p) = tk_type t" by (simp add: tk_def stands_Atom)
  with Atom have "main_op_loop ts (int p) q st False = main_op_loop ts (int (Suc p)) q st False"
    by (subst main_op_loop.simps) (auto simp: get_op_precedence_def add.commute)
  then show ?case by auto
next
  case (Par e)
  note st = stands_Par [OF Par.prems(2)]
  have "find_close ts (int p) (int p + 1) False = Inr (int (p + length (flat e)) + 1, False)"
    using Par.prems by (intro close_found) auto
  then have "main_op_loop ts (int p) q st False = main_op_loop ts (int (p + length (flat (Par e)))) q st False"
    using Par.prems(4) st(2) by (subst main_op_loop.simps) (simp add: get_op_precedence_def algebra_simps)
  then show ?case by auto
next
  case (Unary u e)
  note st = stands_Unary [OF Unary.prems(2)]
  let ?st = "if tops ts st 1 then int p # st else st"
  have "main_op_loop ts (int p) q st False = main_op_loop ts (int (Suc p)) q ?st False"
    using Unary.prems(4) st(2)
    by (subst main_op_loop.simps) (auto simp: tops_def add.commute split: list.splits)
  moreover obtain st' where "main_op_loop ts (int (Suc p)) q ?st False
      = main_op_loop ts (int (Suc p + length (flat e))) q st' False" "st' = ?st"
    using Unary.IH [OF _ st(1), of ?st] Unary.prems by auto
  ultimately show ?case using st(2) by auto
next
  case (Bin b l r)
  note st = stands_Bin [OF Bin.prems(2)]
  let ?m = "p + length (flat l)"
  obtain st1 where l: "main_op_loop ts (int p) q st False = main_op_loop ts (int ?m) q st1 False"
      "if prec l \<noteq> 0 \<and> tops ts st (prec l) then \<exists>r. st1 = int (p + mainpos l) # r else st1 = st"
      "prec l \<noteq> 0 \<longrightarrow> get_op_precedence (tk ts (int (p + mainpos l))) = prec l"
    using Bin.IH(1) [OF _ st(1), of st] Bin.prems by auto
  have le: "prec l \<le> bin_prec b" and lt: "prec r < bin_prec b" using Bin.prems(1) by simp_all
  have tops1: "tops ts st1 (bin_prec b) \<longleftrightarrow> tops ts st (bin_prec b)"
    using l(2,3) le by (auto simp: tops_def split: if_splits list.splits)
  let ?st2 = "if tops ts st (bin_prec b) then int ?m # st1 else st1"
  have "main_op_loop ts (int ?m) q st1 False = main_op_loop ts (int (Suc ?m)) q ?st2 False"
    using Bin.prems(4) st(2) tops1
    by (subst main_op_loop.simps) (auto simp: tops_def algebra_simps split: list.splits)
  moreover obtain st3 where r: "main_op_loop ts (int (Suc ?m)) q ?st2 False
        = main_op_loop ts (int (Suc ?m + length (flat r))) q st3 False"
      "if prec r \<noteq> 0 \<and> tops ts ?st2 (prec r) then \<exists>x. st3 = int (Suc ?m + mainpos r) # x else st3 = ?st2"
    using Bin.IH(2) [OF _ st(3), of ?st2] Bin.prems by auto
  moreover have "\<not> tops ts ?st2 (prec r)" if "prec r \<noteq> 0"
  proof (cases "tops ts st (bin_prec b)")
    case True
    with st(2) lt show ?thesis by (simp add: tops_def)
  next
    case False
    with l(2) le lt tops1 show ?thesis by (auto simp: tops_def split: list.splits if_splits)
  qed
  moreover have "st1 = st" if "\<not> tops ts st (bin_prec b)"
    using that l(2) le by (auto simp: tops_def split: if_splits list.splits)
  ultimately have "main_op_loop ts (int p) q st False
        = main_op_loop ts (int (p + length (flat (Bin b l r)))) q ?st2 False"
      and "\<not> tops ts st (bin_prec b) \<Longrightarrow> ?st2 = st"
    using l(1) by (auto simp: algebra_simps split: if_splits)
  with st(2) show ?case by (intro exI [of _ ?st2]) auto
qed

lemma main_op_whole:
  assumes "wf e" and "stands ts p e" and "length ts \<le> NR_TOKENS" and "prec e \<noteq> 0"
  shows "get_main_op ts (int p) (int (p + length (flat e)) - 1) False = Inr (int (p + mainpos e), False)"
proof -
  obtain r where "main_op_loop ts (int p) (int (p + length (flat e)) - 1) [] False
      = main_op_loop ts (int (p + length (flat e))) (int (p + length (flat e)) - 1)
          (int (p + mainpos e) # r) False"
    using main_over [OF assms(1-3), of "int (p + length (flat e)) - 1" "[]"] assms(4)
    by (auto simp: tops_def)
  moreover have "main_op_loop ts (int (p + length (flat e))) (int (p + length (flat e)) - 1) x False
      = Inr (x, False)" for x
    by (subst main_op_loop.simps) simp
  ultimately show ?thesis by (simp add: get_main_op_def)
qed

section \<open>Evaluation\<close>

lemma eval_empty: "q < p \<Longrightarrow> eval reg s ts p q False = Some (Inr (0, False))"
  by (subst eval.simps) (simp add: check_parentheses_def)

lemma eval_op_bin: "eval_op s (bin_type b) a c = Inr (bin_sem b a c)"
  by (cases b) (auto simp: eval_op_def)

lemma eval_op_un: "eval_op s (un_type u) a c = un_sem s u c"
  by (cases u)
    (auto simp: eval_op_def paddr_read_def pmem_read_def bind_res_assoc bind_res_def split: sum.splits)

lemma bind_run_res: "bind_run (Some m) f = (case m of Inl e \<Rightarrow> Some (Inl e) | Inr x \<Rightarrow> f x)"
  by (cases m) auto

lemma eval_whole:
  "wf e \<Longrightarrow> stands ts p e \<Longrightarrow> length ts \<le> NR_TOKENS \<Longrightarrow>
   eval reg s ts (int p) (int (p + length (flat e)) - 1) bad
     = Some (bind_res (sem reg s e) (\<lambda>v. Inr (v, False)))"
proof (induction e arbitrary: p bad)
  case (Atom t)
  with check_whole [OF Atom.prems(1,2), of bad] show ?case
    by (subst eval.simps) (simp add: stands_Atom)
next
  case (Par e)
  note st = stands_Par [OF Par.prems(2)]
  have "eval reg s ts (int p) (int (p + length (flat (Par e))) - 1) bad
      = eval reg s ts (int (Suc p)) (int (Suc p + length (flat e)) - 1) False"
    using check_whole [OF Par.prems(1,2)] by (subst eval.simps) (simp add: algebra_simps)
  with Par.IH [OF _ st(1) Par.prems(3), of False] Par.prems(1) show ?case by simp
next
  case (Unary u e)
  note st = stands_Unary [OF Unary.prems(2)]
  note main = main_op_whole [OF Unary.prems(1,2,3)]
  have "eval reg s ts (int p) (int (p + length (flat (Unary u e))) - 1) bad
      = bind_run (eval reg s ts (int (Suc p)) (int (Suc p + length (flat e)) - 1) False) (\<lambda>v2.
          Some (bind_res (eval_op s (un_type u) 0 (fst v2)) (\<lambda>v. Inr (v, snd v2))))"
    using check_whole [OF Unary.prems(1,2)] main st(2)
    by (subst eval.simps) (simp add: eval_empty add.commute)
  with Unary.IH [OF _ st(1) Unary.prems(3), of False] Unary.prems(1) show ?case
    by (cases "sem reg s e") (simp_all add: eval_op_un)
next
  case (Bin b l r)
  note st = stands_Bin [OF Bin.prems(2)]
  note main = main_op_whole [OF Bin.prems(1,2,3)]
  let ?m = "p + length (flat l)"
  have "0 < length (flat l)" by simp
  then have ne: "int (length (flat l)) + int (length (flat r)) \<noteq> 0" by linarith
  have "eval reg s ts (int p) (int (p + length (flat (Bin b l r))) - 1) bad
      = bind_run (eval reg s ts (int p) (int ?m - 1) False) (\<lambda>v1.
        bind_run (eval reg s ts (int (Suc ?m)) (int (Suc ?m + length (flat r)) - 1) (snd v1)) (\<lambda>v2.
          Some (bind_res (eval_op s (bin_type b) (fst v1) (fst v2)) (\<lambda>v. Inr (v, snd v2)))))"
    using check_whole [OF Bin.prems(1,2)] main st(2) ne
    by (subst eval.simps) (simp add: algebra_simps)
  with Bin.IH(1) [OF _ st(1) Bin.prems(3), of False] Bin.IH(2) [OF _ st(3) Bin.prems(3)] Bin.prems(1)
  show ?case
    by (cases "sem reg s l"; cases "sem reg s r") (simp_all add: eval_op_bin)
qed

section \<open>Unary operators\<close>

text \<open>
  The token sequence as the lexer leaves it, before \<open>tokenise\<close>, and the condition under which
  \<open>tokenise\<close> recognises every unary operator: it must not follow a comparison or \<open>&&\<close>.
\<close>

fun un_raw :: "unop \<Rightarrow> token_type" where
  "un_raw Neg = Chr (CHR ''-'')"
| "un_raw Deref = Chr (CHR ''*'')"

fun raw :: "ex \<Rightarrow> token list" where
  "raw (Atom t) = [t]"
| "raw (Par e) = mk (Chr (CHR ''('')) ''('' # raw e @ [mk (Chr (CHR '')'')) '')'']"
| "raw (Unary u e) = mk (un_raw u) (un_text u) # raw e"
| "raw (Bin b l r) = raw l @ mk (bin_type b) (bin_text b) # raw r"

fun starts_unary :: "ex \<Rightarrow> bool" where
  "starts_unary (Unary u e) \<longleftrightarrow> True"
| "starts_unary (Bin b l r) \<longleftrightarrow> starts_unary l"
| "starts_unary e \<longleftrightarrow> False"

fun unary_ok :: "ex \<Rightarrow> bool" where
  "unary_ok (Atom t) \<longleftrightarrow> True"
| "unary_ok (Par e) \<longleftrightarrow> unary_ok e"
| "unary_ok (Unary u e) \<longleftrightarrow> unary_ok e"
| "unary_ok (Bin b l r) \<longleftrightarrow> unary_ok l \<and> unary_ok r
     \<and> (b \<in> {Equal, NotEqual, Conj} \<longrightarrow> \<not> starts_unary r)"

text \<open>\<open>tokenise\<close> as one pass with the type of the token before.\<close>

fun retok :: "token_type \<Rightarrow> token list \<Rightarrow> token list" where
  "retok prev [] = []"
| "retok prev (t # ts) =
     (let t' = (if before_unary prev then t\<lparr>tk_type := unary_of (tk_type t)\<rparr> else t)
      in t' # retok (tk_type t') ts)"

fun last_type :: "token_type \<Rightarrow> token list \<Rightarrow> token_type" where
  "last_type prev [] = prev"
| "last_type prev (t # ts) = last_type (tk_type t) ts"

lemma retok_append: "retok prev (xs @ ys) = retok prev xs @ retok (last_type prev (retok prev xs)) ys"
  by (induction xs arbitrary: prev) (simp_all add: Let_def)

lemma last_type_append: "last_type prev (xs @ ys) = last_type (last_type prev xs) ys"
  by (induction xs arbitrary: prev) simp_all

lemma length_retok [simp]: "length (retok prev xs) = length xs"
  by (induction xs arbitrary: prev) (simp_all add: Let_def)

lemma retok_nth_last: "xs \<noteq> [] \<Longrightarrow> last_type prev xs = tk_type (xs ! (length xs - 1))"
proof (induction xs arbitrary: prev)
  case Nil
  then show ?case by simp
next
  case (Cons x xs)
  then show ?case by (cases xs) auto
qed

lemma before_unary_paren: "before_unary (Chr (CHR ''(''))"
  by (simp add: before_unary_def)

lemma tokenise_retok:
  "0 < n \<Longrightarrow> n \<le> length ts \<Longrightarrow> tokenise n ts = retok (Chr (CHR ''('')) (take n ts) @ drop n ts"
proof (induction n)
  case 0
  then show ?case by simp
next
  case (Suc n)
  show ?case
  proof (cases "n = 0")
    case True
    from Suc.prems obtain t ts' where "ts = t # ts'" by (cases ts) auto
    with True show ?thesis
      by (simp add: tokenise_def retype_def before_unary_paren Let_def)
  next
    case False
    let ?P = "Chr (CHR ''('')"
    from False Suc have IH: "tokenise n ts = retok ?P (take n ts) @ drop n ts" by simp
    have len: "length (take n ts) = n" "n < length ts" using Suc.prems by simp_all
    then have d: "drop n ts = ts ! n # drop (Suc n) ts" by (simp add: Cons_nth_drop_Suc)
    have tk: "take (Suc n) ts = take n ts @ [ts ! n]" using len(2) by (rule take_Suc_conv_app_nth)
    have "tokenise (Suc n) ts = tokenise_step n (tokenise n ts)"
      using False by (simp add: tokenise_def)
    also have "\<dots> = retok ?P (take n ts) @ retok (last_type ?P (retok ?P (take n ts))) [ts ! n] @ drop (Suc n) ts"
    proof -
      have "(retok ?P (take n ts) @ drop n ts) ! n = ts ! n" using len by (simp add: nth_append d)
      moreover have "(retok ?P (take n ts) @ drop n ts) ! (n - 1) = retok ?P (take n ts) ! (n - 1)"
        using len False by (simp add: nth_append)
      moreover have "last_type ?P (retok ?P (take n ts)) = tk_type (retok ?P (take n ts) ! (n - 1))"
      proof -
        have "retok ?P (take n ts) \<noteq> []" using False len by (metis length_0_conv length_retok)
        from retok_nth_last [OF this, of ?P] len show ?thesis by simp
      qed
      ultimately show ?thesis
        using len by (simp add: IH tokenise_step_def retype_def list_update_append d Let_def)
    qed
    also have "\<dots> = retok ?P (take (Suc n) ts) @ drop (Suc n) ts"
      by (simp add: tk retok_append)
    finally show ?thesis .
  qed
qed

lemma last_flat: "wf e \<Longrightarrow> \<not> before_unary (last_type prev (flat e))"
  by (induction e arbitrary: prev) (auto simp: last_type_append before_unary_def mk_def)

lemma bin_keep: "before_unary (bin_type b) \<longleftrightarrow> b \<notin> {Equal, NotEqual, Conj}"
  by (cases b) (auto simp: before_unary_def)

lemma retok_raw:
  "wf e \<Longrightarrow> unary_ok e \<Longrightarrow> starts_unary e \<longrightarrow> before_unary prev \<Longrightarrow> retok prev (raw e) = flat e"
proof (induction e arbitrary: prev)
  case (Atom t)
  then show ?case by (auto simp: unary_of_def)
next
  case (Par e)
  have "retok (Chr (CHR ''('')) (raw e) = flat e" using Par by (simp add: before_unary_paren)
  moreover have "\<not> before_unary (last_type (Chr (CHR ''('')) (flat e))"
    using last_flat Par.prems(1) by simp
  ultimately show ?case by (simp add: Let_def unary_of_def mk_def retok_append)
next
  case (Unary u e)
  then have "\<not> starts_unary e" by (cases e) auto
  with Unary have "retok (un_type u) (raw e) = flat e" by simp
  with Unary.prems(3) show ?case by (cases u) (simp_all add: Let_def unary_of_def mk_def)
next
  case (Bin b l r)
  have l: "retok prev (raw l) = flat l" using Bin by simp
  have nb: "\<not> before_unary (last_type prev (flat l))" using last_flat Bin.prems(1) by simp
  have "starts_unary r \<longrightarrow> before_unary (bin_type b)" using Bin.prems(2) bin_keep by auto
  with Bin have r: "retok (bin_type b) (raw r) = flat r" by simp
  show ?case using l r nb by (simp add: retok_append Let_def mk_def)
qed

section \<open>Text\<close>

text \<open>A token and its text: what the lexer must find for it.\<close>

definition good_atom :: "token \<Rightarrow> bool" where
  "good_atom t \<longleftrightarrow> length (tk_str t) < TOKEN_STR \<and>
     (case tk_type t of
        TK_DEC \<Rightarrow> tk_str t \<noteq> [] \<and> (\<forall>c \<in> set (tk_str t). is_digit c)
      | TK_HEX \<Rightarrow> (\<exists>x cs. tk_str t = CHR ''0'' # x # cs \<and> x \<in> {CHR ''x'', CHR ''X''} \<and> cs \<noteq> []
                    \<and> (\<forall>c \<in> set cs. is_hex c))
      | TK_REG \<Rightarrow> (\<exists>cs. tk_str t = CHR ''$'' # cs \<and> cs \<noteq> [] \<and> (\<forall>c \<in> set cs. is_alnum c))
      | _ \<Rightarrow> False)"

fun atoms_ok :: "ex \<Rightarrow> bool" where
  "atoms_ok (Atom t) \<longleftrightarrow> good_atom t"
| "atoms_ok (Par e) \<longleftrightarrow> atoms_ok e"
| "atoms_ok (Unary u e) \<longleftrightarrow> atoms_ok e"
| "atoms_ok (Bin b l r) \<longleftrightarrow> atoms_ok l \<and> atoms_ok r"

text \<open>The text of a token sequence: every token followed by a space.\<close>

fun text_of :: "token list \<Rightarrow> string" where
  "text_of [] = ''''"
| "text_of (t # ts) = tk_str t @ CHR '' '' # text_of ts"

text \<open>What the lexer finds at the start of a token's text.\<close>

definition lexes :: "token \<Rightarrow> bool" where
  "lexes t \<longleftrightarrow> tk_type t \<noteq> TK_NOTYPE \<and> length (tk_str t) < TOKEN_STR \<and> tk_str t \<noteq> []
     \<and> hd (tk_str t) \<noteq> CHR '' ''
     \<and> (\<forall>rest. first_rule rules (tk_str t @ CHR '' '' # rest) = Some (tk_type t, length (tk_str t)))"

lemma space_class [simp]: "is_digit (CHR ''0'')" "\<not> is_digit (CHR '' '')" "\<not> is_hex (CHR '' '')" "\<not> is_alnum (CHR '' '')"
  by (simp_all add: is_digit_def is_hex_def is_alnum_def in_range_def)

lemma takeWhile_token: "\<forall>c \<in> set cs. P c \<Longrightarrow> \<not> P d \<Longrightarrow> takeWhile P (cs @ d # rest) = cs"
  by (induction cs) auto

lemma digit_first:
  assumes "is_digit c"
  shows "c \<noteq> CHR '' ''" "c \<noteq> CHR ''+''" "c \<noteq> CHR ''-''" "c \<noteq> CHR ''*''" "c \<noteq> CHR ''/''"
    "c \<noteq> CHR ''(''" "c \<noteq> CHR '')''" "c \<noteq> CHR ''=''" "c \<noteq> CHR ''!''" "c \<noteq> CHR ''&''" "c \<noteq> CHR ''$''"
    "c \<noteq> CHR ''x''" "c \<noteq> CHR ''X''"
  using assms by (auto simp: is_digit_def in_range_def)

lemma lexes_dec:
  assumes "tk_type t = TK_DEC" and "good_atom t"
  shows "lexes t"
proof -
  from assms obtain c cs where str: "tk_str t = c # cs" and dig: "is_digit c" "\<forall>d \<in> set cs. is_digit d"
    by (cases "tk_str t") (auto simp: good_atom_def)
  have x: "x \<noteq> CHR ''x''" "x \<noteq> CHR ''X''" if "cs @ CHR '' '' # rest = x # ys" for x ys rest
    using that dig(2) by (cases cs; auto simp: digit_first)+
  have "first_rule rules (c # cs @ CHR '' '' # rest) = Some (TK_DEC, Suc (length cs))" for rest
  proof -
    obtain x ys where e: "cs @ CHR '' '' # rest = x # ys" by (cases "cs @ CHR '' '' # rest") auto
    have tw: "takeWhile is_digit (c # cs @ CHR '' '' # rest) = c # cs"
      using takeWhile_token [of cs is_digit "CHR '' ''" rest] dig by simp
    show ?thesis
      using dig(1) x [OF e] tw by (simp add: rules_def Let_def digit_first e)
  qed
  then show ?thesis
    using assms str dig digit_first(1) by (auto simp: lexes_def good_atom_def)
qed

lemma lexes_hex:
  assumes "tk_type t = TK_HEX" and "good_atom t"
  shows "lexes t"
proof -
  from assms obtain x cs where str: "tk_str t = CHR ''0'' # x # cs" and x: "x \<in> {CHR ''x'', CHR ''X''}"
    and cs: "cs \<noteq> []" "\<forall>c \<in> set cs. is_hex c" by (auto simp: good_atom_def)
  have "first_rule rules (CHR ''0'' # x # cs @ CHR '' '' # rest) = Some (TK_HEX, Suc (Suc (length cs)))" for rest
    using takeWhile_token [of cs is_hex "CHR '' ''" rest] cs x by (auto simp: rules_def Let_def)
  with assms str show ?thesis by (auto simp: lexes_def good_atom_def)
qed

lemma lexes_reg:
  assumes "tk_type t = TK_REG" and "good_atom t"
  shows "lexes t"
proof -
  from assms obtain cs where str: "tk_str t = CHR ''$'' # cs"
    and cs: "cs \<noteq> []" "\<forall>c \<in> set cs. is_alnum c" by (auto simp: good_atom_def)
  have "first_rule rules (CHR ''$'' # cs @ CHR '' '' # rest) = Some (TK_REG, Suc (length cs))" for rest
    using takeWhile_token [of cs is_alnum "CHR '' ''" rest] cs by (auto simp: rules_def Let_def)
  with assms str show ?thesis by (auto simp: lexes_def good_atom_def)
qed

lemmas lexes_eval = lexes_def mk_def rules_def TOKEN_STR_def Let_def

lemma lexes_bin: "lexes (mk (bin_type b) (bin_text b))"
  by (cases b) (simp_all add: lexes_eval)

lemma lexes_un: "lexes (mk (un_raw u) (un_text u))"
  by (cases u) (simp_all add: lexes_eval)

lemma lexes_paren: "lexes (mk (Chr (CHR ''('')) ''('')" "lexes (mk (Chr (CHR '')'')) '')'')"
  by (simp_all add: lexes_eval)

lemmas lexes_ops = lexes_bin lexes_un lexes_paren

lemma lexes_raw: "wf e \<Longrightarrow> atoms_ok e \<Longrightarrow> \<forall>t \<in> set (raw e). lexes t"
  by (induction e) (auto simp: lexes_ops intro: lexes_dec lexes_hex lexes_reg)

lemma length_raw [simp]: "length (raw e) = length (flat e)"
  by (induction e) auto

lemma lex_loop:
  "\<forall>t \<in> set ts. lexes t \<Longrightarrow> length (tokens l) = NR_TOKENS \<Longrightarrow> nr_token l + length ts \<le> NR_TOKENS \<Longrightarrow>
   make_token_loop (text_of ts) l =
     Inr (True, l\<lparr>tokens := take (nr_token l) (tokens l) @ ts @ drop (nr_token l + length ts) (tokens l),
                nr_token := nr_token l + length ts, length_token := length_token l + length ts\<rparr>)"
proof (induction ts arbitrary: l)
  case Nil
  then show ?case by (subst make_token_loop.simps) simp
next
  case (Cons t ts)
  have t: "lexes t" using Cons.prems by simp
  let ?l = "l\<lparr>tokens := (tokens l)[nr_token l := t], nr_token := nr_token l + 1,
      length_token := length_token l + 1\<rparr>"
  have tt: "\<lparr>tk_type = tk_type t, tk_str = tk_str t\<rparr> = t" by simp
  have put: "put_token (tk_type t) (tk_str t) l = Inr ?l"
    unfolding put_token_def tt using t Cons.prems by (simp add: lexes_def)
  have "make_token_loop (text_of (t # ts)) l = make_token_loop (CHR '' '' # text_of ts) ?l"
    using t put by (subst make_token_loop.simps) (simp add: lexes_def)
  also have "\<dots> = make_token_loop (text_of ts) ?l"
  proof -
    have "takeWhile (\<lambda>c. c = CHR '' '') (text_of ts) = []"
    proof (cases ts)
      case (Cons u us)
      with Cons.prems have "lexes u" by simp
      then obtain c cs where "tk_str u = c # cs" "c \<noteq> CHR '' ''"
        by (cases "tk_str u") (auto simp: lexes_def)
      with Cons show ?thesis by simp
    qed simp
    then have "first_rule rules (CHR '' '' # text_of ts) = Some (TK_NOTYPE, 1)"
      by (simp add: rules_def Let_def)
    then show ?thesis by (subst make_token_loop.simps) simp
  qed
  also have "\<dots> = Inr (True, ?l\<lparr>tokens := take (nr_token ?l) (tokens ?l) @ ts
        @ drop (nr_token ?l + length ts) (tokens ?l),
      nr_token := nr_token ?l + length ts, length_token := length_token ?l + length ts\<rparr>)"
    using Cons.prems by (intro Cons.IH) simp_all
  also have "take (nr_token ?l) (tokens ?l) = take (nr_token l) (tokens l) @ [t]"
    using Cons.prems by (simp add: take_Suc_conv_app_nth)
  also have "drop (nr_token ?l + length ts) (tokens ?l) = drop (nr_token l + length (t # ts)) (tokens l)"
    by simp
  finally show ?case by simp
qed

lemma expr_value:
  assumes "wf e" and "unary_ok e" and "atoms_ok e" and "length (flat e) \<le> NR_TOKENS"
    and "length (tokens l) = NR_TOKENS"
  shows "\<exists>l'. expr reg s (text_of (raw e)) l = Some (bind_res (sem reg s e) (\<lambda>v. Inr ((v, True), l')))
     \<and> length (tokens l') = NR_TOKENS"
proof -
  let ?n = "length (flat e)"
  define l1 where "l1 = l\<lparr>tokens := raw e @ drop ?n (tokens l), nr_token := ?n, length_token := ?n\<rparr>"
  have lex: "make_token (text_of (raw e)) l = Inr (True, l1)"
    using lex_loop [OF lexes_raw [OF assms(1,3)], of "l\<lparr>nr_token := 0, length_token := 0\<rparr>"] assms(4,5)
    by (simp add: make_token_def l1_def)
  define ts where "ts = tokenise ?n (tokens l1)"
  have ts: "ts = flat e @ drop ?n (tokens l)"
    using tokenise_retok [of ?n "tokens l1"] assms before_unary_paren
      retok_raw [OF assms(1,2), of "Chr (CHR ''('')"]
    by (simp add: ts_def l1_def)
  have "stands ts 0 e" and "length ts = NR_TOKENS" using assms(4,5) by (simp_all add: ts stands_def)
  with eval_whole [OF assms(1), of ts 0 reg s "is_bad_expression l"]
  have "eval reg s ts 0 (int ?n - 1) (is_bad_expression l) = Some (bind_res (sem reg s e) (\<lambda>v. Inr (v, False)))"
    by simp
  with lex \<open>length ts = NR_TOKENS\<close> show ?thesis
    by (intro exI [of _ "l1\<lparr>tokens := ts, is_bad_expression := False\<rparr>"])
      (cases "sem reg s e"; simp add: expr_def ts_def [symmetric] l1_def [symmetric] Let_def;
        simp add: l1_def ts_def)
qed

section \<open>Properties\<close>



lemma adjacent_no_op:
  assumes "tk ts 1 \<in> {TK_DEC, TK_HEX, TK_REG}" and "tk ts 2 \<in> {TK_DEC, TK_HEX, TK_REG}"
  shows "check_parentheses ts 1 2 b = (False, False)" and "get_main_op ts 1 2 b = Inr (0, b)"
proof -
  have "paren_loop ts 3 2 0 False = Some False" by (subst paren_loop.simps) simp
  then have "paren_loop ts 2 2 0 False = Some False" using assms(2) by (subst paren_loop.simps) auto
  then have "paren_loop ts 1 2 0 True = Some False" using assms(1) by (subst paren_loop.simps) auto
  then show "check_parentheses ts 1 2 b = (False, False)" by (simp add: check_parentheses_def)
  have "main_op_loop ts 3 2 [] b = Inr ([], b)" by (subst main_op_loop.simps) simp
  then have "main_op_loop ts 2 2 [] b = Inr ([], b)"
    using assms(2) by (subst main_op_loop.simps) (auto simp: get_op_precedence_def)
  then have "main_op_loop ts 1 2 [] b = Inr ([], b)"
    using assms(1) by (subst main_op_loop.simps) (auto simp: get_op_precedence_def)
  then show "get_main_op ts 1 2 b = Inr (0, b)" by (simp add: get_main_op_def)
qed

lemma bind_run_Some: "bind_run m f = Some y \<Longrightarrow> m \<noteq> None"
  by (cases m) auto

lemma adjacent_no_value:
  assumes "eval reg s ts p q bad = Some y"
  shows "\<not> (p = 1 \<and> q = 2 \<and> tk ts 1 \<in> {TK_DEC, TK_HEX, TK_REG} \<and> tk ts 2 \<in> {TK_DEC, TK_HEX, TK_REG})
    \<and> (q < p \<longrightarrow> \<not> bad \<longrightarrow> y = Inr (0, False))"
  using assms
proof (rule eval.raw_induct [rotated, where P = "\<lambda>reg s ts p q bad y. \<not> (p = 1 \<and> q = 2
      \<and> tk ts 1 \<in> {TK_DEC, TK_HEX, TK_REG} \<and> tk ts 2 \<in> {TK_DEC, TK_HEX, TK_REG})
      \<and> (q < p \<longrightarrow> \<not> bad \<longrightarrow> y = Inr (0, False))"], goal_cases)
  case (1 f reg s ts p q bad y)
  note IH = 1(1) and body = 1(2)
  show ?case
  proof (intro conjI notI impI)
    assume adj: "p = 1 \<and> q = 2 \<and> tk ts 1 \<in> {TK_DEC, TK_HEX, TK_REG} \<and> tk ts 2 \<in> {TK_DEC, TK_HEX, TK_REG}"
    then have run: "bind_run (f reg s ts 1 (- 1) False) (\<lambda>v1. bind_run (f reg s ts 1 2 (snd v1)) (\<lambda>v2.
        Some (bind_res (eval_op s (tk ts 0) (fst v1) (fst v2)) (\<lambda>v. Inr (v, snd v2))))) = Some y"
      using body adjacent_no_op [of ts] by simp
    have none: "f reg s ts 1 2 b = None" for b
      using IH [of reg s ts 1 2 b] adj by (cases "f reg s ts 1 2 b") blast+
    have "f reg s ts 1 (- 1) False = None \<or> f reg s ts 1 (- 1) False = Some (Inr (0, False))"
      using IH [of reg s ts 1 "- 1" False] by (cases "f reg s ts 1 (- 1) False") auto
    with run none show False by auto
  next
    assume "q < p" "\<not> bad"
    with body show "y = Inr (0, False)" by (simp add: check_parentheses_def)
  qed
qed



end
