(* ===== verification/Watchpoint.thy ===== *)
theory Watchpoint
  imports SdbExprSpec
begin

text \<open>
  The watchpoint pool of the debugger, \<open>src/monitor/sdb/watchpoint.c\<close>: 32 watchpoints in an
  array, threaded by their \<open>next\<close> pointers into a list of active and a list of free ones.
  Pointers are array indices. The loops that follow pointers are partial functions, since a
  cyclic list would keep them busy for ever; the invariant says the two lists are finite,
  disjoint and cover the pool, and every operation keeps it. The contract is stated once, in
  the locale \<open>id_pool\<close>.
\<close>

section \<open>State\<close>

record WP =
  NO :: int
  nxt :: "nat option"
  wp_str :: string
  last_value :: u32

record pool =
  wp_pool :: "nat \<Rightarrow> WP"
  head :: "nat option"
  free_list :: "nat option"

definition NR_WP :: nat where "NR_WP = 32"
definition WP_STR :: nat where "WP_STR = 32"

definition initial_pool :: pool where
  "initial_pool = \<lparr>wp_pool = (\<lambda>_. \<lparr>NO = 0, nxt = None, wp_str = '''', last_value = 0\<rparr>),
     head = None, free_list = None\<rparr>"

definition init_wp_pool :: "pool \<Rightarrow> pool" where
  "init_wp_pool p =
     \<lparr>wp_pool = (\<lambda>i. if i < NR_WP
        then (wp_pool p i)\<lparr>NO := int i, nxt := (if i = NR_WP - 1 then None else Some (i + 1))\<rparr>
        else wp_pool p i),
      head = None, free_list = Some 0\<rparr>"

definition set_next :: "nat \<Rightarrow> nat option \<Rightarrow> pool \<Rightarrow> pool" where
  "set_next i n p = p\<lparr>wp_pool := (wp_pool p)(i := (wp_pool p i)\<lparr>nxt := n\<rparr>)\<rparr>"

section \<open>Operations\<close>

definition new_wp :: "pool \<Rightarrow> nat option \<times> pool" where
  "new_wp p =
     (case free_list p of
        None \<Rightarrow> (None, p)
      | Some f \<Rightarrow>
          (let temp = head p;
               p1 = p\<lparr>head := Some f, free_list := nxt (wp_pool p f)\<rparr>
           in (Some f, set_next f temp p1)))"

text \<open>The loop of \<open>free_wp\<close>: the last watchpoint before the end or before number \<open>n\<close>.\<close>

partial_function (option) find_pre :: "pool \<Rightarrow> int \<Rightarrow> nat \<Rightarrow> nat option" where
  "find_pre p n pre =
     (case nxt (wp_pool p pre) of
        None \<Rightarrow> Some pre
      | Some i \<Rightarrow> if NO (wp_pool p i) = n then Some pre else find_pre p n i)"

definition free_wp :: "int \<Rightarrow> pool \<Rightarrow> pool option" where
  "free_wp n p =
     (case head p of
        None \<Rightarrow> Some p
      | Some h \<Rightarrow>
          if n = NO (wp_pool p h) then
            (let p1 = p\<lparr>head := nxt (wp_pool p h)\<rparr>
             in Some ((set_next h (free_list p) p1)\<lparr>free_list := Some h\<rparr>))
          else Option.bind (find_pre p n h) (\<lambda>pre.
            case nxt (wp_pool p pre) of
              None \<Rightarrow> Some p
            | Some w \<Rightarrow>
                (let p1 = set_next pre (nxt (wp_pool p w)) p
                 in Some ((set_next w (free_list p1) p1)\<lparr>free_list := Some w\<rparr>))))"

text \<open>The rows \<open>wp_display\<close> prints.\<close>

partial_function (option) wp_rows :: "pool \<Rightarrow> nat option \<Rightarrow> (int \<times> string) list option" where
  "wp_rows p w =
     (case w of
        None \<Rightarrow> Some []
      | Some i \<Rightarrow> Option.bind (wp_rows p (nxt (wp_pool p i))) (\<lambda>rows.
          Some ((NO (wp_pool p i), wp_str (wp_pool p i)) # rows)))"

definition wp_display :: "pool \<Rightarrow> (int \<times> string) list option" where
  "wp_display p = wp_rows p (head p)"

text \<open>
  The loop of \<open>check_wp\<close>: every active watchpoint is evaluated and its value remembered. An
  expression that does not lex fails the \<open>assert\<close>.
\<close>

partial_function (option) check_wp_loop ::
  "(string \<Rightarrow> u32 \<times> bool) \<Rightarrow> 'a mem_scheme \<Rightarrow> nat option \<Rightarrow> bool \<Rightarrow> lexer \<Rightarrow> pool
     \<Rightarrow> (bool \<times> lexer \<times> pool) run" where
  "check_wp_loop reg s w triggered l p =
     (case w of
        None \<Rightarrow> Some (Inr (triggered, l, p))
      | Some i \<Rightarrow>
          bind_run (expr reg s (wp_str (wp_pool p i)) l) (\<lambda>r.
            if \<not> snd (fst r) then Some (Inl AssertFail)
            else if fst (fst r) \<noteq> last_value (wp_pool p i) then
              check_wp_loop reg s (nxt (wp_pool p i)) True (snd r)
                (p\<lparr>wp_pool := (wp_pool p)(i := (wp_pool p i)\<lparr>last_value := fst (fst r)\<rparr>)\<rparr>)
            else check_wp_loop reg s (nxt (wp_pool p i)) triggered (snd r) p))"

definition check_wp ::
  "(string \<Rightarrow> u32 \<times> bool) \<Rightarrow> 'a mem_scheme \<Rightarrow> lexer \<Rightarrow> pool \<Rightarrow> (bool \<times> lexer \<times> pool) run" where
  "check_wp reg s l p = check_wp_loop reg s (head p) False l p"

section \<open>The contract of a pool of identifiers\<close>

text \<open>
  \<open>state s us bs\<close>: in \<open>s\<close> the identifiers \<open>us\<close> are in use and \<open>bs\<close> are free.
\<close>

datatype pool_op = Take | Give nat

fun run_ops :: "('s \<Rightarrow> nat option \<times> 's) \<Rightarrow> (nat \<Rightarrow> 's \<Rightarrow> 's option) \<Rightarrow> pool_op list \<Rightarrow> 's \<Rightarrow> 's option" where
  "run_ops tko gv [] s = Some s"
| "run_ops tko gv (Take # ops) s = run_ops tko gv ops (snd (tko s))"
| "run_ops tko gv (Give n # ops) s = Option.bind (gv n s) (run_ops tko gv ops)"

locale id_pool =
  fixes state :: "'s \<Rightarrow> nat list \<Rightarrow> nat list \<Rightarrow> bool"
    and take_op :: "'s \<Rightarrow> nat option \<times> 's"
    and give_op :: "nat \<Rightarrow> 's \<Rightarrow> 's option"
    and cap :: nat
  assumes state_ids: "state s us bs \<Longrightarrow> distinct (us @ bs) \<and> set (us @ bs) = {..<cap}"
    and take_free: "state s us (b # bs) \<Longrightarrow> \<exists>s'. take_op s = (Some b, s') \<and> state s' (b # us) bs"
    and take_none: "state s us [] \<Longrightarrow> take_op s = (None, s)"
    and give_used: "state s us bs \<Longrightarrow> n \<in> set us \<Longrightarrow>
      \<exists>s'. give_op n s = Some s' \<and> state s' (remove1 n us) (n # bs)"
    and give_other: "state s us bs \<Longrightarrow> n \<notin> set us \<Longrightarrow> give_op n s = Some s"
begin

lemma count: "state s us bs \<Longrightarrow> length us + length bs = cap"
  using state_ids [of s us bs] distinct_card [of "us @ bs"] by auto

lemma take_fresh:
  assumes "state s us bs" and "take_op s = (Some n, s')"
  shows "n \<notin> set us \<and> n < cap \<and> state s' (n # us) (tl bs)"
proof (cases bs)
  case Nil
  with assms take_none show ?thesis by fastforce
next
  case (Cons b bs')
  with assms take_free [of s us b bs'] have "n = b" "state s' (b # us) bs'" by auto
  with Cons assms(1) state_ids [of s us bs] show ?thesis by auto
qed

lemma take_exhausted: "state s us bs \<Longrightarrow> fst (take_op s) = None \<longleftrightarrow> length us = cap"
proof -
  assume s: "state s us bs"
  show ?thesis
  proof (cases bs)
    case Nil
    with s take_none [of s us] count [OF s] show ?thesis by simp
  next
    case (Cons b bs')
    with s take_free [of s us b bs'] count [OF s] show ?thesis by auto
  qed
qed

lemma session_state:
  "state s us bs \<Longrightarrow> \<exists>s' us' bs'. run_ops take_op give_op ops s = Some s' \<and> state s' us' bs'"
proof (induction ops arbitrary: s us bs)
  case Nil
  then show ?case by auto
next
  case (Cons a ops)
  show ?case
  proof (cases a)
    case Take
    have "\<exists>us' bs'. state (snd (take_op s)) us' bs'"
      using Cons.prems take_free take_none by (cases bs) fastforce+
    with Take Cons.IH show ?thesis by fastforce
  next
    case (Give n)
    have "\<exists>s' us' bs'. give_op n s = Some s' \<and> state s' us' bs'"
      using give_used [OF Cons.prems, of n] give_other [OF Cons.prems, of n] Cons.prems by blast
    with Give Cons.IH show ?thesis by fastforce
  qed
qed

end

section \<open>The lists of the pool\<close>

fun chain :: "pool \<Rightarrow> nat option \<Rightarrow> nat list \<Rightarrow> bool" where
  "chain p w [] \<longleftrightarrow> w = None"
| "chain p w (i # ls) \<longleftrightarrow> w = Some i \<and> chain p (nxt (wp_pool p i)) ls"

definition pool_state :: "pool \<Rightarrow> nat list \<Rightarrow> nat list \<Rightarrow> bool" where
  "pool_state p us bs \<longleftrightarrow> chain p (head p) us \<and> chain p (free_list p) bs
     \<and> distinct (us @ bs) \<and> set (us @ bs) = {..<NR_WP}
     \<and> (\<forall>i < NR_WP. NO (wp_pool p i) = int i)"

lemma chain_set_next [simp]:
  "i \<notin> set ls \<Longrightarrow> chain (set_next i n p) w ls \<longleftrightarrow> chain p w ls"
  by (induction ls arbitrary: w) (auto simp: set_next_def)

lemma chain_ptr [simp]:
  "chain (p\<lparr>head := h\<rparr>) w ls \<longleftrightarrow> chain p w ls" "chain (p\<lparr>free_list := f\<rparr>) w ls \<longleftrightarrow> chain p w ls"
  by (induction ls arbitrary: w) auto

lemma set_next_simps [simp]:
  "head (set_next i n p) = head p" "free_list (set_next i n p) = free_list p"
  "nxt (wp_pool (set_next i n p) j) = (if i = j then n else nxt (wp_pool p j))"
  "NO (wp_pool (set_next i n p) j) = NO (wp_pool p j)"
  by (simp_all add: set_next_def)

lemma new_wp_state:
  assumes "pool_state p us (b # bs)"
  shows "\<exists>p'. new_wp p = (Some b, p') \<and> pool_state p' (b # us) bs"
proof -
  from assms have "free_list p = Some b" "chain p (nxt (wp_pool p b)) bs" "chain p (head p) us"
    "b \<notin> set us" "b \<notin> set bs" "\<forall>i < NR_WP. NO (wp_pool p i) = int i"
    and d: "distinct (b # us @ bs)" "set (b # us @ bs) = {..<NR_WP}"
    by (auto simp: pool_state_def)
  then show ?thesis by (auto simp: new_wp_def pool_state_def Let_def)
qed

lemma new_wp_none: "pool_state p us [] \<Longrightarrow> new_wp p = (None, p)"
  by (simp add: pool_state_def new_wp_def)

text \<open>Following the active list from one of its elements.\<close>

lemma find_pre_chain:
  "chain p (Some i) (i # ls) \<Longrightarrow> (\<forall>j \<in> set ls. NO (wp_pool p j) = int j) \<Longrightarrow>
   (if n \<in> int ` set ls
    then \<exists>xs ys pre. i # ls = xs @ pre # nat n # ys \<and> find_pre p n i = Some pre
    else \<exists>pre. find_pre p n i = Some pre \<and> nxt (wp_pool p pre) = None)"
proof (induction ls arbitrary: i)
  case Nil
  then show ?case by (subst find_pre.simps) simp
next
  case (Cons j js)
  then have nx: "nxt (wp_pool p i) = Some j" and no: "NO (wp_pool p j) = int j" by auto
  show ?case
  proof (cases "n = int j")
    case True
    with nx no have "find_pre p n i = Some i" by (subst find_pre.simps) simp
    with True show ?thesis by force
  next
    case False
    with nx no have step: "find_pre p n i = find_pre p n j" by (subst find_pre.simps) simp
    have IH: "if n \<in> int ` set js
      then \<exists>xs ys pre. j # js = xs @ pre # nat n # ys \<and> find_pre p n j = Some pre
      else \<exists>pre. find_pre p n j = Some pre \<and> nxt (wp_pool p pre) = None"
      using Cons.prems by (intro Cons.IH) auto
    show ?thesis
    proof (cases "n \<in> int ` set js")
      case True
      with IH obtain xs ys pre where "j # js = xs @ pre # nat n # ys" "find_pre p n j = Some pre" by auto
      then have "i # j # js = (i # xs) @ pre # nat n # ys" and "find_pre p n i = Some pre"
        using step by simp_all
      moreover have "n \<in> int ` set (j # js)" using True by auto
      ultimately show ?thesis by (simp only: if_True) blast
    next
      case F: False
      with IH step False show ?thesis by auto
    qed
  qed
qed

lemma chain_append: "chain p w (xs @ i # ys) \<Longrightarrow> chain p (Some i) (i # ys)"
  by (induction xs arbitrary: w) auto

lemma chain_cut:
  "chain p w (xs @ i # j # ys) \<Longrightarrow> distinct (xs @ i # j # ys) \<Longrightarrow>
   chain (set_next i (nxt (wp_pool p j)) p) w (xs @ i # ys)"
  by (induction xs arbitrary: w) auto

lemma free_wp_used:
  assumes st: "pool_state p us bs" and n: "n \<in> set us"
  shows "\<exists>p'. free_wp (int n) p = Some p' \<and> pool_state p' (remove1 n us) (n # bs)"
proof -
  from st have a: "chain p (head p) us" and b: "chain p (free_list p) bs" and d: "distinct (us @ bs)"
    and u: "set (us @ bs) = {..<NR_WP}" and no: "\<forall>i < NR_WP. NO (wp_pool p i) = int i"
    by (auto simp: pool_state_def)
  from n obtain h us' where us: "us = h # us'" by (cases us) auto
  from a us have h: "head p = Some h" by simp
  have hn: "h < NR_WP" using u us by auto
  show ?thesis
  proof (cases "n = h")
    case True
    then have "free_wp (int n) p
        = Some ((set_next h (free_list p) (p\<lparr>head := nxt (wp_pool p h)\<rparr>))\<lparr>free_list := Some h\<rparr>)"
      using h no hn by (simp add: free_wp_def Let_def)
    with True us a b d u no show ?thesis by (auto simp: pool_state_def)
  next
    case False
    have "\<forall>j \<in> set us'. NO (wp_pool p j) = int j" using no u us by auto
    moreover have "int n \<in> int ` set us'" using n us False by auto
    ultimately obtain xs ys pre where split: "us = xs @ pre # n # ys" and pre: "find_pre p (int n) h = Some pre"
      using find_pre_chain [of p h us' "int n"] a us h by (auto split: if_splits)
    have nx: "nxt (wp_pool p pre) = Some n"
      using chain_append [of p "head p" xs pre "n # ys"] a split by simp
    have ne: "pre \<noteq> n" "n \<notin> set xs" "n \<notin> set ys" "n \<notin> set bs" "pre \<notin> set bs" using d split by auto
    define p1 where "p1 = set_next pre (nxt (wp_pool p n)) p"
    have "free_wp (int n) p = Some ((set_next n (free_list p1) p1)\<lparr>free_list := Some n\<rparr>)"
      using h no hn False pre nx by (simp add: free_wp_def Let_def p1_def)
    moreover have "chain p1 (head p) (xs @ pre # ys)"
      unfolding p1_def using a d split by (intro chain_cut) auto
    moreover have "remove1 n us = xs @ pre # ys" using ne split by (simp add: remove1_append)
    ultimately show ?thesis
      using b d u no ne split by (auto simp: pool_state_def p1_def)
  qed
qed

lemma free_wp_other:
  assumes st: "pool_state p us bs" and n: "n \<notin> int ` set us"
  shows "free_wp n p = Some p"
proof (cases us)
  case Nil
  with st show ?thesis by (simp add: pool_state_def free_wp_def)
next
  case (Cons h us')
  with st have h: "head p = Some h" and c: "chain p (Some h) (h # us')"
    and no: "\<forall>j \<in> set us. NO (wp_pool p j) = int j" by (auto simp: pool_state_def)
  from find_pre_chain [OF c, of n] no n Cons obtain pre where
    "find_pre p n h = Some pre" "nxt (wp_pool p pre) = None" by auto
  with h no n Cons show ?thesis by (simp add: free_wp_def)
qed

interpretation wp: id_pool pool_state new_wp "\<lambda>n. free_wp (int n)" NR_WP
proof unfold_locales
  show "pool_state s us bs \<Longrightarrow> distinct (us @ bs) \<and> set (us @ bs) = {..<NR_WP}" for s us bs
    by (simp add: pool_state_def)
qed (auto intro: new_wp_state new_wp_none free_wp_used free_wp_other)

lemma chain_init:
  "i < NR_WP \<Longrightarrow> chain (init_wp_pool p) (Some i) [i..<NR_WP]"
proof (induction "NR_WP - i" arbitrary: i)
  case 0
  then show ?case by simp
next
  case (Suc n)
  show ?case
  proof (cases "i = NR_WP - 1")
    case True
    then show ?thesis by (simp add: init_wp_pool_def NR_WP_def upt_rec)
  next
    case False
    with Suc have "chain (init_wp_pool p) (Some (Suc i)) [Suc i..<NR_WP]" by simp
    with False Suc.prems show ?thesis by (simp add: upt_conv_Cons) (simp add: init_wp_pool_def)
  qed
qed

lemma init_state: "pool_state (init_wp_pool p) [] [0..<NR_WP]"
  using chain_init [of 0 p]
  by (auto simp: pool_state_def NR_WP_def) (simp_all add: init_wp_pool_def NR_WP_def)

section \<open>Checking\<close>

text \<open>Every active watchpoint's expression evaluates, to the value \<open>v\<close> gives it.\<close>

definition evaluates :: "(string \<Rightarrow> u32 \<times> bool) \<Rightarrow> 'a mem_scheme \<Rightarrow> string \<Rightarrow> u32 \<Rightarrow> bool" where
  "evaluates reg s str v \<longleftrightarrow> (\<forall>l. length (tokens l) = NR_TOKENS \<longrightarrow>
     (\<exists>l'. expr reg s str l = Some (Inr ((v, True), l')) \<and> length (tokens l') = NR_TOKENS))"

definition remember :: "(nat \<Rightarrow> u32) \<Rightarrow> nat list \<Rightarrow> pool \<Rightarrow> pool" where
  "remember v us p = p\<lparr>wp_pool := (\<lambda>i. if i \<in> set us then (wp_pool p i)\<lparr>last_value := v i\<rparr> else wp_pool p i)\<rparr>"

lemma chain_last_value:
  "chain (p\<lparr>wp_pool := (wp_pool p)(i := (wp_pool p i)\<lparr>last_value := x\<rparr>)\<rparr>) w ls \<longleftrightarrow> chain p w ls"
  by (induction ls arbitrary: w) auto

lemma check_loop:
  "chain p w us \<Longrightarrow> distinct us \<Longrightarrow> length (tokens l) = NR_TOKENS \<Longrightarrow>
   \<forall>i \<in> set us. evaluates reg s (wp_str (wp_pool p i)) (v i) \<Longrightarrow>
   \<exists>l'. check_wp_loop reg s w b l p =
       Some (Inr (b \<or> (\<exists>i \<in> set us. v i \<noteq> last_value (wp_pool p i)), l', remember v us p))
     \<and> length (tokens l') = NR_TOKENS"
proof (induction us arbitrary: w b l p)
  case Nil
  then show ?case by (subst check_wp_loop.simps) (simp add: remember_def)
next
  case (Cons i us)
  let ?p = "p\<lparr>wp_pool := (wp_pool p)(i := (wp_pool p i)\<lparr>last_value := v i\<rparr>)\<rparr>"
  from Cons.prems obtain l1 where l1: "expr reg s (wp_str (wp_pool p i)) l = Some (Inr ((v i, True), l1))"
      "length (tokens l1) = NR_TOKENS"
    by (auto simp: evaluates_def)
  have w: "w = Some i" "chain p (nxt (wp_pool p i)) us" using Cons.prems by simp_all
  have ni: "i \<notin> set us" and d: "distinct us" using Cons.prems by simp_all
  have same: "?p = p" if "v i = last_value (wp_pool p i)"
    using that by (cases "wp_pool p i") (simp add: fun_upd_idem)
  let ?b = "b \<or> v i \<noteq> last_value (wp_pool p i)"
  have step: "check_wp_loop reg s w b l p = check_wp_loop reg s (nxt (wp_pool p i)) ?b l1 ?p"
    using w l1 same by (subst check_wp_loop.simps) (cases "v i = last_value (wp_pool p i)"; simp)
  have "\<exists>l'. check_wp_loop reg s (nxt (wp_pool p i)) ?b l1 ?p =
       Some (Inr (?b \<or> (\<exists>j \<in> set us. v j \<noteq> last_value (wp_pool ?p j)), l', remember v us ?p))
     \<and> length (tokens l') = NR_TOKENS"
    using Cons.prems w d ni l1(2) by (intro Cons.IH) (auto simp: chain_last_value)
  moreover have "remember v us ?p = remember v (i # us) p"
    using ni by (auto simp: remember_def fun_eq_iff)
  moreover have "(?b \<or> (\<exists>j \<in> set us. v j \<noteq> last_value (wp_pool ?p j)))
      = (b \<or> (\<exists>j \<in> set (i # us). v j \<noteq> last_value (wp_pool p j)))"
    using ni by auto
  ultimately show ?case unfolding step by simp
qed

section \<open>Properties\<close>

text \<open>
  C11: the watchpoint pool never loses, duplicates or leaks a watchpoint: after \<open>init_wp_pool\<close>, any
  sequence of allocations and deletions, of existing and of other numbers, returns (its loops over
  the lists end), and leaves the active and the free list acyclic, disjoint and together all 32
  watchpoints.
\<close>

theorem watchpoint_sessions:
  "\<exists>p' us bs. run_ops new_wp (\<lambda>n. free_wp (int n)) ops (init_wp_pool p) = Some p'
     \<and> pool_state p' us bs \<and> length us + length bs = NR_WP"
proof -
  from wp.session_state [OF init_state, of ops p] obtain p' us bs where
    "run_ops new_wp (\<lambda>n. free_wp (int n)) ops (init_wp_pool p) = Some p'" "pool_state p' us bs" by blast
  with wp.count show ?thesis by blast
qed

text \<open>
  \<open>new_wp\<close> hands out a watchpoint that is not in use, and fails exactly when all 32 are; deleting
  an active watchpoint makes it the next one to be handed out, and deleting any other number
  changes nothing.
\<close>

theorem watchpoint_alloc_free:
  assumes "pool_state p us bs"
  shows "(fst (new_wp p) = None \<longleftrightarrow> length us = NR_WP)
    \<and> (\<forall>n p'. new_wp p = (Some n, p') \<longrightarrow> n \<notin> set us \<and> n < NR_WP \<and> pool_state p' (n # us) (tl bs))
    \<and> (\<forall>n. n \<in> set us \<longrightarrow> (\<exists>p'. free_wp (int n) p = Some p' \<and> pool_state p' (remove1 n us) (n # bs)
         \<and> fst (new_wp p') = Some n))
    \<and> (\<forall>n. n \<notin> int ` set us \<longrightarrow> free_wp n p = Some p)"
proof (intro conjI allI impI)
  show "fst (new_wp p) = None \<longleftrightarrow> length us = NR_WP" using wp.take_exhausted [OF assms] .
next
  fix n p' assume "new_wp p = (Some n, p')"
  from wp.take_fresh [OF assms this]
  show "n \<notin> set us" "n < NR_WP" "pool_state p' (n # us) (tl bs)" by simp_all
next
  fix n assume "n \<in> set us"
  from wp.give_used [OF assms this] obtain p' where p': "free_wp (int n) p = Some p'"
      "pool_state p' (remove1 n us) (n # bs)" by blast
  with wp.take_free [OF p'(2)] show "\<exists>p'. free_wp (int n) p = Some p'
      \<and> pool_state p' (remove1 n us) (n # bs) \<and> fst (new_wp p') = Some n" by auto
next
  fix n assume "n \<notin> int ` set us"
  then show "free_wp n p = Some p" by (rule free_wp_other [OF assms])
qed

text \<open>The fresh pool: its first watchpoint is number 0, and freeing number 5 changes nothing.\<close>

theorem watchpoint_alloc_free_witness:
  "fst (new_wp (init_wp_pool initial_pool)) \<noteq> None
   \<and> free_wp 5 (init_wp_pool initial_pool) = Some (init_wp_pool initial_pool)"
  using watchpoint_alloc_free [OF init_state, of initial_pool] by (simp add: NR_WP_def)

text \<open>
  C12: \<open>check_wp\<close> reports a trigger exactly when the value of some active watchpoint differs from the
  one remembered, and remembers the new value of every active watchpoint, not only of the first
  that changed; free watchpoints are left alone.
\<close>

theorem check_wp_correct:
  assumes "pool_state p us bs" and "length (tokens l) = NR_TOKENS"
    and "\<forall>i \<in> set us. evaluates reg s (wp_str (wp_pool p i)) (v i)"
  shows "\<exists>l'. check_wp reg s l p =
       Some (Inr (\<exists>i \<in> set us. v i \<noteq> last_value (wp_pool p i), l', remember v us p))
     \<and> length (tokens l') = NR_TOKENS"
  using check_loop [of p "head p" us l reg s v False] assms
  by (auto simp: check_wp_def pool_state_def)

text \<open>One watchpoint on \<open>1 + 2\<close>, with an old value of 0.\<close>

theorem check_wp_correct_witness:
  "\<exists>p l'. pool_state p [0] [1..<NR_WP] \<and> last_value (wp_pool p 0) = 0
     \<and> check_wp (\<lambda>_. (0, False)) initial_mem initial_lexer p = Some (Inr (True, l', remember (\<lambda>_. 3) [0] p))"
proof -
  define e where "e = Bin Plus (Atom (mk TK_DEC ''1'')) (Atom (mk TK_DEC ''2''))"
  have "wf e" "unary_ok e" "length (flat e) \<le> NR_TOKENS" "atoms_ok e"
    by (simp_all add: e_def mk_def NR_TOKENS_def good_atom_def TOKEN_STR_def is_digit_def in_range_def)
  note val = expr_value [OF this(1,2,4,3), of _ "\<lambda>_. (0, False)" initial_mem]
  have "text_of (raw e) = ''1 + 2 ''" by (simp add: e_def mk_def)
  moreover have "sem (\<lambda>_. (0, False)) initial_mem e = Inr 3"
    by (simp add: e_def mk_def eval_token_def atoi_digits_def digits_val_def digit_val_def is_digit_def
        in_range_def)
  ultimately have ev: "evaluates (\<lambda>_. (0, False)) initial_mem ''1 + 2 '' 3"
    using val by (fastforce simp: evaluates_def)
  have "[0..<NR_WP] = 0 # [1..<NR_WP]" by (simp add: NR_WP_def upt_conv_Cons del: upt_Suc)
  with init_state [of initial_pool] have "pool_state (init_wp_pool initial_pool) [] (0 # [1..<NR_WP])"
    by simp
  from new_wp_state [OF this] obtain p0 where p0: "pool_state p0 [0] [1..<NR_WP]" by blast
  define p where "p = p0\<lparr>wp_pool := (wp_pool p0)(0 := (wp_pool p0 0)\<lparr>wp_str := ''1 + 2 '', last_value := 0\<rparr>)\<rparr>"
  have "chain p w ls = chain p0 w ls" for w ls by (induction ls arbitrary: w) (auto simp: p_def)
  moreover have "head p = head p0" "free_list p = free_list p0" "NO (wp_pool p i) = NO (wp_pool p0 i)" for i
    by (simp_all add: p_def)
  ultimately have p: "pool_state p [0] [1..<NR_WP]" using p0 unfolding pool_state_def
    by (simp del: chain.simps)
  have "\<forall>i \<in> set [0]. evaluates (\<lambda>_. (0, False)) initial_mem (wp_str (wp_pool p i)) 3"
    using ev by (simp add: p_def)
  with check_wp_correct [OF p _ this, of initial_lexer] p show ?thesis
    by (intro exI [of _ p]) (auto simp: initial_lexer_def p_def)
qed

end
