(* ===== verification/CpuExec.thy ===== *)
theory CpuExec
  imports Watchpoint Riscv32
begin

text \<open>
  The execution loop, \<open>src/cpu/cpu-exec.c\<close>: \<open>exec_once\<close>, \<open>trace_and_difftest\<close>, \<open>execute\<close> and
  \<open>cpu_exec\<close>, in the build of \<open>include/generated/autoconf.h\<close> (no difftest), with the devices
  switched by \<open>conf_device\<close>. The guest is a parameter, as the source selects it when it is
  built: the record \<open>guest\<close> holds the functions of \<open>include/isa.h\<close> it provides, and the locale
  \<open>guest_isa\<close> states what the loop relies on. The trace text (the disassembler) and the
  statistics printed at the end are not modelled.
\<close>

section \<open>State\<close>

text \<open>The static variables of the loop and the debugger beside those of the machine.\<close>

record sdb = nemu +
  lex :: lexer
  wps :: pool
  is_batch_mode :: bool
  g_timer :: u64
  g_print_step :: bool

record guest =
  init_isa :: "sdb \<Rightarrow> sdb res"
  isa_exec_once :: "Decode \<Rightarrow> sdb \<Rightarrow> (Decode \<times> sdb) res"
  isa_reg_str2val :: "string \<Rightarrow> sdb \<Rightarrow> u32 \<times> bool"
  isa_reg_display :: "sdb \<Rightarrow> reg_row list"

definition MAX_INST_TO_PRINT :: nat where "MAX_INST_TO_PRINT = 10"

section \<open>Operations\<close>

definition exec_once :: "guest \<Rightarrow> Decode \<Rightarrow> u32 \<Rightarrow> sdb \<Rightarrow> (Decode \<times> sdb) res" where
  "exec_once g d p s =
     bind_res (isa_exec_once g (d\<lparr>d_pc := p, snpc := p\<rparr>) s) (\<lambda>(d1, s1).
       Inr (d1, s1\<lparr>cpu := (cpu s1)\<lparr>pc := dnpc d1\<rparr>\<rparr>))"

definition trace_and_difftest :: "guest \<Rightarrow> u32 \<Rightarrow> sdb \<Rightarrow> sdb run" where
  "trace_and_difftest g npc s =
     bind_run (check_wp (\<lambda>nm. isa_reg_str2val g nm s) s (lex s) (wps s)) (\<lambda>r.
       case r of (triggered, l, p) \<Rightarrow>
         let s1 = s\<lparr>lex := l, wps := p\<rparr> in
         Some (Inr (if triggered then set_run_state NEMU_STOP s1 else s1)))"

text \<open>The loop of \<open>execute\<close>; \<open>Decode s\<close> is not reset between instructions.\<close>

fun execute :: "guest \<Rightarrow> nat \<Rightarrow> Decode \<Rightarrow> sdb \<Rightarrow> (Decode \<times> sdb) run" where
  "execute g 0 d s = Some (Inr (d, s))"
| "execute g (Suc n) d s =
     bind_run (Some (exec_once g d (pc (cpu s)) s)) (\<lambda>(d1, s1).
     bind_run (trace_and_difftest g (pc (cpu s1)) (s1\<lparr>g_nr_guest_inst := g_nr_guest_inst s1 + 1\<rparr>)) (\<lambda>s2.
       if run_state (nemu_state s2) \<noteq> NEMU_RUNNING then Some (Inr (d1, s2))
       else bind_run (Some (if conf_device s2 then device_update s2 else Inr s2)) (\<lambda>s3.
         execute g n d1 s3)))"

definition cpu_exec :: "guest \<Rightarrow> u64 \<Rightarrow> Decode \<Rightarrow> sdb \<Rightarrow> sdb run" where
  "cpu_exec g n d s =
     (let s1 = s\<lparr>g_print_step := unat n < MAX_INST_TO_PRINT\<rparr> in
      if ended (run_state (nemu_state s1)) then Some (Inr s1)
      else
        (case get_time (set_run_state NEMU_RUNNING s1) of (timer_start, s2) \<Rightarrow>
         bind_run (execute g (unat n) d s2) (\<lambda>(d1, s3).
           case get_time s3 of (timer_end, s4) \<Rightarrow>
             let s5 = s4\<lparr>g_timer := g_timer s4 + (timer_end - timer_start)\<rparr> in
             Some (Inr (if run_state (nemu_state s5) = NEMU_RUNNING then set_run_state NEMU_STOP s5 else s5)))))"

section \<open>Lemmas\<close>

lemma get_time_keeps:
  assumes "get_time s = (t, s1)"
  shows "pmem s1 = pmem s \<and> wps s1 = wps s \<and> conf_device s1 = conf_device s \<and> cpu s1 = cpu s
    \<and> nemu_state s1 = nemu_state s \<and> g_nr_guest_inst s1 = g_nr_guest_inst s"
  using assms by (auto simp: get_time_def get_time_internal_def Let_def split: if_splits)

lemma device_update_keeps:
  assumes "device_update s = Inr s'"
  shows "g_nr_guest_inst s' = g_nr_guest_inst s \<and> dev.more s' = dev.more s
    \<and> (run_state (nemu_state s') = run_state (nemu_state s) \<or> run_state (nemu_state s') = NEMU_QUIT)"
proof -
  have poll: "poll_events es t = Inr t' \<Longrightarrow> g_nr_guest_inst t' = g_nr_guest_inst t \<and> dev.more t' = dev.more t
      \<and> (run_state (nemu_state t') = run_state (nemu_state t) \<or> run_state (nemu_state t') = NEMU_QUIT)"
    for es and t t' :: "'a dev_scheme"
  proof (induction es t rule: poll_events.induct)
    case (3 k is_keydown es t)
    then obtain t1 where t1: "send_key k is_keydown t = Inr t1" "poll_events es t1 = Inr t'"
      by (auto elim: bind_resE)
    then have "g_nr_guest_inst t1 = g_nr_guest_inst t \<and> dev.more t1 = dev.more t \<and> nemu_state t1 = nemu_state t"
      by (auto simp: send_key_def key_enqueue_def Let_def split: if_splits)
    with "3.IH" [OF t1] show ?case by auto
  qed (auto simp: set_run_state_def)
  obtain now s1 where gt: "get_time s = (now, s1)" by fastforce
  then have "g_nr_guest_inst s1 = g_nr_guest_inst s \<and> dev.more s1 = dev.more s \<and> nemu_state s1 = nemu_state s"
    by (auto simp: get_time_def get_time_internal_def Let_def split: if_splits)
  with assms gt show ?thesis
    by (auto simp: device_update_def vga_update_screen_def Let_def dest!: poll split: if_splits)
qed

lemma trace_keeps:
  assumes "trace_and_difftest g npc s = Some (Inr s')"
  shows "g_nr_guest_inst s' = g_nr_guest_inst s \<and> cpu s' = cpu s \<and> pmem s' = pmem s
    \<and> (run_state (nemu_state s') = run_state (nemu_state s) \<or> run_state (nemu_state s') = NEMU_STOP)"
  using assms unfolding trace_and_difftest_def
  by (auto simp: bind_run_eq_Inr set_run_state_def Let_def split: if_splits)

text \<open>One round of the loop.\<close>

lemma execute_SucE:
  assumes "execute g (Suc n) d s = Some (Inr (d', s'))"
  obtains (stopped) s1 where "exec_once g d (pc (cpu s)) s = Inr (d', s1)"
      "trace_and_difftest g (pc (cpu s1)) (s1\<lparr>g_nr_guest_inst := g_nr_guest_inst s1 + 1\<rparr>) = Some (Inr s')"
      "run_state (nemu_state s') \<noteq> NEMU_RUNNING"
    | (running) d1 s1 s2 s3 where "exec_once g d (pc (cpu s)) s = Inr (d1, s1)"
      "trace_and_difftest g (pc (cpu s1)) (s1\<lparr>g_nr_guest_inst := g_nr_guest_inst s1 + 1\<rparr>) = Some (Inr s2)"
      "run_state (nemu_state s2) = NEMU_RUNNING"
      "(if conf_device s2 then device_update s2 else Inr s2) = Inr s3"
      "execute g n d1 s3 = Some (Inr (d', s'))"
proof -
  from assms obtain d1 s1 s2 where
    e: "exec_once g d (pc (cpu s)) s = Inr (d1, s1)"
    and tr: "trace_and_difftest g (pc (cpu s1)) (s1\<lparr>g_nr_guest_inst := g_nr_guest_inst s1 + 1\<rparr>) = Some (Inr s2)"
    and rest: "(if run_state (nemu_state s2) \<noteq> NEMU_RUNNING then Some (Inr (d1, s2))
       else bind_run (Some (if conf_device s2 then device_update s2 else Inr s2)) (execute g n d1))
        = Some (Inr (d', s'))"
    by (auto simp: bind_run_eq_Inr)
  show thesis
  proof (cases "run_state (nemu_state s2) = NEMU_RUNNING")
    case False
    with rest have "d' = d1" "s' = s2" by simp_all
    with e tr False show ?thesis using stopped by simp
  next
    case True
    with rest obtain s3 where "(if conf_device s2 then device_update s2 else Inr s2) = Inr s3"
      "execute g n d1 s3 = Some (Inr (d', s'))"
      by (cases "if conf_device s2 then device_update s2 else Inr s2") auto
    from running [OF e tr True this] show ?thesis .
  qed
qed

text \<open>Stepping \<open>m + n\<close> instructions is stepping \<open>m\<close> and, if the guest still runs, \<open>n\<close> more.\<close>

lemma execute_add:
  "execute g m d s = Some (Inr (d1, s1)) \<Longrightarrow> run_state (nemu_state s1) = NEMU_RUNNING \<Longrightarrow>
   execute g (m + n) d s = execute g n d1 s1"
proof (induction m arbitrary: d s)
  case 0
  then show ?case by simp
next
  case (Suc m)
  from Suc.prems(1) show ?case
  proof (cases rule: execute_SucE)
    case stopped
    with Suc.prems(2) show ?thesis by simp
  next
    case (running d2 s2 s3 s4)
    with Suc.IH [OF running(5) Suc.prems(2)] show ?thesis by simp
  qed
qed

section \<open>What the loop needs of a guest\<close>

text \<open>
  One instruction leaves the debugger's own variables and the instruction count alone, and never
  puts the emulator into the stopped state, which is the debugger's.
\<close>

locale guest_isa =
  fixes g :: guest
  assumes exec_debugger: "isa_exec_once g d s = Inr (d', s') \<Longrightarrow>
      lex s' = lex s \<and> wps s' = wps s \<and> is_batch_mode s' = is_batch_mode s \<and> g_timer s' = g_timer s
      \<and> g_print_step s' = g_print_step s \<and> g_nr_guest_inst s' = g_nr_guest_inst s"
    and exec_run_state: "isa_exec_once g d s = Inr (d', s') \<Longrightarrow>
      run_state (nemu_state s') = run_state (nemu_state s) \<or> ended (run_state (nemu_state s'))"
begin

lemma exec_once_debugger:
  assumes "exec_once g d p s = Inr (d', s')"
  shows "lex s' = lex s \<and> wps s' = wps s \<and> g_nr_guest_inst s' = g_nr_guest_inst s"
    and "run_state (nemu_state s') = run_state (nemu_state s) \<or> ended (run_state (nemu_state s'))"
proof -
  from assms obtain s1 where "isa_exec_once g (d\<lparr>d_pc := p, snpc := p\<rparr>) s = Inr (d', s1)"
    and s': "s' = s1\<lparr>cpu := (cpu s1)\<lparr>pc := dnpc d'\<rparr>\<rparr>"
    unfolding exec_once_def by (auto elim!: bind_resE)
  from exec_debugger [OF this(1)] exec_run_state [OF this(1)] s'
  show "lex s' = lex s \<and> wps s' = wps s \<and> g_nr_guest_inst s' = g_nr_guest_inst s"
    and "run_state (nemu_state s') = run_state (nemu_state s) \<or> ended (run_state (nemu_state s'))"
    by simp_all
qed

text \<open>
  The instruction count: the loop counts the instructions it executes, at most \<open>n\<close> of them, and
  exactly \<open>n\<close> when the guest is still running.
\<close>

lemma execute_counts:
  "execute g n d s = Some (Inr (d', s')) \<Longrightarrow> run_state (nemu_state s) \<noteq> NEMU_STOP \<Longrightarrow>
   \<exists>k \<le> n. g_nr_guest_inst s' = g_nr_guest_inst s + of_nat k
     \<and> (run_state (nemu_state s') = NEMU_RUNNING \<longrightarrow> k = n)"
proof (induction n arbitrary: d s)
  case 0
  then show ?case by simp
next
  case (Suc n)
  from Suc.prems(1) show ?case
  proof (cases rule: execute_SucE)
    case (stopped s1)
    with exec_once_debugger(1) [OF stopped(1)] trace_keeps [OF stopped(2)] show ?thesis
      by (intro exI [of _ 1]) simp
  next
    case (running d1 s1 s2 s3)
    have s3: "g_nr_guest_inst s3 = g_nr_guest_inst s2 \<and> run_state (nemu_state s3) \<noteq> NEMU_STOP"
      using running(3,4) device_update_keeps [of s2 s3] by (auto split: if_splits)
    with Suc.IH [OF running(5)] obtain k where "k \<le> n"
      "g_nr_guest_inst s' = g_nr_guest_inst s2 + of_nat k"
      "run_state (nemu_state s') = NEMU_RUNNING \<longrightarrow> k = n" by auto
    moreover have "g_nr_guest_inst s2 = g_nr_guest_inst s + 1"
      using exec_once_debugger(1) [OF running(1)] trace_keeps [OF running(2)] by simp
    ultimately show ?thesis by (intro exI [of _ "Suc k"]) auto
  qed
qed

end

section \<open>The RISC-V guest\<close>

definition rv_guest :: guest where
  "rv_guest = \<lparr>init_isa = rv_init_isa, isa_exec_once = rv_isa_exec_once,
     isa_reg_str2val = rv_isa_reg_str2val, isa_reg_display = rv_isa_reg_display\<rparr>"

lemma guest_isaI:
  assumes "\<And>d s d' s'. isa_exec_once g d s = Inr (d', s') \<Longrightarrow> isa_keeps s s'"
  shows "guest_isa g"
proof
  fix d s d' s'
  assume "isa_exec_once g d s = Inr (d', s')"
  from assms [OF this] have k: "isa_keeps s s'" .
  then show "lex s' = lex s \<and> wps s' = wps s \<and> is_batch_mode s' = is_batch_mode s \<and> g_timer s' = g_timer s
      \<and> g_print_step s' = g_print_step s \<and> g_nr_guest_inst s' = g_nr_guest_inst s"
    by (cases s, cases s') (simp add: isa_keeps_def)
  from k show "run_state (nemu_state s') = run_state (nemu_state s) \<or> ended (run_state (nemu_state s'))"
    by (simp add: isa_keeps_def)
qed

interpretation riscv: guest_isa rv_guest
  by (rule guest_isaI) (auto simp: rv_guest_def dest: rv_isa_exec_once_keeps)

text \<open>A value for the local \<open>Decode s\<close> of \<open>execute\<close>, which the source leaves uninitialised.\<close>

definition fresh_decode :: Decode where
  "fresh_decode = \<lparr>d_pc = 0, snpc = 0, dnpc = 0, isa_inst = 0\<rparr>"

text \<open>The static variables before \<open>main\<close>.\<close>

definition initial_sdb :: sdb where
  "initial_sdb = nemu.extend initial_nemu (sdb.fields initial_lexer initial_pool False 0 False)"

lemma initial_sdb_simps [simp]:
  "run_state (nemu_state initial_sdb) = NEMU_STOP" "g_nr_guest_inst initial_sdb = 0"
  "conf_device initial_sdb = False" "is_batch_mode initial_sdb = False" "wps initial_sdb = initial_pool" "lex initial_sdb = initial_lexer"
  "cpu initial_sdb = \<lparr>gpr = (\<lambda>_. 0), pc = 0\<rparr>" "pmem initial_sdb = (\<lambda>_. 0)"
  by (simp_all add: initial_sdb_def initial_nemu_def initial_mem_def mem.defs dev.defs initial_dev_def nemu.defs
      sdb.defs initial_nemu_state_def)

end
