(* ===== verification/GuestRun.thy ===== *)
theory GuestRun
  imports CpuExec
begin

text \<open>
  Facts about running any guest that the image theorems of the three guests share: the words of a
  loaded image, one round of the execution loop on a machine without watchpoints and devices, and
  a run of \<open>cpu_exec\<close> that ends.
\<close>

section \<open>Fields of instruction words\<close>

text \<open>Decoding works on the 32-bit instruction widened to the 64 bits of the macros.\<close>

lemma and_ucast: "(ucast (x::u32) :: u64) AND ucast y = ucast (x AND y)"
  by (rule bit_word_eqI) (simp add: bit_simps)

lemma ucast_up_eq: "(ucast (x::u32) :: u64) = ucast y \<longleftrightarrow> x = y"
proof
  assume e: "(ucast x :: u64) = ucast y"
  show "x = y"
  proof (rule bit_word_eqI)
    fix n assume "n < LENGTH(32)"
    moreover have "bit (ucast x :: u64) n = bit (ucast y :: u64) n" using e by simp
    ultimately show "bit x n = bit y n" by (simp add: bit_simps)
  qed
qed simp

lemma bit26: "bit (i::u32) (26 + n) \<Longrightarrow> n < 6"
  by (drule bit_imp_le_length) simp

lemma reg_field:
  assumes "lo + 5 \<le> 32"
  shows "unat (BITS (ucast (i::u32)) (lo + 4) lo) = unat (take_bit 5 (drop_bit lo i))"
proof -
  have "BITS (ucast i) (lo + 4) lo = (ucast (take_bit 5 (drop_bit lo i)) :: u64)"
    using assms by (intro bit_word_eqI) (auto simp: bit_simps)
  moreover have "unat w < 2 ^ 64" for w :: u32
    by (rule less_trans [OF unsigned_less]) simp
  ultimately show ?thesis by (simp add: unsigned_ucast_eq take_bit_nat_eq_self_iff)
qed

lemma reg_index_less [simp]: "unat (take_bit 5 (w::u32)) < 32"
  using take_bit_nat_less_exp [of 5 "unat w"] by (simp add: unsigned_take_bit_eq)

section \<open>The built-in image in memory\<close>

lemma concat_nth:
  "(\<And>x. length (f x) = k) \<Longrightarrow> i < length xs \<Longrightarrow> j < k \<Longrightarrow> concat (map f xs) ! (k * i + j) = f (xs ! i) ! j"
proof (induction xs arbitrary: i)
  case Nil
  then show ?case by simp
next
  case (Cons x xs)
  then show ?case by (cases i) (simp_all add: nth_append algebra_simps)
qed

lemma length_concat_const: "(\<And>x. length (f x) = k) \<Longrightarrow> length (concat (map f xs)) = k * length xs"
  by (induction xs) simp_all

lemma load_image:
  assumes "i < length ws"
  shows "le_word (load_bytes (store_bytes m 0 (concat (map (le_bytes 4) ws))) (4 * i) 4) = ws ! i"
proof -
  have len: "length (concat (map (le_bytes 4) ws)) = 4 * length ws"
    by (rule length_concat_const) simp
  have "load_bytes (store_bytes m 0 (concat (map (le_bytes 4) ws))) (4 * i) 4 = le_bytes 4 (ws ! i)"
  proof (rule nth_equalityI)
    fix j assume "j < length (load_bytes (store_bytes m 0 (concat (map (le_bytes 4) ws))) (4 * i) 4)"
    then have j: "j < 4" by simp
    then have "load_bytes (store_bytes m 0 (concat (map (le_bytes 4) ws))) (4 * i) 4 ! j
        = concat (map (le_bytes 4) ws) ! (4 * i + j)"
      using assms len by (simp add: load_bytes_def store_bytes_def)
    also have "\<dots> = le_bytes 4 (ws ! i) ! j" using assms j by (intro concat_nth) simp_all
    finally show "load_bytes (store_bytes m 0 (concat (map (le_bytes 4) ws))) (4 * i) 4 ! j
        = le_bytes 4 (ws ! i) ! j" .
  qed simp
  then show ?thesis by simp
qed

section \<open>Steps of the loop\<close>

lemma reset_vector: "RESET_VECTOR = 0x80000000"
  by (simp add: RESET_VECTOR_def PMEM_LEFT_def CONFIG_MBASE_def CONFIG_PC_RESET_OFFSET_def)

text \<open>The machine with registers \<open>r\<close>, at \<open>p\<close>, after \<open>k\<close> instructions.\<close>

definition at_pc :: "sdb \<Rightarrow> (nat \<Rightarrow> u32) \<Rightarrow> u32 \<Rightarrow> u64 \<Rightarrow> sdb" where
  "at_pc s r p k = s\<lparr>cpu := \<lparr>gpr = r, pc = p\<rparr>, g_nr_guest_inst := k\<rparr>"

lemma trace_no_watchpoint: "head (wps s) = None \<Longrightarrow> trace_and_difftest g p s = Some (Inr s)"
  by (simp add: trace_and_difftest_def check_wp_def check_wp_loop.simps)

lemma execute_step:
  assumes "exec_once g d (pc (cpu s)) s = Inr (d', s1)" and "head (wps s1) = None" and "\<not> conf_device s1"
  shows "execute g (Suc n) d s =
     (if run_state (nemu_state s1) = NEMU_RUNNING
      then execute g n d' (s1\<lparr>g_nr_guest_inst := g_nr_guest_inst s1 + 1\<rparr>)
      else Some (Inr (d', s1\<lparr>g_nr_guest_inst := g_nr_guest_inst s1 + 1\<rparr>)))"
  using assms by (simp add: trace_no_watchpoint)

text \<open>A whole run of \<open>cpu_exec\<close> over a run of \<open>execute\<close> that has ended.\<close>

lemma cpu_exec_ends:
  assumes "\<not> ended (run_state (nemu_state s))"
    and run: "\<And>t0 s2. get_time (set_run_state NEMU_RUNNING (s\<lparr>g_print_step := unat n < MAX_INST_TO_PRINT\<rparr>)) = (t0, s2) \<Longrightarrow>
      \<exists>d' s3. execute g (unat n) d s2 = Some (Inr (d', s3)) \<and> nemu_state s3 = e \<and> g_nr_guest_inst s3 = c"
    and "run_state e \<noteq> NEMU_RUNNING"
  shows "\<exists>s'. cpu_exec g n d s = Some (Inr s') \<and> nemu_state s' = e \<and> g_nr_guest_inst s' = c"
proof -
  obtain t0 s2 where s2: "get_time (set_run_state NEMU_RUNNING (s\<lparr>g_print_step := unat n < MAX_INST_TO_PRINT\<rparr>)) = (t0, s2)"
    by fastforce
  from run [OF s2] obtain d' s3 where ex: "execute g (unat n) d s2 = Some (Inr (d', s3))"
    and s3: "nemu_state s3 = e" "g_nr_guest_inst s3 = c" by blast
  obtain t1 s4 where s4: "get_time s3 = (t1, s4)" by fastforce
  from get_time_keeps [OF s4] s3 have "nemu_state s4 = e" "g_nr_guest_inst s4 = c" by auto
  with assms(1,3) s2 ex s4 show ?thesis
    unfolding cpu_exec_def by (simp add: Let_def)
qed

section \<open>Guests whose instructions are words in sequence\<close>

text \<open>
  A word \<open>w\<close> at address \<open>a\<close> of guest memory, and the contract of a guest without jumps: one
  pass of \<open>exec_once\<close> over a word is an architectural step \<open>step\<close> and moves on by 4.
\<close>

definition mem_word :: "sdb \<Rightarrow> u32 \<Rightarrow> u32 \<Rightarrow> bool" where
  "mem_word s a w \<longleftrightarrow> in_pmem a \<and> guest_to_host a + 4 \<le> CONFIG_MSIZE
     \<and> le_word (load_bytes (pmem s) (guest_to_host a) 4) = w"

locale word_guest = guest_isa g for g +
  fixes step :: "u32 \<Rightarrow> u32 \<Rightarrow> sdb \<Rightarrow> sdb res"
  assumes exec_step: "mem_word s p w \<Longrightarrow> gpr (cpu s) 0 = 0 \<Longrightarrow> step w p s = Inr s1 \<Longrightarrow>
      \<exists>d'. exec_once g d p s = Inr (d', s1\<lparr>cpu := (cpu s1)\<lparr>pc := p + 4\<rparr>\<rparr>)"
begin

lemma run_step:
  assumes "pc (cpu s) = p" and "mem_word s p w" and "gpr (cpu s) 0 = 0" and "step w p s = Inr s1"
    and "head (wps s1) = None" and "\<not> conf_device s1"
  shows "\<exists>d'. execute g (Suc n) d s =
     (let s2 = s1\<lparr>cpu := (cpu s1)\<lparr>pc := p + 4\<rparr>, g_nr_guest_inst := g_nr_guest_inst s1 + 1\<rparr> in
      if run_state (nemu_state s1) = NEMU_RUNNING then execute g n d' s2 else Some (Inr (d', s2)))"
proof -
  from exec_step [OF assms(2-4), of d] obtain d' where
    "exec_once g d p s = Inr (d', s1\<lparr>cpu := (cpu s1)\<lparr>pc := p + 4\<rparr>\<rparr>)" by blast
  with assms(1,5,6) have "execute g (Suc n) d s =
     (let s2 = s1\<lparr>cpu := (cpu s1)\<lparr>pc := p + 4\<rparr>, g_nr_guest_inst := g_nr_guest_inst s1 + 1\<rparr> in
      if run_state (nemu_state s1) = NEMU_RUNNING then execute g n d' s2 else Some (Inr (d', s2)))"
    by (subst execute_step [of g d s d' "s1\<lparr>cpu := (cpu s1)\<lparr>pc := p + 4\<rparr>\<rparr>"]) (simp_all add: Let_def)
  then show ?thesis by blast
qed

end

text \<open>The machine with memory \<open>m\<close> and registers \<open>r\<close>, at \<open>p\<close>, after \<open>k\<close> instructions.\<close>

definition machine :: "sdb \<Rightarrow> bytes \<Rightarrow> (nat \<Rightarrow> u32) \<Rightarrow> u32 \<Rightarrow> u64 \<Rightarrow> sdb" where
  "machine s m r p k = s\<lparr>pmem := m, cpu := \<lparr>gpr = r, pc = p\<rparr>, g_nr_guest_inst := k\<rparr>"

lemma machine_simps [simp]:
  "pmem (machine s m r p k) = m" "cpu (machine s m r p k) = \<lparr>gpr = r, pc = p\<rparr>"
  "g_nr_guest_inst (machine s m r p k) = k" "wps (machine s m r p k) = wps s"
  "conf_device (machine s m r p k) = conf_device s" "nemu_state (machine s m r p k) = nemu_state s"
  "(machine s m r p k)\<lparr>cpu := \<lparr>gpr = r', pc = p'\<rparr>\<rparr> = machine s m r' p' k"
  "(machine s m r p k)\<lparr>g_nr_guest_inst := k'\<rparr> = machine s m r p k'"
  "(machine s m r p k)\<lparr>pmem := m'\<rparr> = machine s m' r p k"
  by (simp_all add: machine_def)

lemma machine_self: "s = machine s (pmem s) (gpr (cpu s)) (pc (cpu s)) (g_nr_guest_inst s)"
  by (simp add: machine_def)

context word_guest
begin

lemma machine_step:
  assumes "mem_word (machine s m r p k) p w" and "r 0 = 0"
    and "step w p (machine s m r p k) = Inr (machine s m' r' p k)"
    and "head (wps s) = None" and "\<not> conf_device s" and "run_state (nemu_state s) = NEMU_RUNNING"
  shows "\<exists>d'. execute g (Suc n) d (machine s m r p k) = execute g n d' (machine s m' r' (p + 4) (k + 1))"
  using run_step [OF _ assms(1) _ assms(3), of n d] assms(2,4-6) by (simp add: Let_def del: execute.simps)

end

text \<open>The words of an image at the start of memory, and what overwriting one of them leaves.\<close>

lemma image_mem_word:
  assumes "i < length ws" and "4 * length ws \<le> 1024"
  shows "mem_word (machine s (store_bytes m 0 (concat (map (le_bytes 4) ws))) r p k) (0x80000000 + 4 * of_nat i) (ws ! i)"
proof -
  have u: "unat (0x80000000 + 4 * of_nat i :: u32) = 0x80000000 + 4 * i"
  proof -
    have "unat (4 * of_nat i :: u32) = 4 * i"
      using assms by (subst unat_mult_lem [THEN iffD1]) (simp_all add: unat_of_nat)
    with assms show ?thesis by (subst unat_add_lem [THEN iffD1]) simp_all
  qed
  have in_p: "in_pmem (0x80000000 + 4 * of_nat i)" using u assms by (simp add: in_pmem_iff)
  then have "guest_to_host (0x80000000 + 4 * of_nat i) = 4 * i" by (simp add: guest_to_host_in_pmem u)
  with in_p load_image [OF assms(1)] assms show ?thesis by (simp add: mem_word_def CONFIG_MSIZE_def)
qed

lemma mem_word_store:
  assumes "mem_word (machine s m r p k) a w" and "h + 4 \<le> guest_to_host a \<or> guest_to_host a + 4 \<le> h"
  shows "mem_word (machine s (store_bytes m h (le_bytes 4 v)) r' p' k') a w"
  using assms by (auto simp: mem_word_def load_store_apart)

lemma mem_word_machine: "mem_word (machine s m r p k) a w \<Longrightarrow> mem_word (machine s m r' p' k') a w"
  by (simp add: mem_word_def)

lemma vaddr_write_machine:
  "in_pmem a \<Longrightarrow> guest_to_host a + 4 \<le> CONFIG_MSIZE \<Longrightarrow>
   vaddr_write a 4 v (machine s m r p k) = Inr (machine s (store_bytes m (guest_to_host a) (le_bytes 4 v)) r p k)"
  by (simp add: vaddr_write_def paddr_write_pmem access_len_def)

lemma vaddr_read_machine:
  "mem_word (machine s m r p k) a w \<Longrightarrow> vaddr_read a 4 (machine s m r p k) = Inr (w, machine s m r p k)"
  by (simp add: mem_word_def vaddr_read_def paddr_read_pmem access_len_def)

end
