(* ===== verification/RiscvRun.thy ===== *)
theory RiscvRun
  imports GuestRun RiscvRefine
begin

text \<open>
  The RISC-V emulator running: the execution loop on architectural steps, the built-in image from
  reset to its trap, and the state machine of \<open>cpu_exec\<close>.
\<close>

section \<open>The loop on architectural steps\<close>

lemma exec_once_arch:
  assumes "in_pmem p" and "guest_to_host p + 4 \<le> CONFIG_MSIZE"
    and word: "le_word (load_bytes (pmem s) (guest_to_host p) 4) = encode i"
    and "gpr (cpu s) 0 = 0" and "faithful i s" and step: "arch_step i p s = Inr (q, s')"
  shows "\<exists>d'. exec_once rv_guest d p s = Inr (d', s'\<lparr>cpu := (cpu s')\<lparr>pc := q\<rparr>\<rparr>)"
  using fetch_pmem [OF assms(1,2), of s] decode_exec_step [of s _ i] assms
  by (auto simp: exec_once_def rv_guest_def rv_isa_exec_once_def)

lemma execute_arch:
  assumes "pc (cpu s) = p" "in_pmem p" "guest_to_host p + 4 \<le> CONFIG_MSIZE"
    and "le_word (load_bytes (pmem s) (guest_to_host p) 4) = encode i"
    and "gpr (cpu s) 0 = 0" "faithful i s" "arch_step i p s = Inr (q, s')"
    and "head (wps s') = None" "\<not> conf_device s'"
  shows "\<exists>d'. execute rv_guest (Suc n) d s =
     (let s1 = s'\<lparr>cpu := (cpu s')\<lparr>pc := q\<rparr>, g_nr_guest_inst := g_nr_guest_inst s' + 1\<rparr> in
      if run_state (nemu_state s') = NEMU_RUNNING then execute rv_guest n d' s1 else Some (Inr (d', s1)))"
proof -
  from exec_once_arch [OF assms(2-7), of d] obtain d' where
    "exec_once rv_guest d p s = Inr (d', s'\<lparr>cpu := (cpu s')\<lparr>pc := q\<rparr>\<rparr>)" by blast
  with assms(1,8,9) show ?thesis by (intro exI [of _ d']) (simp add: trace_no_watchpoint Let_def)
qed

section \<open>The built-in image\<close>

definition image_instrs :: "instr list" where
  "image_instrs =
    [OpImm ADDI 12 0 1, OpImm ADDI 13 0 31, Op A_SLL 14 12 13, Load LW 15 14 0, OpImm ADDI 13 0 1,
     Branch BEQ 12 13 4, Jalr 0 1 0, Jal 1 (- 2), Ebreak]"

lemma image_encodes: "rv_img = map encode image_instrs"
  by (simp add: rv_img_def image_instrs_def enc_i_def enc_r_def enc_b_def enc_j_def)

definition image_ready :: "sdb \<Rightarrow> bool" where
  "image_ready s \<longleftrightarrow> (\<exists>m. pmem s = store_bytes m 0 (concat (map (le_bytes 4) rv_img)))
     \<and> head (wps s) = None \<and> \<not> conf_device s \<and> run_state (nemu_state s) = NEMU_RUNNING"

lemma image_word:
  assumes "image_ready s" and "i < length image_instrs"
  shows "in_pmem (RESET_VECTOR + 4 * of_nat i)"
    and "guest_to_host (RESET_VECTOR + 4 * of_nat i) + 4 \<le> CONFIG_MSIZE"
    and "le_word (load_bytes (pmem s) (guest_to_host (RESET_VECTOR + 4 * of_nat i)) 4) = encode (image_instrs ! i)"
proof -
  have cases: "i = 0 \<or> i = 1 \<or> i = 2 \<or> i = 3 \<or> i = 4 \<or> i = 5 \<or> i = 6 \<or> i = 7 \<or> i = 8"
    using assms(2) by (auto simp: image_instrs_def less_Suc_eq)
  then have u: "unat (RESET_VECTOR + 4 * of_nat i) = 0x80000000 + 4 * i"
    by (elim disjE) (simp_all add: RESET_VECTOR_def PMEM_LEFT_def CONFIG_MBASE_def CONFIG_PC_RESET_OFFSET_def)
  have "i < 9" using cases by auto
  with u show in_p: "in_pmem (RESET_VECTOR + 4 * of_nat i)" by (simp add: in_pmem_iff)
  then have h: "guest_to_host (RESET_VECTOR + 4 * of_nat i) = 4 * i"
    by (simp add: guest_to_host_in_pmem u)
  with \<open>i < 9\<close> show "guest_to_host (RESET_VECTOR + 4 * of_nat i) + 4 \<le> CONFIG_MSIZE"
    by (simp add: CONFIG_MSIZE_def)
  obtain m where "pmem s = store_bytes m 0 (concat (map (le_bytes 4) rv_img))"
    using assms(1) by (auto simp: image_ready_def)
  moreover have "length rv_img = length image_instrs" "rv_img ! i = encode (image_instrs ! i)"
    using assms(2) by (simp_all add: image_encodes)
  ultimately show "le_word (load_bytes (pmem s) (guest_to_host (RESET_VECTOR + 4 * of_nat i)) 4)
      = encode (image_instrs ! i)"
    using load_image [of i rv_img m] assms(2) by (simp add: h)
qed

lemma image_step:
  assumes "image_ready s" and "i < length image_instrs" and "p = RESET_VECTOR + 4 * of_nat i"
    and "r 0 = 0" and "faithful (image_instrs ! i) (at_pc s r p k)"
    and "arch_step (image_instrs ! i) p (at_pc s r p k) = Inr (q, at_pc s r' p k)"
  shows "\<exists>d'. execute rv_guest (Suc n) d (at_pc s r p k) = execute rv_guest n d' (at_pc s r' q (k + 1))"
proof -
  have "\<exists>d'. execute rv_guest (Suc n) d (at_pc s r p k) =
     (let s1 = (at_pc s r' p k)\<lparr>cpu := (cpu (at_pc s r' p k))\<lparr>pc := q\<rparr>,
            g_nr_guest_inst := g_nr_guest_inst (at_pc s r' p k) + 1\<rparr> in
      if run_state (nemu_state (at_pc s r' p k)) = NEMU_RUNNING then execute rv_guest n d' s1
      else Some (Inr (d', s1)))"
    using assms image_word [OF assms(1,2)]
    by (intro execute_arch) (auto simp: at_pc_def image_ready_def)
  then show ?thesis using assms(1) by (simp add: at_pc_def image_ready_def Let_def)
qed

lemma image_first_word:
  assumes "image_ready s"
  shows "vaddr_read 0x80000000 4 (at_pc s r p k) = Inr (0x00100613, at_pc s r p k)"
proof -
  have "encode (image_instrs ! 0) = 0x00100613" by (simp add: image_instrs_def enc_i_def enc_r_def)
  with image_word [OF assms, of 0] show ?thesis
    by (simp add: vaddr_read_def paddr_read_pmem access_len_def reset_vector image_instrs_def)
      (simp add: at_pc_def)
qed

lemmas image_eval = at_pc_def image_instrs_def set_xreg_def xreg_def reset_vector

lemma image_runs:
  assumes ready: "image_ready s" and "r 0 = 0"
  shows "\<exists>d' r'. execute rv_guest (n + 8) d (at_pc s r 0x80000000 k)
       = execute rv_guest n d' (at_pc s r' 0x80000020 (k + 8)) \<and> r' 0 = 0 \<and> r' 10 = r 10"
proof -
  note step = image_step [OF ready]
  let ?r1 = "r(12 := 1)"
  let ?r2 = "?r1(13 := 31)"
  let ?r3 = "?r2(14 := 0x80000000)"
  let ?r4 = "?r3(15 := 0x00100613)"
  let ?r5 = "?r4(13 := 1)"
  let ?r7 = "?r5(1 := 0x80000020)"
  have k8: "k + 8 = k + 1 + 1 + 1 + 1 + 1 + 1 + 1 + 1" and n8: "n + 8 = Suc (Suc (Suc (Suc (Suc (Suc (Suc (Suc n)))))))" by simp_all
  obtain d1 where s1: "execute rv_guest (Suc (Suc (Suc (Suc (Suc (Suc (Suc (Suc n)))))))) d (at_pc s (r) 0x80000000 k)
      = execute rv_guest (Suc (Suc (Suc (Suc (Suc (Suc (Suc n))))))) d1 (at_pc s (?r1) 0x80000004 (k + 1))"
    using step [where i = 0 and r = "r" and r' = "?r1" and p = "0x80000000" and q = "0x80000004"] assms(2)
    by (fastforce simp: image_eval simp del: execute.simps)
  obtain d2 where s2: "execute rv_guest (Suc (Suc (Suc (Suc (Suc (Suc (Suc n))))))) d1 (at_pc s (?r1) 0x80000004 (k + 1))
      = execute rv_guest (Suc (Suc (Suc (Suc (Suc (Suc n)))))) d2 (at_pc s (?r2) 0x80000008 (k + 1 + 1))"
    using step [where i = 1 and r = "?r1" and r' = "?r2" and p = "0x80000004" and q = "0x80000008"] assms(2)
    by (fastforce simp: image_eval simp del: execute.simps)
  obtain d3 where s3: "execute rv_guest (Suc (Suc (Suc (Suc (Suc (Suc n)))))) d2 (at_pc s (?r2) 0x80000008 (k + 1 + 1))
      = execute rv_guest (Suc (Suc (Suc (Suc (Suc n))))) d3 (at_pc s (?r3) 0x8000000c (k + 1 + 1 + 1))"
    using step [where i = 2 and r = "?r2" and r' = "?r3" and p = "0x80000008" and q = "0x8000000c"] assms(2)
    by (fastforce simp: image_eval simp del: execute.simps)
  obtain d4 where s4: "execute rv_guest (Suc (Suc (Suc (Suc (Suc n))))) d3 (at_pc s (?r3) 0x8000000c (k + 1 + 1 + 1))
      = execute rv_guest (Suc (Suc (Suc (Suc n)))) d4 (at_pc s (?r4) 0x80000010 (k + 1 + 1 + 1 + 1))"
    using step [where i = 3 and r = "?r3" and r' = "?r4" and p = "0x8000000c" and q = "0x80000010"] assms(2)
    by (fastforce simp: image_eval image_first_word [OF ready, unfolded at_pc_def] simp del: execute.simps)
  obtain d5 where s5: "execute rv_guest (Suc (Suc (Suc (Suc n)))) d4 (at_pc s (?r4) 0x80000010 (k + 1 + 1 + 1 + 1))
      = execute rv_guest (Suc (Suc (Suc n))) d5 (at_pc s (?r5) 0x80000014 (k + 1 + 1 + 1 + 1 + 1))"
    using step [where i = 4 and r = "?r4" and r' = "?r5" and p = "0x80000010" and q = "0x80000014"] assms(2)
    by (fastforce simp: image_eval simp del: execute.simps)
  obtain d6 where s6: "execute rv_guest (Suc (Suc (Suc n))) d5 (at_pc s (?r5) 0x80000014 (k + 1 + 1 + 1 + 1 + 1))
      = execute rv_guest (Suc (Suc n)) d6 (at_pc s (?r5) 0x8000001c (k + 1 + 1 + 1 + 1 + 1 + 1))"
    using step [where i = 5 and r = "?r5" and r' = "?r5" and p = "0x80000014" and q = "0x8000001c"] assms(2)
    by (fastforce simp: image_eval simp del: execute.simps)
  obtain d7 where s7: "execute rv_guest (Suc (Suc n)) d6 (at_pc s (?r5) 0x8000001c (k + 1 + 1 + 1 + 1 + 1 + 1))
      = execute rv_guest (Suc n) d7 (at_pc s (?r7) 0x80000018 (k + 1 + 1 + 1 + 1 + 1 + 1 + 1))"
    using step [where i = 7 and r = "?r5" and r' = "?r7" and p = "0x8000001c" and q = "0x80000018"] assms(2)
    by (fastforce simp: image_eval simp del: execute.simps)
  obtain d8 where s8: "execute rv_guest (Suc n) d7 (at_pc s (?r7) 0x80000018 (k + 1 + 1 + 1 + 1 + 1 + 1 + 1))
      = execute rv_guest n d8 (at_pc s (?r7) 0x80000020 (k + 1 + 1 + 1 + 1 + 1 + 1 + 1 + 1))"
    using step [where i = 6 and r = "?r7" and r' = "?r7" and p = "0x80000018" and q = "0x80000020"] assms(2)
    by (fastforce simp: image_eval simp del: execute.simps)
  have "execute rv_guest (n + 8) d (at_pc s r 0x80000000 k) = execute rv_guest n d8 (at_pc s ?r7 0x80000020 (k + 8))"
    unfolding k8 n8 by (simp only: s1 s2 s3 s4 s5 s6 s7 s8)
  with assms(2) show ?thesis by (intro exI [of _ d8] exI [of _ ?r7]) simp
qed

lemma image_ebreak:
  assumes ready: "image_ready s" and "r 0 = 0"
  shows "\<exists>d'. execute rv_guest (Suc n) d (at_pc s r 0x80000020 k)
     = Some (Inr (d', (NEMUTRAP 0x80000020 (r 10) (at_pc s r 0x80000024 (k + 1)))))"
proof -
  have word: "in_pmem 0x80000020" "guest_to_host 0x80000020 + 4 \<le> CONFIG_MSIZE"
      "le_word (load_bytes (pmem s) (guest_to_host 0x80000020) 4) = encode Ebreak"
    using image_word [OF ready, of 8] by (simp_all add: image_instrs_def reset_vector)
  let ?s = "at_pc s r 0x80000020 k"
  have "\<exists>d'. execute rv_guest (Suc n) d ?s =
     (let s1 = (NEMUTRAP 0x80000020 (r 10) ?s)\<lparr>cpu := (cpu (NEMUTRAP 0x80000020 (r 10) ?s))\<lparr>pc := 0x80000024\<rparr>,
            g_nr_guest_inst := g_nr_guest_inst (NEMUTRAP 0x80000020 (r 10) ?s) + 1\<rparr> in
      if run_state (nemu_state (NEMUTRAP 0x80000020 (r 10) ?s)) = NEMU_RUNNING then execute rv_guest n d' s1
      else Some (Inr (d', s1)))"
    using ready assms(2) word
    by (intro execute_arch [where i = Ebreak])
      (auto simp: at_pc_def image_ready_def xreg_def NEMUTRAP_def set_nemu_state_def difftest_skip_ref_def)
  then show ?thesis
    by (cases s) (simp add: NEMUTRAP_def set_nemu_state_def difftest_skip_ref_def at_pc_def Let_def del: execute.simps)
qed

lemma image_execute:
  assumes ready: "image_ready s" and "gpr (cpu s) 0 = 0" and "pc (cpu s) = 0x80000000" and "9 \<le> n"
  shows "\<exists>d' s'. execute rv_guest n d s = Some (Inr (d', s'))
    \<and> nemu_state s' = \<lparr>run_state = NEMU_END, halt_pc = 0x80000020, halt_ret = gpr (cpu s) 10\<rparr>
    \<and> g_nr_guest_inst s' = g_nr_guest_inst s + 9"
proof -
  have s: "s = at_pc s (gpr (cpu s)) 0x80000000 (g_nr_guest_inst s)"
    using assms(3) by (simp add: at_pc_def)
  obtain m where n: "n = Suc m + 8" using assms(4) by (metis Suc_eq_plus1 add.commute add_Suc_right le_Suc_ex numeral_eq_Suc pred_numeral_simps(3) eval_nat_numeral(3))
  obtain d1 r' where runs: "execute rv_guest (Suc m + 8) d (at_pc s (gpr (cpu s)) 0x80000000 (g_nr_guest_inst s))
      = execute rv_guest (Suc m) d1 (at_pc s r' 0x80000020 (g_nr_guest_inst s + 8))"
    and r': "r' 0 = 0" "r' 10 = gpr (cpu s) 10"
    using image_runs [OF ready, where r = "gpr (cpu s)" and n = "Suc m" and d = d and k = "g_nr_guest_inst s"] assms(2) by blast
  obtain d2 where "execute rv_guest (Suc m) d1 (at_pc s r' 0x80000020 (g_nr_guest_inst s + 8))
     = Some (Inr (d2, NEMUTRAP 0x80000020 (r' 10) (at_pc s r' 0x80000024 (g_nr_guest_inst s + 8 + 1))))"
    using image_ebreak [OF ready, where r = r' and n = m and d = d1 and k = "g_nr_guest_inst s + 8"] r'(1) by blast
  with runs s n have "execute rv_guest n d s
     = Some (Inr (d2, NEMUTRAP 0x80000020 (r' 10) (at_pc s r' 0x80000024 (g_nr_guest_inst s + 8 + 1))))" by metis
  then show ?thesis
    by (intro exI [of _ d2] exI [of _ "NEMUTRAP 0x80000020 (r' 10) (at_pc s r' 0x80000024 (g_nr_guest_inst s + 8 + 1))"])
      (simp add: r' NEMUTRAP_def set_nemu_state_def difftest_skip_ref_def at_pc_def)
qed

lemma rv_img_bytes: "length (concat (map (le_bytes 4) rv_img)) = 36"
  by (simp add: rv_img_def)

lemma rv_init_isa_ok:
  "rv_init_isa s = Inr (rv_restart (s\<lparr>pmem := store_bytes (pmem s) 0 (concat (map (le_bytes 4) rv_img))\<rparr>))"
  using rv_img_bytes
  by (simp add: rv_init_isa_def pmem_copy_def reset_vector guest_to_host_in_pmem in_pmem_iff CONFIG_MSIZE_def
      del: length_concat)

lemma image_ready_init:
  fixes s :: sdb
  assumes "rv_init_isa s = Inr s1" and "head (wps s) = None" and "\<not> conf_device s"
  shows "image_ready (set_run_state NEMU_RUNNING s1) \<and> gpr (cpu s1) 0 = 0 \<and> pc (cpu s1) = 0x80000000
    \<and> gpr (cpu s1) 10 = gpr (cpu s) 10 \<and> g_nr_guest_inst s1 = g_nr_guest_inst s \<and> nemu_state s1 = nemu_state s"
  using assms by (auto simp: rv_init_isa_ok image_ready_def rv_restart_def set_run_state_def reset_vector)

text \<open>The machine just before its first instruction, from the static initial state.\<close>

definition booted :: sdb where
  "booted = rv_restart (initial_sdb\<lparr>pmem := store_bytes (\<lambda>_. 0) 0 (concat (map (le_bytes 4) rv_img))\<rparr>)"

lemma booted_init: "rv_init_isa initial_sdb = Inr booted"
  by (simp add: rv_init_isa_ok booted_def)

lemma booted_ready:
  "image_ready (set_run_state NEMU_RUNNING booted)" "gpr (cpu booted) 0 = 0" "gpr (cpu booted) 10 = 0"
  "pc (cpu booted) = 0x80000000" "g_nr_guest_inst booted = 0" "run_state (nemu_state booted) = NEMU_STOP"
  using image_ready_init [OF booted_init] by (simp_all add: initial_pool_def)

lemma image_cpu_exec:
  assumes "rv_init_isa s = Inr s1" and "\<not> ended (run_state (nemu_state s))"
    and "head (wps s) = None" and "\<not> conf_device s" and "9 \<le> unat n"
  shows "\<exists>s'. cpu_exec rv_guest n d s1 = Some (Inr s')
    \<and> nemu_state s' = \<lparr>run_state = NEMU_END, halt_pc = 0x80000020, halt_ret = gpr (cpu s) 10\<rparr>
    \<and> g_nr_guest_inst s' = g_nr_guest_inst s + 9"
proof (rule cpu_exec_ends)
  note init = image_ready_init [OF assms(1,3,4)]
  with assms(2) show "\<not> ended (run_state (nemu_state s1))" by simp
  fix t0 s2
  assume "get_time (set_run_state NEMU_RUNNING (s1\<lparr>g_print_step := unat n < MAX_INST_TO_PRINT\<rparr>)) = (t0, s2)"
  note t = get_time_keeps [OF this]
  with init have "image_ready s2" "gpr (cpu s2) 0 = 0" "pc (cpu s2) = 0x80000000"
    by (auto simp: image_ready_def set_run_state_def)
  from image_execute [OF this assms(5), of d] t init
  show "\<exists>d' s3. execute rv_guest (unat n) d s2 = Some (Inr (d', s3))
      \<and> nemu_state s3 = \<lparr>run_state = NEMU_END, halt_pc = 0x80000020, halt_ret = gpr (cpu s) 10\<rparr>
      \<and> g_nr_guest_inst s3 = g_nr_guest_inst s + 9"
    by (simp add: set_run_state_def)
qed simp


section \<open>Properties\<close>

text \<open>
  C13: \<open>cpu_exec\<close> obeys the emulator's state machine: once a run has ended (end, abort or quit) no
  further command executes an instruction or changes anything but the print flag; otherwise the
  guest is never left in the running state, and the count of guest instructions grows by at most
  \<open>n\<close>. Stated for the RISC-V guest, whatever the program in memory does.
\<close>

theorem cpu_exec_state_machine:
  "(ended (run_state (nemu_state s)) \<longrightarrow>
      cpu_exec rv_guest n d s = Some (Inr (s\<lparr>g_print_step := unat n < MAX_INST_TO_PRINT\<rparr>)))
   \<and> (\<not> ended (run_state (nemu_state s)) \<and> cpu_exec rv_guest n d s = Some (Inr s') \<longrightarrow>
      run_state (nemu_state s') \<noteq> NEMU_RUNNING
      \<and> (\<exists>k \<le> unat n. g_nr_guest_inst s' = g_nr_guest_inst s + of_nat k))"
proof (intro conjI impI)
  assume "ended (run_state (nemu_state s))"
  then show "cpu_exec rv_guest n d s = Some (Inr (s\<lparr>g_print_step := unat n < MAX_INST_TO_PRINT\<rparr>))"
    by (simp add: cpu_exec_def)
next
  assume a: "\<not> ended (run_state (nemu_state s)) \<and> cpu_exec rv_guest n d s = Some (Inr s')"
  obtain t0 s2 where s2: "get_time (set_run_state NEMU_RUNNING (s\<lparr>g_print_step := unat n < MAX_INST_TO_PRINT\<rparr>)) = (t0, s2)"
    by fastforce
  define fin :: "sdb \<Rightarrow> sdb" where "fin = (\<lambda>s3. case get_time s3 of (t1, s4) \<Rightarrow>
    let s5 = s4\<lparr>g_timer := g_timer s4 + (t1 - t0)\<rparr> in
    if run_state (nemu_state s5) = NEMU_RUNNING then set_run_state NEMU_STOP s5 else s5)"
  have "cpu_exec rv_guest n d s = bind_run (execute rv_guest (unat n) d s2) (\<lambda>(d1, s3). Some (Inr (fin s3)))"
  proof -
    have fin: "(case get_time s3 of (t1, s4) \<Rightarrow> let s5 = s4\<lparr>g_timer := g_timer s4 + (t1 - t0)\<rparr> in
        Some (Inr (if run_state (nemu_state s5) = NEMU_RUNNING then set_run_state NEMU_STOP s5 else s5)))
      = (Some (Inr (fin s3)) :: sdb run)" for s3
      by (cases "get_time s3") (simp add: fin_def Let_def)
    show ?thesis
      unfolding cpu_exec_def s2 fin [symmetric] using conjunct1 [OF a] by (simp add: s2 Let_def)
  qed
  with a obtain d3 s3 where ex: "execute rv_guest (unat n) d s2 = Some (Inr (d3, s3))" and "s' = fin s3"
    by (auto simp: bind_run_eq_Inr)
  moreover obtain t1 s4 where s4: "get_time s3 = (t1, s4)" by fastforce
  ultimately have s': "s' = (let s5 = s4\<lparr>g_timer := g_timer s4 + (t1 - t0)\<rparr> in
      if run_state (nemu_state s5) = NEMU_RUNNING then set_run_state NEMU_STOP s5 else s5)"
    by (simp add: fin_def)
  show "run_state (nemu_state s') \<noteq> NEMU_RUNNING"
    by (simp add: s' Let_def)
  have s2': "g_nr_guest_inst s2 = g_nr_guest_inst s" "run_state (nemu_state s2) = NEMU_RUNNING"
    using s2 by (auto simp: get_time_def get_time_internal_def set_run_state_def Let_def split: if_splits)
  from s4 have "g_nr_guest_inst s4 = g_nr_guest_inst s3"
    by (auto simp: get_time_def get_time_internal_def Let_def split: if_splits)
  then have "g_nr_guest_inst s' = g_nr_guest_inst s3" by (simp add: s' Let_def set_run_state_def)
  with riscv.execute_counts [OF ex] s2' show "\<exists>k \<le> unat n. g_nr_guest_inst s' = g_nr_guest_inst s + of_nat k"
    by auto
qed

theorem cpu_exec_state_machine_witness:
  "(\<exists>s'. cpu_exec rv_guest 9 fresh_decode booted = Some (Inr s') \<and> run_state (nemu_state s') \<noteq> NEMU_RUNNING)
   \<and> cpu_exec rv_guest 9 fresh_decode (set_run_state NEMU_END booted)
       = Some (Inr ((set_run_state NEMU_END booted)\<lparr>g_print_step := True\<rparr>))"
proof
  obtain s' where s': "cpu_exec rv_guest 9 fresh_decode booted = Some (Inr s')"
    using image_cpu_exec [OF booted_init, of 9 fresh_decode] by (auto simp: ended_def initial_pool_def)
  with cpu_exec_state_machine [of booted 9 fresh_decode s'] booted_ready
  show "\<exists>s'. cpu_exec rv_guest 9 fresh_decode booted = Some (Inr s') \<and> run_state (nemu_state s') \<noteq> NEMU_RUNNING"
    by (simp add: ended_def)
  show "cpu_exec rv_guest 9 fresh_decode (set_run_state NEMU_END booted)
       = Some (Inr ((set_run_state NEMU_END booted)\<lparr>g_print_step := True\<rparr>))"
    using cpu_exec_state_machine [of "set_run_state NEMU_END booted" 9 fresh_decode]
    by (simp add: ended_def set_run_state_def MAX_INST_TO_PRINT_def)
qed

text \<open>
  Single-stepping adds up: when \<open>m\<close> instructions leave the guest running, executing \<open>m + n\<close>
  instructions is executing \<open>m\<close> and then \<open>n\<close>, and the first part counted exactly \<open>m\<close> of them.
\<close>

theorem execute_splits:
  assumes "execute rv_guest m d s = Some (Inr (d1, s1))" and "run_state (nemu_state s1) = NEMU_RUNNING"
    and "run_state (nemu_state s) \<noteq> NEMU_STOP"
  shows "execute rv_guest (m + n) d s = execute rv_guest n d1 s1
    \<and> g_nr_guest_inst s1 = g_nr_guest_inst s + of_nat m"
  using execute_add [OF assms(1,2)] riscv.execute_counts [OF assms(1,3)] assms(2) by auto


theorem execute_splits_witness:
  "\<exists>d1 s1. execute rv_guest 8 fresh_decode (set_run_state NEMU_RUNNING booted) = Some (Inr (d1, s1))
     \<and> execute rv_guest 9 fresh_decode (set_run_state NEMU_RUNNING booted) = execute rv_guest 1 d1 s1
     \<and> g_nr_guest_inst s1 = 8"
proof -
  let ?s = "set_run_state NEMU_RUNNING booted"
  have s: "?s = at_pc ?s (gpr (cpu booted)) 0x80000000 0"
    using booted_ready by (simp add: at_pc_def set_run_state_def)
  obtain d1 r' where "execute rv_guest (0 + 8) fresh_decode (at_pc ?s (gpr (cpu booted)) 0x80000000 0)
      = execute rv_guest 0 d1 (at_pc ?s r' 0x80000020 (0 + 8))"
    using image_runs [OF booted_ready(1), where r = "gpr (cpu booted)" and n = 0 and d = fresh_decode and k = 0] booted_ready(2)
    by blast
  then have ex: "execute rv_guest 8 fresh_decode ?s = Some (Inr (d1, at_pc ?s r' 0x80000020 8))"
    using s by simp
  with execute_splits [OF ex, of 1] booted_ready(5) show ?thesis
    by (simp add: at_pc_def set_run_state_def)
qed

text \<open>
  The built-in image, loaded by \<open>init_isa\<close> into any machine that has not ended and has no
  watchpoints or devices, runs to its trap when at least nine instructions are allowed: the emulator
  ends at 0x80000020 with the value of \<open>a0\<close> as exit code, after exactly nine instructions.
\<close>

theorem builtin_image_ends:
  assumes "rv_init_isa s = Inr s1" and "\<not> ended (run_state (nemu_state s))"
    and "head (wps s) = None" and "\<not> conf_device s" and "9 \<le> unat n"
  shows "\<exists>s'. cpu_exec rv_guest n d s1 = Some (Inr s')
    \<and> nemu_state s' = \<lparr>run_state = NEMU_END, halt_pc = 0x80000020, halt_ret = gpr (cpu s) 10\<rparr>
    \<and> g_nr_guest_inst s' = g_nr_guest_inst s + 9"
  using image_cpu_exec [OF assms] .

theorem builtin_image_ends_witness:
  "rv_init_isa initial_sdb = Inr booted \<and> (\<exists>s'. cpu_exec rv_guest 9 fresh_decode booted = Some (Inr s')
    \<and> nemu_state s' = \<lparr>run_state = NEMU_END, halt_pc = 0x80000020, halt_ret = 0\<rparr> \<and> g_nr_guest_inst s' = 9)"
  using builtin_image_ends [OF booted_init, of 9 fresh_decode] by (simp add: booted_init ended_def initial_pool_def)

end
