(* ===== verification/Sdb.thy ===== *)
theory Sdb
  imports CpuExec
begin

text \<open>
  The simple debugger, \<open>src/monitor/sdb/sdb.c\<close>, and the monitor around it,
  \<open>src/monitor/monitor.c\<close>, \<open>src/engine/interpreter/init.c\<close> and \<open>src/nemu-main.c\<close>: command
  lines, their arguments (\<open>strtok\<close>, \<open>atoi\<close>), the commands, the main loop, the command line of
  the emulator and its start-up. What a command prints is a list of \<open>msg\<close>; the lines the user
  types, the files of the host and the words \<open>getopt_long\<close> finds are inputs of the definitions.
\<close>

section \<open>Words of a line\<close>

text \<open>\<open>strtok\<close>: the next token and the rest of the string after the delimiter that ended it.\<close>

definition strtok :: "string \<Rightarrow> string \<Rightarrow> string option \<times> string" where
  "strtok delim s =
     (let s1 = dropWhile (\<lambda>c. c \<in> set delim) s in
      if s1 = [] then (None, [])
      else (let t = takeWhile (\<lambda>c. c \<notin> set delim) s1 in (Some t, drop (length t + 1) s1)))"

definition is_space :: "char \<Rightarrow> bool" where
  "is_space c \<longleftrightarrow> c = CHR '' '' \<or> in_range (CHR 0x09) (CHR 0x0d) c"

definition c_atoi :: "string \<Rightarrow> u32" where
  "c_atoi s =
     (let s1 = dropWhile is_space s;
          sign = s1 \<noteq> [] \<and> (hd s1 = CHR ''-'' \<or> hd s1 = CHR ''+'');
          v = digits_val 10 (takeWhile is_digit (if sign then tl s1 else s1)) in
      if sign \<and> hd s1 = CHR ''-'' then word_of_int (max (- int v) (- (2 ^ 63)))
      else of_nat (min v (2 ^ 63 - 1)))"

section \<open>Commands\<close>

datatype msg =
    NoArgument
  | InvalidArgument
  | NotEnoughArguments
  | OutOfPmem u32 u32
  | MemWord u32 u32
  | ExprValue u32
  | WatchAdded int string u32
  | WatchRow int string
  | NoWatchpoint
  | RegisterRow reg_row
  | HelpRow string string
  | UnknownCommand string

datatype command = Help | C | Q | Si | Info | X | P | W | D

definition cmd_table :: "(string \<times> string \<times> command) list" where
  "cmd_table =
    [(''help'', ''Display information about all supported commands'', Help),
     (''c'', ''Continue the execution of the program'', C),
     (''q'', ''Exit NEMU'', Q),
     (''si'', ''Single-step execution, with a parameter N. When N is not given, the default is 1'', Si),
     (''info'', ''Print program status. r: print register info, w: print watchpoint info'', Info),
     (''x'', ''Print N four-byte data entries starting with address EXPR'', X),
     (''p'', ''Expression evaluation'', P),
     (''w'', ''Set watchpoint'', W),
     (''d'', ''Delete watchpoint'', D)]"

type_synonym reply = "int \<times> msg list \<times> sdb"

definition cmd_c :: "guest \<Rightarrow> Decode \<Rightarrow> sdb \<Rightarrow> reply run" where
  "cmd_c g d s = bind_run (cpu_exec g (- 1) d s) (\<lambda>s1. Some (Inr (0, [], s1)))"

definition cmd_q :: "sdb \<Rightarrow> reply run" where
  "cmd_q s = Some (Inr (- 1, [], set_run_state NEMU_QUIT s))"

text \<open>The step count is an \<open>int\<close> that is converted to \<open>uint64_t\<close>.\<close>

definition cmd_si :: "guest \<Rightarrow> Decode \<Rightarrow> string \<Rightarrow> sdb \<Rightarrow> reply run" where
  "cmd_si g d rest s =
     (let step = (case fst (strtok '' '' rest) of None \<Rightarrow> 1 | Some arg \<Rightarrow> c_atoi arg) in
      bind_run (cpu_exec g (scast step) d s) (\<lambda>s1. Some (Inr (0, [], s1))))"

definition cmd_info :: "guest \<Rightarrow> string option \<Rightarrow> sdb \<Rightarrow> reply run" where
  "cmd_info g args s =
     (case args of
        None \<Rightarrow> Some (Inr (0, [NoArgument], s))
      | Some a \<Rightarrow>
          if a = ''r'' then Some (Inr (0, map RegisterRow (isa_reg_display g s), s))
          else if a = ''w'' then
            Option.bind (wp_display (wps s)) (\<lambda>rows.
              Some (Inr (0, if rows = [] then [NoWatchpoint] else map (\<lambda>(no, str). WatchRow no str) rows, s)))
          else Some (Inr (0, [InvalidArgument], s)))"

text \<open>
  The loop of \<open>cmd_x\<close>: \<open>i\<close> runs in steps of 4 below \<open>4*len\<close>, compared as \<open>paddr_t\<close>, which is a
  multiple of 4; the first argument counts the rounds left.
\<close>

fun dump_loop :: "nat \<Rightarrow> u32 \<Rightarrow> u32 \<Rightarrow> sdb \<Rightarrow> (msg list \<times> sdb) res" where
  "dump_loop 0 paddr i s = Inr ([], s)"
| "dump_loop (Suc k) paddr i s =
     bind_res (paddr_read (paddr + i) 4 s) (\<lambda>(v, s1).
     bind_res (dump_loop k paddr (i + 4) s1) (\<lambda>(ms, s2).
     Inr (MemWord (paddr + i) v # ms, s2)))"

definition cmd_x :: "guest \<Rightarrow> string \<Rightarrow> sdb \<Rightarrow> reply run" where
  "cmd_x g rest s =
     (case strtok '' '' rest of (n, rest1) \<Rightarrow>
      case (n, fst (strtok [] rest1)) of
        (Some n, Some expression) \<Rightarrow>
          bind_run (expr (\<lambda>nm. isa_reg_str2val g nm s) s expression (lex s)) (\<lambda>((paddr, success), l).
            let s1 = s\<lparr>lex := l\<rparr> in
            if \<not> success then Some (Inr (0, [], s1))
            else if \<not> in_pmem paddr then Some (Inr (0, [OutOfPmem paddr (pc (cpu s1))], s1))
            else bind_run (Some (dump_loop (unat (4 * c_atoi n) div 4) paddr 0 s1)) (\<lambda>(ms, s2).
              Some (Inr (0, ms, s2))))
      | _ \<Rightarrow> Some (Inr (0, [NotEnoughArguments], s)))"

definition cmd_p :: "guest \<Rightarrow> string option \<Rightarrow> sdb \<Rightarrow> reply run" where
  "cmd_p g args s =
     (case args of
        None \<Rightarrow> Some (Inr (0, [NoArgument], s))
      | Some a \<Rightarrow>
          bind_run (expr (\<lambda>nm. isa_reg_str2val g nm s) s a (lex s)) (\<lambda>((val, success), l).
            Some (Inr (0, if success then [ExprValue val] else [], s\<lparr>lex := l\<rparr>))))"

text \<open>
  The copy loop of \<open>cmd_w\<close> has no bound: the text and its terminator must fit \<open>str\<close>.
\<close>

definition cmd_w :: "guest \<Rightarrow> string option \<Rightarrow> sdb \<Rightarrow> reply run" where
  "cmd_w g args s =
     (case args of
        None \<Rightarrow> Some (Inr (0, [NoArgument], s))
      | Some a \<Rightarrow>
         (case new_wp (wps s) of
            (None, p) \<Rightarrow> Some (Inl AssertFail)
          | (Some w, p) \<Rightarrow>
              if WP_STR \<le> length a then Some (Inl OutOfBounds)
              else
               (let p1 = p\<lparr>wp_pool := (wp_pool p)(w := (wp_pool p w)\<lparr>wp_str := a\<rparr>)\<rparr>;
                    s1 = s\<lparr>wps := p1\<rparr> in
                bind_run (expr (\<lambda>nm. isa_reg_str2val g nm s1) s1 a (lex s1)) (\<lambda>((val, success), l).
                  let p2 = p1\<lparr>wp_pool := (wp_pool p1)(w := (wp_pool p1 w)\<lparr>last_value := val\<rparr>)\<rparr> in
                  if \<not> success then Some (Inl AssertFail)
                  else Some (Inr (0, [WatchAdded (NO (wp_pool p2 w)) a val], s1\<lparr>lex := l, wps := p2\<rparr>))))))"

definition cmd_d :: "string option \<Rightarrow> sdb \<Rightarrow> reply run" where
  "cmd_d args s =
     (case args of
        None \<Rightarrow> Some (Inr (0, [NoArgument], s))
      | Some a \<Rightarrow> Option.bind (free_wp (sint (c_atoi a)) (wps s)) (\<lambda>p. Some (Inr (0, [], s\<lparr>wps := p\<rparr>))))"

definition cmd_help :: "string \<Rightarrow> sdb \<Rightarrow> reply run" where
  "cmd_help rest s =
     (case fst (strtok '' '' rest) of
        None \<Rightarrow> Some (Inr (0, map (\<lambda>(name, descr, _). HelpRow name descr) cmd_table, s))
      | Some arg \<Rightarrow>
          (case find (\<lambda>(name, _, _). arg = name) cmd_table of
             Some (name, descr, _) \<Rightarrow> Some (Inr (0, [HelpRow name descr], s))
           | None \<Rightarrow> Some (Inr (0, [UnknownCommand arg], s))))"

text \<open>
  The handler of a command: \<open>rest\<close> is what \<open>strtok\<close> has left, \<open>args\<close> the same text or \<open>NULL\<close>.
\<close>

definition handle :: "guest \<Rightarrow> Decode \<Rightarrow> command \<Rightarrow> string option \<Rightarrow> string \<Rightarrow> sdb \<Rightarrow> reply run" where
  "handle g d cmd args rest s =
     (case cmd of
        Help \<Rightarrow> cmd_help rest s
      | C \<Rightarrow> cmd_c g d s
      | Q \<Rightarrow> cmd_q s
      | Si \<Rightarrow> cmd_si g d rest s
      | Info \<Rightarrow> cmd_info g args s
      | X \<Rightarrow> cmd_x g rest s
      | P \<Rightarrow> cmd_p g args s
      | W \<Rightarrow> cmd_w g args s
      | D \<Rightarrow> cmd_d args s)"

section \<open>The main loop\<close>

definition sdb_set_batch_mode :: "sdb \<Rightarrow> sdb" where
  "sdb_set_batch_mode s = s\<lparr>is_batch_mode := True\<rparr>"

text \<open>One line of input that holds a command.\<close>

definition sdb_command :: "guest \<Rightarrow> Decode \<Rightarrow> string \<Rightarrow> string \<Rightarrow> sdb \<Rightarrow> reply run" where
  "sdb_command g d cmd rest s =
     (let args = (if rest = [] then None else Some rest);
          s1 = (if conf_device s then sdl_clear_event_queue s else s) in
      case find (\<lambda>(name, _, _). cmd = name) cmd_table of
        None \<Rightarrow> Some (Inr (0, [UnknownCommand cmd], s1))
      | Some (_, _, h) \<Rightarrow> handle g d h args rest s1)"

fun sdb_loop :: "guest \<Rightarrow> Decode \<Rightarrow> string list \<Rightarrow> sdb \<Rightarrow> (msg list \<times> sdb) run" where
  "sdb_loop g d [] s = Some (Inr ([], s))"
| "sdb_loop g d (line # lines) s =
     (case strtok '' '' line of
        (None, _) \<Rightarrow> sdb_loop g d lines s
      | (Some cmd, rest) \<Rightarrow>
          bind_run (sdb_command g d cmd rest s) (\<lambda>(r, ms, s1).
            if r < 0 then Some (Inr (ms, s1))
            else bind_run (sdb_loop g d lines s1) (\<lambda>(ms1, s2). Some (Inr (ms @ ms1, s2)))))"

definition sdb_mainloop :: "guest \<Rightarrow> Decode \<Rightarrow> string list \<Rightarrow> sdb \<Rightarrow> (msg list \<times> sdb) run" where
  "sdb_mainloop g d lines s =
     (if is_batch_mode s then bind_run (cmd_c g d s) (\<lambda>(r, ms, s1). Some (Inr (ms, s1)))
      else sdb_loop g d lines s)"

definition init_sdb :: "sdb \<Rightarrow> sdb" where
  "init_sdb s = s\<lparr>wps := init_wp_pool (wps s)\<rparr>"

section \<open>The monitor\<close>

text \<open>
  The results of \<open>getopt_long\<close> in order: an option with its argument, a word that is no option,
  or something it does not know. \<open>--help\<close> takes the default branch.
\<close>

datatype getopt = Opt char string | NonOption string | BadOption

record monitor =
  log_file :: "string option"
  diff_so_file :: "string option"
  img_file :: "string option"
  difftest_port :: u32

definition initial_monitor :: monitor where
  "initial_monitor = \<lparr>log_file = None, diff_so_file = None, img_file = None, difftest_port = 1234\<rparr>"

text \<open>\<open>sscanf "%d"\<close> leaves the port as it is when there is no number.\<close>

definition scan_dec :: "string \<Rightarrow> u32 \<Rightarrow> u32" where
  "scan_dec str old =
     (let s1 = dropWhile is_space str;
          s2 = (if s1 \<noteq> [] \<and> (hd s1 = CHR ''-'' \<or> hd s1 = CHR ''+'') then tl s1 else s1) in
      if s2 \<noteq> [] \<and> is_digit (hd s2) then c_atoi str else old)"

text \<open>\<open>None\<close> is \<open>exit(0)\<close> after the usage message.\<close>

fun parse_args :: "getopt list \<Rightarrow> monitor \<times> sdb \<Rightarrow> (monitor \<times> sdb) option" where
  "parse_args [] ms = Some ms"
| "parse_args (Opt opt optarg # os) (m, s) =
     (if opt = CHR ''b'' then parse_args os (m, sdb_set_batch_mode s)
      else if opt = CHR ''p'' then parse_args os (m\<lparr>difftest_port := scan_dec optarg (difftest_port m)\<rparr>, s)
      else if opt = CHR ''l'' then parse_args os (m\<lparr>log_file := Some optarg\<rparr>, s)
      else if opt = CHR ''d'' then parse_args os (m\<lparr>diff_so_file := Some optarg\<rparr>, s)
      else None)"
| "parse_args (NonOption w # os) (m, s) = Some (m\<lparr>img_file := Some w\<rparr>, s)"
| "parse_args (BadOption # os) (m, s) = None"

text \<open>
  The image file, read whole by one \<open>fread\<close> of one element: an empty file reads no element and
  fails the \<open>assert\<close>.
\<close>

definition load_img :: "(string \<Rightarrow> u8 list option) \<Rightarrow> monitor \<Rightarrow> sdb \<Rightarrow> (nat \<times> sdb) res" where
  "load_img files m s =
     (case img_file m of
        None \<Rightarrow> Inr (4096, s)
      | Some f \<Rightarrow>
          (case files f of
             None \<Rightarrow> Inl AssertFail
           | Some bs \<Rightarrow>
               assert_then (bs \<noteq> []) (bind_res (pmem_copy RESET_VECTOR bs s) (\<lambda>s1. Inr (length bs, s1)))))"

text \<open>
  \<open>init_monitor\<close>. \<open>rnd\<close> is the C library's \<open>rand\<close> after \<open>srand\<close>; \<open>dev_init\<close> is
  \<open>init_device\<close> with its host inputs; \<open>writable\<close> tells whether the log file can be opened.
\<close>

definition init_monitor ::
  "guest \<Rightarrow> (u64 \<Rightarrow> u8) \<Rightarrow> (sdb \<Rightarrow> sdb res) \<Rightarrow> (string \<Rightarrow> bool) \<Rightarrow> (string \<Rightarrow> u8 list option) \<Rightarrow> getopt list
     \<Rightarrow> monitor \<Rightarrow> sdb \<Rightarrow> sdb option res" where
  "init_monitor g rnd dev_init writable files opts m0 s0 =
     (case parse_args opts (m0, s0) of
        None \<Rightarrow> Inr None
      | Some (m, s) \<Rightarrow>
          (case get_time_internal s of (seed, s1) \<Rightarrow>
           assert_then (case log_file m of None \<Rightarrow> True | Some f \<Rightarrow> writable f)
            (let s2 = init_mem (rnd seed) s1 in
             bind_res (if conf_device s2 then dev_init s2 else Inr s2) (\<lambda>s3.
             bind_res (init_isa g s3) (\<lambda>s4.
             bind_res (load_img files m s4) (\<lambda>(img_size, s5).
             Inr (Some (init_sdb s5))))))))"

definition engine_start :: "guest \<Rightarrow> Decode \<Rightarrow> string list \<Rightarrow> sdb \<Rightarrow> (msg list \<times> sdb) run" where
  "engine_start g d lines s = sdb_mainloop g d lines s"

text \<open>\<open>main\<close>: the exit status, with what was printed.\<close>

definition nemu_main ::
  "guest \<Rightarrow> (u64 \<Rightarrow> u8) \<Rightarrow> (sdb \<Rightarrow> sdb res) \<Rightarrow> (string \<Rightarrow> bool) \<Rightarrow> (string \<Rightarrow> u8 list option) \<Rightarrow> getopt list
     \<Rightarrow> Decode \<Rightarrow> string list \<Rightarrow> sdb \<Rightarrow> (bool \<times> msg list) run" where
  "nemu_main g rnd dev_init writable files opts d lines s =
     bind_run (Some (init_monitor g rnd dev_init writable files opts initial_monitor s)) (\<lambda>r.
       case r of
         None \<Rightarrow> Some (Inr (False, []))
       | Some s1 \<Rightarrow> bind_run (engine_start g d lines s1) (\<lambda>(ms, s2). Some (Inr (is_exit_status_bad s2, ms))))"

section \<open>Lemmas\<close>

lemma strtok_word:
  assumes "w \<noteq> []" and "CHR '' '' \<notin> set w"
  shows "strtok '' '' (replicate k (CHR '' '') @ w @ CHR '' '' # rest) = (Some w, rest)"
    and "strtok '' '' (replicate k (CHR '' '') @ w) = (Some w, [])"
proof -
  have drop: "dropWhile (\<lambda>c. c \<in> set '' '') (replicate k (CHR '' '') @ w @ tl) = w @ tl" for tl
    using assms by (induction k) (cases w; auto)+
  have ne: "\<forall>c \<in> set w. c \<notin> set '' ''" using assms(2) by auto
  show "strtok '' '' (replicate k (CHR '' '') @ w @ CHR '' '' # rest) = (Some w, rest)"
    using drop [of "CHR '' '' # rest"] assms(1) ne by (simp add: strtok_def Let_def takeWhile_append)
  show "strtok '' '' (replicate k (CHR '' '') @ w) = (Some w, [])"
    using drop [of "[]"] assms(1) ne by (simp add: strtok_def Let_def takeWhile_eq_all_conv [THEN iffD2])
qed

lemma strtok_blank: "strtok '' '' (replicate k (CHR '' '')) = (None, [])"
  by (induction k) (simp_all add: strtok_def)

lemma strtok_rest: "a \<noteq> [] \<Longrightarrow> strtok [] a = (Some a, [])"
  by (simp add: strtok_def Let_def takeWhile_eq_all_conv [THEN iffD2] dropWhile_eq_self_iff)

subsection \<open>The pool of watchpoints\<close>

text \<open>Two pools with the same lists, numbers and texts; only remembered values may differ.\<close>

definition same_shape :: "pool \<Rightarrow> pool \<Rightarrow> bool" where
  "same_shape p q \<longleftrightarrow> head q = head p \<and> free_list q = free_list p
     \<and> (\<forall>i. NO (wp_pool q i) = NO (wp_pool p i) \<and> nxt (wp_pool q i) = nxt (wp_pool p i)
          \<and> wp_str (wp_pool q i) = wp_str (wp_pool p i))"

lemma same_shape_refl [simp]: "same_shape p p"
  by (simp add: same_shape_def)

lemma same_shape_trans: "same_shape p q \<Longrightarrow> same_shape q r \<Longrightarrow> same_shape p r"
  by (simp add: same_shape_def)

lemma same_shape_value [simp]:
  "same_shape p (p\<lparr>wp_pool := (wp_pool p)(i := (wp_pool p i)\<lparr>last_value := v\<rparr>)\<rparr>)"
  by (simp add: same_shape_def)

lemma chain_same: "same_shape p q \<Longrightarrow> chain q w ls = chain p w ls"
  by (induction ls arbitrary: w) (simp_all add: same_shape_def)

lemma pool_state_same: "same_shape p q \<Longrightarrow> pool_state p us bs \<Longrightarrow> pool_state q us bs"
  using chain_same [of p q] by (simp add: pool_state_def) (simp add: same_shape_def)

lemma check_wp_loop_shape:
  assumes "check_wp_loop reg s w b l p = Some r"
  shows "case r of Inl _ \<Rightarrow> True | Inr (t, l', p') \<Rightarrow> same_shape p p'"
proof (rule check_wp_loop.raw_induct [rotated, where
      P = "\<lambda>reg s w b l p r. case r of Inl _ \<Rightarrow> True | Inr (t, l', p') \<Rightarrow> same_shape p p'"], rule assms, goal_cases)
  case (1 f reg s w b l p r)
  show ?case
  proof (cases w)
    case None
    with 1(2) show ?thesis by auto
  next
    case (Some i)
    let ?q = "\<lambda>v. p\<lparr>wp_pool := (wp_pool p)(i := (wp_pool p i)\<lparr>last_value := v\<rparr>)\<rparr>"
    consider e where "r = Inl e"
      | v l1 where "f reg s (nxt (wp_pool p i)) True l1 (?q v) = Some r"
      | l1 where "f reg s (nxt (wp_pool p i)) b l1 p = Some r"
    proof (cases "expr reg s (wp_str (wp_pool p i)) l")
      case None
      with Some 1(2) show ?thesis by simp
    next
      case (Some y)
      with \<open>w = Some i\<close> 1(2) that show ?thesis by (cases y) (auto split: if_splits)
    qed
    then show ?thesis
    proof cases
      case 2
      from 1(1) [OF this] show ?thesis by (cases r) (auto intro: same_shape_trans [OF same_shape_value])
    next
      case 3
      from 1(1) [OF this] show ?thesis .
    qed simp
  qed
qed

lemma wp_rows_chain:
  "chain p w us \<Longrightarrow> wp_rows p w = Some (map (\<lambda>i. (NO (wp_pool p i), wp_str (wp_pool p i))) us)"
  by (induction us arbitrary: w) (subst wp_rows.simps; simp)+

lemma trace_shape:
  assumes "trace_and_difftest g npc s = Some (Inr s')"
  shows "same_shape (wps s) (wps s')"
proof -
  from assms obtain t l p where chk: "check_wp (\<lambda>nm. isa_reg_str2val g nm s) s (lex s) (wps s) = Some (Inr (t, l, p))"
    and "wps s' = p"
    unfolding trace_and_difftest_def bind_run_eq_Inr by (auto simp: Let_def set_run_state_def split: if_splits)
  with check_wp_loop_shape [OF chk [unfolded check_wp_def]] show ?thesis by simp
qed

context guest_isa
begin

lemma execute_shape:
  "execute g n d s = Some (Inr (d', s')) \<Longrightarrow> same_shape (wps s) (wps s')"
proof (induction n arbitrary: d s)
  case 0
  then show ?case by simp
next
  case (Suc n)
  from Suc.prems show ?case
  proof (cases rule: execute_SucE)
    case (stopped s1)
    with exec_once_debugger(1) [OF stopped(1)] trace_shape [OF stopped(2)] show ?thesis by simp
  next
    case (running d1 s1 s2 s3)
    have "wps s3 = wps s2"
      using running(4) device_update_keeps [of s2 s3] by (cases s2, cases s3) (auto split: if_splits)
    with Suc.IH [OF running(5)] exec_once_debugger(1) [OF running(1)] trace_shape [OF running(2)]
    show ?thesis by (auto intro: same_shape_trans)
  qed
qed

lemma cpu_exec_shape:
  assumes "cpu_exec g n d s = Some (Inr s')"
  shows "same_shape (wps s) (wps s')"
proof (cases "ended (run_state (nemu_state s))")
  case True
  with assms show ?thesis by (auto simp: cpu_exec_def)
next
  case False
  obtain t0 s2 where s2: "get_time (set_run_state NEMU_RUNNING (s\<lparr>g_print_step := unat n < MAX_INST_TO_PRINT\<rparr>)) = (t0, s2)"
    by fastforce
  with False assms obtain d1 s3 where ex: "execute g (unat n) d s2 = Some (Inr (d1, s3))"
    and s': "wps s' = wps (snd (get_time s3))"
    unfolding cpu_exec_def
    by (auto simp: Let_def bind_run_eq_Inr split_beta set_run_state_def)
  have "wps s2 = wps s" "wps (snd (get_time s3)) = wps s3"
    using get_time_keeps [OF s2] get_time_keeps [of s3 "fst (get_time s3)" "snd (get_time s3)"]
    by (auto simp: set_run_state_def)
  with execute_shape [OF ex] s' show ?thesis by simp
qed

end

definition sdb_ok :: "sdb \<Rightarrow> bool" where
  "sdb_ok s \<longleftrightarrow> (\<exists>us bs. pool_state (wps s) us bs)"

lemma sdb_ok_wps: "wps s' = wps s \<Longrightarrow> sdb_ok s' = sdb_ok s"
  by (simp add: sdb_ok_def)

lemma sdb_ok_shape: "same_shape (wps s) (wps s') \<Longrightarrow> sdb_ok s \<Longrightarrow> sdb_ok s'"
  unfolding sdb_ok_def using pool_state_same by blast

lemma pool_state_entry:
  assumes "pool_state p us bs" and "NO w = NO (wp_pool p i)" and "nxt w = nxt (wp_pool p i)"
  shows "pool_state (p\<lparr>wp_pool := (wp_pool p)(i := w)\<rparr>) us bs"
proof -
  have "chain (p\<lparr>wp_pool := (wp_pool p)(i := w)\<rparr>) v ls = chain p v ls" for v ls
    using assms(3) by (induction ls arbitrary: v) auto
  with assms(1,2) show ?thesis by (simp add: pool_state_def)
qed

lemma paddr_read_wps: "paddr_read a n s = Inr (v, s') \<Longrightarrow> wps s' = wps s" for s :: sdb
  using paddr_read_keeps [of a n s v s'] by (cases s, cases s') simp

lemma dump_loop_wps: "dump_loop k a i s = Inr (ms, s') \<Longrightarrow> wps s' = wps s"
  by (induction k arbitrary: i s ms) (auto elim!: bind_resE dest!: paddr_read_wps)

lemma cmd_x_wps:
  assumes "cmd_x g rest s = Some (Inr (r, ms, s'))"
  shows "wps s' = wps s"
proof (cases "strtok '' '' rest")
  case (Pair n rest1)
  show ?thesis
  proof (cases "(n, fst (strtok [] rest1))")
    case (Pair n' e)
    with \<open>strtok '' '' rest = (n, rest1)\<close> assms show ?thesis
      by (auto simp: cmd_x_def Let_def bind_run_eq_Inr dest!: dump_loop_wps split: option.splits if_splits)
  qed
qed

lemma cmd_w_ok:
  assumes ok: "sdb_ok s" and w: "cmd_w g args s = Some (Inr (r, ms, s'))"
  shows "sdb_ok s'"
proof (cases args)
  case None
  with assms show ?thesis by (simp add: cmd_w_def)
next
  case (Some a)
  with w obtain n p where n: "new_wp (wps s) = (Some n, p)"
    by (cases "new_wp (wps s)") (auto simp: cmd_w_def split: option.splits)
  from ok obtain us bs where "pool_state (wps s) us bs" by (auto simp: sdb_ok_def)
  from wp.take_fresh [OF this n] have p: "pool_state p (n # us) (tl bs)" by simp
  let ?p1 = "p\<lparr>wp_pool := (wp_pool p)(n := (wp_pool p n)\<lparr>wp_str := a\<rparr>)\<rparr>"
  from w Some n obtain v where
    "wps s' = ?p1\<lparr>wp_pool := (wp_pool ?p1)(n := (wp_pool ?p1 n)\<lparr>last_value := v\<rparr>)\<rparr>"
    by (auto simp: cmd_w_def Let_def bind_run_eq_Inr split: if_splits)
  moreover have "pool_state (?p1\<lparr>wp_pool := (wp_pool ?p1)(n := (wp_pool ?p1 n)\<lparr>last_value := v\<rparr>)\<rparr>) (n # us) (tl bs)"
    by (intro pool_state_entry p) simp_all
  ultimately show ?thesis by (auto simp: sdb_ok_def)
qed

lemma cmd_d_ok:
  assumes ok: "sdb_ok s" and d: "cmd_d args s = Some (Inr (r, ms, s'))"
  shows "sdb_ok s'"
proof (cases args)
  case None
  with assms show ?thesis by (simp add: cmd_d_def)
next
  case (Some a)
  let ?n = "sint (c_atoi a)"
  from d Some obtain p where p: "free_wp ?n (wps s) = Some p" "wps s' = p"
    by (auto simp: cmd_d_def bind_eq_Some_conv)
  from ok obtain us bs where st: "pool_state (wps s) us bs" by (auto simp: sdb_ok_def)
  show ?thesis
  proof (cases "?n \<in> int ` set us")
    case True
    then obtain n where "?n = int n" "n \<in> set us" by blast
    with wp.give_used [OF st this(2)] p show ?thesis by (auto simp: sdb_ok_def)
  next
    case False
    with free_wp_other [OF st False] p ok show ?thesis by (simp add: sdb_ok_def)
  qed
qed

context guest_isa
begin

lemma handle_ok:
  assumes "sdb_ok s" and "handle g d cmd args rest s = Some (Inr (r, ms, s'))"
  shows "sdb_ok s'"
proof (cases cmd)
  case C
  with assms show ?thesis
    by (auto simp: handle_def cmd_c_def bind_run_eq_Inr dest: cpu_exec_shape sdb_ok_shape)
next
  case Si
  with assms show ?thesis
    by (auto simp: handle_def cmd_si_def bind_run_eq_Inr Let_def dest: cpu_exec_shape sdb_ok_shape)
next
  case Info
  with assms show ?thesis
    by (auto simp: handle_def cmd_info_def bind_eq_Some_conv split: option.splits if_splits)
next
  case X
  with assms have "cmd_x g rest s = Some (Inr (r, ms, s'))" by (simp add: handle_def)
  from cmd_x_wps [OF this] assms(1) show ?thesis by (simp add: sdb_ok_def)
next
  case P
  with assms have "wps s' = wps s"
    by (auto simp: handle_def cmd_p_def bind_run_eq_Inr split: option.splits)
  with assms(1) show ?thesis using sdb_ok_wps by blast
next
  case W
  with assms show ?thesis by (auto simp: handle_def intro: cmd_w_ok)
next
  case D
  with assms show ?thesis by (auto simp: handle_def intro: cmd_d_ok)
next
  case Q
  with assms(2) have "wps s' = wps s" by (auto simp: handle_def cmd_q_def set_run_state_def)
  with assms(1) show ?thesis using sdb_ok_wps by blast
next
  case Help
  with assms show ?thesis by (auto simp: handle_def cmd_help_def split: option.splits)
qed

lemma sdb_command_ok:
  assumes "sdb_ok s" and "sdb_command g d cmd rest s = Some (Inr (r, ms, s'))"
  shows "sdb_ok s'"
proof -
  define s1 where "s1 = (if conf_device s then sdl_clear_event_queue s else s)"
  have s1: "sdb_ok s1" using assms(1) by (simp add: s1_def sdl_clear_event_queue_def sdb_ok_def)
  have c: "(case find (\<lambda>(name, _, _). cmd = name) cmd_table of
        None \<Rightarrow> Some (Inr (0, [UnknownCommand cmd], s1))
      | Some (_, _, h) \<Rightarrow> handle g d h (if rest = [] then None else Some rest) rest s1)
      = Some (Inr (r, ms, s'))"
    using assms(2) unfolding sdb_command_def Let_def s1_def .
  then show ?thesis
  proof (cases "find (\<lambda>(name, _, _). cmd = name) cmd_table")
    case None
    with c s1 show ?thesis by simp
  next
    case (Some e)
    with c s1 show ?thesis by (cases e) (auto intro: handle_ok)
  qed
qed

lemma sdb_loop_ok:
  "sdb_ok s \<Longrightarrow> sdb_loop g d lines s = Some (Inr (ms, s')) \<Longrightarrow> sdb_ok s'"
proof (induction lines arbitrary: s ms)
  case Nil
  then show ?case by simp
next
  case (Cons line lines)
  obtain cmd rest where split: "strtok '' '' line = (cmd, rest)" by fastforce
  show ?case
  proof (cases cmd)
    case None
    with Cons split show ?thesis by simp
  next
    case (Some c)
    with Cons.prems split obtain r ms1 s1 where "sdb_command g d c rest s = Some (Inr (r, ms1, s1))"
      and rest: "(if r < 0 then Some (Inr (ms1, s1))
            else bind_run (sdb_loop g d lines s1) (\<lambda>(ms2, s2). Some (Inr (ms1 @ ms2, s2)))) = Some (Inr (ms, s'))"
      by (auto simp: bind_run_eq_Inr)
    from sdb_command_ok [OF Cons.prems(1) this(1)] rest Cons.IH show ?thesis
      by (auto simp: bind_run_eq_Inr split: if_splits)
  qed
qed

end

text \<open>A dump of words that lie in \<open>pmem\<close>.\<close>

lemma dump_loop_pmem:
  "unat i + 4 * k < 2 ^ 32 \<Longrightarrow> unat paddr + unat i + 4 * k \<le> 0x88000000 \<Longrightarrow> in_pmem paddr \<Longrightarrow>
   dump_loop k paddr i s =
     Inr (map (\<lambda>j. MemWord (paddr + i + 4 * of_nat j)
       (le_word (load_bytes (pmem s) (guest_to_host paddr + unat i + 4 * j) 4))) [0..<k], s)"
proof (induction k arbitrary: i)
  case 0
  then show ?case by simp
next
  case (Suc k)
  have u: "unat (paddr + i) = unat paddr + unat i" "unat (i + 4) = unat i + 4"
    using Suc.prems by (simp_all add: unat_add_lem [THEN iffD1])
  with Suc.prems have in_p: "in_pmem (paddr + i)" by (simp add: in_pmem_iff)
  have h: "guest_to_host (paddr + i) = guest_to_host paddr + unat i"
    using u in_p Suc.prems by (simp add: guest_to_host_in_pmem in_pmem_iff)
  have rd: "paddr_read (paddr + i) 4 s
      = Inr (le_word (load_bytes (pmem s) (guest_to_host paddr + unat i) 4), s)"
    using Suc.prems in_p h u
    by (subst paddr_read_pmem) (auto simp: access_len_def guest_to_host_in_pmem CONFIG_MSIZE_def)
  have IH: "dump_loop k paddr (i + 4) s =
     Inr (map (\<lambda>j. MemWord (paddr + (i + 4) + 4 * of_nat j)
       (le_word (load_bytes (pmem s) (guest_to_host paddr + unat (i + 4) + 4 * j) 4))) [0..<k], s)"
    using Suc.prems u by (intro Suc.IH) simp_all
  have upt: "[0..<Suc k] = 0 # map Suc [0..<k]" by (simp add: upt_conv_Cons map_Suc_upt del: upt_Suc)
  show ?case unfolding upt by (simp add: rd IH u comp_def distrib_left add.assoc)
qed

section \<open>Properties\<close>

text \<open>
  The debugger reads a line as its user wrote it: leading blanks, a command word, one blank and
  the rest; the rest (which may hold further blanks) is the argument text, a line without a second
  word has none, and a blank line is skipped.
\<close>

theorem command_line_roundtrip:
  assumes "cmd \<noteq> []" and "CHR '' '' \<notin> set cmd"
  shows "sdb_loop g d ((replicate k (CHR '' '') @ cmd @ CHR '' '' # args) # lines) s =
      bind_run (sdb_command g d cmd args s) (\<lambda>(r, ms, s1).
        if r < 0 then Some (Inr (ms, s1))
        else bind_run (sdb_loop g d lines s1) (\<lambda>(ms1, s2). Some (Inr (ms @ ms1, s2))))
    \<and> sdb_loop g d ((replicate k (CHR '' '') @ cmd) # lines) s =
        sdb_loop g d ((replicate k (CHR '' '') @ cmd @ '' '') # lines) s
    \<and> sdb_loop g d (replicate k (CHR '' '') # lines) s = sdb_loop g d lines s"
  using strtok_word(1) [OF assms, of k args] strtok_word(1) [OF assms, of k "[]"]
    strtok_word(2) [OF assms, of k] strtok_blank [of k] by simp

theorem command_line_roundtrip_witness:
  "sdb_loop rv_guest fresh_decode [''  info x''] initial_sdb = Some (Inr ([InvalidArgument], initial_sdb))"
proof -
  have "sdb_command rv_guest fresh_decode ''info'' ''x'' initial_sdb = Some (Inr (0, [InvalidArgument], initial_sdb))"
    by (simp add: sdb_command_def cmd_table_def handle_def cmd_info_def)
  with conjunct1 [OF command_line_roundtrip [of "''info''" rv_guest fresh_decode 2 "''x''" "[]" initial_sdb]]
  show ?thesis by (simp add: numeral_2_eq_2)
qed



text \<open>
  \<open>x N EXPR\<close> on an expression in guest memory prints the \<open>N\<close> consecutive little-endian words from
  the address on and changes nothing but the lexer; an address outside prints the error message.
\<close>

theorem cmd_x_dumps:
  assumes "CHR '' '' \<notin> set n" and "n \<noteq> []" and "e \<noteq> []"
    and "expr (\<lambda>nm. isa_reg_str2val g nm s) s e (lex s) = Some (Inr ((a, True), l))"
    and "unat a + 4 * unat (c_atoi n) \<le> 0x88000000" and "4 * unat (c_atoi n) < 2 ^ 32"
  shows "cmd_x g (n @ CHR '' '' # e) s = Some (Inr (0,
      (if in_pmem a then map (\<lambda>j. MemWord (a + 4 * of_nat j)
          (le_word (load_bytes (pmem s) (guest_to_host a + 4 * j) 4))) [0..<unat (c_atoi n)]
       else [OutOfPmem a (pc (cpu s))]), s\<lparr>lex := l\<rparr>))"
proof -
  have words: "strtok '' '' (n @ CHR '' '' # e) = (Some n, e)" "strtok [] e = (Some e, [])"
    using strtok_word(1) [OF assms(2,1), of 0 e] strtok_rest [OF assms(3)] by simp_all
  have "unat (4 * c_atoi n) = 4 * unat (c_atoi n)"
    using assms(6) by (subst unat_mult_lem [THEN iffD1]) simp_all
  then have k: "unat (4 * c_atoi n) div 4 = unat (c_atoi n)" by simp
  show ?thesis
    using assms(4-6) dump_loop_pmem [of 0 "unat (c_atoi n)" a "s\<lparr>lex := l\<rparr>"]
    by (simp add: cmd_x_def words k Let_def)
qed

theorem cmd_x_dumps_witness:
  "\<exists>l. cmd_x rv_guest ''1 0x80000000 '' initial_sdb
     = Some (Inr (0, [MemWord 0x80000000 0], initial_sdb\<lparr>lex := l\<rparr>))"
proof -
  define e where "e = Atom (mk TK_HEX ''0x80000000'')"
  have "wf e" "unary_ok e" "length (flat e) \<le> NR_TOKENS" "atoms_ok e"
    by (simp_all add: e_def mk_def NR_TOKENS_def good_atom_def TOKEN_STR_def is_digit_def is_hex_def in_range_def)
  note val = expr_value [OF this(1,2,4,3), of "lex initial_sdb" "\<lambda>nm. isa_reg_str2val rv_guest nm initial_sdb" initial_sdb]
  have "text_of (raw e) = ''0x80000000 ''" by (simp add: e_def mk_def)
  moreover have "sem (\<lambda>nm. isa_reg_str2val rv_guest nm initial_sdb) initial_sdb e = Inr 0x80000000"
    by (simp add: e_def mk_def eval_token_def scan_hex_def digits_val_def digit_val_def is_digit_def in_range_def)
  ultimately obtain l where l: "expr (\<lambda>nm. isa_reg_str2val rv_guest nm initial_sdb) initial_sdb ''0x80000000 ''
      (lex initial_sdb) = Some (Inr ((0x80000000, True), l))"
    using val by (auto simp: initial_lexer_def)
  have one: "c_atoi ''1'' = 1"
    by (simp add: c_atoi_def is_space_def in_range_def digits_val_def digit_val_def is_digit_def)
  have mem: "le_word (load_bytes (\<lambda>_. 0) n 4) = 0" for n
    by (simp add: load_bytes_def numeral_eq_Suc)
  show ?thesis
    using cmd_x_dumps [where n = "''1''" and e = "''0x80000000 ''" and g = rv_guest and s = initial_sdb
      and a = "0x80000000" and l = l] l one mem
    by (intro exI [of _ l]) (simp add: in_pmem_iff)
qed

text \<open>
  What stops the debugger for good: an expression of 32 or more characters given to \<open>w\<close> writes
  past the watchpoint's buffer, one that does not lex fails the assertion, and so does a 33rd
  watchpoint.
\<close>

theorem cmd_w_fails:
  assumes "pool_state (wps s) us bs"
  shows "(bs = [] \<longrightarrow> cmd_w g (Some a) s = Some (Inl AssertFail))
    \<and> (bs \<noteq> [] \<and> 32 \<le> length a \<longrightarrow> cmd_w g (Some a) s = Some (Inl OutOfBounds))
    \<and> (bs \<noteq> [] \<and> length a < 32 \<and> (\<forall>t. \<exists>l. expr (\<lambda>nm. isa_reg_str2val g nm t) t a (lex t) = Some (Inr ((0, False), l)))
        \<longrightarrow> cmd_w g (Some a) s = Some (Inl AssertFail))"
proof (cases bs)
  case Nil
  with new_wp_none assms show ?thesis by (simp add: cmd_w_def)
next
  case (Cons b bs')
  with new_wp_state assms obtain p where p: "new_wp (wps s) = (Some b, p)" by blast
  let ?t = "s\<lparr>wps := p\<lparr>wp_pool := (wp_pool p)(b := (wp_pool p b)\<lparr>wp_str := a\<rparr>)\<rparr>\<rparr>"
  have "cmd_w g (Some a) s = Some (Inl AssertFail)"
    if "length a < 32" and "\<forall>t. \<exists>l. expr (\<lambda>nm. isa_reg_str2val g nm t) t a (lex t) = Some (Inr ((0, False), l))"
  proof -
    from that(2) obtain l where "expr (\<lambda>nm. isa_reg_str2val g nm ?t) ?t a (lex ?t) = Some (Inr ((0, False), l))"
      by blast
    with p that(1) show ?thesis by (simp add: cmd_w_def WP_STR_def Let_def)
  qed
  with Cons p show ?thesis by (auto simp: cmd_w_def WP_STR_def)
qed

theorem cmd_w_fails_witness:
  "cmd_w rv_guest (Some (replicate 32 (CHR ''1''))) (init_sdb initial_sdb) = Some (Inl OutOfBounds)"
  using cmd_w_fails [of "init_sdb initial_sdb" "[]" "[0..<NR_WP]" rv_guest "replicate 32 (CHR ''1'')"] init_state
  by (simp add: init_sdb_def NR_WP_def)


end
