(* ===== verification/NemuMain.thy ===== *)
theory NemuMain
  imports Sdb RiscvRun
begin

text \<open>
  The emulator as a program: \<open>main\<close> of \<open>src/nemu-main.c\<close> from start-up to its exit status, for the
  RISC-V guest and the built-in image.
\<close>

section \<open>Start-up\<close>

text \<open>\<open>init_monitor\<close> without devices, log file and image file.\<close>

lemma init_monitor_builtin:
  assumes "parse_args opts (initial_monitor, s) = Some (m, s1)" and "log_file m = None" and "img_file m = None"
    and "\<not> conf_device s1"
  shows "\<exists>t. init_monitor rv_guest rnd dev_init writable files opts initial_monitor s = Inr (Some t)
    \<and> rv_init_isa (init_sdb (init_mem (rnd (fst (get_time_internal s1))) (snd (get_time_internal s1)))) = Inr t"
proof -
  obtain seed s2 where t: "get_time_internal s1 = (seed, s2)" by fastforce
  then have "\<not> conf_device (init_mem (rnd seed) s2)"
    using assms(4) by (auto simp: get_time_internal_def init_mem_def)
  with assms t show ?thesis
    by (simp add: init_monitor_def Let_def rv_guest_def rv_init_isa_ok load_img_def init_sdb_def init_mem_def
        assert_then_def rv_restart_def)
qed

lemma init_sdb_head [simp]: "head (wps (init_sdb s)) = None"
  by (simp add: init_sdb_def init_wp_pool_def)

lemma unat_minus_one_u64: "unat (- 1 :: u64) = 2 ^ 64 - 1"
  by (simp add: unsigned_minus_1_eq_mask mask_eq_exp_minus_1)

section \<open>Properties\<close>

text \<open>
  C14: run in batch mode without an image file and without devices, the emulator terminates with a
  good exit status: it starts, executes the built-in image to its trap and reports a good trap,
  whatever the random fill of memory, the clock and the port option are, provided \<open>a0\<close> starts as 0.
\<close>

theorem nemu_main_builtin:
  assumes "\<not> conf_device s" and "\<not> ended (run_state (nemu_state s))" and "gpr (cpu s) 10 = 0"
  shows "nemu_main rv_guest rnd dev_init writable files [Opt (CHR ''b'') [], Opt (CHR ''p'') port] d lines s
    = Some (Inr (False, []))"
proof -
  let ?s1 = "sdb_set_batch_mode s"
  let ?m = "initial_monitor\<lparr>difftest_port := scan_dec port (difftest_port initial_monitor)\<rparr>"
  let ?opts = "[Opt (CHR ''b'') [], Opt (CHR ''p'') port]"
  have "parse_args ?opts (initial_monitor, s) = Some (?m, ?s1)" by simp
  from init_monitor_builtin [OF this, of rnd dev_init writable files] assms(1)
  obtain t where t: "init_monitor rv_guest rnd dev_init writable files ?opts initial_monitor s = Inr (Some t)"
    and init: "rv_init_isa (init_sdb (init_mem (rnd (fst (get_time_internal ?s1))) (snd (get_time_internal ?s1)))) = Inr t"
    by (auto simp: initial_monitor_def sdb_set_batch_mode_def)
  let ?i = "init_sdb (init_mem (rnd (fst (get_time_internal ?s1))) (snd (get_time_internal ?s1)))"
  have i: "nemu_state ?i = nemu_state s" "conf_device ?i = conf_device s" "cpu ?i = cpu s" "is_batch_mode ?i"
    by (simp_all add: init_sdb_def init_mem_def get_time_internal_def sdb_set_batch_mode_def)
  have batch: "is_batch_mode t"
    using init i(4) by (auto simp: rv_init_isa_ok rv_restart_def)
  obtain s' where s': "cpu_exec rv_guest (- 1) d t = Some (Inr s')"
      "nemu_state s' = \<lparr>run_state = NEMU_END, halt_pc = 0x80000020, halt_ret = gpr (cpu ?i) 10\<rparr>"
    using image_cpu_exec [OF init, of "- 1" d] assms i by (auto simp: unat_minus_one_u64)
  then have "\<not> is_exit_status_bad s'" using assms(3) i by (simp add: is_exit_status_bad_def)
  with t s' batch show ?thesis
    by (simp add: nemu_main_def engine_start_def sdb_mainloop_def cmd_c_def)
qed

theorem nemu_main_builtin_witness:
  "nemu_main rv_guest (\<lambda>_. 7) Inr (\<lambda>_. True) (\<lambda>_. None) [Opt (CHR ''b'') [], Opt (CHR ''p'') ''1234''] fresh_decode []
     initial_sdb = Some (Inr (False, []))"
  by (rule nemu_main_builtin) (simp_all add: ended_def)

end
