(* ===== verification/Mips32.thy ===== *)
theory Mips32
  imports GuestRun
begin

text \<open>
  The MIPS32 guest, \<open>src/isa/mips32/\<close>: decoder and executor of \<open>inst.c\<close>, the register file's
  names and stubs of \<open>reg.c\<close>, the built-in image and reset of \<open>init.c\<close>, and the interrupt, MMU
  and difftest stubs. Its CPU state is that of RISC-V but for padding.
\<close>

section \<open>\<open>inst.c\<close>\<close>

datatype mips_type = M_TYPE_I | M_TYPE_U | M_TYPE_N
datatype mips_inst = M_lui | M_lw | M_sw | M_sdbbp | M_inv

definition mips_immI :: "u64 \<Rightarrow> u32" where
  "mips_immI i = to_word (SEXT (BITS i 15 0) 16)"

definition mips_immU :: "u64 \<Rightarrow> u32" where
  "mips_immU i = to_word (BITS i 15 0)"

definition mips_decode_operand ::
  "u32 \<Rightarrow> mips_type \<Rightarrow> 'a nemu_scheme \<Rightarrow> (nat \<times> u32 \<times> u32 \<times> u32) res" where
  "mips_decode_operand inst ty s =
     (let i = ucast inst;
          rt = unat (BITS i 20 16);
          rs = unat (BITS i 25 21);
          rd = (if ty = M_TYPE_U \<or> ty = M_TYPE_I then rt else unat (BITS i 15 11)) in
      case ty of
        M_TYPE_I \<Rightarrow> bind_res (gpr_get rs s) (\<lambda>a. Inr (rd, a, 0, mips_immI i))
      | M_TYPE_U \<Rightarrow> bind_res (gpr_get rs s) (\<lambda>a. Inr (rd, a, 0, mips_immU i))
      | M_TYPE_N \<Rightarrow> Inr (rd, 0, 0, 0))"

definition mips_instpats :: "(string \<times> mips_inst \<times> mips_type) list" where
  "mips_instpats =
    [(''001111 ????? ????? ????? ????? ??????'', M_lui, M_TYPE_U),
     (''100011 ????? ????? ????? ????? ??????'', M_lw, M_TYPE_I),
     (''101011 ????? ????? ????? ????? ??????'', M_sw, M_TYPE_I),
     (''011100 ????? ????? ????? ????? 111111'', M_sdbbp, M_TYPE_N),
     (''?????? ????? ????? ????? ????? ??????'', M_inv, M_TYPE_N)]"

fun mips_execute ::
  "mips_inst \<Rightarrow> Decode \<Rightarrow> nat \<Rightarrow> u32 \<Rightarrow> u32 \<Rightarrow> u32 \<Rightarrow> 'a nemu_scheme \<Rightarrow> (Decode \<times> 'a nemu_scheme) res" where
  "mips_execute M_lui d rd src1 src2 imm s = assign_reg d rd (push_bit 16 imm) s"
| "mips_execute M_lw d rd src1 src2 imm s = load_reg d rd (src1 + imm) 4 (\<lambda>v. v) s"
| "mips_execute M_sw d rd src1 src2 imm s =
     bind_res (gpr_get rd s) (\<lambda>v. store_mem d (src1 + imm) 4 v s)"
| "mips_execute M_sdbbp d rd src1 src2 imm s =
     bind_res (gpr_get 2 s) (\<lambda>v0. Inr (d, NEMUTRAP (d_pc d) v0 s))"
| "mips_execute M_inv d rd src1 src2 imm s =
     bind_res (invalid_inst (d_pc d) s) (\<lambda>s1. Inr (d, s1))"

definition mips_instpat_match ::
  "Decode \<Rightarrow> mips_inst \<Rightarrow> mips_type \<Rightarrow> 'a nemu_scheme \<Rightarrow> (Decode \<times> 'a nemu_scheme) res" where
  "mips_instpat_match d nm ty s =
     bind_res (mips_decode_operand (isa_inst d) ty s) (\<lambda>(rd, src1, src2, imm).
       mips_execute nm d rd src1 src2 imm s)"

definition mips_decode_exec :: "Decode \<Rightarrow> 'a nemu_scheme \<Rightarrow> (Decode \<times> 'a nemu_scheme) res" where
  "mips_decode_exec d s =
     (let d0 = d\<lparr>dnpc := snpc d\<rparr> in
      bind_res (instpat_find mips_instpats (ucast (isa_inst d0))) (\<lambda>hit.
      bind_res (case hit of None \<Rightarrow> Inr (d0, s) | Some (nm, ty) \<Rightarrow> mips_instpat_match d0 nm ty s)
        (\<lambda>(d1, s1).
      bind_res (gpr_set 0 0 s1) (\<lambda>s2. Inr (d1, s2)))))"

definition mips_isa_exec_once :: "Decode \<Rightarrow> 'a nemu_scheme \<Rightarrow> (Decode \<times> 'a nemu_scheme) res" where
  "mips_isa_exec_once d s =
     bind_res (inst_fetch (snpc d) 4 s) (\<lambda>(i, p, s1).
       mips_decode_exec (d\<lparr>isa_inst := i, snpc := p\<rparr>) s1)"

section \<open>\<open>reg.c\<close>, \<open>init.c\<close> and the stubs\<close>

definition mips_regs :: "string list" where
  "mips_regs =
    [''$0'', ''at'', ''v0'', ''v1'', ''a0'', ''a1'', ''a2'', ''a3'',
     ''t0'', ''t1'', ''t2'', ''t3'', ''t4'', ''t5'', ''t6'', ''t7'',
     ''s0'', ''s1'', ''s2'', ''s3'', ''s4'', ''s5'', ''s6'', ''s7'',
     ''t8'', ''t9'', ''k0'', ''k1'', ''gp'', ''sp'', ''s8'', ''ra'']"

definition mips_isa_reg_display :: "'a nemu_scheme \<Rightarrow> reg_row list" where
  "mips_isa_reg_display s = []"

text \<open>\<open>isa_reg_str2val\<close> leaves \<open>*success\<close> unset; with the result 0 its caller gets 0 either way.\<close>

definition mips_isa_reg_str2val :: "string \<Rightarrow> 'a nemu_scheme \<Rightarrow> u32 \<times> bool" where
  "mips_isa_reg_str2val str s = (0, False)"

definition mips_img :: "u32 list" where
  "mips_img = [0x3c048000, 0xac800000, 0x8c820000, 0x7000003f]"

definition mips_restart :: "'a nemu_scheme \<Rightarrow> 'a nemu_scheme" where
  "mips_restart s = s\<lparr>cpu := \<lparr>gpr = (gpr (cpu s))(0 := 0), pc = RESET_VECTOR\<rparr>\<rparr>"

definition mips_init_isa :: "'a nemu_scheme \<Rightarrow> 'a nemu_scheme res" where
  "mips_init_isa s =
     bind_res (pmem_copy RESET_VECTOR (concat (map (le_bytes 4) mips_img)) s) (\<lambda>s1.
       Inr (mips_restart s1))"

definition mips_isa_raise_intr :: "u32 \<Rightarrow> u32 \<Rightarrow> u32" where
  "mips_isa_raise_intr no epc = 0"

definition mips_isa_query_intr :: u32 where
  "mips_isa_query_intr = INTR_EMPTY"

definition mips_isa_mmu_translate :: "u32 \<Rightarrow> nat \<Rightarrow> nat \<Rightarrow> u32" where
  "mips_isa_mmu_translate vaddr len ty = MEM_RET_FAIL"

definition mips_isa_difftest_checkregs :: "CPU \<Rightarrow> u32 \<Rightarrow> 'a nemu_scheme \<Rightarrow> bool" where
  "mips_isa_difftest_checkregs ref_r p s = False"

definition mips_guest :: guest where
  "mips_guest = \<lparr>init_isa = mips_init_isa, isa_exec_once = mips_isa_exec_once,
     isa_reg_str2val = mips_isa_reg_str2val, isa_reg_display = mips_isa_reg_display\<rparr>"

section \<open>What an instruction keeps\<close>

lemma mips_execute_keeps: "mips_execute nm d rd a b imm s = Inr (d', s') \<Longrightarrow> isa_keeps s s'"
  by (cases nm) (auto simp: res_simps dest: isa_keeps_step split: if_splits)

lemma mips_decode_exec_keeps:
  assumes "mips_decode_exec d s = Inr (d', s')"
  shows "isa_keeps s s'"
proof -
  from assms obtain hit d1 s1 where
    body: "(case hit of None \<Rightarrow> Inr (d\<lparr>dnpc := snpc d\<rparr>, s)
       | Some (nm, ty) \<Rightarrow> mips_instpat_match (d\<lparr>dnpc := snpc d\<rparr>) nm ty s) = Inr (d1, s1)"
    and last: "gpr_set 0 0 s1 = Inr s'"
    by (auto simp: mips_decode_exec_def Let_def elim!: bind_resE)
  have "isa_keeps s s1"
    using body by (auto simp: mips_instpat_match_def elim!: bind_resE dest: mips_execute_keeps split: option.splits)
  from isa_keeps_trans [OF this isa_keeps_gpr_set [OF last]] show ?thesis .
qed

interpretation mips: guest_isa mips_guest
  by (rule guest_isaI) (auto simp: mips_guest_def mips_isa_exec_once_def elim!: bind_resE
      dest!: mips_decode_exec_keeps isa_keeps_fetch intro: isa_keeps_trans)

section \<open>The decoder by opcode\<close>

text \<open>
  The five instructions by major opcode, with the architecture's fields: the reference for the
  pattern table. Writes to register 0 are lost.
\<close>

definition wr_reg :: "nat \<Rightarrow> u32 \<Rightarrow> 'a nemu_scheme \<Rightarrow> 'a nemu_scheme" where
  "wr_reg r v s = s\<lparr>cpu := (cpu s)\<lparr>gpr := (gpr (cpu s))(r := v, 0 := 0)\<rparr>\<rparr>"

definition mips_step :: "u32 \<Rightarrow> Decode \<Rightarrow> 'a nemu_scheme \<Rightarrow> 'a nemu_scheme res" where
  "mips_step i d s =
     (let op = drop_bit 26 i; rs = unat (take_bit 5 (drop_bit 21 i)); rt = unat (take_bit 5 (drop_bit 16 i));
          addr = gpr (cpu s) rs + signed_take_bit 15 i in
      if op = 0x0f then Inr (wr_reg rt (push_bit 16 i) s)
      else if op = 0x23 then bind_res (vaddr_read addr 4 s) (\<lambda>(v, s1). Inr (wr_reg rt v s1))
      else if op = 0x2b then vaddr_write addr 4 (gpr (cpu s) rt) s
      else if op = 0x1c \<and> take_bit 6 i = 0x3f then Inr (NEMUTRAP (d_pc d) (gpr (cpu s) 2) s)
      else invalid_inst (d_pc d) s)"

lemma mips_pattern_tests:
  "INSTPAT ''001111 ????? ????? ????? ????? ??????'' inst = Inr (drop_bit 26 inst AND 0x3f = 0x0f)"
  "INSTPAT ''100011 ????? ????? ????? ????? ??????'' inst = Inr (drop_bit 26 inst AND 0x3f = 0x23)"
  "INSTPAT ''101011 ????? ????? ????? ????? ??????'' inst = Inr (drop_bit 26 inst AND 0x3f = 0x2b)"
  "INSTPAT ''011100 ????? ????? ????? ????? 111111'' inst = Inr (inst AND 0xfc00003f = 0x7000003f)"
  "INSTPAT ''?????? ????? ????? ????? ????? ??????'' inst = Inr True"
  by (simp_all add: INSTPAT_def pattern_decode_def)

lemma opcode_test: "drop_bit 26 (ucast (i::u32)::u64) AND 0x3f = ucast (drop_bit 26 i)"
proof -
  have m: "(0x3f::u64) = mask 6" by (simp add: mask_eq_exp_minus_1)
  show ?thesis unfolding m by (rule bit_word_eqI) (auto simp: bit_simps dest: bit26)
qed

lemma sdbbp_test: "(i::u32) AND 0xfc00003f = 0x7000003f \<longleftrightarrow> drop_bit 26 i = 0x1c \<and> take_bit 6 i = 0x3f"
proof -
  have m: "(0xfc00003f::u32) = push_bit 26 (mask 6) OR mask 6" by (simp add: mask_eq_exp_minus_1)
  have e: "i AND 0xfc00003f = push_bit 26 (drop_bit 26 i) OR take_bit 6 i"
    unfolding m by (rule bit_word_eqI) (auto simp: bit_simps)
  have d: "drop_bit 26 (push_bit 26 (drop_bit 26 i) OR take_bit 6 i) = drop_bit 26 i"
    by (rule bit_word_eqI) (auto simp: bit_simps dest: bit26)
  have t: "take_bit 6 (push_bit 26 (drop_bit 26 i) OR take_bit 6 i) = take_bit 6 i"
    by (rule bit_word_eqI) (auto simp: bit_simps)
  show ?thesis unfolding e
  proof
    assume h: "push_bit 26 (drop_bit 26 i) OR take_bit 6 i = 0x7000003f"
    show "drop_bit 26 i = 0x1c \<and> take_bit 6 i = 0x3f"
      using d t unfolding h by simp
  qed simp
qed

lemma mips_find:
  "instpat_find mips_instpats (ucast (i::u32)) = Inr (Some (
     if drop_bit 26 i = 0x0f then (M_lui, M_TYPE_U) else if drop_bit 26 i = 0x23 then (M_lw, M_TYPE_I)
     else if drop_bit 26 i = 0x2b then (M_sw, M_TYPE_I)
     else if drop_bit 26 i = 0x1c \<and> take_bit 6 i = 0x3f then (M_sdbbp, M_TYPE_N) else (M_inv, M_TYPE_N)))"
proof -
  have "(ucast (drop_bit 26 i) :: u64) = 0x0f \<longleftrightarrow> drop_bit 26 i = 0x0f"
    "(ucast (drop_bit 26 i) :: u64) = 0x23 \<longleftrightarrow> drop_bit 26 i = 0x23"
    "(ucast (drop_bit 26 i) :: u64) = 0x2b \<longleftrightarrow> drop_bit 26 i = 0x2b"
    using ucast_up_eq [of "drop_bit 26 i" "0x0f"] ucast_up_eq [of "drop_bit 26 i" "0x23"]
      ucast_up_eq [of "drop_bit 26 i" "0x2b"] by simp_all
  moreover have "(ucast i :: u64) AND 0xfc00003f = 0x7000003f \<longleftrightarrow> drop_bit 26 i = 0x1c \<and> take_bit 6 i = 0x3f"
    using and_ucast [of i "0xfc00003f"] ucast_up_eq [of "i AND 0xfc00003f" "0x7000003f"] sdbbp_test [of i] by simp
  ultimately show ?thesis
    by (simp add: mips_instpats_def mips_pattern_tests opcode_test)
qed

lemma imm16: "mips_immI (ucast (i::u32)) = signed_take_bit 15 i"
  by (rule bit_word_eqI) (auto simp: mips_immI_def to_word_def bit_simps min.commute)

lemma lui_imm: "push_bit 16 (mips_immU (ucast (i::u32))) = push_bit 16 i"
  by (rule bit_word_eqI) (auto simp: mips_immU_def to_word_def bit_simps)

lemma zero_kept: "gpr (cpu s) 0 = 0 \<Longrightarrow> s\<lparr>cpu := (cpu s)\<lparr>gpr := (gpr (cpu s))(0 := 0)\<rparr>\<rparr> = s"
  by (simp add: fun_upd_idem)

lemma mips_exec_by_opcode:
  assumes zero: "gpr (cpu s) 0 = 0"
  shows "mips_decode_exec d s = bind_res (mips_step (isa_inst d) d s) (\<lambda>s1. Inr (d\<lparr>dnpc := snpc d\<rparr>, s1))"
proof -
  let ?i = "isa_inst d"
  have rs: "unat (BITS (ucast ?i) 25 21) = unat (take_bit 5 (drop_bit 21 ?i))"
    and rt: "unat (BITS (ucast ?i) 20 16) = unat (take_bit 5 (drop_bit 16 ?i))"
    using reg_field [of 21 ?i] reg_field [of 16 ?i] by simp_all
  have rd: "unat (BITS (ucast ?i) 15 11) < 32" using reg_field [of 11 ?i] by simp
  have zw: "vaddr_write a n v s = Inr s1 \<Longrightarrow> gpr (cpu s1) 0 = 0" for a n v s1
    using vaddr_write_cpu zero by metis
  have zi: "invalid_inst p s = Inr s1 \<Longrightarrow> gpr (cpu s1) 0 = 0" for p s1
    using invalid_inst_cpu zero by metis
  note defs = mips_decode_exec_def mips_step_def mips_find mips_instpat_match_def mips_decode_operand_def Let_def
    rs rt rd imm16 lui_imm
  consider "drop_bit 26 ?i = 0x0f" | "drop_bit 26 ?i = 0x23" | "drop_bit 26 ?i = 0x2b"
    | "drop_bit 26 ?i = 0x1c" "take_bit 6 ?i = 0x3f"
    | "drop_bit 26 ?i \<noteq> 0x0f" "drop_bit 26 ?i \<noteq> 0x23" "drop_bit 26 ?i \<noteq> 0x2b"
      "\<not> (drop_bit 26 ?i = 0x1c \<and> take_bit 6 ?i = 0x3f)" by blast
  then show ?thesis
  proof cases
    case 1
    then show ?thesis by (simp add: defs wr_reg_def)
  next
    case 2
    then show ?thesis
      by (cases "vaddr_read (gpr (cpu s) (unat (take_bit 5 (drop_bit 21 ?i))) + signed_take_bit 15 ?i) 4 s")
        (simp_all add: defs wr_reg_def load_reg_def split_beta)
  next
    case 3
    show ?thesis
    proof (cases "vaddr_write (gpr (cpu s) (unat (take_bit 5 (drop_bit 21 ?i))) + signed_take_bit 15 ?i) 4
            (gpr (cpu s) (unat (take_bit 5 (drop_bit 16 ?i)))) s")
      case (Inr s1)
      with 3 zero_kept [OF zw [OF Inr]] show ?thesis by (simp add: defs store_mem_def)
    qed (simp add: defs store_mem_def 3)
  next
    case 4
    then have find: "instpat_find mips_instpats (ucast ?i) = Inr (Some (M_sdbbp, M_TYPE_N))"
      and step: "mips_step ?i d s = Inr (NEMUTRAP (d_pc d) (gpr (cpu s) 2) s)"
      by (simp_all add: mips_find mips_step_def Let_def)
    have "gpr_set 0 0 (NEMUTRAP (d_pc d) (gpr (cpu s) 2) s) = Inr (NEMUTRAP (d_pc d) (gpr (cpu s) 2) s)"
      using zero zero_kept [of "NEMUTRAP (d_pc d) (gpr (cpu s) 2) s"] by (simp only: gpr_set_ok cpu_NEMUTRAP)
    then show ?thesis
      by (simp add: mips_decode_exec_def find step mips_instpat_match_def mips_decode_operand_def Let_def
          del: gpr_set_ok) 
  next
    case 5
    then have find: "instpat_find mips_instpats (ucast ?i) = Inr (Some (M_inv, M_TYPE_N))"
      and step: "mips_step ?i d s = invalid_inst (d_pc d) s" by (auto simp: mips_find mips_step_def Let_def)
    show ?thesis
    proof (cases "invalid_inst (d_pc d) s")
      case (Inr s1)
      with zero_kept [OF zi [OF Inr]] show ?thesis
        by (simp add: mips_decode_exec_def find step mips_instpat_match_def mips_decode_operand_def Let_def)
    qed (simp add: mips_decode_exec_def find step mips_instpat_match_def mips_decode_operand_def Let_def)
  qed
qed

text \<open>The step of \<open>exec_once\<close> on a word of memory.\<close>

definition mips_word_step :: "u32 \<Rightarrow> u32 \<Rightarrow> sdb \<Rightarrow> sdb res" where
  "mips_word_step w p s = mips_step w \<lparr>d_pc = p, snpc = p + 4, dnpc = p + 4, isa_inst = w\<rparr> s"

lemma mips_step_decode: "d_pc d = d_pc d' \<Longrightarrow> mips_step i d s = mips_step i d' s"
  by (simp only: mips_step_def)

lemma lui_value: "(65990025019392 :: u32) = 0x80000000"
  by simp

interpretation mips: word_guest mips_guest mips_word_step
proof unfold_locales
  fix s p w s1 and d :: Decode
  assume w: "mem_word s p w" and z: "gpr (cpu s) 0 = 0" and st: "mips_word_step w p s = Inr s1"
  let ?d = "d\<lparr>d_pc := p, isa_inst := w, snpc := p + 4\<rparr>"
  have "mips_step w ?d s = Inr s1"
    using st mips_step_decode [of ?d "\<lparr>d_pc = p, snpc = p + 4, dnpc = p + 4, isa_inst = w\<rparr>" w s]
    by (simp add: mips_word_step_def)
  with mips_exec_by_opcode [OF z, of ?d]
  have "mips_decode_exec ?d s = Inr (?d\<lparr>dnpc := p + 4\<rparr>, s1)" by simp
  with w show "\<exists>d'. exec_once mips_guest d p s = Inr (d', s1\<lparr>cpu := (cpu s1)\<lparr>pc := p + 4\<rparr>\<rparr>)"
    by (simp add: exec_once_def mips_guest_def mips_isa_exec_once_def mem_word_def fetch_pmem)
qed

section \<open>The built-in image\<close>

lemma mips_image_execute:
  assumes r: "r 0 = 0" and s: "head (wps s) = None" "\<not> conf_device s" "run_state (nemu_state s) = NEMU_RUNNING"
  shows "\<exists>d' s'. execute mips_guest (Suc (Suc (Suc (Suc n)))) d
        (machine s (store_bytes m 0 (concat (map (le_bytes 4) mips_img))) r 0x80000000 k) = Some (Inr (d', s'))
     \<and> nemu_state s' = \<lparr>run_state = NEMU_END, halt_pc = 0x8000000c, halt_ret = 0\<rparr> \<and> g_nr_guest_inst s' = k + 4"
proof -
  let ?m = "store_bytes m 0 (concat (map (le_bytes 4) mips_img))"
  let ?m1 = "store_bytes ?m 0 (le_bytes 4 0)"
  let ?r1 = "r(4 := 0x80000000)"
  let ?r2 = "?r1(2 := 0)"
  have words: "mem_word (machine s ?m q p j) 0x80000000 0x3c048000" "mem_word (machine s ?m q p j) 0x80000004 0xac800000"
    "mem_word (machine s ?m q p j) 0x80000008 0x8c820000" "mem_word (machine s ?m q p j) 0x8000000c 0x7000003f" for q p j
    using image_mem_word [of 0 mips_img s m q p j] image_mem_word [of 1 mips_img s m q p j]
      image_mem_word [of 2 mips_img s m q p j] image_mem_word [of 3 mips_img s m q p j]
    by (simp_all add: mips_img_def)
  have h: "guest_to_host 0x80000000 = 0" "guest_to_host 0x80000008 = 8" "guest_to_host 0x8000000c = 12"
    "in_pmem 0x80000000" by (simp_all add: guest_to_host_in_pmem in_pmem_iff)
  have words1: "mem_word (machine s ?m1 q p j) 0x80000008 0x8c820000" "mem_word (machine s ?m1 q p j) 0x8000000c 0x7000003f"
    "mem_word (machine s ?m1 q p j) 0x80000000 0" for q p j
    using words(3,4) [THEN mem_word_store, of 0] h by (simp_all add: mem_word_def CONFIG_MSIZE_def)
  note ev = mips_word_step_def mips_step_def Let_def wr_reg_def
  have step1: "mips_word_step 0x3c048000 0x80000000 (machine s ?m r 0x80000000 k) = Inr (machine s ?m ?r1 0x80000000 k)"
    using r by (simp add: ev fun_upd_idem fun_upd_twist lui_value)
  have step2: "mips_word_step 0xac800000 0x80000004 (machine s ?m ?r1 0x80000004 (k + 1))
      = Inr (machine s ?m1 ?r1 0x80000004 (k + 1))"
    using r by (simp add: ev vaddr_write_machine h CONFIG_MSIZE_def)
  have step3: "mips_word_step 0x8c820000 0x80000008 (machine s ?m1 ?r1 0x80000008 (k + 1 + 1))
      = Inr (machine s ?m1 ?r2 0x80000008 (k + 1 + 1))"
    using r vaddr_read_machine [OF words1(3)] by (simp add: ev fun_upd_idem fun_upd_twist)
  have step4: "mips_word_step 0x7000003f 0x8000000c (machine s ?m1 ?r2 0x8000000c (k + 1 + 1 + 1))
      = Inr (NEMUTRAP 0x8000000c 0 (machine s ?m1 ?r2 0x8000000c (k + 1 + 1 + 1)))"
    by (simp add: ev)
  from mips.machine_step [OF words(1) r step1 s] obtain d1 where e1: "execute mips_guest (Suc (Suc (Suc (Suc n)))) d
      (machine s ?m r 0x80000000 k) = execute mips_guest (Suc (Suc (Suc n))) d1 (machine s ?m ?r1 0x80000004 (k + 1))"
    by (auto simp del: execute.simps)
  from mips.machine_step [OF words(2) _ step2 s] r obtain d2 where e2: "execute mips_guest (Suc (Suc (Suc n))) d1
      (machine s ?m ?r1 0x80000004 (k + 1)) = execute mips_guest (Suc (Suc n)) d2 (machine s ?m1 ?r1 0x80000008 (k + 1 + 1))"
    by (fastforce simp del: execute.simps)
  from mips.machine_step [OF words1(1) _ step3 s] r obtain d3 where e3: "execute mips_guest (Suc (Suc n)) d2
      (machine s ?m1 ?r1 0x80000008 (k + 1 + 1)) = execute mips_guest (Suc n) d3 (machine s ?m1 ?r2 0x8000000c (k + 1 + 1 + 1))"
    by (fastforce simp del: execute.simps)
  let ?e = "NEMUTRAP 0x8000000c 0 (machine s ?m1 ?r2 0x8000000c (k + 1 + 1 + 1))"
  have trap: "wps ?e = wps s" "conf_device ?e = conf_device s"
    "nemu_state ?e = \<lparr>run_state = NEMU_END, halt_pc = 0x8000000c, halt_ret = 0\<rparr>" "g_nr_guest_inst ?e = k + 3"
    by (simp_all add: NEMUTRAP_def set_nemu_state_def difftest_skip_ref_def machine_def)
  have "\<exists>d'. execute mips_guest (Suc n) d3 (machine s ?m1 ?r2 0x8000000c (k + 1 + 1 + 1)) = Some (Inr (d',
      ?e\<lparr>cpu := (cpu ?e)\<lparr>pc := 0x80000010\<rparr>, g_nr_guest_inst := g_nr_guest_inst ?e + 1\<rparr>))"
    using mips.run_step [OF _ words1(2) _ step4, of n d3] r s trap by (auto simp: Let_def simp del: execute.simps)
  with e1 e2 e3 trap show ?thesis by (auto simp del: execute.simps)
qed

section \<open>Properties\<close>

text \<open>
  C17: MIPS32 decoding: on a machine whose register 0 is 0, the pattern table executes exactly the
  instruction its major opcode names - \<open>lui\<close>, \<open>lw\<close>, \<open>sw\<close> with a sign-extended offset, \<open>sdbbp\<close> as
  the trap - with the architecture's fields, loses writes to register 0, moves on by one
  instruction, and aborts on every other word.
\<close>

theorem mips_decode_by_opcode:
  assumes "gpr (cpu s) 0 = 0"
  shows "mips_decode_exec d s = bind_res (mips_step (isa_inst d) d s) (\<lambda>s1. Inr (d\<lparr>dnpc := snpc d\<rparr>, s1))"
  by (rule mips_exec_by_opcode [OF assms])

theorem mips_decode_by_opcode_witness:
  "mips_decode_exec (fresh_decode\<lparr>isa_inst := 0x3c048000\<rparr>) initial_sdb
     = Inr (fresh_decode\<lparr>isa_inst := 0x3c048000\<rparr>, wr_reg 4 0x80000000 initial_sdb)"
  using mips_decode_by_opcode [of initial_sdb "fresh_decode\<lparr>isa_inst := 0x3c048000\<rparr>"]
  by (simp add: mips_step_def Let_def fresh_decode_def lui_value)

text \<open>
  The MIPS32 built-in image, loaded into any machine without watchpoints and devices, overwrites
  its own first instruction, reads the zero back and reaches a good trap in four instructions,
  whatever the registers held.
\<close>

theorem mips_image_ends:
  assumes "mips_init_isa s = Inr s1" and "\<not> ended (run_state (nemu_state s))"
    and "head (wps s) = None" and "\<not> conf_device s" and "4 \<le> unat n"
  shows "\<exists>s'. cpu_exec mips_guest n d s1 = Some (Inr s') \<and> \<not> is_exit_status_bad s'
    \<and> halt_pc (nemu_state s') = 0x8000000c \<and> g_nr_guest_inst s' = g_nr_guest_inst s + 4"
proof -
  from assms(1) have s1: "s1 = machine s (store_bytes (pmem s) 0 (concat (map (le_bytes 4) mips_img)))
      ((gpr (cpu s))(0 := 0)) 0x80000000 (g_nr_guest_inst s)"
    by (auto simp: mips_init_isa_def pmem_copy_def reset_vector mips_restart_def machine_def guest_to_host_in_pmem
        in_pmem_iff elim!: bind_resE split: if_splits)
  obtain k where k: "unat n = Suc (Suc (Suc (Suc k)))"
    using assms(5) le_Suc_ex [of 4 "unat n"] by (auto simp: eval_nat_numeral)
  have "\<exists>s'. cpu_exec mips_guest n d s1 = Some (Inr s')
    \<and> nemu_state s' = \<lparr>run_state = NEMU_END, halt_pc = 0x8000000c, halt_ret = 0\<rparr>
    \<and> g_nr_guest_inst s' = g_nr_guest_inst s + 4"
  proof (rule cpu_exec_ends)
    show "\<not> ended (run_state (nemu_state s1))" using assms(2) s1 by simp
    fix t0 s2
    assume "get_time (set_run_state NEMU_RUNNING (s1\<lparr>g_print_step := unat n < MAX_INST_TO_PRINT\<rparr>)) = (t0, s2)"
    note t = get_time_keeps [OF this]
    have s2: "s2 = machine s2 (store_bytes (pmem s) 0 (concat (map (le_bytes 4) mips_img)))
      ((gpr (cpu s))(0 := 0)) 0x80000000 (g_nr_guest_inst s)"
      using t machine_self [of s2] by (simp add: s1 set_run_state_def)
    show "\<exists>d' s3. execute mips_guest (unat n) d s2 = Some (Inr (d', s3))
      \<and> nemu_state s3 = \<lparr>run_state = NEMU_END, halt_pc = 0x8000000c, halt_ret = 0\<rparr>
      \<and> g_nr_guest_inst s3 = g_nr_guest_inst s + 4"
      unfolding k by (subst s2, rule mips_image_execute) (use t assms(3,4) s1 in \<open>simp_all add: set_run_state_def\<close>)
  qed simp
  then show ?thesis by (auto simp: is_exit_status_bad_def)
qed

theorem mips_image_ends_witness:
  "\<exists>s1 s'. mips_init_isa initial_sdb = Inr s1 \<and> cpu_exec mips_guest 4 fresh_decode s1 = Some (Inr s')
     \<and> \<not> is_exit_status_bad s'"
proof -
  obtain s1 where "mips_init_isa initial_sdb = Inr s1"
    by (auto simp: mips_init_isa_def pmem_copy_def reset_vector guest_to_host_in_pmem in_pmem_iff CONFIG_MSIZE_def
        mips_img_def)
  with mips_image_ends [OF this, of 4 fresh_decode] show ?thesis by (auto simp: ended_def initial_pool_def)
qed

end
