(* ===== verification/Loongarch32r.thy ===== *)
theory Loongarch32r
  imports GuestRun
begin

text \<open>
  The LoongArch32 guest, \<open>src/isa/loongarch32r/\<close>: decoder and executor of \<open>inst.c\<close>, register
  names, built-in image, reset and the stubs. The theory follows that of the MIPS32 guest.
\<close>

section \<open>\<open>inst.c\<close>\<close>

datatype la_type = L_TYPE_2RI12 | L_TYPE_1RI20 | L_TYPE_N
datatype la_inst = L_pcaddu12i | L_ld_w | L_st_w | L_break | L_inv

definition la_simm12 :: "u64 \<Rightarrow> u32" where
  "la_simm12 i = to_word (SEXT (BITS i 21 10) 12)"

definition la_simm20 :: "u64 \<Rightarrow> u32" where
  "la_simm20 i = to_word (push_bit 12 (SEXT (BITS i 24 5) 20))"

definition la_decode_operand ::
  "u32 \<Rightarrow> la_type \<Rightarrow> 'a nemu_scheme \<Rightarrow> (nat \<times> u32 \<times> u32 \<times> u32) res" where
  "la_decode_operand inst ty s =
     (let i = ucast inst;
          rj = unat (BITS i 9 5);
          rd = unat (BITS i 4 0) in
      case ty of
        L_TYPE_1RI20 \<Rightarrow> bind_res (gpr_get rj s) (\<lambda>a. Inr (rd, a, 0, la_simm20 i))
      | L_TYPE_2RI12 \<Rightarrow> bind_res (gpr_get rj s) (\<lambda>a. Inr (rd, a, 0, la_simm12 i))
      | L_TYPE_N \<Rightarrow> Inr (rd, 0, 0, 0))"

definition la_instpats :: "(string \<times> la_inst \<times> la_type) list" where
  "la_instpats =
    [(''0001110 ????? ????? ????? ????? ?????'', L_pcaddu12i, L_TYPE_1RI20),
     (''0010100010 ???????????? ????? ?????'', L_ld_w, L_TYPE_2RI12),
     (''0010100110 ???????????? ????? ?????'', L_st_w, L_TYPE_2RI12),
     (''0000 0000 0010 10100 ????? ????? ?????'', L_break, L_TYPE_N),
     (''????????????????? ????? ????? ?????'', L_inv, L_TYPE_N)]"

fun la_execute ::
  "la_inst \<Rightarrow> Decode \<Rightarrow> nat \<Rightarrow> u32 \<Rightarrow> u32 \<Rightarrow> u32 \<Rightarrow> 'a nemu_scheme \<Rightarrow> (Decode \<times> 'a nemu_scheme) res" where
  "la_execute L_pcaddu12i d rd src1 src2 imm s = assign_reg d rd (d_pc d + imm) s"
| "la_execute L_ld_w d rd src1 src2 imm s = load_reg d rd (src1 + imm) 4 (\<lambda>v. v) s"
| "la_execute L_st_w d rd src1 src2 imm s =
     bind_res (gpr_get rd s) (\<lambda>v. store_mem d (src1 + imm) 4 v s)"
| "la_execute L_break d rd src1 src2 imm s =
     bind_res (gpr_get 4 s) (\<lambda>a0. Inr (d, NEMUTRAP (d_pc d) a0 s))"
| "la_execute L_inv d rd src1 src2 imm s =
     bind_res (invalid_inst (d_pc d) s) (\<lambda>s1. Inr (d, s1))"

definition la_instpat_match ::
  "Decode \<Rightarrow> la_inst \<Rightarrow> la_type \<Rightarrow> 'a nemu_scheme \<Rightarrow> (Decode \<times> 'a nemu_scheme) res" where
  "la_instpat_match d nm ty s =
     bind_res (la_decode_operand (isa_inst d) ty s) (\<lambda>(rd, src1, src2, imm).
       la_execute nm d rd src1 src2 imm s)"

definition la_decode_exec :: "Decode \<Rightarrow> 'a nemu_scheme \<Rightarrow> (Decode \<times> 'a nemu_scheme) res" where
  "la_decode_exec d s =
     (let d0 = d\<lparr>dnpc := snpc d\<rparr> in
      bind_res (instpat_find la_instpats (ucast (isa_inst d0))) (\<lambda>hit.
      bind_res (case hit of None \<Rightarrow> Inr (d0, s) | Some (nm, ty) \<Rightarrow> la_instpat_match d0 nm ty s)
        (\<lambda>(d1, s1).
      bind_res (gpr_set 0 0 s1) (\<lambda>s2. Inr (d1, s2)))))"

definition la_isa_exec_once :: "Decode \<Rightarrow> 'a nemu_scheme \<Rightarrow> (Decode \<times> 'a nemu_scheme) res" where
  "la_isa_exec_once d s =
     bind_res (inst_fetch (snpc d) 4 s) (\<lambda>(i, p, s1).
       la_decode_exec (d\<lparr>isa_inst := i, snpc := p\<rparr>) s1)"

section \<open>\<open>reg.c\<close>, \<open>init.c\<close> and the stubs\<close>

definition la_regs :: "string list" where
  "la_regs =
    [''$0'', ''ra'', ''tp'', ''sp'', ''a0'', ''a1'', ''a2'', ''a3'',
     ''a4'', ''a5'', ''a6'', ''a7'', ''t0'', ''t1'', ''t2'', ''t3'',
     ''t4'', ''t5'', ''t6'', ''t7'', ''t8'', ''rs'', ''fp'', ''s0'',
     ''s1'', ''s2'', ''s3'', ''s4'', ''s5'', ''s6'', ''s7'', ''s8'']"

definition la_isa_reg_display :: "'a nemu_scheme \<Rightarrow> reg_row list" where
  "la_isa_reg_display s = []"

text \<open>\<open>isa_reg_str2val\<close> leaves \<open>*success\<close> unset; with the result 0 its caller gets 0 either way.\<close>

definition la_isa_reg_str2val :: "string \<Rightarrow> 'a nemu_scheme \<Rightarrow> u32 \<times> bool" where
  "la_isa_reg_str2val str s = (0, False)"

definition la_img :: "u32 list" where
  "la_img = [0x1c00000c, 0x29804180, 0x28804184, 0x002a0000, 0xdeadbeef]"

definition la_restart :: "'a nemu_scheme \<Rightarrow> 'a nemu_scheme" where
  "la_restart s = s\<lparr>cpu := \<lparr>gpr = (gpr (cpu s))(0 := 0), pc = RESET_VECTOR\<rparr>\<rparr>"

definition la_init_isa :: "'a nemu_scheme \<Rightarrow> 'a nemu_scheme res" where
  "la_init_isa s =
     bind_res (pmem_copy RESET_VECTOR (concat (map (le_bytes 4) la_img)) s) (\<lambda>s1.
       Inr (la_restart s1))"

definition la_isa_raise_intr :: "u32 \<Rightarrow> u32 \<Rightarrow> u32" where
  "la_isa_raise_intr no epc = 0"

definition la_isa_query_intr :: u32 where
  "la_isa_query_intr = INTR_EMPTY"

definition la_isa_mmu_translate :: "u32 \<Rightarrow> nat \<Rightarrow> nat \<Rightarrow> u32" where
  "la_isa_mmu_translate vaddr len ty = MEM_RET_FAIL"

definition la_isa_difftest_checkregs :: "CPU \<Rightarrow> u32 \<Rightarrow> 'a nemu_scheme \<Rightarrow> bool" where
  "la_isa_difftest_checkregs ref_r p s = False"

definition la_guest :: guest where
  "la_guest = \<lparr>init_isa = la_init_isa, isa_exec_once = la_isa_exec_once,
     isa_reg_str2val = la_isa_reg_str2val, isa_reg_display = la_isa_reg_display\<rparr>"

section \<open>What an instruction keeps\<close>

lemma la_execute_keeps: "la_execute nm d rd a b imm s = Inr (d', s') \<Longrightarrow> isa_keeps s s'"
  by (cases nm) (auto simp: res_simps dest: isa_keeps_step split: if_splits)

lemma la_decode_exec_keeps:
  assumes "la_decode_exec d s = Inr (d', s')"
  shows "isa_keeps s s'"
proof -
  from assms obtain hit d1 s1 where
    body: "(case hit of None \<Rightarrow> Inr (d\<lparr>dnpc := snpc d\<rparr>, s)
       | Some (nm, ty) \<Rightarrow> la_instpat_match (d\<lparr>dnpc := snpc d\<rparr>) nm ty s) = Inr (d1, s1)"
    and last: "gpr_set 0 0 s1 = Inr s'"
    by (auto simp: la_decode_exec_def Let_def elim!: bind_resE)
  have "isa_keeps s s1"
    using body by (auto simp: la_instpat_match_def elim!: bind_resE dest: la_execute_keeps split: option.splits)
  from isa_keeps_trans [OF this isa_keeps_gpr_set [OF last]] show ?thesis .
qed

interpretation la: guest_isa la_guest
  by (rule guest_isaI) (auto simp: la_guest_def la_isa_exec_once_def elim!: bind_resE
      dest!: la_decode_exec_keeps isa_keeps_fetch intro: isa_keeps_trans)

section \<open>The decoder by opcode\<close>

text \<open>The five instructions by their opcode fields, the reference for the pattern table.\<close>

definition la_write :: "nat \<Rightarrow> u32 \<Rightarrow> 'a nemu_scheme \<Rightarrow> 'a nemu_scheme" where
  "la_write r v s = s\<lparr>cpu := (cpu s)\<lparr>gpr := (gpr (cpu s))(r := v, 0 := 0)\<rparr>\<rparr>"

definition la_step :: "u32 \<Rightarrow> Decode \<Rightarrow> 'a nemu_scheme \<Rightarrow> 'a nemu_scheme res" where
  "la_step i d s =
     (let rj = unat (take_bit 5 (drop_bit 5 i)); rd = unat (take_bit 5 i);
          addr = gpr (cpu s) rj + signed_take_bit 11 (drop_bit 10 i) in
      if drop_bit 25 i = 0x0e then Inr (la_write rd (d_pc d + push_bit 12 (drop_bit 5 i)) s)
      else if drop_bit 22 i = 0xa2 then bind_res (vaddr_read addr 4 s) (\<lambda>(v, s1). Inr (la_write rd v s1))
      else if drop_bit 22 i = 0xa6 then vaddr_write addr 4 (gpr (cpu s) rd) s
      else if drop_bit 15 i = 0x54 then Inr (NEMUTRAP (d_pc d) (gpr (cpu s) 4) s)
      else invalid_inst (d_pc d) s)"

lemma la_pattern_tests:
  "INSTPAT ''0001110 ????? ????? ????? ????? ?????'' inst = Inr (drop_bit 25 inst AND 0x7f = 0x0e)"
  "INSTPAT ''0010100010 ???????????? ????? ?????'' inst = Inr (drop_bit 22 inst AND 0x3ff = 0xa2)"
  "INSTPAT ''0010100110 ???????????? ????? ?????'' inst = Inr (drop_bit 22 inst AND 0x3ff = 0xa6)"
  "INSTPAT ''0000 0000 0010 10100 ????? ????? ?????'' inst = Inr (drop_bit 15 inst AND 0x1ffff = 0x54)"
  "INSTPAT ''????????????????? ????? ????? ?????'' inst = Inr True"
  by (simp_all add: INSTPAT_def pattern_decode_def)

lemma top_field:
  assumes "n + k = 32"
  shows "drop_bit n (ucast (i::u32)::u64) AND mask k = ucast (drop_bit n i)"
proof (rule bit_word_eqI)
  fix j assume "j < LENGTH(64)"
  have "bit i (n + j) \<Longrightarrow> j < k" using assms by (auto dest: bit_imp_le_length)
  with \<open>j < LENGTH(64)\<close> show "bit (drop_bit n (ucast i::u64) AND mask k) j = bit (ucast (drop_bit n i) :: u64) j"
    using assms by (auto simp: bit_simps dest: bit_imp_le_length)
qed

lemma la_find:
  "instpat_find la_instpats (ucast (i::u32)) = Inr (Some (
     if drop_bit 25 i = 0x0e then (L_pcaddu12i, L_TYPE_1RI20) else if drop_bit 22 i = 0xa2 then (L_ld_w, L_TYPE_2RI12)
     else if drop_bit 22 i = 0xa6 then (L_st_w, L_TYPE_2RI12)
     else if drop_bit 15 i = 0x54 then (L_break, L_TYPE_N) else (L_inv, L_TYPE_N)))"
proof -
  have m: "(0x7f::u64) = mask 7" "(0x3ff::u64) = mask 10" "(0x1ffff::u64) = mask 17"
    by (simp_all add: mask_eq_exp_minus_1)
  have "(ucast (drop_bit 25 i) :: u64) = 0x0e \<longleftrightarrow> drop_bit 25 i = 0x0e"
    "(ucast (drop_bit 22 i) :: u64) = 0xa2 \<longleftrightarrow> drop_bit 22 i = 0xa2"
    "(ucast (drop_bit 22 i) :: u64) = 0xa6 \<longleftrightarrow> drop_bit 22 i = 0xa6"
    "(ucast (drop_bit 15 i) :: u64) = 0x54 \<longleftrightarrow> drop_bit 15 i = 0x54"
    using ucast_up_eq [of "drop_bit 25 i" "0x0e"] ucast_up_eq [of "drop_bit 22 i" "0xa2"]
      ucast_up_eq [of "drop_bit 22 i" "0xa6"] ucast_up_eq [of "drop_bit 15 i" "0x54"] by simp_all
  moreover have "drop_bit 25 (ucast i) AND 0x7f = (ucast (drop_bit 25 i) :: u64)"
    "drop_bit 22 (ucast i) AND 0x3ff = (ucast (drop_bit 22 i) :: u64)"
    "drop_bit 15 (ucast i) AND 0x1ffff = (ucast (drop_bit 15 i) :: u64)"
    unfolding m by (rule top_field, simp)+
  ultimately show ?thesis
    by (simp add: la_instpats_def la_pattern_tests)
qed

lemma la_imm12: "la_simm12 (ucast (i::u32)) = signed_take_bit 11 (drop_bit 10 i)"
  by (rule bit_word_eqI) (auto simp: la_simm12_def to_word_def bit_simps min.commute)

lemma la_imm20: "la_simm20 (ucast (i::u32)) = push_bit 12 (drop_bit 5 i)"
  by (rule bit_word_eqI) (auto simp: la_simm20_def to_word_def bit_simps min_def)

lemma la_zero_kept: "gpr (cpu s) 0 = 0 \<Longrightarrow> s\<lparr>cpu := (cpu s)\<lparr>gpr := (gpr (cpu s))(0 := 0)\<rparr>\<rparr> = s"
  by (simp add: fun_upd_idem)

lemma la_exec_by_opcode:
  assumes zero: "gpr (cpu s) 0 = 0"
  shows "la_decode_exec d s = bind_res (la_step (isa_inst d) d s) (\<lambda>s1. Inr (d\<lparr>dnpc := snpc d\<rparr>, s1))"
proof -
  let ?i = "isa_inst d"
  have rs: "unat (BITS (ucast ?i) 9 5) = unat (take_bit 5 (drop_bit 5 ?i))"
    and rt: "unat (BITS (ucast ?i) 4 0) = unat (take_bit 5 ?i)"
    using reg_field [of 5 ?i] reg_field [of 0 ?i] by simp_all
  have zw: "vaddr_write a n v s = Inr s1 \<Longrightarrow> gpr (cpu s1) 0 = 0" for a n v s1
    using vaddr_write_cpu zero by metis
  have zi: "invalid_inst p s = Inr s1 \<Longrightarrow> gpr (cpu s1) 0 = 0" for p s1
    using invalid_inst_cpu zero by metis
  note defs = la_decode_exec_def la_step_def la_find la_instpat_match_def la_decode_operand_def Let_def
    rs rt la_imm12 la_imm20
  consider "drop_bit 25 ?i = 0x0e" | "drop_bit 25 ?i \<noteq> 0x0e" "drop_bit 22 ?i = 0xa2"
    | "drop_bit 25 ?i \<noteq> 0x0e" "drop_bit 22 ?i = 0xa6"
    | "drop_bit 25 ?i \<noteq> 0x0e" "drop_bit 22 ?i \<noteq> 0xa2" "drop_bit 22 ?i \<noteq> 0xa6" "drop_bit 15 ?i = 0x54"
    | "drop_bit 25 ?i \<noteq> 0x0e" "drop_bit 22 ?i \<noteq> 0xa2" "drop_bit 22 ?i \<noteq> 0xa6" "drop_bit 15 ?i \<noteq> 0x54" by blast
  then show ?thesis
  proof cases
    case 1
    then show ?thesis by (simp add: defs la_write_def)
  next
    case 2
    then show ?thesis
      by (cases "vaddr_read (gpr (cpu s) (unat (take_bit 5 (drop_bit 5 ?i))) + signed_take_bit 11 (drop_bit 10 ?i)) 4 s")
        (simp_all add: defs la_write_def load_reg_def split_beta)
  next
    case 3
    show ?thesis
    proof (cases "vaddr_write (gpr (cpu s) (unat (take_bit 5 (drop_bit 5 ?i))) + signed_take_bit 11 (drop_bit 10 ?i)) 4
            (gpr (cpu s) (unat (take_bit 5 ?i))) s")
      case (Inr s1)
      with 3 la_zero_kept [OF zw [OF Inr]] show ?thesis by (simp add: defs store_mem_def)
    qed (simp add: defs store_mem_def 3)
  next
    case 4
    then have find: "instpat_find la_instpats (ucast ?i) = Inr (Some (L_break, L_TYPE_N))"
      and step: "la_step ?i d s = Inr (NEMUTRAP (d_pc d) (gpr (cpu s) 4) s)"
      by (simp_all add: la_find la_step_def Let_def)
    have "gpr_set 0 0 (NEMUTRAP (d_pc d) (gpr (cpu s) 4) s) = Inr (NEMUTRAP (d_pc d) (gpr (cpu s) 4) s)"
      using zero la_zero_kept [of "NEMUTRAP (d_pc d) (gpr (cpu s) 4) s"] by (simp only: gpr_set_ok cpu_NEMUTRAP)
    then show ?thesis
      by (simp add: la_decode_exec_def find step la_instpat_match_def la_decode_operand_def Let_def
          del: gpr_set_ok) 
  next
    case 5
    then have find: "instpat_find la_instpats (ucast ?i) = Inr (Some (L_inv, L_TYPE_N))"
      and step: "la_step ?i d s = invalid_inst (d_pc d) s" by (auto simp: la_find la_step_def Let_def)
    show ?thesis
    proof (cases "invalid_inst (d_pc d) s")
      case (Inr s1)
      with la_zero_kept [OF zi [OF Inr]] show ?thesis
        by (simp add: la_decode_exec_def find step la_instpat_match_def la_decode_operand_def Let_def)
    qed (simp add: la_decode_exec_def find step la_instpat_match_def la_decode_operand_def Let_def)
  qed
qed

text \<open>The step of \<open>exec_once\<close> on a word of memory.\<close>

definition la_word_step :: "u32 \<Rightarrow> u32 \<Rightarrow> sdb \<Rightarrow> sdb res" where
  "la_word_step w p s = la_step w \<lparr>d_pc = p, snpc = p + 4, dnpc = p + 4, isa_inst = w\<rparr> s"

lemma la_step_decode: "d_pc d = d_pc d' \<Longrightarrow> la_step i d s = la_step i d' s"
  by (simp only: la_step_def)

lemma la_values: "(60129542144 :: u32) = 0" "(62277025792 :: u32) = 0x80000000"
  by simp_all

interpretation la: word_guest la_guest la_word_step
proof unfold_locales
  fix s p w s1 and d :: Decode
  assume w: "mem_word s p w" and z: "gpr (cpu s) 0 = 0" and st: "la_word_step w p s = Inr s1"
  let ?d = "d\<lparr>d_pc := p, isa_inst := w, snpc := p + 4\<rparr>"
  have "la_step w ?d s = Inr s1"
    using st la_step_decode [of ?d "\<lparr>d_pc = p, snpc = p + 4, dnpc = p + 4, isa_inst = w\<rparr>" w s]
    by (simp add: la_word_step_def)
  with la_exec_by_opcode [OF z, of ?d]
  have "la_decode_exec ?d s = Inr (?d\<lparr>dnpc := p + 4\<rparr>, s1)" by simp
  with w show "\<exists>d'. exec_once la_guest d p s = Inr (d', s1\<lparr>cpu := (cpu s1)\<lparr>pc := p + 4\<rparr>\<rparr>)"
    by (simp add: exec_once_def la_guest_def la_isa_exec_once_def mem_word_def fetch_pmem)
qed

section \<open>The built-in image\<close>

lemma la_image_execute:
  assumes r: "r 0 = 0" and s: "head (wps s) = None" "\<not> conf_device s" "run_state (nemu_state s) = NEMU_RUNNING"
  shows "\<exists>d' s'. execute la_guest (Suc (Suc (Suc (Suc n)))) d
        (machine s (store_bytes m 0 (concat (map (le_bytes 4) la_img))) r 0x80000000 k) = Some (Inr (d', s'))
     \<and> nemu_state s' = \<lparr>run_state = NEMU_END, halt_pc = 0x8000000c, halt_ret = 0\<rparr> \<and> g_nr_guest_inst s' = k + 4"
proof -
  let ?m = "store_bytes m 0 (concat (map (le_bytes 4) la_img))"
  let ?m1 = "store_bytes ?m 16 (le_bytes 4 0)"
  let ?r1 = "r(12 := 0x80000000)"
  let ?r2 = "?r1(4 := 0)"
  have words: "mem_word (machine s ?m q p j) 0x80000000 0x1c00000c" "mem_word (machine s ?m q p j) 0x80000004 0x29804180"
    "mem_word (machine s ?m q p j) 0x80000008 0x28804184" "mem_word (machine s ?m q p j) 0x8000000c 0x002a0000" for q p j
    using image_mem_word [of 0 la_img s m q p j] image_mem_word [of 1 la_img s m q p j]
      image_mem_word [of 2 la_img s m q p j] image_mem_word [of 3 la_img s m q p j]
    by (simp_all add: la_img_def)
  have h: "guest_to_host 0x80000010 = 16" "guest_to_host 0x80000008 = 8" "guest_to_host 0x8000000c = 12"
    "in_pmem 0x80000010" by (simp_all add: guest_to_host_in_pmem in_pmem_iff)
  have words1: "mem_word (machine s ?m1 q p j) 0x80000008 0x28804184" "mem_word (machine s ?m1 q p j) 0x8000000c 0x002a0000"
    "mem_word (machine s ?m1 q p j) 0x80000010 0" for q p j
    using words(3,4) [THEN mem_word_store, of 16] h by (simp_all add: mem_word_def CONFIG_MSIZE_def)
  note ev = la_word_step_def la_step_def Let_def la_write_def
  have step1: "la_word_step 0x1c00000c 0x80000000 (machine s ?m r 0x80000000 k) = Inr (machine s ?m ?r1 0x80000000 k)"
    using r by (simp add: ev fun_upd_idem fun_upd_twist la_values)
  have step2: "la_word_step 0x29804180 0x80000004 (machine s ?m ?r1 0x80000004 (k + 1))
      = Inr (machine s ?m1 ?r1 0x80000004 (k + 1))"
    using r by (simp add: ev vaddr_write_machine h CONFIG_MSIZE_def)
  have step3: "la_word_step 0x28804184 0x80000008 (machine s ?m1 ?r1 0x80000008 (k + 1 + 1))
      = Inr (machine s ?m1 ?r2 0x80000008 (k + 1 + 1))"
    using r vaddr_read_machine [OF words1(3)] by (simp add: ev fun_upd_idem fun_upd_twist)
  have step4: "la_word_step 0x002a0000 0x8000000c (machine s ?m1 ?r2 0x8000000c (k + 1 + 1 + 1))
      = Inr (NEMUTRAP 0x8000000c 0 (machine s ?m1 ?r2 0x8000000c (k + 1 + 1 + 1)))"
    by (simp add: ev)
  from la.machine_step [OF words(1) r step1 s] obtain d1 where e1: "execute la_guest (Suc (Suc (Suc (Suc n)))) d
      (machine s ?m r 0x80000000 k) = execute la_guest (Suc (Suc (Suc n))) d1 (machine s ?m ?r1 0x80000004 (k + 1))"
    by (auto simp del: execute.simps)
  from la.machine_step [OF words(2) _ step2 s] r obtain d2 where e2: "execute la_guest (Suc (Suc (Suc n))) d1
      (machine s ?m ?r1 0x80000004 (k + 1)) = execute la_guest (Suc (Suc n)) d2 (machine s ?m1 ?r1 0x80000008 (k + 1 + 1))"
    by (fastforce simp del: execute.simps)
  from la.machine_step [OF words1(1) _ step3 s] r obtain d3 where e3: "execute la_guest (Suc (Suc n)) d2
      (machine s ?m1 ?r1 0x80000008 (k + 1 + 1)) = execute la_guest (Suc n) d3 (machine s ?m1 ?r2 0x8000000c (k + 1 + 1 + 1))"
    by (fastforce simp del: execute.simps)
  let ?e = "NEMUTRAP 0x8000000c 0 (machine s ?m1 ?r2 0x8000000c (k + 1 + 1 + 1))"
  have trap: "wps ?e = wps s" "conf_device ?e = conf_device s"
    "nemu_state ?e = \<lparr>run_state = NEMU_END, halt_pc = 0x8000000c, halt_ret = 0\<rparr>" "g_nr_guest_inst ?e = k + 3"
    by (simp_all add: NEMUTRAP_def set_nemu_state_def difftest_skip_ref_def machine_def)
  have "\<exists>d'. execute la_guest (Suc n) d3 (machine s ?m1 ?r2 0x8000000c (k + 1 + 1 + 1)) = Some (Inr (d',
      ?e\<lparr>cpu := (cpu ?e)\<lparr>pc := 0x80000010\<rparr>, g_nr_guest_inst := g_nr_guest_inst ?e + 1\<rparr>))"
    using la.run_step [OF _ words1(2) _ step4, of n d3] r s trap by (auto simp: Let_def simp del: execute.simps)
  with e1 e2 e3 trap show ?thesis by (auto simp del: execute.simps)
qed

section \<open>Properties\<close>

text \<open>
  C18: LoongArch32 decoding: on a machine whose register 0 is 0, the pattern table executes exactly the
  instruction its opcode fields name - \<open>pcaddu12i\<close>, \<open>ld.w\<close>, \<open>st.w\<close> with their sign-extended
  immediates, \<open>break\<close> as the trap - loses writes to register 0, moves on by one instruction, and
  aborts on every other word.
\<close>

theorem la_decode_by_opcode:
  assumes "gpr (cpu s) 0 = 0"
  shows "la_decode_exec d s = bind_res (la_step (isa_inst d) d s) (\<lambda>s1. Inr (d\<lparr>dnpc := snpc d\<rparr>, s1))"
  by (rule la_exec_by_opcode [OF assms])

theorem la_decode_by_opcode_witness:
  "la_decode_exec (fresh_decode\<lparr>isa_inst := 0x1c00000c\<rparr>) initial_sdb
     = Inr (fresh_decode\<lparr>isa_inst := 0x1c00000c\<rparr>, la_write 12 0 initial_sdb)"
  using la_decode_by_opcode [of initial_sdb "fresh_decode\<lparr>isa_inst := 0x1c00000c\<rparr>"]
  by (simp add: la_step_def Let_def fresh_decode_def la_values)

text \<open>
  The LoongArch32 built-in image, loaded into any machine without watchpoints and devices, stores
  zero over its data word, reads it back and reaches a good trap in four instructions.
\<close>

theorem la_image_ends:
  assumes "la_init_isa s = Inr s1" and "\<not> ended (run_state (nemu_state s))"
    and "head (wps s) = None" and "\<not> conf_device s" and "4 \<le> unat n"
  shows "\<exists>s'. cpu_exec la_guest n d s1 = Some (Inr s') \<and> \<not> is_exit_status_bad s'
    \<and> halt_pc (nemu_state s') = 0x8000000c \<and> g_nr_guest_inst s' = g_nr_guest_inst s + 4"
proof -
  from assms(1) have s1: "s1 = machine s (store_bytes (pmem s) 0 (concat (map (le_bytes 4) la_img)))
      ((gpr (cpu s))(0 := 0)) 0x80000000 (g_nr_guest_inst s)"
    by (auto simp: la_init_isa_def pmem_copy_def reset_vector la_restart_def machine_def guest_to_host_in_pmem
        in_pmem_iff elim!: bind_resE split: if_splits)
  obtain k where k: "unat n = Suc (Suc (Suc (Suc k)))"
    using assms(5) le_Suc_ex [of 4 "unat n"] by (auto simp: eval_nat_numeral)
  have "\<exists>s'. cpu_exec la_guest n d s1 = Some (Inr s')
    \<and> nemu_state s' = \<lparr>run_state = NEMU_END, halt_pc = 0x8000000c, halt_ret = 0\<rparr>
    \<and> g_nr_guest_inst s' = g_nr_guest_inst s + 4"
  proof (rule cpu_exec_ends)
    show "\<not> ended (run_state (nemu_state s1))" using assms(2) s1 by simp
    fix t0 s2
    assume "get_time (set_run_state NEMU_RUNNING (s1\<lparr>g_print_step := unat n < MAX_INST_TO_PRINT\<rparr>)) = (t0, s2)"
    note t = get_time_keeps [OF this]
    have s2: "s2 = machine s2 (store_bytes (pmem s) 0 (concat (map (le_bytes 4) la_img)))
      ((gpr (cpu s))(0 := 0)) 0x80000000 (g_nr_guest_inst s)"
      using t machine_self [of s2] by (simp add: s1 set_run_state_def)
    show "\<exists>d' s3. execute la_guest (unat n) d s2 = Some (Inr (d', s3))
      \<and> nemu_state s3 = \<lparr>run_state = NEMU_END, halt_pc = 0x8000000c, halt_ret = 0\<rparr>
      \<and> g_nr_guest_inst s3 = g_nr_guest_inst s + 4"
      unfolding k by (subst s2, rule la_image_execute) (use t assms(3,4) s1 in \<open>simp_all add: set_run_state_def\<close>)
  qed simp
  then show ?thesis by (auto simp: is_exit_status_bad_def)
qed

theorem la_image_ends_witness:
  "\<exists>s1 s'. la_init_isa initial_sdb = Inr s1 \<and> cpu_exec la_guest 4 fresh_decode s1 = Some (Inr s')
     \<and> \<not> is_exit_status_bad s'"
proof -
  obtain s1 where "la_init_isa initial_sdb = Inr s1"
    by (auto simp: la_init_isa_def pmem_copy_def reset_vector guest_to_host_in_pmem in_pmem_iff CONFIG_MSIZE_def
        la_img_def)
  with la_image_ends [OF this, of 4 fresh_decode] show ?thesis by (auto simp: ended_def initial_pool_def)
qed

end
