(* ===== verification/X86.thy ===== *)
theory X86
  imports Isa
begin

text \<open>
  The x86 guest, \<open>src/isa/x86/\<close>, as far as the source implements it: \<open>mov\<close> in its forms, the
  operand-size prefix, the trap. \<open>CPU_state\<close> is modelled as the source declares it: the three
  views of a register (\<open>_32\<close>, \<open>_16\<close>, \<open>_8\<close>) are separate fields of a struct, and \<open>eax\<close> to \<open>edi\<close>
  are fields of their own. The prefix loop \<open>goto again\<close> is a partial function; with the
  instruction trace on (as configured) \<open>x86_inst_fetch\<close> asserts that an instruction is shorter than
  16 bytes, which ends it.
\<close>

section \<open>State\<close>

type_synonym u16x = "16 word"

record x86_CPU =
  r32 :: "nat \<Rightarrow> u32"
  r16 :: "nat \<Rightarrow> u16x"
  r8 :: "nat \<Rightarrow> nat \<Rightarrow> u8"
  named :: "nat \<Rightarrow> u32"
  xpc :: u32

record x86 = mem +
  xcpu :: x86_CPU

record x86_Decode =
  x_pc :: u32
  x_snpc :: u32
  x_dnpc :: u32
  x_inst :: "nat \<Rightarrow> u8"

definition R_EAX :: nat where "R_EAX = 0"
definition R_ESP :: nat where "R_ESP = 4"
definition R_EBP :: nat where "R_EBP = 5"

section \<open>Registers\<close>

definition check_reg_index :: "nat \<Rightarrow> 'b res \<Rightarrow> 'b res" where
  "check_reg_index i m = assert_then (i < 8) m"

definition reg_read :: "nat \<Rightarrow> nat \<Rightarrow> 'a x86_scheme \<Rightarrow> u32 res" where
  "reg_read idx width s =
     (if width = 4 then check_reg_index idx (Inr (r32 (xcpu s) idx))
      else if width = 1 then check_reg_index idx (Inr (ucast (r8 (xcpu s) (idx mod 4) (idx div 4))))
      else if width = 2 then check_reg_index idx (Inr (ucast (r16 (xcpu s) idx)))
      else Inl AssertFail)"

definition reg_write :: "nat \<Rightarrow> nat \<Rightarrow> u32 \<Rightarrow> 'a x86_scheme \<Rightarrow> 'a x86_scheme res" where
  "reg_write idx width data s =
     (let c = xcpu s in
      if width = 4 then check_reg_index idx (Inr (s\<lparr>xcpu := c\<lparr>r32 := (r32 c)(idx := data)\<rparr>\<rparr>))
      else if width = 1 then
        check_reg_index idx (Inr (s\<lparr>xcpu := c\<lparr>r8 := (r8 c)(idx mod 4 := (r8 c (idx mod 4))(idx div 4 := ucast data))\<rparr>\<rparr>))
      else if width = 2 then check_reg_index idx (Inr (s\<lparr>xcpu := c\<lparr>r16 := (r16 c)(idx := ucast data)\<rparr>\<rparr>))
      else Inl AssertFail)"

section \<open>Fetching and operands\<close>

fun put_bytes :: "nat \<Rightarrow> nat \<Rightarrow> u32 \<Rightarrow> (nat \<Rightarrow> u8) \<Rightarrow> nat \<Rightarrow> u8" where
  "put_bytes at 0 ret p = p"
| "put_bytes at (Suc n) ret p = put_bytes (Suc at) n (drop_bit 8 ret) (p(at := ucast ret))"

definition x86_inst_fetch ::
  "x86_Decode \<Rightarrow> nat \<Rightarrow> 'a x86_scheme \<Rightarrow> (u32 \<times> x86_Decode \<times> 'a x86_scheme) res" where
  "x86_inst_fetch d len s =
     (let at = unat (x_snpc d - x_pc d) in
      bind_res (inst_fetch (x_snpc d) len s) (\<lambda>(ret, p, s1).
        assert_then (unat (p - x_pc d) < 16)
          (Inr (ret, d\<lparr>x_snpc := p, x_inst := put_bytes at len ret (x_inst d)\<rparr>, s1))))"

text \<open>The fields of \<open>ModR_M\<close> and \<open>SIB\<close>.\<close>

definition R_M :: "u8 \<Rightarrow> nat" where "R_M m = unat (take_bit 3 m)"
definition mreg :: "u8 \<Rightarrow> nat" where "mreg m = unat (take_bit 3 (drop_bit 3 m))"
definition mmod :: "u8 \<Rightarrow> nat" where "mmod m = unat (drop_bit 6 m)"

definition load_addr ::
  "x86_Decode \<Rightarrow> u8 \<Rightarrow> 'a x86_scheme \<Rightarrow> (u32 \<times> x86_Decode \<times> 'a x86_scheme) res" where
  "load_addr d m s =
     assert_then (mmod m \<noteq> 3)
      (bind_res
        (if R_M m = R_ESP then
           bind_res (x86_inst_fetch d 1 s) (\<lambda>(v, d1, s1).
             let sib = (ucast v :: u8) in
             Inr (Some (R_M sib), if mreg sib \<noteq> R_ESP then Some (mreg sib) else None, mmod sib, d1, s1))
         else Inr (Some (R_M m), None, 0, d, s))
        (\<lambda>(base0, index_reg, scale, d1, s1).
          case (if mmod m = 0 then (if base0 = Some R_EBP then (None, 4) else (base0, 0))
                else if mmod m = 1 then (base0, 1) else (base0, 4)) of
            (base_reg, disp_size) \<Rightarrow>
              bind_res
                (if disp_size \<noteq> 0 then
                   bind_res (x86_inst_fetch d1 disp_size s1) (\<lambda>(disp, d2, s2).
                     Inr (if disp_size = 1 then scast (ucast disp :: u8) else disp, d2, s2))
                 else Inr (0, d1, s1))
                (\<lambda>(disp, d2, s2).
              bind_res (case base_reg of None \<Rightarrow> Inr disp
                        | Some r \<Rightarrow> check_reg_index r (Inr (disp + r32 (xcpu s2) r))) (\<lambda>a1.
              bind_res (case index_reg of None \<Rightarrow> Inr a1
                        | Some r \<Rightarrow> check_reg_index r (Inr (a1 + push_bit scale (r32 (xcpu s2) r)))) (\<lambda>a2.
              Inr (a2, d2, s2))))))"

text \<open>\<open>decode_rm\<close>: the register (\<open>None\<close> for -1) or the address, and the \<open>reg\<close> field.\<close>

definition decode_rm ::
  "x86_Decode \<Rightarrow> u32 \<Rightarrow> 'a x86_scheme \<Rightarrow> (nat option \<times> u32 \<times> nat \<times> x86_Decode \<times> 'a x86_scheme) res" where
  "decode_rm d addr s =
     bind_res (x86_inst_fetch d 1 s) (\<lambda>(v, d1, s1).
       let m = (ucast v :: u8) in
       if mmod m = 3 then Inr (Some (R_M m), addr, mreg m, d1, s1)
       else bind_res (load_addr d1 m s1) (\<lambda>(a, d2, s2). Inr (None, a, mreg m, d2, s2)))"

datatype x86_type = X_I2r | X_G2E | X_E2G | X_I2E | X_O2a | X_a2O | X_N

record operands =
  o_rd :: "nat option"
  o_rs :: "nat option"
  o_gp_idx :: nat
  o_src1 :: u32
  o_addr :: u32
  o_imm :: u32

definition no_operands :: operands where
  "no_operands = \<lparr>o_rd = Some 0, o_rs = Some 0, o_gp_idx = 0, o_src1 = 0, o_addr = 0, o_imm = 0\<rparr>"

definition x86_decode_operand ::
  "x86_Decode \<Rightarrow> u8 \<Rightarrow> nat \<Rightarrow> x86_type \<Rightarrow> 'a x86_scheme \<Rightarrow> (operands \<times> x86_Decode \<times> 'a x86_scheme) res" where
  "x86_decode_operand d opcode w ty s =
     (case ty of
        X_I2r \<Rightarrow> bind_res (x86_inst_fetch d w s) (\<lambda>(i, d1, s1).
          Inr (no_operands\<lparr>o_rd := Some (unat (opcode AND 7)), o_imm := i\<rparr>, d1, s1))
      | X_G2E \<Rightarrow> bind_res (decode_rm d 0 s) (\<lambda>(rm, a, reg, d1, s1).
          bind_res (reg_read reg w s1) (\<lambda>v.
          Inr (no_operands\<lparr>o_rd := rm, o_addr := a, o_rs := Some reg, o_src1 := v\<rparr>, d1, s1)))
      | X_E2G \<Rightarrow> bind_res (decode_rm d 0 s) (\<lambda>(rm, a, reg, d1, s1).
          Inr (no_operands\<lparr>o_rs := rm, o_addr := a, o_rd := Some reg\<rparr>, d1, s1))
      | X_I2E \<Rightarrow> bind_res (decode_rm d 0 s) (\<lambda>(rm, a, reg, d1, s1).
          bind_res (x86_inst_fetch d1 w s1) (\<lambda>(i, d2, s2).
          Inr (no_operands\<lparr>o_rd := rm, o_addr := a, o_gp_idx := reg, o_imm := i\<rparr>, d2, s2)))
      | X_O2a \<Rightarrow> bind_res (x86_inst_fetch d 4 s) (\<lambda>(a, d1, s1).
          Inr (no_operands\<lparr>o_rd := Some R_EAX, o_addr := a\<rparr>, d1, s1))
      | X_a2O \<Rightarrow> bind_res (x86_inst_fetch d 4 s) (\<lambda>(a, d1, s1).
          Inr (no_operands\<lparr>o_rs := Some R_EAX, o_addr := a\<rparr>, d1, s1))
      | X_N \<Rightarrow> Inr (no_operands, d, s))"

section \<open>Execution\<close>

definition RMr :: "nat option \<Rightarrow> u32 \<Rightarrow> nat \<Rightarrow> 'a x86_scheme \<Rightarrow> (u32 \<times> 'a x86_scheme) res" where
  "RMr reg addr w s =
     (case reg of Some r \<Rightarrow> bind_res (reg_read r w s) (\<lambda>v. Inr (v, s)) | None \<Rightarrow> vaddr_read addr w s)"

definition RMw :: "nat option \<Rightarrow> u32 \<Rightarrow> nat \<Rightarrow> u32 \<Rightarrow> 'a x86_scheme \<Rightarrow> 'a x86_scheme res" where
  "RMw rd addr w data s =
     (case rd of Some r \<Rightarrow> reg_write r w data s | None \<Rightarrow> vaddr_write addr w data s)"

definition Rw :: "nat option \<Rightarrow> nat \<Rightarrow> u32 \<Rightarrow> 'a x86_scheme \<Rightarrow> 'a x86_scheme res" where
  "Rw rd w data s = (case rd of Some r \<Rightarrow> reg_write r w data s | None \<Rightarrow> Inl AssertFail)"

datatype x86_inst =
  B_2byte_esc | B_data_size | B_gp1 | B_store | B_load | B_O2a | B_a2O | B_I2r | B_I2E | B_nemu_trap | B_inv

definition x86_instpats :: "(string \<times> x86_inst \<times> x86_type \<times> nat) list" where
  "x86_instpats =
    [(''0000 1111'', B_2byte_esc, X_N, 0),
     (''0110 0110'', B_data_size, X_N, 0),
     (''1000 0000'', B_gp1, X_I2E, 1),
     (''1000 1000'', B_store, X_G2E, 1),
     (''1000 1001'', B_store, X_G2E, 0),
     (''1000 1010'', B_load, X_E2G, 1),
     (''1000 1011'', B_load, X_E2G, 0),
     (''1010 0000'', B_O2a, X_O2a, 1),
     (''1010 0001'', B_O2a, X_O2a, 0),
     (''1010 0010'', B_a2O, X_a2O, 1),
     (''1010 0011'', B_a2O, X_a2O, 0),
     (''1011 0???'', B_I2r, X_I2r, 1),
     (''1011 1???'', B_I2r, X_I2r, 0),
     (''1100 0110'', B_I2E, X_I2E, 1),
     (''1100 0111'', B_I2E, X_I2E, 0),
     (''1100 1100'', B_nemu_trap, X_N, 0),
     (''???? ????'', B_inv, X_N, 0)]"

definition x86_inv :: "x86_Decode \<Rightarrow> 'a x86_scheme \<Rightarrow> (x86_Decode \<times> 'a x86_scheme) res" where
  "x86_inv d s = bind_res (invalid_inst (x_pc d) s) (\<lambda>s1. Inr (d, s1))"

text \<open>\<open>_2byte_esc\<close>: one more opcode byte, and no instruction yet.\<close>

definition two_byte_esc :: "x86_Decode \<Rightarrow> 'a x86_scheme \<Rightarrow> (x86_Decode \<times> 'a x86_scheme) res" where
  "two_byte_esc d s =
     bind_res (x86_inst_fetch d 1 s) (\<lambda>(v, d1, s1). x86_inv (d1\<lparr>x_dnpc := x_snpc d1\<rparr>) s1)"

fun x86_execute ::
  "x86_inst \<Rightarrow> x86_Decode \<Rightarrow> nat \<Rightarrow> operands \<Rightarrow> 'a x86_scheme \<Rightarrow> (x86_Decode \<times> 'a x86_scheme) res" where
  "x86_execute B_2byte_esc d w ops s = two_byte_esc d s"
| "x86_execute B_data_size d w ops s = Inr (d, s)"
| "x86_execute B_gp1 d w ops s = x86_inv d s"
| "x86_execute B_store d w ops s = bind_res (RMw (o_rd ops) (o_addr ops) w (o_src1 ops) s) (\<lambda>s1. Inr (d, s1))"
| "x86_execute B_load d w ops s =
     bind_res (RMr (o_rs ops) (o_addr ops) w s) (\<lambda>(v, s1). bind_res (Rw (o_rd ops) w v s1) (\<lambda>s2. Inr (d, s2)))"
| "x86_execute B_O2a d w ops s =
     bind_res (vaddr_read (o_addr ops) w s) (\<lambda>(v, s1). bind_res (reg_write R_EAX w v s1) (\<lambda>s2. Inr (d, s2)))"
| "x86_execute B_a2O d w ops s =
     bind_res (reg_read R_EAX w s) (\<lambda>v. bind_res (vaddr_write (o_addr ops) w v s) (\<lambda>s1. Inr (d, s1)))"
| "x86_execute B_I2r d w ops s = bind_res (Rw (o_rd ops) w (o_imm ops) s) (\<lambda>s1. Inr (d, s1))"
| "x86_execute B_I2E d w ops s = bind_res (RMw (o_rd ops) (o_addr ops) w (o_imm ops) s) (\<lambda>s1. Inr (d, s1))"
| "x86_execute B_nemu_trap d w ops s = Inr (d, NEMUTRAP (x_pc d) (named (xcpu s) R_EAX) s)"
| "x86_execute B_inv d w ops s = x86_inv d s"

definition x86_instpat_match ::
  "x86_Decode \<Rightarrow> u8 \<Rightarrow> bool \<Rightarrow> x86_inst \<Rightarrow> x86_type \<Rightarrow> nat \<Rightarrow> 'a x86_scheme \<Rightarrow> (x86_Decode \<times> 'a x86_scheme) res" where
  "x86_instpat_match d opcode is_operand_size_16 nm ty width s =
     (let w = (if width = 0 then (if is_operand_size_16 then 2 else 4) else width) in
      bind_res (x86_decode_operand d opcode w ty s) (\<lambda>(ops, d1, s1).
        x86_execute nm (d1\<lparr>x_dnpc := x_snpc d1\<rparr>) w ops s1))"

partial_function (option) exec_again ::
  "bool \<Rightarrow> x86_Decode \<Rightarrow> 'a x86_scheme \<Rightarrow> (x86_Decode \<times> 'a x86_scheme) res option" where
  "exec_again is_operand_size_16 d s =
     (case x86_inst_fetch d 1 s of
        Inl e \<Rightarrow> Some (Inl e)
      | Inr (v, d1, s1) \<Rightarrow>
          (let opcode = (ucast v :: u8) in
           case instpat_find x86_instpats (ucast opcode) of
             Inl e \<Rightarrow> Some (Inl e)
           | Inr None \<Rightarrow> Some (Inr (d1, s1))
           | Inr (Some (nm, ty, width)) \<Rightarrow>
               if nm = B_data_size then exec_again True (d1\<lparr>x_dnpc := x_snpc d1\<rparr>) s1
               else Some (x86_instpat_match d1 opcode is_operand_size_16 nm ty width s1)))"

definition x86_isa_exec_once :: "x86_Decode \<Rightarrow> 'a x86_scheme \<Rightarrow> (x86_Decode \<times> 'a x86_scheme) res option" where
  "x86_isa_exec_once d s = exec_again False d s"

section \<open>\<open>reg.c\<close>, \<open>init.c\<close> and the stubs\<close>

definition regsl :: "string list" where
  "regsl = [''eax'', ''ecx'', ''edx'', ''ebx'', ''esp'', ''ebp'', ''esi'', ''edi'']"
definition regsw :: "string list" where
  "regsw = [''ax'', ''cx'', ''dx'', ''bx'', ''sp'', ''bp'', ''si'', ''di'']"
definition regsb :: "string list" where
  "regsb = [''al'', ''cl'', ''dl'', ''bl'', ''ah'', ''ch'', ''dh'', ''bh'']"

definition x86_reg_name :: "nat \<Rightarrow> nat \<Rightarrow> string res" where
  "x86_reg_name index width =
     assert_then (index < 8)
       (if width = 4 then Inr (regsl ! index) else if width = 1 then Inr (regsb ! index)
        else if width = 2 then Inr (regsw ! index) else Inl AssertFail)"

text \<open>
  \<open>reg_test\<close>: \<open>rnd 0\<close> is the value of the first \<open>rand()\<close>, \<open>rnd (i + 1)\<close> that of register
  \<open>i\<close>. The loop checks the 16-bit view after each store, the rest the byte views and the named
  registers.
\<close>

fun reg_test_loop :: "(nat \<Rightarrow> u32) \<Rightarrow> nat \<Rightarrow> nat \<Rightarrow> 'a x86_scheme \<Rightarrow> 'a x86_scheme res" where
  "reg_test_loop rnd 0 i s = Inr s"
| "reg_test_loop rnd (Suc n) i s =
     bind_res (reg_write i 4 (rnd (i + 1)) s) (\<lambda>s1.
     bind_res (reg_read i 2 s1) (\<lambda>v.
     assert_then (v = rnd (i + 1) AND 0xffff) (reg_test_loop rnd n (i + 1) s1)))"

definition byte_test :: "(nat \<Rightarrow> u32) \<Rightarrow> 'a x86_scheme \<Rightarrow> nat \<Rightarrow> bool" where
  "byte_test rnd s i \<longleftrightarrow>
     reg_read i 1 s = Inr (rnd (i + 1) AND 0xff) \<and> reg_read (i + 4) 1 s = Inr (drop_bit 8 (rnd (i + 1)) AND 0xff)"

definition reg_test :: "(nat \<Rightarrow> u32) \<Rightarrow> 'a x86_scheme \<Rightarrow> 'a x86_scheme res" where
  "reg_test rnd s =
     bind_res (reg_test_loop rnd 8 0 (s\<lparr>xcpu := (xcpu s)\<lparr>xpc := rnd 0\<rparr>\<rparr>)) (\<lambda>s1.
     assert_then (byte_test rnd s1 0 \<and> byte_test rnd s1 3 \<and> byte_test rnd s1 1 \<and> byte_test rnd s1 2)
    (assert_then (list_all (\<lambda>i. rnd (i + 1) = named (xcpu s1) i) [0..<8])
    (assert_then (rnd 0 = xpc (xcpu s1)) (Inr s1))))"

definition x86_img :: "u8 list" where
  "x86_img =
    [0xb8, 0x34, 0x12, 0x00, 0x00, 0xb9, 0x27, 0x00, 0x10, 0x00, 0x89, 0x01,
     0x66, 0xc7, 0x41, 0x04, 0x01, 0x00, 0xbb, 0x02, 0x00, 0x00, 0x00,
     0x66, 0xc7, 0x84, 0x99, 0x00, 0xe0, 0xff, 0xff, 0x01, 0x00, 0xb8, 0x00, 0x00, 0x00, 0x00, 0xcc]"

definition x86_restart :: "'a x86_scheme \<Rightarrow> 'a x86_scheme" where
  "x86_restart s = s\<lparr>xcpu := (xcpu s)\<lparr>xpc := RESET_VECTOR\<rparr>\<rparr>"

definition x86_init_isa :: "(nat \<Rightarrow> u32) \<Rightarrow> 'a x86_scheme \<Rightarrow> 'a x86_scheme res" where
  "x86_init_isa rnd s =
     bind_res (reg_test rnd s) (\<lambda>s1.
     bind_res (pmem_copy RESET_VECTOR x86_img s1) (\<lambda>s2.
     Inr (x86_restart s2)))"

definition x86_isa_reg_str2val :: "string \<Rightarrow> 'a x86_scheme \<Rightarrow> u32 \<times> bool" where
  "x86_isa_reg_str2val str s = (0, False)"

section \<open>Lemmas\<close>

lemma x86_fetchE:
  assumes "x86_inst_fetch d len s = Inr (v, d1, s1)"
  shows "x_pc d1 = x_pc d \<and> x_snpc d1 = x_snpc d + of_nat len \<and> unat (x_snpc d1 - x_pc d) < 16"
  using assms by (auto simp: x86_inst_fetch_def inst_fetch_def Let_def res_simps elim!: bind_resE)

lemma exec_again_returns:
  "unat (x_snpc d - x_pc d) < 16 \<Longrightarrow> \<exists>r. exec_again b d s = Some r"
proof (induction "16 - unat (x_snpc d - x_pc d)" arbitrary: b d s rule: less_induct)
  case less
  show ?case
  proof (cases "x86_inst_fetch d 1 s")
    case (Inl e)
    then show ?thesis by (subst exec_again.simps) simp
  next
    case (Inr x)
    obtain v d1 s1 where x: "x = (v, d1, s1)" by (cases x)
    note f = x86_fetchE [OF Inr [unfolded x]]
    have "unat (w + 1) = unat w + 1" if "unat w < 16" for w :: u32
      using that by (subst unat_add_lem [THEN iffD1]) simp_all
    moreover have "x_snpc d1 - x_pc d1 = (x_snpc d - x_pc d) + 1" using f by simp
    ultimately have k: "unat (x_snpc d1 - x_pc d1) = unat (x_snpc d - x_pc d) + 1"
      using less.prems by metis
    have k2: "unat (x_snpc d1 - x_pc d1) < 16" using f by metis
    have m: "16 - unat (x_snpc d1 - x_pc d1) < 16 - unat (x_snpc d - x_pc d)" using k k2 less.prems by linarith
    have "\<exists>r. exec_again True (d1\<lparr>x_dnpc := x_snpc d1\<rparr>) s1 = Some r"
      using m k2 by (intro less.hyps) simp_all
    with Inr x show ?thesis
      by (subst exec_again.simps) (auto simp: Let_def split: sum.splits option.splits)
  qed
qed

lemma reg_test_loop_passes:
  "reg_test_loop rnd n i s = r \<Longrightarrow> i + n \<le> 8 \<Longrightarrow>
   r = Inl AssertFail \<or> (\<exists>s1. r = Inr s1 \<and> r16 (xcpu s1) = r16 (xcpu s) \<and> named (xcpu s1) = named (xcpu s))"
proof (induction n arbitrary: i s)
  case 0
  then show ?case by auto
next
  case (Suc n)
  let ?s1 = "s\<lparr>xcpu := (xcpu s)\<lparr>r32 := (r32 (xcpu s))(i := rnd (i + 1))\<rparr>\<rparr>"
  have "i < 8" using Suc.prems by simp
  then have "r = Inl AssertFail \<or> reg_test_loop rnd n (i + 1) ?s1 = r"
    using Suc.prems by (auto simp: reg_write_def reg_read_def check_reg_index_def assert_then_def Let_def split: if_splits)
  with Suc.IH [of "i + 1" ?s1] Suc.prems show ?case by auto
qed

lemma reg_test_cases:
  "reg_test rnd s = Inl AssertFail
   \<or> (\<exists>s1. reg_test rnd s = Inr s1) \<and> (\<forall>i < 8. named (xcpu s) i = rnd (i + 1))"
proof -
  let ?s0 = "s\<lparr>xcpu := (xcpu s)\<lparr>xpc := rnd 0\<rparr>\<rparr>"
  consider "reg_test_loop rnd 8 0 ?s0 = Inl AssertFail"
    | s1 where "reg_test_loop rnd 8 0 ?s0 = Inr s1" "named (xcpu s1) = named (xcpu s)"
    using reg_test_loop_passes [of rnd 8 0 ?s0] by fastforce
  then show ?thesis
    by cases (auto simp: reg_test_def assert_then_def list_all_iff)
qed

lemma x86_pattern_tests:
  "INSTPAT ''0000 1111'' inst = Inr (inst AND 0xff = 0x0f)"
  "INSTPAT ''0110 0110'' inst = Inr (inst AND 0xff = 0x66)"
  "INSTPAT ''1000 0000'' inst = Inr (inst AND 0xff = 0x80)"
  "INSTPAT ''1000 1000'' inst = Inr (inst AND 0xff = 0x88)"
  "INSTPAT ''1000 1001'' inst = Inr (inst AND 0xff = 0x89)"
  "INSTPAT ''1000 1010'' inst = Inr (inst AND 0xff = 0x8a)"
  "INSTPAT ''1000 1011'' inst = Inr (inst AND 0xff = 0x8b)"
  "INSTPAT ''1010 0000'' inst = Inr (inst AND 0xff = 0xa0)"
  "INSTPAT ''1010 0001'' inst = Inr (inst AND 0xff = 0xa1)"
  "INSTPAT ''1010 0010'' inst = Inr (inst AND 0xff = 0xa2)"
  "INSTPAT ''1010 0011'' inst = Inr (inst AND 0xff = 0xa3)"
  "INSTPAT ''1011 0???'' inst = Inr (drop_bit 3 inst AND 0x1f = 0x16)"
  "INSTPAT ''1011 1???'' inst = Inr (drop_bit 3 inst AND 0x1f = 0x17)"
  by (simp_all add: INSTPAT_def pattern_decode_def)

lemma find_mov_imm:
  assumes "r < 8"
  shows "instpat_find x86_instpats (ucast (0xb8 + of_nat r :: u8)) = Inr (Some (B_I2r, X_I2r, 0))
    \<and> unat ((0xb8 + of_nat r :: u8) AND 7) = r"
proof -
  have "r = 0 \<or> r = 1 \<or> r = 2 \<or> r = 3 \<or> r = 4 \<or> r = 5 \<or> r = 6 \<or> r = 7" using assms by auto
  then show ?thesis
    by (elim disjE) (simp_all add: x86_instpats_def x86_pattern_tests)
qed

text \<open>The static variables before \<open>main\<close>, and a decode structure at the reset vector.\<close>

definition initial_x86 :: x86 where
  "initial_x86 = mem.extend initial_mem
     (x86.fields \<lparr>r32 = (\<lambda>_. 0), r16 = (\<lambda>_. 0), r8 = (\<lambda>_ _. 0), named = (\<lambda>_. 0), xpc = 0\<rparr>)"

definition x86_reset_decode :: x86_Decode where
  "x86_reset_decode = \<lparr>x_pc = 0x80000000, x_snpc = 0x80000000, x_dnpc = 0, x_inst = (\<lambda>_. 0)\<rparr>"

lemma xcpu_initial [simp]:
  "xcpu initial_x86 = \<lparr>r32 = (\<lambda>_. 0), r16 = (\<lambda>_. 0), r8 = (\<lambda>_ _. 0), named = (\<lambda>_. 0), xpc = 0\<rparr>"
  by (simp add: initial_x86_def x86.defs initial_mem_def mem.defs dev.defs initial_dev_def)

section \<open>Properties\<close>

text \<open>
  C19: decoding an x86 instruction always ends: whatever bytes memory holds, operand-size prefixes
  included, \<open>isa_exec_once\<close> returns a result or an error, since an instruction of 16 bytes fails
  the assertion of the trace buffer.
\<close>

theorem x86_exec_returns:
  assumes "x_snpc d = x_pc d"
  shows "\<exists>r. x86_isa_exec_once d s = Some r"
  unfolding x86_isa_exec_once_def by (rule exec_again_returns) (simp add: assms)

theorem x86_exec_returns_witness:
  "\<exists>r. x86_isa_exec_once x86_reset_decode
     initial_x86
     = Some r"
  by (rule x86_exec_returns) (simp add: x86_reset_decode_def)

text \<open>
  The x86 guest does not start: its register views are separate fields, so \<open>init_isa\<close> fails its
  register test whenever some random sample differs from the (unwritten) named register, which at
  power-on is 0.
\<close>

theorem x86_init_fails:
  assumes "i < 8" and "named (xcpu s) i \<noteq> rnd (i + 1)"
  shows "x86_init_isa rnd s = Inl AssertFail"
  using reg_test_cases [of rnd s] assms by (auto simp: x86_init_isa_def)

theorem x86_init_fails_witness:
  "x86_init_isa (\<lambda>_. 12345)
     initial_x86
     = Inl AssertFail"
  by (rule x86_init_fails [of 0]) simp_all

text \<open>
  \<open>mov r32, imm32\<close>: the byte \<open>0xb8 + r\<close> followed by a little-endian word in guest memory sets the
  32-bit view of register \<open>r\<close> to that word, touches nothing else and moves on by 5.
\<close>

theorem x86_mov_imm:
  assumes "r < 8" and "x_pc d = p" and "x_snpc d = p" and "in_pmem p" and "guest_to_host p + 5 \<le> CONFIG_MSIZE"
    and "pmem s (guest_to_host p) = 0xb8 + of_nat r"
    and "le_word (load_bytes (pmem s) (guest_to_host p + 1) 4) = v"
  shows "\<exists>d'. x86_isa_exec_once d s = Some (Inr (d', s\<lparr>xcpu := (xcpu s)\<lparr>r32 := (r32 (xcpu s))(r := v)\<rparr>\<rparr>))
    \<and> x_dnpc d' = p + 5"
proof -
  have nx: "in_pmem (p + 1)" "guest_to_host (p + 1) = guest_to_host p + 1"
    using next_in_pmem [OF assms(4), of 1] assms(5) by simp_all
  have op: "le_word (load_bytes (pmem s) (guest_to_host p) 1) = ucast (0xb8 + of_nat r :: u8)"
    by (simp add: load_bytes_def assms(6))
  have "inst_fetch p 1 s = Inr (ucast (0xb8 + of_nat r :: u8), p + 1, s)"
    using assms(4,5) op by (simp add: inst_fetch_def vaddr_ifetch_def paddr_read_pmem access_len_def)
  moreover have "inst_fetch (p + 1) 4 s = Inr (v, p + 5, s)"
    using fetch_pmem [OF nx(1), of s] nx(2) assms(5,7) by (simp add: add.commute)
  moreover have "(ucast (ucast w :: u32) :: u8) = w" for w :: u8
    by (rule bit_word_eqI) (simp add: bit_simps)
  ultimately show ?thesis
    using find_mov_imm [OF assms(1)] assms(1-3)
    by (simp add: x86_isa_exec_once_def exec_again.simps x86_inst_fetch_def assert_then_def Let_def
        x86_instpat_match_def x86_decode_operand_def Rw_def reg_write_def check_reg_index_def no_operands_def)
qed

theorem x86_mov_imm_witness:
  "\<exists>d' s'. x86_isa_exec_once x86_reset_decode
        (initial_x86\<lparr>pmem := (\<lambda>i. if i = 0 then 0xb8 else if i = 1 then 0x34 else if i = 2 then 0x12 else 0)\<rparr>)
      = Some (Inr (d', s')) \<and> r32 (xcpu s') 0 = 0x1234 \<and> x_dnpc d' = 0x80000005"
proof -
  let ?s = "initial_x86\<lparr>pmem := (\<lambda>i. if i = 0 then 0xb8 else if i = 1 then 0x34 else if i = 2 then 0x12 else 0)\<rparr>"
  have "\<exists>d'. x86_isa_exec_once x86_reset_decode ?s
      = Some (Inr (d', ?s\<lparr>xcpu := (xcpu ?s)\<lparr>r32 := (r32 (xcpu ?s))(0 := 0x1234)\<rparr>\<rparr>)) \<and> x_dnpc d' = 0x80000000 + 5"
    by (rule x86_mov_imm) (simp_all add: x86_reset_decode_def in_pmem_iff guest_to_host_in_pmem CONFIG_MSIZE_def
        load_bytes_def upt_rec)
  then show ?thesis by auto
qed

end
