(* ===== verification/Difftest.thy ===== *)
theory Difftest
  imports RiscvRun
begin

text \<open>
  Differential testing, \<open>src/cpu/difftest/dut.c\<close> (built under \<open>CONFIG_DIFFTEST\<close>): after every
  instruction the registers of the emulated CPU (the DUT) are compared with those of a reference
  loaded from a shared object. The reference is code that is not in the repository: its four entry
  points are the fields of the record \<open>reference\<close>, over an unknown state.
\<close>

section \<open>The reference\<close>

record 'r reference =
  ref_difftest_init :: "u32 \<Rightarrow> 'r \<Rightarrow> 'r"
  ref_difftest_memcpy_to_ref :: "u32 \<Rightarrow> u8 list \<Rightarrow> 'r \<Rightarrow> 'r"
  ref_difftest_regcpy_to_ref :: "CPU \<Rightarrow> 'r \<Rightarrow> 'r"
  ref_difftest_regcpy_to_dut :: "'r \<Rightarrow> CPU"
  ref_difftest_exec :: "nat \<Rightarrow> 'r \<Rightarrow> 'r"

section \<open>Operations\<close>

text \<open>\<open>difftest_skip_dut\<close>: the reference runs \<open>nr_ref\<close> instructions, one at a time.\<close>

definition difftest_skip_dut :: "'r reference \<Rightarrow> int \<Rightarrow> int \<Rightarrow> sdb \<times> 'r \<Rightarrow> sdb \<times> 'r" where
  "difftest_skip_dut R nr_ref nr_dut = (\<lambda>(s, r).
     (s\<lparr>skip_dut_nr_inst := skip_dut_nr_inst s + nr_dut\<rparr>, ((ref_difftest_exec R 1) ^^ nat nr_ref) r))"

text \<open>
  \<open>init_difftest\<close>: \<open>so\<close> is the shared object found under the file name, if any; a missing file
  name, object or symbol fails an assertion.
\<close>

definition init_difftest ::
  "(string \<Rightarrow> 'r reference option) \<Rightarrow> string option \<Rightarrow> nat \<Rightarrow> u32 \<Rightarrow> sdb \<times> 'r \<Rightarrow> ('r reference \<times> sdb \<times> 'r) res" where
  "init_difftest so ref_so_file img_size port = (\<lambda>(s, r).
     case ref_so_file of
       None \<Rightarrow> Inl AssertFail
     | Some f \<Rightarrow>
         (case so f of
            None \<Rightarrow> Inl AssertFail
          | Some R \<Rightarrow>
              (let r1 = ref_difftest_init R port r;
                   h = guest_to_host RESET_VECTOR in
               if CONFIG_MSIZE < h + img_size then Inl OutOfBounds
               else
                (let r2 = ref_difftest_memcpy_to_ref R RESET_VECTOR (load_bytes (pmem s) h img_size) r1
                 in Inr (R, s, ref_difftest_regcpy_to_ref R (cpu s) r2)))))"

text \<open>\<open>checkregs\<close>; \<open>ok\<close> is the guest's \<open>isa_difftest_checkregs\<close>.\<close>

definition checkregs :: "(CPU \<Rightarrow> u32 \<Rightarrow> sdb \<Rightarrow> bool) \<Rightarrow> CPU \<Rightarrow> u32 \<Rightarrow> sdb \<Rightarrow> sdb" where
  "checkregs ok ref_r p s =
     (if \<not> ok ref_r p s
      then s\<lparr>nemu_state := (nemu_state s)\<lparr>run_state := NEMU_ABORT, halt_pc := p\<rparr>\<rparr> else s)"

definition difftest_step ::
  "'r reference \<Rightarrow> (CPU \<Rightarrow> u32 \<Rightarrow> sdb \<Rightarrow> bool) \<Rightarrow> u32 \<Rightarrow> u32 \<Rightarrow> sdb \<times> 'r \<Rightarrow> (sdb \<times> 'r) res" where
  "difftest_step R ok p npc = (\<lambda>(s, r).
     if 0 < skip_dut_nr_inst s then
       (let ref_r = ref_difftest_regcpy_to_dut R r in
        if pc ref_r = npc then Inr (checkregs ok ref_r npc (s\<lparr>skip_dut_nr_inst := 0\<rparr>), r)
        else (let s1 = s\<lparr>skip_dut_nr_inst := skip_dut_nr_inst s - 1\<rparr> in
              if skip_dut_nr_inst s1 = 0 then Inl Panic else Inr (s1, r)))
     else if is_skip_ref s then
       Inr (s\<lparr>is_skip_ref := False\<rparr>, ref_difftest_regcpy_to_ref R (cpu s) r)
     else
       (let r1 = ref_difftest_exec R 1 r in
        Inr (checkregs ok (ref_difftest_regcpy_to_dut R r1) p s, r1)))"

text \<open>\<open>trace_and_difftest\<close> and the loop of \<open>execute\<close> with the difftest call compiled in.\<close>

definition trace_and_difftest_on ::
  "guest \<Rightarrow> 'r reference \<Rightarrow> (CPU \<Rightarrow> u32 \<Rightarrow> sdb \<Rightarrow> bool) \<Rightarrow> u32 \<Rightarrow> u32 \<Rightarrow> sdb \<times> 'r \<Rightarrow> (sdb \<times> 'r) run" where
  "trace_and_difftest_on g R ok p npc sr =
     bind_run (Some (difftest_step R ok p npc sr)) (\<lambda>(s, r).
     bind_run (trace_and_difftest g npc s) (\<lambda>s1. Some (Inr (s1, r))))"

fun execute_on ::
  "guest \<Rightarrow> 'r reference \<Rightarrow> (CPU \<Rightarrow> u32 \<Rightarrow> sdb \<Rightarrow> bool) \<Rightarrow> nat \<Rightarrow> Decode \<Rightarrow> sdb \<times> 'r \<Rightarrow> (Decode \<times> sdb \<times> 'r) run" where
  "execute_on g R ok 0 d sr = Some (Inr (d, sr))"
| "execute_on g R ok (Suc n) d (s, r) =
     bind_run (Some (exec_once g d (pc (cpu s)) s)) (\<lambda>(d1, s1).
     bind_run (trace_and_difftest_on g R ok (d_pc d1) (pc (cpu s1))
         (s1\<lparr>g_nr_guest_inst := g_nr_guest_inst s1 + 1\<rparr>, r)) (\<lambda>(s2, r2).
       if run_state (nemu_state s2) \<noteq> NEMU_RUNNING then Some (Inr (d1, s2, r2))
       else bind_run (Some (if conf_device s2 then device_update s2 else Inr s2)) (\<lambda>s3.
         execute_on g R ok n d1 (s3, r2))))"

section \<open>Lemmas\<close>

text \<open>Several checks in a row, for the instructions \<open>(pc, npc)\<close> of a list.\<close>

fun difftest_steps ::
  "'r reference \<Rightarrow> (CPU \<Rightarrow> u32 \<Rightarrow> sdb \<Rightarrow> bool) \<Rightarrow> (u32 \<times> u32) list \<Rightarrow> sdb \<times> 'r \<Rightarrow> (sdb \<times> 'r) res" where
  "difftest_steps R ok [] sr = Inr sr"
| "difftest_steps R ok ((p, npc) # ps) sr = bind_res (difftest_step R ok p npc sr) (difftest_steps R ok ps)"

lemma skip_window:
  "skip_dut_nr_inst s = int n \<Longrightarrow> 0 < n \<Longrightarrow>
   list_all (\<lambda>(p, npc). npc \<noteq> pc (ref_difftest_regcpy_to_dut R r)) ps \<Longrightarrow>
   difftest_steps R ok ps (s, r) =
     (if length ps < n then Inr (s\<lparr>skip_dut_nr_inst := int (n - length ps)\<rparr>, r) else Inl Panic)"
proof (induction ps arbitrary: s n)
  case Nil
  then show ?case by simp
next
  case (Cons q ps)
  obtain p npc where q: "q = (p, npc)" by fastforce
  let ?s1 = "s\<lparr>skip_dut_nr_inst := int n - 1\<rparr>"
  show ?case
  proof (cases "n = 1")
    case True
    with Cons.prems q show ?thesis by (auto simp: difftest_step_def Let_def)
  next
    case False
    have "difftest_step R ok p npc (s, r) = Inr (?s1, r)"
      using Cons.prems q False by (auto simp: difftest_step_def Let_def)
    moreover have "difftest_steps R ok ps (?s1, r) =
       (if length ps < n - 1 then Inr (?s1\<lparr>skip_dut_nr_inst := int (n - 1 - length ps)\<rparr>, r) else Inl Panic)"
      using Cons.prems False by (intro Cons.IH) auto
    ultimately show ?thesis using False q by auto
  qed
qed

text \<open>A reference that holds only registers and executes nothing, for concrete runs.\<close>

definition echo_reference :: "CPU reference" where
  "echo_reference = \<lparr>ref_difftest_init = (\<lambda>_ r. r), ref_difftest_memcpy_to_ref = (\<lambda>_ _ r. r),
     ref_difftest_regcpy_to_ref = (\<lambda>c _. c), ref_difftest_regcpy_to_dut = (\<lambda>r. r), ref_difftest_exec = (\<lambda>_ r. r)\<rparr>"

section \<open>Properties\<close>

text \<open>
  C20: instruction packing: after \<open>difftest_skip_dut\<close> the checks are suspended while the DUT runs after
  the reference. As long as the DUT's next pc is not the reference's, each of fewer than \<open>nr_dut\<close>
  instructions only counts down, and the \<open>nr_dut\<close>-th panics; the instruction that catches up ends
  the suspension and is compared, with no other change.
\<close>

theorem difftest_skip_bounded:
  assumes "skip_dut_nr_inst s = 0" and "0 < nr_dut" and "difftest_skip_dut R nr_ref nr_dut (s, r) = (s1, r1)"
    and "list_all (\<lambda>(p, npc). npc \<noteq> pc (ref_difftest_regcpy_to_dut R r1)) ps"
  shows "(length ps < nat nr_dut \<longrightarrow> difftest_steps R ok (ps @ [(p, pc (ref_difftest_regcpy_to_dut R r1))]) (s1, r1)
       = Inr (checkregs ok (ref_difftest_regcpy_to_dut R r1) (pc (ref_difftest_regcpy_to_dut R r1)) s, r1))
    \<and> (nat nr_dut \<le> length ps \<longrightarrow> difftest_steps R ok ps (s1, r1) = Inl Panic)"
proof -
  have s1: "skip_dut_nr_inst s1 = int (nat nr_dut)" "s1\<lparr>skip_dut_nr_inst := 0\<rparr> = s"
    using assms(1-3) by (auto simp: difftest_skip_dut_def)
  have app: "difftest_steps R ok (xs @ ys) sr = bind_res (difftest_steps R ok xs sr) (difftest_steps R ok ys)" for xs ys sr
    by (induction xs arbitrary: sr) (auto simp: bind_res_def split: sum.splits)
  show ?thesis
    using skip_window [OF s1(1) _ assms(4)] assms(2) s1(2)
    by (auto simp: app difftest_step_def Let_def)
qed

theorem difftest_skip_bounded_witness:
  "difftest_steps echo_reference (\<lambda>c p s. True) [(0, 4), (4, 8)]
       (difftest_skip_dut echo_reference 1 3 (initial_sdb, \<lparr>gpr = (\<lambda>_. 0), pc = 8\<rparr>))
     = Inr (initial_sdb, \<lparr>gpr = (\<lambda>_. 0), pc = 8\<rparr>)
   \<and> difftest_steps echo_reference (\<lambda>c p s. True) [(0, 4), (4, 4), (4, 4)]
       (difftest_skip_dut echo_reference 1 3 (initial_sdb, \<lparr>gpr = (\<lambda>_. 0), pc = 8\<rparr>)) = Inl Panic"
proof -
  let ?r = "\<lparr>gpr = (\<lambda>_. 0), pc = 8\<rparr> :: CPU"
  have skip: "skip_dut_nr_inst initial_sdb = 0"
    by (simp add: initial_sdb_def initial_nemu_def initial_mem_def mem.defs dev.defs initial_dev_def nemu.defs sdb.defs)
  obtain s1 where s1: "difftest_skip_dut echo_reference 1 3 (initial_sdb, ?r) = (s1, ?r)"
    by (simp add: difftest_skip_dut_def echo_reference_def)
  note d = difftest_skip_bounded [OF skip _ s1, where ok = "\<lambda>c p s. True"]
  show ?thesis
    using d [of "[(0, 4)]" 4] d [of "[(0, 4), (4, 4), (4, 4)]" 4] s1
    by (simp add: echo_reference_def checkregs_def)
qed



end
