(* ===== verification/Nes.thy ===== *)
theory Nes
  imports Prelude "HOL-Library.Monad_Syntax"
begin

text \<open>
  LiteNES, the NES emulator under \<open>am-kernels/kernels/litenes/src\<close>: the state of the whole
  program and the bit operations of \<open>common.c\<close>. The file-level variables of \<open>cpu.c\<close>, \<open>ppu.c\<close>,
  \<open>mmc.c\<close>, \<open>psg.c\<close> and \<open>fce.c\<close> are the fields of one record; the functions of the emulator take
  it and return it updated. Arrays are functions of their index. An access outside an array, a
  failed \<open>assert\<close> and \<open>panic_on\<close> are recorded in the field \<open>fault\<close>, which keeps the first
  one: from there on the C program has stopped or has no defined behaviour, and the rest of the
  state has no meaning. A state with \<open>fault = None\<close> is reached by defined behaviour only.
\<close>

section \<open>The 6502 registers and their flags (\<open>cpu-internal.h\<close>)\<close>

definition carry_flag :: u8 where "carry_flag = 0x01"
definition zero_flag :: u8 where "zero_flag = 0x02"
definition interrupt_flag :: u8 where "interrupt_flag = 0x04"
definition decimal_flag :: u8 where "decimal_flag = 0x08"
definition break_flag :: u8 where "break_flag = 0x10"
definition unused_flag :: u8 where "unused_flag = 0x20"
definition overflow_flag :: u8 where "overflow_flag = 0x40"
definition negative_flag :: u8 where "negative_flag = 0x80"

definition carry_bp :: nat where "carry_bp = 0"
definition zero_bp :: nat where "zero_bp = 1"
definition interrupt_bp :: nat where "interrupt_bp = 2"
definition decimal_bp :: nat where "decimal_bp = 3"
definition break_bp :: nat where "break_bp = 4"
definition unused_bp :: nat where "unused_bp = 5"
definition overflow_bp :: nat where "overflow_bp = 6"
definition negative_bp :: nat where "negative_bp = 7"

lemmas flag_defs = carry_flag_def zero_flag_def interrupt_flag_def decimal_flag_def
  break_flag_def unused_flag_def overflow_flag_def negative_flag_def

lemmas bp_defs = carry_bp_def zero_bp_def interrupt_bp_def decimal_bp_def
  break_bp_def unused_bp_def overflow_bp_def negative_bp_def

record CPU_STATE =
  cpu_PC :: u16
  cpu_SP :: u8
  cpu_A :: u8
  cpu_X :: u8
  cpu_Y :: u8
  cpu_P :: u8

section \<open>The picture processor (\<open>ppu.h\<close>)\<close>

record PPU_STATE =
  PPUCTRL :: u8
  PPUMASK :: u8
  PPUSTATUS :: u8
  OAMADDR :: u8
  OAMDATA :: u8
  PPUSCROLL :: u16
  PPUSCROLL_X :: u8
  PPUSCROLL_Y :: u8
  PPUADDR :: u16
  PPUDATA :: u16
  scroll_received_x :: bool
  addr_received_high_byte :: bool
  ppu_ready :: bool
  mirroring :: int
  mirroring_xor :: int
  ppu_x :: int
  scanline :: int

section \<open>Instructions\<close>

text \<open>
  The handlers and the addressing modes of \<open>cpu.c\<close> are functions reached through two arrays
  of pointers. A pointer is the name of its function, the handlers grouped as the sections of
  \<open>cpu.c\<close> group them; \<open>FE\<close> is \<open>____FE____\<close>.
\<close>

datatype op_arith =
    ADC | SBC | AND_op | BIT_op | EOR | ORA | CMP | CPX | CPY | INC | INX | INY | DEC | DEX | DEY

datatype op_shift = ASL | ASLA | LSR | LSRA | ROL | ROLA | ROR | RORA

datatype op_move =
    LDA | LDX | LDY | STA | STX | STY | TAX | TXA | TAY | TYA | TSX | TXS | PHP | PHA | PLA | PLP

datatype op_flow =
    BCS | BEQ | BMI | BVS | BNE | BCC | BPL | BVC | JMP | JSR | RTS | BRK | RTI | NOP | FE

datatype op_flag = CLC | CLD | CLI | CLV | SEC | SED | SEI

datatype op_ext = ASO | AXA | AXS | DCM | INS | LAX | LSE | RLA | RRA

datatype cpu_op =
    Arith op_arith | Shift op_shift | Move op_move | Flow op_flow | Flag op_flag | Ext op_ext

datatype cpu_mode =
    implied | immediate | zero_page | zero_page_x | zero_page_y | absolute | absolute_x
  | absolute_y | relative | indirect | indirect_x | indirect_y

text \<open>
  One row of the five arrays \<open>cpu_op_cycles\<close>, \<open>cpu_op_handler\<close>, \<open>cpu_op_name\<close>,
  \<open>cpu_op_address_mode\<close> and \<open>cpu_op_in_base_instruction_set\<close>; the macros that fill them
  always set all five. No row is the zero row of the C arrays: null pointers and 0 cycles.
\<close>

record cpu_row =
  row_cycles :: int
  row_handler :: cpu_op
  row_name :: string
  row_mode :: cpu_mode
  row_base :: bool

section \<open>The state of the emulator\<close>

text \<open>The file-level variables of \<open>ppu.c\<close>.\<close>

record ppu_file =
  ppu_2007_first_read :: bool
  ppu_addr_latch :: u8
  PPU_SPRRAM :: "u8 \<Rightarrow> u8"
  PPU_RAM :: "u16 \<Rightarrow> u8"
  ppu_sprite_hit_occured :: bool
  ppu_latch :: u8
  ppu_screen_background :: "int \<Rightarrow> int \<Rightarrow> u8"
  ppu_l_h_addition_table :: "u8 \<Rightarrow> u8 \<Rightarrow> nat \<Rightarrow> u8"
  ppu_l_h_addition_flip_table :: "u8 \<Rightarrow> u8 \<Rightarrow> nat \<Rightarrow> u8"

text \<open>Those of \<open>mmc.c\<close>, of \<open>psg.c\<close> and of \<open>fce.c\<close>.\<close>

record mmc_file =
  mmc_id :: u8
  mmc_chr_pages :: "nat \<Rightarrow> u16 \<Rightarrow> u8"
  mmc_chr_pages_number :: nat
  memory :: "u16 \<Rightarrow> u8"

record psg_file =
  psg_p :: int
  key_state :: "nat \<Rightarrow> int"
  prev_write :: u8

text \<open>The header of a cartridge image (\<open>ines_header\<close> of \<open>fce.c\<close>), 16 bytes.\<close>

record ines_header =
  ines_signature :: "u8 list"
  prg_block_count :: u8
  chr_block_count :: u8
  rom_type :: u16

record fce_file =
  fce_rom_header :: "ines_header option"
  frame_cnt :: int
  canvas :: "nat \<Rightarrow> u32"
  gtime :: int

text \<open>
  The devices of the abstract machine: the replies still to be read (the \<open>n\<close>-th keyboard event,
  the \<open>n\<close>-th reading of the clock in microseconds, the screen size) with the number of replies
  used so far, and the frames drawn, the last one first (position and pixels).
\<close>

record am_devices =
  kbd :: "nat \<Rightarrow> nat \<times> bool"
  kbd_reads :: nat
  uptime_us :: "nat \<Rightarrow> u64"
  uptime_reads :: nat
  gpu_size :: "int \<times> int"
  fb_frames :: "(int \<times> int \<times> (nat \<Rightarrow> u32)) list"

record nes =
  cpu :: CPU_STATE
  CPU_RAM :: "u16 \<Rightarrow> u8"
  op_value :: int
  op_address :: int
  op_cycles :: int
  cpu_cycles :: u64
  cpu_rows :: "u8 \<Rightarrow> cpu_row option"
  ppu :: PPU_STATE
  ppuf :: ppu_file
  mmc :: mmc_file
  psg :: psg_file
  fce :: fce_file
  am :: am_devices
  fault :: "c_error option"

text \<open>
  The state when \<open>main\<close> starts: static variables are zero but for \<open>p = 10\<close> of
  \<open>psg.c\<close>; the devices are given.
\<close>

definition initial_nes :: "am_devices \<Rightarrow> nes" where
  "initial_nes dev = \<lparr>
     cpu = \<lparr>cpu_PC = 0, cpu_SP = 0, cpu_A = 0, cpu_X = 0, cpu_Y = 0, cpu_P = 0\<rparr>,
     CPU_RAM = (\<lambda>_. 0), op_value = 0, op_address = 0, op_cycles = 0, cpu_cycles = 0,
     cpu_rows = Map.empty,
     ppu = \<lparr>PPUCTRL = 0, PPUMASK = 0, PPUSTATUS = 0, OAMADDR = 0, OAMDATA = 0, PPUSCROLL = 0,
            PPUSCROLL_X = 0, PPUSCROLL_Y = 0, PPUADDR = 0, PPUDATA = 0,
            scroll_received_x = False, addr_received_high_byte = False, ppu_ready = False,
            mirroring = 0, mirroring_xor = 0, ppu_x = 0, scanline = 0\<rparr>,
     ppuf = \<lparr>ppu_2007_first_read = False, ppu_addr_latch = 0, PPU_SPRRAM = (\<lambda>_. 0),
             PPU_RAM = (\<lambda>_. 0), ppu_sprite_hit_occured = False, ppu_latch = 0,
             ppu_screen_background = (\<lambda>_ _. 0), ppu_l_h_addition_table = (\<lambda>_ _ _. 0),
             ppu_l_h_addition_flip_table = (\<lambda>_ _ _. 0)\<rparr>,
     mmc = \<lparr>mmc_id = 0, mmc_chr_pages = (\<lambda>_ _. 0), mmc_chr_pages_number = 0,
            memory = (\<lambda>_. 0)\<rparr>,
     psg = \<lparr>psg_p = 10, key_state = (\<lambda>_. 0), prev_write = 0\<rparr>,
     fce = \<lparr>fce_rom_header = None, frame_cnt = 0, canvas = (\<lambda>_. 0), gtime = 0\<rparr>,
     am = dev, fault = None\<rparr>"

text \<open>Devices without keyboard events and with a clock that stands at 0.\<close>

definition quiet_devices :: am_devices where
  "quiet_devices = \<lparr>kbd = (\<lambda>_. (0, False)), kbd_reads = 0, uptime_us = (\<lambda>_. 0),
     uptime_reads = 0, gpu_size = (400, 300), fb_frames = []\<rparr>"

text \<open>The first fault is kept.\<close>

definition raise_fault :: "c_error \<Rightarrow> nes \<Rightarrow> nes" where
  "raise_fault e s = (if fault s = None then s\<lparr>fault := Some e\<rparr> else s)"

text \<open>\<open>check c s\<close> is \<open>s\<close> where the access of the array, or the \<open>assert\<close>, is right.\<close>

definition check_fault :: "c_error \<Rightarrow> bool \<Rightarrow> nes \<Rightarrow> nes" where
  "check_fault e c s = (if c then s else raise_fault e s)"

lemma check_fault_True [simp]: "check_fault e True s = s"
  by (simp add: check_fault_def)

section \<open>Bit operations (\<open>common.c\<close>)\<close>

text \<open>
  The macro \<open>M_common\<close> instantiates the setters for \<open>byte\<close>, \<open>word\<close> and \<open>dword\<close>; here they are
  generic in the width. \<open>1L << position\<close> is computed in \<open>long\<close> and cut to the width of the
  variable by the assignment; \<open>common_bit_set\<close> sees its operand extended to \<open>long long\<close>.
\<close>

definition common_bit_set :: "'a::len word \<Rightarrow> nat \<Rightarrow> bool" where
  "common_bit_set v n = (v AND push_bit n 1 \<noteq> 0)"

definition common_set_bit :: "nat \<Rightarrow> 'a::len word \<Rightarrow> 'a word" where
  "common_set_bit n v = v OR push_bit n 1"

definition common_unset_bit :: "nat \<Rightarrow> 'a::len word \<Rightarrow> 'a word" where
  "common_unset_bit n v = v AND NOT (push_bit n 1)"

definition common_toggle_bit :: "nat \<Rightarrow> 'a::len word \<Rightarrow> 'a word" where
  "common_toggle_bit n v = v XOR push_bit n 1"

definition common_modify_bit :: "nat \<Rightarrow> bool \<Rightarrow> 'a::len word \<Rightarrow> 'a word" where
  "common_modify_bit n b v = (if b then common_set_bit n v else common_unset_bit n v)"

named_theorems nes_bits \<open>the bit operations of \<open>common.c\<close> by \<open>bit\<close>\<close>

lemma common_bit_set_bit [nes_bits]: "common_bit_set v n = bit v n"
  unfolding common_bit_set_def
  by (simp add: and_exp_eq_0_iff_not_bit)

lemma bit_common_set_bit [nes_bits]:
  "bit (common_set_bit n (v :: 'a::len word)) k \<longleftrightarrow> (k = n \<and> n < LENGTH('a)) \<or> bit v k"
  by (auto simp: common_set_bit_def bit_or_iff bit_push_bit_iff bit_1_iff bit_exp_iff)

lemma bit_common_unset_bit [nes_bits]:
  "bit (common_unset_bit n (v :: 'a::len word)) k \<longleftrightarrow> k \<noteq> n \<and> bit v k"
  by (auto simp: common_unset_bit_def bit_and_iff bit_not_iff bit_push_bit_iff bit_1_iff bit_exp_iff
      dest: bit_imp_le_length)

lemma bit_common_modify_bit [nes_bits]:
  "bit (common_modify_bit n b (v :: 'a::len word)) k \<longleftrightarrow>
     (if k = n then b \<and> n < LENGTH('a) else bit v k)"
  by (auto simp: common_modify_bit_def nes_bits dest: bit_imp_le_length)

lemma bit_common_toggle_bit [nes_bits]:
  "bit (common_toggle_bit n (v :: 'a::len word)) k \<longleftrightarrow> (bit v k \<noteq> (k = n \<and> n < LENGTH('a)))"
  by (auto simp: common_toggle_bit_def bit_xor_iff bit_push_bit_iff bit_1_iff bit_exp_iff
      dest: bit_imp_le_length)

lemma byte_bound: "uint (w :: u8) < 256" "0 \<le> uint (w :: u8)"
  using uint_lt2p [of w] by simp_all

end
