(* ===== verification/NesBus.thy ===== *)
theory NesBus
  imports Nes
begin

text \<open>
  What the 6502 sees on its bus: its RAM (\<open>cpu.c\<close>), the registers of the picture processor
  (the first and last parts of \<open>ppu.c\<close>), the cartridge (\<open>mmc.c\<close>), the joystick (\<open>psg.c\<close>)
  and the dispatch by address of \<open>memory.c\<close>, with the DMA transfer of sprites. A read has
  effects on the registers, so it returns the byte and the new state.
\<close>

section \<open>The RAM of the processor\<close>

definition cpu_ram_read :: "u16 \<Rightarrow> nes \<Rightarrow> u8" where
  "cpu_ram_read address s = CPU_RAM s (address AND 0x7FF)"

definition cpu_ram_write :: "u16 \<Rightarrow> u8 \<Rightarrow> nes \<Rightarrow> nes" where
  "cpu_ram_write address d s = s\<lparr>CPU_RAM := (CPU_RAM s)(address AND 0x7FF := d)\<rparr>"

section \<open>The control, mask and status registers of the picture processor\<close>

definition ppu_base_nametable_addresses :: "u16 list" where
  "ppu_base_nametable_addresses = [0x2000, 0x2400, 0x2800, 0x2C00]"

definition ppu_base_nametable_address :: "nes \<Rightarrow> u16" where
  "ppu_base_nametable_address s = ppu_base_nametable_addresses ! unat (PPUCTRL (ppu s) AND 3)"

definition ppu_vram_address_increment :: "nes \<Rightarrow> u8" where
  "ppu_vram_address_increment s = (if common_bit_set (PPUCTRL (ppu s)) 2 then 32 else 1)"

definition ppu_sprite_pattern_table_address :: "nes \<Rightarrow> u16" where
  "ppu_sprite_pattern_table_address s = (if common_bit_set (PPUCTRL (ppu s)) 3 then 0x1000 else 0)"

definition ppu_background_pattern_table_address :: "nes \<Rightarrow> u16" where
  "ppu_background_pattern_table_address s =
     (if common_bit_set (PPUCTRL (ppu s)) 4 then 0x1000 else 0)"

definition ppu_sprite_height :: "nes \<Rightarrow> u8" where
  "ppu_sprite_height s = (if common_bit_set (PPUCTRL (ppu s)) 5 then 16 else 8)"

definition ppu_generates_nmi :: "nes \<Rightarrow> bool" where
  "ppu_generates_nmi s = common_bit_set (PPUCTRL (ppu s)) 7"

definition ppu_renders_grayscale :: "nes \<Rightarrow> bool" where
  "ppu_renders_grayscale s = common_bit_set (PPUMASK (ppu s)) 0"

definition ppu_shows_background_in_leftmost_8px :: "nes \<Rightarrow> bool" where
  "ppu_shows_background_in_leftmost_8px s = common_bit_set (PPUMASK (ppu s)) 1"

definition ppu_shows_sprites_in_leftmost_8px :: "nes \<Rightarrow> bool" where
  "ppu_shows_sprites_in_leftmost_8px s = common_bit_set (PPUMASK (ppu s)) 2"

definition ppu_shows_background :: "nes \<Rightarrow> bool" where
  "ppu_shows_background s = common_bit_set (PPUMASK (ppu s)) 3"

definition ppu_shows_sprites :: "nes \<Rightarrow> bool" where
  "ppu_shows_sprites s = common_bit_set (PPUMASK (ppu s)) 4"

definition ppu_intensifies_reds :: "nes \<Rightarrow> bool" where
  "ppu_intensifies_reds s = common_bit_set (PPUMASK (ppu s)) 5"

definition ppu_intensifies_greens :: "nes \<Rightarrow> bool" where
  "ppu_intensifies_greens s = common_bit_set (PPUMASK (ppu s)) 6"

definition ppu_intensifies_blues :: "nes \<Rightarrow> bool" where
  "ppu_intensifies_blues s = common_bit_set (PPUMASK (ppu s)) 7"

text \<open>The eight setters of the mask differ in the bit: \<open>n\<close> is 0 to 7 in the order of the code.\<close>

definition ppu_set_mask_bit :: "nat \<Rightarrow> bool \<Rightarrow> nes \<Rightarrow> nes" where
  "ppu_set_mask_bit n yesno = ppu_update (PPUMASK_update (common_modify_bit n yesno))"

definition ppu_sprite_overflow :: "nes \<Rightarrow> bool" where
  "ppu_sprite_overflow s = common_bit_set (PPUSTATUS (ppu s)) 5"

definition ppu_sprite_0_hit :: "nes \<Rightarrow> bool" where
  "ppu_sprite_0_hit s = common_bit_set (PPUSTATUS (ppu s)) 6"

definition ppu_in_vblank :: "nes \<Rightarrow> bool" where
  "ppu_in_vblank s = common_bit_set (PPUSTATUS (ppu s)) 7"

definition ppu_set_sprite_overflow :: "bool \<Rightarrow> nes \<Rightarrow> nes" where
  "ppu_set_sprite_overflow yesno = ppu_update (PPUSTATUS_update (common_modify_bit 5 yesno))"

definition ppu_set_sprite_0_hit :: "bool \<Rightarrow> nes \<Rightarrow> nes" where
  "ppu_set_sprite_0_hit yesno = ppu_update (PPUSTATUS_update (common_modify_bit 6 yesno))"

definition ppu_set_in_vblank :: "bool \<Rightarrow> nes \<Rightarrow> nes" where
  "ppu_set_in_vblank yesno = ppu_update (PPUSTATUS_update (common_modify_bit 7 yesno))"

lemmas ppu_flag_defs = ppu_vram_address_increment_def ppu_sprite_pattern_table_address_def
  ppu_background_pattern_table_address_def ppu_sprite_height_def ppu_generates_nmi_def
  ppu_shows_background_def ppu_shows_sprites_def ppu_shows_background_in_leftmost_8px_def
  ppu_sprite_overflow_def ppu_sprite_0_hit_def ppu_in_vblank_def

lemmas ppu_set_defs = ppu_set_sprite_overflow_def ppu_set_sprite_0_hit_def ppu_set_in_vblank_def
  ppu_set_mask_bit_def

section \<open>The memory of the picture processor\<close>

text \<open>The array \<open>PPU_RAM\<close> has 0x4000 bytes; \<open>0xFFFF\<close> lies outside it.\<close>

definition ppu_get_real_ram_address :: "u16 \<Rightarrow> u16" where
  "ppu_get_real_ram_address address =
     (if address < 0x2000 then address
      else if address < 0x3F00 then (if address < 0x3000 then address else address)
      else if address < 0x4000 then
        (let a = 0x3F00 OR (address AND 0x1F) in
         if a = 0x3F10 \<or> a = 0x3F14 \<or> a = 0x3F18 \<or> a = 0x3F1C then a - 0x10 else a)
      else 0xFFFF)"

definition ppu_ram_read :: "u16 \<Rightarrow> nes \<Rightarrow> u8 \<times> nes" where
  "ppu_ram_read address s =
     (let r = ppu_get_real_ram_address address
      in (PPU_RAM (ppuf s) r, check_fault OutOfBounds (r < 0x4000) s))"

definition ppu_ram_write :: "u16 \<Rightarrow> u8 \<Rightarrow> nes \<Rightarrow> nes" where
  "ppu_ram_write address d s =
     (let r = ppu_get_real_ram_address address
      in ppuf_update (PPU_RAM_update (\<lambda>m. m(r := d))) (check_fault OutOfBounds (r < 0x4000) s))"

text \<open>\<open>memcpy\<close> of \<open>n\<close> bytes into an array of bytes from an index on.\<close>

definition copy_bytes :: "nat \<Rightarrow> (nat \<Rightarrow> u8) \<Rightarrow> nat \<Rightarrow> (u16 \<Rightarrow> u8) \<Rightarrow> u16 \<Rightarrow> u8" where
  "copy_bytes address source n m =
     (\<lambda>i. if address \<le> unat i \<and> unat i < address + n then source (unat i - address) else m i)"

definition ppu_copy :: "u16 \<Rightarrow> (nat \<Rightarrow> u8) \<Rightarrow> nat \<Rightarrow> nes \<Rightarrow> nes" where
  "ppu_copy address source n s =
     ppuf_update (PPU_RAM_update (copy_bytes (unat address) source n))
       (check_fault OutOfBounds (unat address + n \<le> 0x4000) s)"

definition ppu_sprram_write :: "u8 \<Rightarrow> nes \<Rightarrow> nes" where
  "ppu_sprram_write d s =
     ppu_update (OAMADDR_update (\<lambda>a. a + 1))
       (ppuf_update (PPU_SPRRAM_update (\<lambda>m. m(OAMADDR (ppu s) := d))) s)"

section \<open>The ports of the picture processor\<close>

definition set_latch :: "u8 \<Rightarrow> nes \<Rightarrow> nes" where
  "set_latch d = ppuf_update (ppu_latch_update (\<lambda>_. d))"

definition set_first_read :: "bool \<Rightarrow> nes \<Rightarrow> nes" where
  "set_first_read b = ppuf_update (ppu_2007_first_read_update (\<lambda>_. b))"

definition mask_ppuaddr :: "nes \<Rightarrow> nes" where
  "mask_ppuaddr = ppu_update (PPUADDR_update (\<lambda>a. a AND 0x3FFF))"

definition ppuio_read_status :: "nes \<Rightarrow> u8 \<times> nes" where
  "ppuio_read_status s =
     (let v = PPUSTATUS (ppu s);
          s = ppu_set_sprite_0_hit False (ppu_set_in_vblank False s);
          s = s\<lparr>ppu := (ppu s)\<lparr>scroll_received_x := False, PPUSCROLL := 0,
                              addr_received_high_byte := False\<rparr>\<rparr>;
          s = ppuf_update (ppu_addr_latch_update (\<lambda>_. 0)) (set_latch v s)
      in (v, set_first_read True s))"

definition ppuio_read_data :: "nes \<Rightarrow> u8 \<times> nes" where
  "ppuio_read_data s0 =
     (let (d, s) = ppu_ram_read (PPUADDR (ppu s0)) s0;
          s = (if PPUADDR (ppu s) < 0x3F00 then set_latch d s else set_latch 0 s)
      in if ppu_2007_first_read (ppuf s) then (d, set_first_read False s)
         else (d, ppu_update
                    (PPUADDR_update (\<lambda>a. a + ucast (ppu_vram_address_increment s))) s))"

definition ppuio_read :: "u16 \<Rightarrow> nes \<Rightarrow> u8 \<times> nes" where
  "ppuio_read address s0 =
     (let s = mask_ppuaddr s0; r = address AND 7
      in if r = 2 then ppuio_read_status s
         else if r = 4 then
           (let d = PPU_SPRRAM (ppuf s) (OAMADDR (ppu s)) in (d, set_latch d s))
         else if r = 7 then ppuio_read_data s
         else (0xFF, s))"

text \<open>
  The test of port 7, \<open>PPUADDR > 0x1FFF || PPUADDR < 0x4000\<close>, is written as in the code. Port 6
  returns before the last assignment of the latch when the unit is not ready, which the first
  assignment has already made.
\<close>

definition ppuio_write_data :: "u8 \<Rightarrow> nes \<Rightarrow> nes" where
  "ppuio_write_data d s =
     (let a = PPUADDR (ppu s)
      in if a > 0x1FFF \<or> a < 0x4000
         then ppu_ram_write a d (ppu_ram_write (a XOR word_of_int (mirroring_xor (ppu s))) d s)
         else ppu_ram_write a d s)"

definition ppuio_write_addr :: "u8 \<Rightarrow> nes \<Rightarrow> nes" where
  "ppuio_write_addr d s =
     (let s = (if addr_received_high_byte (ppu s)
               then ppu_update (PPUADDR_update
                      (\<lambda>_. push_bit 8 (ucast (ppu_addr_latch (ppuf s))) + ucast d)) s
               else ppuf_update (ppu_addr_latch_update (\<lambda>_. d)) s)
      in set_first_read True (ppu_update (addr_received_high_byte_update Not) s))"

definition ppuio_write :: "u16 \<Rightarrow> u8 \<Rightarrow> nes \<Rightarrow> nes" where
  "ppuio_write address d s0 =
     (let r = address AND 7; s = mask_ppuaddr (set_latch d s0)
      in if r = 0 then
           set_latch d (if ppu_ready (ppu s) then ppu_update (PPUCTRL_update (\<lambda>_. d)) s else s)
         else if r = 1 then
           set_latch d (if ppu_ready (ppu s) then ppu_update (PPUMASK_update (\<lambda>_. d)) s else s)
         else if r = 3 then set_latch d (ppu_update (OAMADDR_update (\<lambda>_. d)) s)
         else if r = 4 then set_latch d (ppu_sprram_write d s)
         else if r = 5 then
           set_latch d (ppu_update (scroll_received_x_update Not)
             (if scroll_received_x (ppu s) then ppu_update (PPUSCROLL_Y_update (\<lambda>_. d)) s
              else ppu_update (PPUSCROLL_X_update (\<lambda>_. d)) s))
         else if r = 6 then
           (if \<not> ppu_ready (ppu s) then s else set_latch d (ppuio_write_addr d s))
         else if r = 7 then set_latch d (ppuio_write_data d s)
         else set_latch d s)"

definition ppu_set_mirroring :: "u8 \<Rightarrow> nes \<Rightarrow> nes" where
  "ppu_set_mirroring m =
     ppu_update (\<lambda>p. p\<lparr>mirroring := uint m, mirroring_xor := push_bit (unat m) 0x400\<rparr>)"

text \<open>
  The initialisation, with its three nested loops over the tables of pixel values as the
  function they tabulate: pixel \<open>x\<close> of a row with low byte \<open>l\<close> and high byte \<open>h\<close>.
\<close>

definition l_h_addition :: "u8 \<Rightarrow> u8 \<Rightarrow> nat \<Rightarrow> u8" where
  "l_h_addition l h x =
     push_bit 1 (drop_bit (7 - x) h AND 1) OR (drop_bit (7 - x) l AND 1)"

definition l_h_addition_flip :: "u8 \<Rightarrow> u8 \<Rightarrow> nat \<Rightarrow> u8" where
  "l_h_addition_flip l h x = push_bit 1 (drop_bit x h AND 1) OR (drop_bit x l AND 1)"

definition ppu_init :: "nes \<Rightarrow> nes" where
  "ppu_init s = s\<lparr>
     ppu := (ppu s)\<lparr>PPUCTRL := 0, PPUMASK := 0, PPUSTATUS := 0 OR 0xA0, OAMADDR := 0,
                   PPUSCROLL_X := 0, PPUSCROLL_Y := 0, PPUADDR := 0, PPUDATA := 0\<rparr>,
     ppuf := (ppuf s)\<lparr>ppu_2007_first_read := True,
                     ppu_l_h_addition_table := l_h_addition,
                     ppu_l_h_addition_flip_table := l_h_addition_flip\<rparr>\<rparr>"

section \<open>The cartridge\<close>

definition MMC_MAX_PAGE_COUNT :: nat where
  "MMC_MAX_PAGE_COUNT = 1"

definition mmc_read :: "u16 \<Rightarrow> nes \<Rightarrow> u8" where
  "mmc_read address s = memory (mmc s) address"

definition mmc_write :: "u16 \<Rightarrow> u8 \<Rightarrow> nes \<Rightarrow> nes" where
  "mmc_write address d s =
     (let page = unat (d AND 3);
          s = (if mmc_id (mmc s) = 3
               then ppu_copy 0 (\<lambda>i. mmc_chr_pages (mmc s) page (of_nat i)) 0x2000
                      (check_fault OutOfBounds (page < MMC_MAX_PAGE_COUNT) s)
               else s)
      in mmc_update (memory_update (\<lambda>m. m(address := d))) s)"

definition mmc_copy :: "u16 \<Rightarrow> (nat \<Rightarrow> u8) \<Rightarrow> nat \<Rightarrow> nes \<Rightarrow> nes" where
  "mmc_copy address source n s =
     mmc_update (memory_update (copy_bytes (unat address) source n))
       (check_fault OutOfBounds (unat address + n \<le> 0x10000) s)"

definition mmc_append_chr_rom_page :: "(nat \<Rightarrow> u8) \<Rightarrow> nes \<Rightarrow> nes" where
  "mmc_append_chr_rom_page source s =
     (let k = mmc_chr_pages_number (mmc s)
      in if k < MMC_MAX_PAGE_COUNT
         then mmc_update (\<lambda>m. m\<lparr>mmc_chr_pages := (mmc_chr_pages m)
                                    (k := copy_bytes 0 source 0x2000 (mmc_chr_pages m k)),
                                mmc_chr_pages_number := k + 1\<rparr>) s
         else raise_fault AssertFail s)"

section \<open>The joystick\<close>

text \<open>
  \<open>MAP\<close> lists the key codes of the abstract machine for the buttons: A (J), B (K), SELECT (U),
  START (I), UP (W), DOWN (S), LEFT (A) and RIGHT (D).
\<close>

definition AM_KEY_NONE :: nat where "AM_KEY_NONE = 0"

definition MAP_keys :: "nat list" where
  "MAP_keys = [0, 49, 50, 35, 36, 30, 44, 43, 45, 255]"

definition psgio_read :: "u16 \<Rightarrow> nes \<Rightarrow> u8 \<times> nes" where
  "psgio_read address s =
     (if address = 0x4016 then
        (let p = psg_p (psg s); s = psg_update (psg_p_update (\<lambda>p. p + 1)) s
         in if p < 9 then (word_of_int (key_state (psg s) (MAP_keys ! nat (p + 1))), s)
            else (0, s))
      else (0, s))"

definition psgio_write :: "u16 \<Rightarrow> u8 \<Rightarrow> nes \<Rightarrow> nes" where
  "psgio_write address d s =
     psg_update (prev_write_update (\<lambda>_. d AND 1))
       (if address = 0x4016 \<and> d AND 1 = 0 \<and> prev_write (psg s) = 1
        then psg_update (psg_p_update (\<lambda>_. 0)) s else s)"

text \<open>The loop ends when the device reports no more events, which only it decides.\<close>

definition read_kbd :: "nes \<Rightarrow> (nat \<times> bool) \<times> nes" where
  "read_kbd s = (kbd (am s) (kbd_reads (am s)), am_update (kbd_reads_update Suc) s)"

partial_function (option) psg_detect_key :: "nes \<Rightarrow> nes option" where
  "psg_detect_key s0 =
     (let (ev, s) = read_kbd s0
      in if fst ev = AM_KEY_NONE then Some s
         else psg_detect_key
           (psg_update (key_state_update (\<lambda>m. m(fst ev := if snd ev then 1 else 0)))
             (check_fault OutOfBounds (fst ev < 256) s)))"

definition psg_init :: "nes \<Rightarrow> nes" where
  "psg_init = psg_update (key_state_update (\<lambda>m. m(0 := 1)))"

section \<open>The bus\<close>

definition memory_readb :: "u16 \<Rightarrow> nes \<Rightarrow> u8 \<times> nes" where
  "memory_readb address s =
     (let k = drop_bit 13 address
      in if k = 0 then (cpu_ram_read (address AND 0x07FF) s, s)
         else if k = 1 then ppuio_read address s
         else if k = 2 then psgio_read address s
         else if k = 3 then (cpu_ram_read (address AND 0x1FFF) s, s)
         else (mmc_read address s, s))"

definition dma_transfer :: "u8 \<Rightarrow> nes \<Rightarrow> nes" where
  "dma_transfer d s =
     fold (\<lambda>i s. ppu_sprram_write (cpu_ram_read (0x100 * ucast d + of_nat i) s) s) [0..<256] s"

definition memory_writeb :: "u16 \<Rightarrow> u8 \<Rightarrow> nes \<Rightarrow> nes" where
  "memory_writeb address d s =
     (if address = 0x4014 then dma_transfer d s
      else
        (let k = drop_bit 13 address
         in if k = 0 then cpu_ram_write (address AND 0x07FF) d s
            else if k = 1 then ppuio_write address d s
            else if k = 2 then psgio_write address d s
            else if k = 3 then cpu_ram_write (address AND 0x1FFF) d s
            else mmc_write address d s))"

text \<open>C leaves the order of the two reads of a word open; the model reads the low byte first.\<close>

definition memory_readw :: "u16 \<Rightarrow> nes \<Rightarrow> u16 \<times> nes" where
  "memory_readw address s =
     (let (l, s) = memory_readb address s; (h, s) = memory_readb (address + 1) s
      in (ucast l + push_bit 8 (ucast h), s))"

definition memory_writew :: "u16 \<Rightarrow> u16 \<Rightarrow> nes \<Rightarrow> nes" where
  "memory_writew address d s =
     memory_writeb (address + 1) (ucast (drop_bit 8 d))
       (memory_writeb address (ucast (d AND 0xFF)) s)"

section \<open>Where the addresses of the picture processor go\<close>

lemma less_exp_take_bit: "take_bit n (a :: 'a::len word) = a \<Longrightarrow> n < LENGTH('a) \<Longrightarrow> a < 2 ^ n"
  by (metis and_mask_less_size take_bit_eq_mask word_size)

lemma masks16: "(a :: u16) AND 0x3FFF = take_bit 14 a" "a AND 0x1F = take_bit 5 a"
  "a AND 0x7FF = take_bit 11 a" "a AND 7 = take_bit 3 a"
  by (simp_all add: take_bit_eq_mask mask_eq_exp_minus_1)

lemma masked_ppuaddr: "(a :: u16) AND 0x3FFF < 0x4000"
  using less_exp_take_bit [of 14 "take_bit 14 a"] by (simp add: masks16)

lemma palette_or_bound: "0x3F00 OR ((a :: u16) AND 0x1F) < 0x4000"
  using less_exp_take_bit [of 14 "0x3F00 OR take_bit 5 a"]
  by (simp add: take_bit_or masks16)

lemma real_ram_address_bound [simp]: "a < 0x4000 \<Longrightarrow> ppu_get_real_ram_address a < 0x4000"
  using palette_or_bound [of a] by (auto simp: ppu_get_real_ram_address_def Let_def)


lemma take_bit5_cases: "\<exists>k<32. take_bit 5 (a :: u16) = of_nat k"
proof (intro exI [of _ "unat (take_bit 5 a)"] conjI)
  show "unat (take_bit 5 a) < 32"
    using less_exp_take_bit [of 5 "take_bit 5 a"] by (simp add: word_less_nat_alt)
qed simp


definition palette_index :: "nat \<Rightarrow> nat" where
  "palette_index k = (if k \<in> {16, 20, 24, 28} then k - 16 else k)"

lemma or_palette: "0x3F00 OR (a AND 0x1F) = (0x3F00 :: u16) + (a AND 0x1F)"
proof -
  have "c AND take_bit 5 a = take_bit 5 (c AND a)" for c :: u16
    by (rule bit_word_eqI) (auto simp: bit_and_iff bit_take_bit_iff)
  from this [of "0x3F00"] have "0x3F00 AND (a AND 0x1F) = (0 :: u16)"
    by (simp add: masks16 take_bit_and)
  then show ?thesis
    by (simp add: disjunctive_add_eq_or)
qed

lemma of_nat_u16_eq: "i < 65536 \<Longrightarrow> j < 65536 \<Longrightarrow> (of_nat i = (of_nat j :: u16)) = (i = j)"
  by (simp add: word_unat_eq_iff unat_of_nat)

lemma of_nat_u16_less: "i < 65536 \<Longrightarrow> j < 65536 \<Longrightarrow> (of_nat i < (of_nat j :: u16)) = (i < j)"
  by (simp add: word_less_nat_alt unat_of_nat)

lemma palette_word:
  assumes "k < 32" "0x3F00 \<le> a" "a < 0x4000" "a AND 0x1F = of_nat k"
  shows "ppu_get_real_ram_address a = of_nat (0x3F00 + palette_index k)"
proof -
  have n: "\<not> a < 0x2000" "\<not> a < 0x3F00"
    using assms(2) by (auto simp: word_le_nat_alt word_less_nat_alt)
  have w: "0x3F00 OR (a AND 0x1F) = of_nat (0x3F00 + k)"
    by (subst or_palette) (simp add: assms(4))
  have e: "(of_nat (0x3F00 + k) = (0x3F10 :: u16)) = (k = 16)"
    "(of_nat (0x3F00 + k) = (0x3F14 :: u16)) = (k = 20)"
    "(of_nat (0x3F00 + k) = (0x3F18 :: u16)) = (k = 24)"
    "(of_nat (0x3F00 + k) = (0x3F1C :: u16)) = (k = 28)"
    using assms(1) of_nat_u16_eq [of "0x3F00 + k" "0x3F10"] of_nat_u16_eq [of "0x3F00 + k" "0x3F14"]
      of_nat_u16_eq [of "0x3F00 + k" "0x3F18"] of_nat_u16_eq [of "0x3F00 + k" "0x3F1C"] by simp_all
  show ?thesis
    unfolding ppu_get_real_ram_address_def Let_def w e using n assms(3)
    by (auto simp: palette_index_def)
qed

lemma palette_address:
  assumes "0x3F00 \<le> a" "a < 0x4000"
  obtains k where "k < 32" "a AND 0x1F = of_nat k"
    "ppu_get_real_ram_address a = of_nat (0x3F00 + palette_index k)"
  using take_bit5_cases [of a] palette_word assms unfolding masks16 by blast

lemma ppu_get_real_ram_address_idem:
  assumes "a < 0x4000"
  shows "ppu_get_real_ram_address (ppu_get_real_ram_address a) = ppu_get_real_ram_address a"
proof (cases "a < 0x3F00")
  case True then show ?thesis by (auto simp: ppu_get_real_ram_address_def)
next
  case False
  then obtain k where k: "k < 32" "a AND 0x1F = of_nat k" 
    "ppu_get_real_ram_address a = of_nat (0x3F00 + palette_index k)"
    using palette_address [of a] assms by (auto simp: not_less)
  let ?j = "palette_index k"
  have j: "?j < 32" "palette_index ?j = ?j"
    using k(1) by (auto simp: palette_index_def)
  have "of_nat (0x3F00 + ?j) AND (0x1F :: u16) = of_nat ?j"
  proof -
    have "of_nat (0x3F00 + ?j) AND (0x1F :: u16) = take_bit 5 (of_nat (0x3F00 + ?j))"
      by (rule masks16)
    also have "\<dots> = of_nat (take_bit 5 (0x3F00 + ?j))"
      by (simp only: of_nat_take_bit)
    also have "take_bit 5 (0x3F00 + ?j) = ?j"
      using j(1) by (simp add: take_bit_eq_mod mod_add_left_eq [symmetric])
    finally show ?thesis .
  qed
  then show ?thesis
    unfolding k(3) using palette_word [of ?j "of_nat (0x3F00 + ?j)"] j
      of_nat_u16_less [of "0x3F00 + ?j" "0x3F00"]  of_nat_u16_less [of "0x3F00 + ?j" "0x4000"]
    by (simp add: not_less [symmetric])
qed

section \<open>What the bus leaves alone\<close>

text \<open>
  \<open>core s\<close> is the part of the state no access of the bus touches: the registers of the
  processor, its operand and clock, the screen and the devices.
\<close>

definition core :: "nes \<Rightarrow> CPU_STATE \<times> int \<times> int \<times> int \<times> u64 \<times> (u8 \<Rightarrow> cpu_row option) \<times>
    fce_file \<times> am_devices" where
  "core s = (cpu s, op_value s, op_address s, op_cycles s, cpu_cycles s, cpu_rows s, fce s, am s)"

named_theorems core_simps \<open>operations that keep the core of the state\<close>

lemma core_raise [core_simps]: "core (check_fault e c s) = core s"
  by (simp add: core_def check_fault_def raise_fault_def)

lemma core_updates [core_simps]:
  "core (s\<lparr>CPU_RAM := m\<rparr>) = core s" "core (ppu_update f s) = core s"
  "core (ppuf_update g s) = core s" "core (mmc_update h s) = core s"
  "core (psg_update k s) = core s"
  by (simp_all add: core_def)

lemmas port_defs = cpu_ram_write_def ppu_ram_read_def ppu_ram_write_def ppu_copy_def
  ppu_sprram_write_def set_latch_def set_first_read_def mask_ppuaddr_def ppu_set_defs

lemma core_ppuio_read [core_simps]: "core (snd (ppuio_read a s)) = core s"
  by (simp add: ppuio_read_def ppuio_read_status_def ppuio_read_data_def port_defs Let_def
      split_beta core_simps)

lemma core_ppuio_write [core_simps]: "core (ppuio_write a d s) = core s"
  by (simp add: ppuio_write_def ppuio_write_data_def ppuio_write_addr_def port_defs Let_def
      core_simps)

lemma core_psgio_read [core_simps]: "core (snd (psgio_read a s)) = core s"
  by (simp add: psgio_read_def Let_def core_simps)

lemma core_psgio_write [core_simps]: "core (psgio_write a d s) = core s"
  by (simp add: psgio_write_def core_simps)

lemma core_mmc_write [core_simps]: "core (mmc_write a d s) = core s"
  by (simp add: mmc_write_def ppu_copy_def Let_def core_simps)

lemma fold_keeps: "(\<And>i s. f (g i s) = f s) \<Longrightarrow> f (fold g xs s) = f s"
  by (induction xs arbitrary: s) simp_all

lemma core_dma [core_simps]: "core (dma_transfer d s) = core s"
  unfolding dma_transfer_def by (rule fold_keeps) (simp add: port_defs core_simps)

lemma core_memory_readb [core_simps]: "core (snd (memory_readb a s)) = core s"
  by (simp add: memory_readb_def Let_def core_simps)

lemma core_memory_writeb [core_simps]: "core (memory_writeb a d s) = core s"
  by (simp add: memory_writeb_def Let_def cpu_ram_write_def core_simps)

text \<open>The fields of the core one by one.\<close>

lemma core_eqD:
  assumes "core s' = core s"
  shows "cpu s' = cpu s" "op_value s' = op_value s" "op_address s' = op_address s"
    "op_cycles s' = op_cycles s" "cpu_cycles s' = cpu_cycles s" "cpu_rows s' = cpu_rows s"
    "fce s' = fce s" "am s' = am s"
  using assms by (simp_all add: core_def)

lemmas memory_readb_core [simp] = core_eqD [OF core_memory_readb]
lemmas memory_writeb_core [simp] = core_eqD [OF core_memory_writeb]

section \<open>Accesses stay inside the arrays\<close>

text \<open>
  A state is sound when nothing went wrong so far, the cartridge has no bank switching (mapper
  3 of the code indexes an array of one page by two bits of data) and the mirroring was set.
\<close>

definition sound :: "nes \<Rightarrow> bool" where
  "sound s \<longleftrightarrow> fault s = None \<and> mmc_id (mmc s) \<noteq> 3 \<and> mirroring_xor (ppu s) \<in> {0x400, 0x800}"

lemma sound_ppu_update [core_simps]:
  "(\<And>p. mirroring_xor (f p) = mirroring_xor p) \<Longrightarrow> sound (ppu_update f s) = sound s"
  by (simp add: sound_def)

lemma sound_ppu_set [core_simps]:
  "mirroring_xor p = mirroring_xor (ppu s) \<Longrightarrow> sound (s\<lparr>ppu := p\<rparr>) = sound s"
  by (simp add: sound_def)

lemma sound_updates [core_simps]:
  "sound (s\<lparr>CPU_RAM := m\<rparr>) = sound s" "sound (ppuf_update g s) = sound s"
  "sound (psg_update k s) = sound s" "sound (cpu_update c s) = sound s"
  "sound (s\<lparr>op_value := v\<rparr>) = sound s" "sound (s\<lparr>op_address := v\<rparr>) = sound s"
  "sound (s\<lparr>op_cycles := v\<rparr>) = sound s" "sound (s\<lparr>cpu_cycles := w\<rparr>) = sound s"
  "sound (mmc_update (memory_update h) s) = sound s" "sound (fce_update q s) = sound s"
  "sound (am_update r s) = sound s"
  by (simp_all add: sound_def)

lemma ppu_ram_read_sound: "a < 0x4000 \<Longrightarrow> snd (ppu_ram_read a s) = s"
  by (simp add: ppu_ram_read_def Let_def)

lemma ppu_ram_write_sound: "a < 0x4000 \<Longrightarrow> sound (ppu_ram_write a d s) = sound s"
  by (simp add: ppu_ram_write_def Let_def core_simps)

lemma mirror_bound: "x \<in> {0x400, 0x800 :: int} \<Longrightarrow> (a AND 0x3FFF) XOR word_of_int x < (0x4000 :: u16)"
  using less_exp_take_bit [of 14 "take_bit 14 a XOR word_of_int x"]
  by (auto simp: masks16 take_bit_xor)

lemma sound_mirror_bound:
  "sound s \<Longrightarrow> (a AND 0x3FFF) XOR word_of_int (mirroring_xor (ppu s)) < (0x4000 :: u16)"
  by (rule mirror_bound) (simp add: sound_def)

lemma sound_ppuio_read: "sound (snd (ppuio_read a s)) = sound s"
  by (simp add: ppuio_read_def ppuio_read_status_def ppuio_read_data_def ppu_ram_read_sound
      masked_ppuaddr set_latch_def set_first_read_def mask_ppuaddr_def ppu_set_defs Let_def
      split_beta core_simps)

lemma sound_ppuio_write: "sound s \<Longrightarrow> sound (ppuio_write a d s)"
  by (simp add: ppuio_write_def ppuio_write_data_def ppuio_write_addr_def masked_ppuaddr
      set_latch_def set_first_read_def mask_ppuaddr_def ppu_sprram_write_def Let_def split_beta
      core_simps ppu_ram_write_sound sound_mirror_bound)

lemma sound_memory_readb: "sound s \<Longrightarrow> sound (snd (memory_readb a s))"
  by (simp add: memory_readb_def psgio_read_def sound_ppuio_read Let_def core_simps)

lemma fold_preserves: "P s \<Longrightarrow> (\<And>i s. P s \<Longrightarrow> P (g i s)) \<Longrightarrow> P (fold g xs s)"
  by (induction xs arbitrary: s) simp_all

lemma sound_dma: "sound s \<Longrightarrow> sound (dma_transfer d s)"
  unfolding dma_transfer_def by (rule fold_preserves) (simp_all add: ppu_sprram_write_def core_simps)

lemma sound_memory_writeb: "sound s \<Longrightarrow> sound (memory_writeb a d s)"
  by (simp add: memory_writeb_def cpu_ram_write_def psgio_write_def mmc_write_def sound_dma
      sound_ppuio_write Let_def core_simps sound_def [of s])

end
