(* ===== verification/NesCpu.thy ===== *)
theory NesCpu
  imports NesBus
begin

text \<open>
  The 6502 of LiteNES: the stack and the instruction handlers of \<open>cpu.c\<close> and the addressing
  modes of \<open>cpu-addressing.c\<close>. An addressing mode leaves the operand in \<open>op_value\<close> and its
  address in \<open>op_address\<close>, both C \<open>int\<close>s (so a relative branch below address 0 or an indexed
  address above 0xFFFF is a value the code cuts to 16 bits when it uses it); a handler works
  on them.
\<close>

section \<open>Registers and flags\<close>

abbreviation set_PC :: "u16 \<Rightarrow> nes \<Rightarrow> nes" where "set_PC v \<equiv> cpu_update (cpu_PC_update (\<lambda>_. v))"
abbreviation set_SP :: "u8 \<Rightarrow> nes \<Rightarrow> nes" where "set_SP v \<equiv> cpu_update (cpu_SP_update (\<lambda>_. v))"
abbreviation set_A :: "u8 \<Rightarrow> nes \<Rightarrow> nes" where "set_A v \<equiv> cpu_update (cpu_A_update (\<lambda>_. v))"
abbreviation set_X :: "u8 \<Rightarrow> nes \<Rightarrow> nes" where "set_X v \<equiv> cpu_update (cpu_X_update (\<lambda>_. v))"
abbreviation set_Y :: "u8 \<Rightarrow> nes \<Rightarrow> nes" where "set_Y v \<equiv> cpu_update (cpu_Y_update (\<lambda>_. v))"
abbreviation set_P :: "u8 \<Rightarrow> nes \<Rightarrow> nes" where "set_P v \<equiv> cpu_update (cpu_P_update (\<lambda>_. v))"

abbreviation PC_of :: "nes \<Rightarrow> u16" where "PC_of s \<equiv> cpu_PC (cpu s)"
abbreviation SP_of :: "nes \<Rightarrow> u8" where "SP_of s \<equiv> cpu_SP (cpu s)"
abbreviation A_of :: "nes \<Rightarrow> u8" where "A_of s \<equiv> cpu_A (cpu s)"
abbreviation X_of :: "nes \<Rightarrow> u8" where "X_of s \<equiv> cpu_X (cpu s)"
abbreviation Y_of :: "nes \<Rightarrow> u8" where "Y_of s \<equiv> cpu_Y (cpu s)"
abbreviation P_of :: "nes \<Rightarrow> u8" where "P_of s \<equiv> cpu_P (cpu s)"

definition cpu_flag_set :: "nat \<Rightarrow> nes \<Rightarrow> bool" where
  "cpu_flag_set flag s = common_bit_set (P_of s) flag"

definition cpu_modify_flag :: "nat \<Rightarrow> bool \<Rightarrow> nes \<Rightarrow> nes" where
  "cpu_modify_flag flag v = cpu_update (cpu_P_update (common_modify_bit flag v))"

definition cpu_set_flag :: "nat \<Rightarrow> nes \<Rightarrow> nes" where
  "cpu_set_flag flag = cpu_update (cpu_P_update (common_set_bit flag))"

definition cpu_unset_flag :: "nat \<Rightarrow> nes \<Rightarrow> nes" where
  "cpu_unset_flag flag = cpu_update (cpu_P_update (common_unset_bit flag))"

definition cpu_zn_flag_table :: "u8 list" where
  "cpu_zn_flag_table =
     zero_flag # replicate 15 0 @ concat (replicate 7 (replicate 16 0)) @
     concat (replicate 16 (replicate 8 negative_flag))"

definition cpu_update_zn_flags :: "int \<Rightarrow> nes \<Rightarrow> nes" where
  "cpu_update_zn_flags v s =
     cpu_update (cpu_P_update (\<lambda>p. (p AND NOT (zero_flag OR negative_flag)) OR
                                   cpu_zn_flag_table ! nat v))
       (check_fault OutOfBounds (0 \<le> v \<and> v < 256) s)"

section \<open>Interrupt vectors and the stack\<close>

definition cpu_nmi_interrupt_address :: "nes \<Rightarrow> u16 \<times> nes" where
  "cpu_nmi_interrupt_address = memory_readw 0xFFFA"

definition cpu_reset_interrupt_address :: "nes \<Rightarrow> u16 \<times> nes" where
  "cpu_reset_interrupt_address = memory_readw 0xFFFC"

definition cpu_irq_interrupt_address :: "nes \<Rightarrow> u16 \<times> nes" where
  "cpu_irq_interrupt_address = memory_readw 0xFFFE"

definition cpu_stack_pushb :: "u8 \<Rightarrow> nes \<Rightarrow> nes" where
  "cpu_stack_pushb d s = memory_writeb (0x100 + ucast (SP_of s)) d (set_SP (SP_of s - 1) s)"

definition cpu_stack_pushw :: "u16 \<Rightarrow> nes \<Rightarrow> nes" where
  "cpu_stack_pushw d s =
     cpu_update (cpu_SP_update (\<lambda>sp. sp - 2)) (memory_writew (0xFF + ucast (SP_of s)) d s)"

definition cpu_stack_popb :: "nes \<Rightarrow> u8 \<times> nes" where
  "cpu_stack_popb s =
     (let s = set_SP (SP_of s + 1) s in memory_readb (0x100 + ucast (SP_of s)) s)"

definition cpu_stack_popw :: "nes \<Rightarrow> u16 \<times> nes" where
  "cpu_stack_popw s =
     (let s = set_SP (SP_of s + 2) s in memory_readw (0xFF + ucast (SP_of s)) s)"

section \<open>Addressing modes\<close>

definition read_operand :: "u16 \<Rightarrow> nes \<Rightarrow> nes" where
  "read_operand address s =
     (let (v, s) = memory_readb address s in s\<lparr>op_value := uint v\<rparr>)"

definition add_PC :: "u16 \<Rightarrow> nes \<Rightarrow> nes" where
  "add_PC n = cpu_update (cpu_PC_update (\<lambda>pc. pc + n))"

text \<open>The extra cycle of an operand on another page than the instruction that follows.\<close>

definition page_cycle :: "nes \<Rightarrow> nes" where
  "page_cycle s =
     (if drop_bit 8 (op_address s) \<noteq> uint (drop_bit 8 (PC_of s))
      then s\<lparr>op_cycles := op_cycles s + 1\<rparr> else s)"

definition cpu_address_implied :: "nes \<Rightarrow> nes" where
  "cpu_address_implied s = s"

definition cpu_address_immediate :: "nes \<Rightarrow> nes" where
  "cpu_address_immediate s = add_PC 1 (read_operand (PC_of s) s)"

definition cpu_address_zero_page :: "nes \<Rightarrow> nes" where
  "cpu_address_zero_page s =
     (let (a, s) = memory_readb (PC_of s) s; s = s\<lparr>op_address := uint a\<rparr>
      in add_PC 1 (s\<lparr>op_value := uint (CPU_RAM s (word_of_int (op_address s)))\<rparr>))"

definition cpu_address_zero_page_x :: "nes \<Rightarrow> nes" where
  "cpu_address_zero_page_x s =
     (let (a, s) = memory_readb (PC_of s) s;
          s = s\<lparr>op_address := (uint a + uint (X_of s)) AND 0xFF\<rparr>
      in add_PC 1 (s\<lparr>op_value := uint (CPU_RAM s (word_of_int (op_address s)))\<rparr>))"

definition cpu_address_zero_page_y :: "nes \<Rightarrow> nes" where
  "cpu_address_zero_page_y s =
     (let (a, s) = memory_readb (PC_of s) s;
          s = s\<lparr>op_address := (uint a + uint (Y_of s)) AND 0xFF\<rparr>
      in add_PC 1 (s\<lparr>op_value := uint (CPU_RAM s (word_of_int (op_address s)))\<rparr>))"

definition cpu_address_absolute :: "nes \<Rightarrow> nes" where
  "cpu_address_absolute s =
     (let (a, s) = memory_readw (PC_of s) s; s = s\<lparr>op_address := uint a\<rparr>
      in add_PC 2 (read_operand (word_of_int (op_address s)) s))"

definition cpu_address_absolute_x :: "nes \<Rightarrow> nes" where
  "cpu_address_absolute_x s =
     (let (a, s) = memory_readw (PC_of s) s;
          s = s\<lparr>op_address := uint a + uint (X_of s)\<rparr>
      in page_cycle (add_PC 2 (read_operand (word_of_int (op_address s)) s)))"

definition cpu_address_absolute_y :: "nes \<Rightarrow> nes" where
  "cpu_address_absolute_y s =
     (let (a, s) = memory_readw (PC_of s) s;
          s = s\<lparr>op_address := (uint a + uint (Y_of s)) AND 0xFFFF\<rparr>
      in page_cycle (add_PC 2 (read_operand (word_of_int (op_address s)) s)))"

definition cpu_address_relative :: "nes \<Rightarrow> nes" where
  "cpu_address_relative s =
     (let (a, s) = memory_readb (PC_of s) s;
          s = add_PC 1 (s\<lparr>op_address := uint a\<rparr>);
          s = (if op_address s AND 0x80 \<noteq> 0 then s\<lparr>op_address := op_address s - 0x100\<rparr> else s)
      in page_cycle (s\<lparr>op_address := op_address s + uint (PC_of s)\<rparr>))"

definition cpu_address_indirect :: "nes \<Rightarrow> nes" where
  "cpu_address_indirect s =
     (let (arg, s) = memory_readw (PC_of s) s
      in add_PC 2
           (if arg AND 0xFF = 0xFF
            then (let (h, s) = memory_readb (arg AND 0xFF00) s; (l, s) = memory_readb arg s
                  in s\<lparr>op_address := push_bit 8 (uint h) + uint l\<rparr>)
            else (let (a, s) = memory_readw arg s in s\<lparr>op_address := uint a\<rparr>)))"

definition cpu_address_indirect_x :: "nes \<Rightarrow> nes" where
  "cpu_address_indirect_x s =
     (let (arg, s) = memory_readb (PC_of s) s;
          (h, s) = memory_readb (ucast (arg + X_of s + 1)) s;
          (l, s) = memory_readb (ucast (arg + X_of s)) s;
          s = s\<lparr>op_address := push_bit 8 (uint h) OR uint l\<rparr>
      in add_PC 1 (read_operand (word_of_int (op_address s)) s))"

definition cpu_address_indirect_y :: "nes \<Rightarrow> nes" where
  "cpu_address_indirect_y s =
     (let (arg, s) = memory_readb (PC_of s) s;
          (h, s) = memory_readb (ucast (arg + 1)) s;
          (l, s) = memory_readb (ucast arg) s;
          s = s\<lparr>op_address := ((push_bit 8 (uint h) OR uint l) + uint (Y_of s)) AND 0xFFFF\<rparr>
      in page_cycle (add_PC 1 (read_operand (word_of_int (op_address s)) s)))"

fun run_mode :: "cpu_mode \<Rightarrow> nes \<Rightarrow> nes" where
  "run_mode implied = cpu_address_implied"
| "run_mode immediate = cpu_address_immediate"
| "run_mode zero_page = cpu_address_zero_page"
| "run_mode zero_page_x = cpu_address_zero_page_x"
| "run_mode zero_page_y = cpu_address_zero_page_y"
| "run_mode absolute = cpu_address_absolute"
| "run_mode absolute_x = cpu_address_absolute_x"
| "run_mode absolute_y = cpu_address_absolute_y"
| "run_mode relative = cpu_address_relative"
| "run_mode indirect = cpu_address_indirect"
| "run_mode indirect_x = cpu_address_indirect_x"
| "run_mode indirect_y = cpu_address_indirect_y"

section \<open>Handlers: arithmetic, logic and comparison\<close>

definition cpu_op_adc :: "nes \<Rightarrow> nes" where
  "cpu_op_adc s =
     (let a = uint (A_of s); v = op_value s;
          result = a + v + (if cpu_flag_set carry_bp s then 1 else 0);
          s = cpu_modify_flag carry_bp (result AND 0x100 \<noteq> 0) s;
          s = cpu_modify_flag overflow_bp (NOT (a XOR v) AND (a XOR result) AND 0x80 \<noteq> 0) s;
          s = set_A (word_of_int (result AND 0xFF)) s
      in cpu_update_zn_flags (uint (A_of s)) s)"

definition cpu_op_sbc :: "nes \<Rightarrow> nes" where
  "cpu_op_sbc s =
     (let a = uint (A_of s); v = op_value s;
          result = a - v - (if cpu_flag_set carry_bp s then 0 else 1);
          s = cpu_modify_flag carry_bp (\<not> (result AND 0x100 \<noteq> 0)) s;
          s = cpu_modify_flag overflow_bp ((a XOR v) AND (a XOR result) AND 0x80 \<noteq> 0) s;
          s = set_A (word_of_int (result AND 0xFF)) s
      in cpu_update_zn_flags (uint (A_of s)) s)"

definition cpu_op_and :: "nes \<Rightarrow> nes" where
  "cpu_op_and s =
     (let s = set_A (word_of_int (uint (A_of s) AND op_value s)) s
      in cpu_update_zn_flags (uint (A_of s)) s)"

definition cpu_op_bit :: "nes \<Rightarrow> nes" where
  "cpu_op_bit s =
     (let s = cpu_modify_flag zero_bp (uint (A_of s) AND op_value s = 0) s
      in set_P (word_of_int ((uint (P_of s) AND 0x3F) OR (0xC0 AND op_value s))) s)"

definition cpu_op_eor :: "nes \<Rightarrow> nes" where
  "cpu_op_eor s =
     (let s = set_A (word_of_int (uint (A_of s) XOR op_value s)) s
      in cpu_update_zn_flags (uint (A_of s)) s)"

definition cpu_op_ora :: "nes \<Rightarrow> nes" where
  "cpu_op_ora s =
     (let s = set_A (word_of_int (uint (A_of s) OR op_value s)) s
      in cpu_update_zn_flags (uint (A_of s)) s)"

definition cpu_compare :: "u8 \<Rightarrow> nes \<Rightarrow> nes" where
  "cpu_compare reg s =
     (let result = uint reg - op_value s
      in cpu_modify_flag negative_bp (drop_bit 7 result AND 1 \<noteq> 0)
           (cpu_modify_flag zero_bp (result = 0)
             (cpu_modify_flag carry_bp (result \<ge> 0) s)))"

definition cpu_op_cmp :: "nes \<Rightarrow> nes" where "cpu_op_cmp s = cpu_compare (A_of s) s"
definition cpu_op_cpx :: "nes \<Rightarrow> nes" where "cpu_op_cpx s = cpu_compare (X_of s) s"
definition cpu_op_cpy :: "nes \<Rightarrow> nes" where "cpu_op_cpy s = cpu_compare (Y_of s) s"

text \<open>\<open>write_op\<close> is \<open>memory_writeb(op_address, ...)\<close>, the address cut to a word by the call.\<close>

definition write_op :: "u8 \<Rightarrow> nes \<Rightarrow> nes" where
  "write_op d s = memory_writeb (word_of_int (op_address s)) d s"

definition cpu_op_inc :: "nes \<Rightarrow> nes" where
  "cpu_op_inc s =
     (let result = word_of_int (op_value s + 1) :: u8
      in cpu_update_zn_flags (uint result) (write_op result s))"

definition cpu_op_inx :: "nes \<Rightarrow> nes" where
  "cpu_op_inx s =
     (let s = set_X (X_of s + 1) s in cpu_update_zn_flags (uint (X_of s)) s)"

definition cpu_op_iny :: "nes \<Rightarrow> nes" where
  "cpu_op_iny s =
     (let s = set_Y (Y_of s + 1) s in cpu_update_zn_flags (uint (Y_of s)) s)"

definition cpu_op_dec :: "nes \<Rightarrow> nes" where
  "cpu_op_dec s =
     (let result = word_of_int (op_value s - 1) :: u8
      in cpu_update_zn_flags (uint result) (write_op result s))"

definition cpu_op_dex :: "nes \<Rightarrow> nes" where
  "cpu_op_dex s =
     (let s = set_X (X_of s - 1) s in cpu_update_zn_flags (uint (X_of s)) s)"

definition cpu_op_dey :: "nes \<Rightarrow> nes" where
  "cpu_op_dey s =
     (let s = set_Y (Y_of s - 1) s in cpu_update_zn_flags (uint (Y_of s)) s)"

fun run_arith :: "op_arith \<Rightarrow> nes \<Rightarrow> nes" where
  "run_arith ADC = cpu_op_adc"
| "run_arith SBC = cpu_op_sbc"
| "run_arith AND_op = cpu_op_and"
| "run_arith BIT_op = cpu_op_bit"
| "run_arith EOR = cpu_op_eor"
| "run_arith ORA = cpu_op_ora"
| "run_arith CMP = cpu_op_cmp"
| "run_arith CPX = cpu_op_cpx"
| "run_arith CPY = cpu_op_cpy"
| "run_arith INC = cpu_op_inc"
| "run_arith INX = cpu_op_inx"
| "run_arith INY = cpu_op_iny"
| "run_arith DEC = cpu_op_dec"
| "run_arith DEX = cpu_op_dex"
| "run_arith DEY = cpu_op_dey"

section \<open>Handlers: shifts and rotations\<close>

definition set_op_value :: "int \<Rightarrow> nes \<Rightarrow> nes" where
  "set_op_value v s = s\<lparr>op_value := v\<rparr>"

definition cpu_op_asla :: "nes \<Rightarrow> nes" where
  "cpu_op_asla s =
     (let s = cpu_modify_flag carry_bp (A_of s AND 0x80 \<noteq> 0) s; s = set_A (push_bit 1 (A_of s)) s
      in cpu_update_zn_flags (uint (A_of s)) s)"

definition cpu_op_asl :: "nes \<Rightarrow> nes" where
  "cpu_op_asl s =
     (let s = cpu_modify_flag carry_bp (op_value s AND 0x80 \<noteq> 0) s;
          s = set_op_value (push_bit 1 (op_value s) AND 0xFF) s;
          s = cpu_update_zn_flags (op_value s) s
      in write_op (word_of_int (op_value s)) s)"

definition cpu_op_lsra :: "nes \<Rightarrow> nes" where
  "cpu_op_lsra s =
     (let v = uint (drop_bit 1 (A_of s));
          s = cpu_modify_flag carry_bp (A_of s AND 0x01 \<noteq> 0) s;
          s = set_A (word_of_int (v AND 0xFF)) s
      in cpu_update_zn_flags v s)"

definition cpu_op_lsr :: "nes \<Rightarrow> nes" where
  "cpu_op_lsr s =
     (let s = cpu_modify_flag carry_bp (op_value s AND 0x01 \<noteq> 0) s;
          s = set_op_value (drop_bit 1 (op_value s) AND 0xFF) s;
          s = write_op (word_of_int (op_value s)) s
      in cpu_update_zn_flags (op_value s) s)"

definition cpu_op_rola :: "nes \<Rightarrow> nes" where
  "cpu_op_rola s =
     (let v = push_bit 1 (uint (A_of s)) OR (if cpu_flag_set carry_bp s then 1 else 0);
          s = cpu_modify_flag carry_bp (v > 0xFF) s;
          s = set_A (word_of_int (v AND 0xFF)) s
      in cpu_update_zn_flags (uint (A_of s)) s)"

definition cpu_op_rol :: "nes \<Rightarrow> nes" where
  "cpu_op_rol s =
     (let s = set_op_value (push_bit 1 (op_value s)
                OR (if cpu_flag_set carry_bp s then 1 else 0)) s;
          s = cpu_modify_flag carry_bp (op_value s > 0xFF) s;
          s = set_op_value (op_value s AND 0xFF) s;
          s = write_op (word_of_int (op_value s)) s
      in cpu_update_zn_flags (op_value s) s)"

definition cpu_op_rora :: "nes \<Rightarrow> nes" where
  "cpu_op_rora s =
     (let carry = cpu_flag_set carry_bp s;
          s = cpu_modify_flag carry_bp (A_of s AND 0x01 \<noteq> 0) s;
          s = set_A (drop_bit 1 (A_of s) OR push_bit 7 (of_bool carry)) s
      in cpu_modify_flag negative_bp carry (cpu_modify_flag zero_bp (A_of s = 0) s))"

definition cpu_op_ror :: "nes \<Rightarrow> nes" where
  "cpu_op_ror s =
     (let carry = cpu_flag_set carry_bp s;
          s = cpu_modify_flag carry_bp (op_value s AND 0x01 \<noteq> 0) s;
          s = set_op_value ((drop_bit 1 (op_value s) OR push_bit 7 (of_bool carry)) AND 0xFF) s;
          s = cpu_modify_flag zero_bp (op_value s = 0) s;
          s = cpu_modify_flag negative_bp carry s
      in write_op (word_of_int (op_value s)) s)"

fun run_shift :: "op_shift \<Rightarrow> nes \<Rightarrow> nes" where
  "run_shift ASL = cpu_op_asl"
| "run_shift ASLA = cpu_op_asla"
| "run_shift LSR = cpu_op_lsr"
| "run_shift LSRA = cpu_op_lsra"
| "run_shift ROL = cpu_op_rol"
| "run_shift ROLA = cpu_op_rola"
| "run_shift ROR = cpu_op_ror"
| "run_shift RORA = cpu_op_rora"

section \<open>Handlers: loads, stores, transfers and the stack\<close>

definition cpu_op_lda :: "nes \<Rightarrow> nes" where
  "cpu_op_lda s =
     (let s = set_A (word_of_int (op_value s)) s in cpu_update_zn_flags (uint (A_of s)) s)"

definition cpu_op_ldx :: "nes \<Rightarrow> nes" where
  "cpu_op_ldx s =
     (let s = set_X (word_of_int (op_value s)) s in cpu_update_zn_flags (uint (X_of s)) s)"

definition cpu_op_ldy :: "nes \<Rightarrow> nes" where
  "cpu_op_ldy s =
     (let s = set_Y (word_of_int (op_value s)) s in cpu_update_zn_flags (uint (Y_of s)) s)"

definition cpu_op_sta :: "nes \<Rightarrow> nes" where "cpu_op_sta s = write_op (A_of s) s"
definition cpu_op_stx :: "nes \<Rightarrow> nes" where "cpu_op_stx s = write_op (X_of s) s"
definition cpu_op_sty :: "nes \<Rightarrow> nes" where "cpu_op_sty s = write_op (Y_of s) s"

definition cpu_op_tax :: "nes \<Rightarrow> nes" where
  "cpu_op_tax s = (let s = set_X (A_of s) s in cpu_update_zn_flags (uint (X_of s)) s)"

definition cpu_op_txa :: "nes \<Rightarrow> nes" where
  "cpu_op_txa s = (let s = set_A (X_of s) s in cpu_update_zn_flags (uint (A_of s)) s)"

definition cpu_op_tay :: "nes \<Rightarrow> nes" where
  "cpu_op_tay s = (let s = set_Y (A_of s) s in cpu_update_zn_flags (uint (Y_of s)) s)"

definition cpu_op_tya :: "nes \<Rightarrow> nes" where
  "cpu_op_tya s = (let s = set_A (Y_of s) s in cpu_update_zn_flags (uint (A_of s)) s)"

definition cpu_op_tsx :: "nes \<Rightarrow> nes" where
  "cpu_op_tsx s = (let s = set_X (SP_of s) s in cpu_update_zn_flags (uint (X_of s)) s)"

definition cpu_op_txs :: "nes \<Rightarrow> nes" where
  "cpu_op_txs s = set_SP (X_of s) s"

definition cpu_op_php :: "nes \<Rightarrow> nes" where
  "cpu_op_php s = cpu_stack_pushb (P_of s OR 0x30) s"

definition cpu_op_pha :: "nes \<Rightarrow> nes" where
  "cpu_op_pha s = cpu_stack_pushb (A_of s) s"

definition cpu_op_pla :: "nes \<Rightarrow> nes" where
  "cpu_op_pla s =
     (let (d, s) = cpu_stack_popb s; s = set_A d s in cpu_update_zn_flags (uint (A_of s)) s)"

definition cpu_op_plp :: "nes \<Rightarrow> nes" where
  "cpu_op_plp s = (let (d, s) = cpu_stack_popb s in set_P ((d AND 0xEF) OR 0x20) s)"

fun run_move :: "op_move \<Rightarrow> nes \<Rightarrow> nes" where
  "run_move LDA = cpu_op_lda"
| "run_move LDX = cpu_op_ldx"
| "run_move LDY = cpu_op_ldy"
| "run_move STA = cpu_op_sta"
| "run_move STX = cpu_op_stx"
| "run_move STY = cpu_op_sty"
| "run_move TAX = cpu_op_tax"
| "run_move TXA = cpu_op_txa"
| "run_move TAY = cpu_op_tay"
| "run_move TYA = cpu_op_tya"
| "run_move TSX = cpu_op_tsx"
| "run_move TXS = cpu_op_txs"
| "run_move PHP = cpu_op_php"
| "run_move PHA = cpu_op_pha"
| "run_move PLA = cpu_op_pla"
| "run_move PLP = cpu_op_plp"

section \<open>Handlers: control flow\<close>

definition cpu_branch :: "bool \<Rightarrow> nes \<Rightarrow> nes" where
  "cpu_branch flag s = (if flag then set_PC (word_of_int (op_address s)) s else s)"

definition cpu_op_bcs :: "nes \<Rightarrow> nes" where "cpu_op_bcs s = cpu_branch (cpu_flag_set carry_bp s) s"
definition cpu_op_beq :: "nes \<Rightarrow> nes" where "cpu_op_beq s = cpu_branch (cpu_flag_set zero_bp s) s"
definition cpu_op_bmi :: "nes \<Rightarrow> nes" where
  "cpu_op_bmi s = cpu_branch (cpu_flag_set negative_bp s) s"
definition cpu_op_bvs :: "nes \<Rightarrow> nes" where
  "cpu_op_bvs s = cpu_branch (cpu_flag_set overflow_bp s) s"
definition cpu_op_bne :: "nes \<Rightarrow> nes" where
  "cpu_op_bne s = cpu_branch (\<not> cpu_flag_set zero_bp s) s"
definition cpu_op_bcc :: "nes \<Rightarrow> nes" where
  "cpu_op_bcc s = cpu_branch (\<not> cpu_flag_set carry_bp s) s"
definition cpu_op_bpl :: "nes \<Rightarrow> nes" where
  "cpu_op_bpl s = cpu_branch (\<not> cpu_flag_set negative_bp s) s"
definition cpu_op_bvc :: "nes \<Rightarrow> nes" where
  "cpu_op_bvc s = cpu_branch (\<not> cpu_flag_set overflow_bp s) s"

definition cpu_op_jmp :: "nes \<Rightarrow> nes" where
  "cpu_op_jmp s = set_PC (word_of_int (op_address s)) s"

definition cpu_op_jsr :: "nes \<Rightarrow> nes" where
  "cpu_op_jsr s =
     (let s = cpu_stack_pushw (PC_of s - 1) s in set_PC (word_of_int (op_address s)) s)"

definition cpu_op_rts :: "nes \<Rightarrow> nes" where
  "cpu_op_rts s = (let (a, s) = cpu_stack_popw s in set_PC (a + 1) s)"

definition cpu_op_brk :: "nes \<Rightarrow> nes" where
  "cpu_op_brk s =
     (let s = cpu_stack_pushw (PC_of s - 1) s; s = cpu_stack_pushb (P_of s) s;
          s = set_P (P_of s OR (unused_flag OR break_flag)) s;
          (a, s) = cpu_nmi_interrupt_address s
      in set_PC a s)"

definition cpu_op_rti :: "nes \<Rightarrow> nes" where
  "cpu_op_rti s =
     (let (d, s) = cpu_stack_popb s; s = set_P (d OR unused_flag) s; (a, s) = cpu_stack_popw s
      in set_PC a s)"

definition cpu_op_nop :: "nes \<Rightarrow> nes" where "cpu_op_nop s = s"

definition FE_extension :: "nes \<Rightarrow> nes" where "FE_extension s = s"

fun run_flow :: "op_flow \<Rightarrow> nes \<Rightarrow> nes" where
  "run_flow BCS = cpu_op_bcs"
| "run_flow BEQ = cpu_op_beq"
| "run_flow BMI = cpu_op_bmi"
| "run_flow BVS = cpu_op_bvs"
| "run_flow BNE = cpu_op_bne"
| "run_flow BCC = cpu_op_bcc"
| "run_flow BPL = cpu_op_bpl"
| "run_flow BVC = cpu_op_bvc"
| "run_flow JMP = cpu_op_jmp"
| "run_flow JSR = cpu_op_jsr"
| "run_flow RTS = cpu_op_rts"
| "run_flow BRK = cpu_op_brk"
| "run_flow RTI = cpu_op_rti"
| "run_flow NOP = cpu_op_nop"
| "run_flow FE = FE_extension"

section \<open>Handlers: flags and the extended instructions\<close>

definition cpu_op_clc :: "nes \<Rightarrow> nes" where "cpu_op_clc = cpu_unset_flag carry_bp"
definition cpu_op_cld :: "nes \<Rightarrow> nes" where "cpu_op_cld = cpu_unset_flag decimal_bp"
definition cpu_op_cli :: "nes \<Rightarrow> nes" where "cpu_op_cli = cpu_unset_flag interrupt_bp"
definition cpu_op_clv :: "nes \<Rightarrow> nes" where "cpu_op_clv = cpu_unset_flag overflow_bp"
definition cpu_op_sec :: "nes \<Rightarrow> nes" where "cpu_op_sec = cpu_set_flag carry_bp"
definition cpu_op_sed :: "nes \<Rightarrow> nes" where "cpu_op_sed = cpu_set_flag decimal_bp"
definition cpu_op_sei :: "nes \<Rightarrow> nes" where "cpu_op_sei = cpu_set_flag interrupt_bp"

fun run_flag :: "op_flag \<Rightarrow> nes \<Rightarrow> nes" where
  "run_flag CLC = cpu_op_clc"
| "run_flag CLD = cpu_op_cld"
| "run_flag CLI = cpu_op_cli"
| "run_flag CLV = cpu_op_clv"
| "run_flag SEC = cpu_op_sec"
| "run_flag SED = cpu_op_sed"
| "run_flag SEI = cpu_op_sei"

definition cpu_op_aso :: "nes \<Rightarrow> nes" where "cpu_op_aso s = cpu_op_ora (cpu_op_asl s)"

definition cpu_op_axa :: "nes \<Rightarrow> nes" where
  "cpu_op_axa s =
     write_op (word_of_int (uint (A_of s) AND uint (X_of s) AND drop_bit 8 (op_address s))) s"

definition cpu_op_axs :: "nes \<Rightarrow> nes" where
  "cpu_op_axs s = write_op (A_of s AND X_of s) s"

definition cpu_op_dcm :: "nes \<Rightarrow> nes" where
  "cpu_op_dcm s =
     (let s = set_op_value ((op_value s - 1) AND 0xFF) s;
          s = write_op (word_of_int (op_value s)) s
      in cpu_op_cmp s)"

definition cpu_op_ins :: "nes \<Rightarrow> nes" where
  "cpu_op_ins s =
     (let s = set_op_value ((op_value s + 1) AND 0xFF) s;
          s = write_op (word_of_int (op_value s)) s
      in cpu_op_sbc s)"

definition cpu_op_lax :: "nes \<Rightarrow> nes" where
  "cpu_op_lax s =
     (let s = set_X (word_of_int (op_value s)) s; s = set_A (X_of s) s
      in cpu_update_zn_flags (uint (A_of s)) s)"

definition cpu_op_lse :: "nes \<Rightarrow> nes" where "cpu_op_lse s = cpu_op_eor (cpu_op_lsr s)"
definition cpu_op_rla :: "nes \<Rightarrow> nes" where "cpu_op_rla s = cpu_op_and (cpu_op_rol s)"
definition cpu_op_rra :: "nes \<Rightarrow> nes" where "cpu_op_rra s = cpu_op_adc (cpu_op_ror s)"

fun run_ext :: "op_ext \<Rightarrow> nes \<Rightarrow> nes" where
  "run_ext ASO = cpu_op_aso"
| "run_ext AXA = cpu_op_axa"
| "run_ext AXS = cpu_op_axs"
| "run_ext DCM = cpu_op_dcm"
| "run_ext INS = cpu_op_ins"
| "run_ext LAX = cpu_op_lax"
| "run_ext LSE = cpu_op_lse"
| "run_ext RLA = cpu_op_rla"
| "run_ext RRA = cpu_op_rra"

fun run_handler :: "cpu_op \<Rightarrow> nes \<Rightarrow> nes" where
  "run_handler (Arith f) = run_arith f"
| "run_handler (Shift f) = run_shift f"
| "run_handler (Move f) = run_move f"
| "run_handler (Flow f) = run_flow f"
| "run_handler (Flag f) = run_flag f"
| "run_handler (Ext f) = run_ext f"

section \<open>What the processor needs of its bus\<close>

text \<open>
  Every instruction touches the state only through reads and writes of the bus, its registers
  and its operand. So a predicate that the bus keeps and that does not look at the rest is kept
  by every handler and addressing mode; this is proved once, for the interface.
\<close>

lemmas mode_defs = cpu_address_implied_def cpu_address_immediate_def cpu_address_zero_page_def
  cpu_address_zero_page_x_def cpu_address_zero_page_y_def cpu_address_absolute_def
  cpu_address_absolute_x_def cpu_address_absolute_y_def cpu_address_relative_def
  cpu_address_indirect_def cpu_address_indirect_x_def cpu_address_indirect_y_def

locale bus_client =
  fixes I :: "nes \<Rightarrow> bool"
  assumes readb: "I s \<Longrightarrow> I (snd (memory_readb a s))"
    and writeb: "I s \<Longrightarrow> I (memory_writeb a d s)"
    and cpu_eq: "I (cpu_update f s) = I s"
    and op_value_eq: "I (s\<lparr>op_value := v\<rparr>) = I s"
    and op_address_eq: "I (s\<lparr>op_address := v\<rparr>) = I s"
begin

lemma readw: "I s \<Longrightarrow> I (snd (memory_readw a s))"
  by (simp add: memory_readw_def split_beta Let_def readb)

lemma writew: "I s \<Longrightarrow> I (memory_writew a d s)"
  by (simp add: memory_writew_def writeb)

lemmas keeps = readb writeb cpu_eq op_value_eq op_address_eq readw writew

lemma zn_flags: "0 \<le> v \<Longrightarrow> v < 256 \<Longrightarrow> I (cpu_update_zn_flags v s) = I s"
  by (simp add: cpu_update_zn_flags_def keeps)

lemma zn_flags_byte: "I (cpu_update_zn_flags (uint (w :: u8)) s) = I s"
  using uint_lt2p [of w] by (intro zn_flags) (auto simp del: uint_lt2p)

lemma zn_flags_masked: "I (cpu_update_zn_flags (v AND 0xFF) s) = I s"
  using AND_upper2' [of "0xFF" "0xFF" v] by (intro zn_flags) (simp_all)

lemma stack: "I s \<Longrightarrow> I (cpu_stack_pushb d s)" "I s \<Longrightarrow> I (cpu_stack_pushw w s)"
  "I s \<Longrightarrow> I (snd (cpu_stack_popb s))" "I s \<Longrightarrow> I (snd (cpu_stack_popw s))"
  by (simp_all add: cpu_stack_pushb_def cpu_stack_pushw_def cpu_stack_popb_def cpu_stack_popw_def
      Let_def keeps)

lemmas op_keeps = keeps zn_flags_byte zn_flags_masked stack

lemma flags: "I (cpu_modify_flag n b s) = I s" "I (cpu_set_flag n s) = I s"
  "I (cpu_unset_flag n s) = I s" "I (cpu_compare r s) = I s"
  by (simp_all add: cpu_modify_flag_def cpu_set_flag_def cpu_unset_flag_def cpu_compare_def Let_def
      keeps)

lemma operand: "I s \<Longrightarrow> I (write_op d s)" "I (set_op_value v s) = I s" "I (add_PC n s) = I s"
  "I s \<Longrightarrow> I (read_operand a s)"
  by (simp_all add: write_op_def set_op_value_def add_PC_def read_operand_def split_beta keeps)

lemma arith: "I s \<Longrightarrow> I (run_arith f s)"
  by (cases f) (simp_all add: op_keeps flags operand Let_def cpu_op_adc_def cpu_op_sbc_def
    cpu_op_and_def cpu_op_bit_def cpu_op_eor_def cpu_op_ora_def cpu_op_cmp_def cpu_op_cpx_def
    cpu_op_cpy_def cpu_op_inc_def cpu_op_inx_def cpu_op_iny_def cpu_op_dec_def cpu_op_dex_def
    cpu_op_dey_def)


lemma op_value_write_op: "op_value (write_op d s) = op_value s"
  by (simp add: write_op_def)

lemma op_value_setters: "op_value (set_op_value v s) = v"
  "op_value (cpu_modify_flag n b s) = op_value s"
  by (simp_all add: set_op_value_def cpu_modify_flag_def)

lemma half_byte: "uint (drop_bit 1 (w :: u8)) < 256"
  using uint_lt2p [of "drop_bit 1 w"] by simp

lemma shift: "I s \<Longrightarrow> I (run_shift f s)"
  by (cases f) (simp_all add: op_keeps flags operand op_value_write_op op_value_setters zn_flags
    half_byte Let_def cpu_op_asl_def cpu_op_asla_def cpu_op_lsr_def cpu_op_lsra_def cpu_op_rol_def
    cpu_op_rola_def cpu_op_ror_def cpu_op_rora_def)

lemma move: "I s \<Longrightarrow> I (run_move f s)"
  by (cases f) (simp_all add: op_keeps flags operand Let_def split_beta cpu_op_lda_def
    cpu_op_ldx_def cpu_op_ldy_def cpu_op_sta_def cpu_op_stx_def cpu_op_sty_def cpu_op_tax_def
    cpu_op_txa_def cpu_op_tay_def cpu_op_tya_def cpu_op_tsx_def cpu_op_txs_def cpu_op_php_def
    cpu_op_pha_def cpu_op_pla_def cpu_op_plp_def)

lemma flow: "I s \<Longrightarrow> I (run_flow f s)"
  by (cases f) (simp_all add: op_keeps flags operand Let_def split_beta cpu_branch_def
    cpu_op_bcs_def cpu_op_beq_def cpu_op_bmi_def cpu_op_bvs_def cpu_op_bne_def cpu_op_bcc_def
    cpu_op_bpl_def cpu_op_bvc_def cpu_op_jmp_def cpu_op_jsr_def cpu_op_rts_def cpu_op_brk_def
    cpu_op_rti_def cpu_op_nop_def FE_extension_def cpu_nmi_interrupt_address_def)

lemma flag_ops: "I s \<Longrightarrow> I (run_flag f s)"
  by (cases f) (simp_all add: flags cpu_op_clc_def cpu_op_cld_def cpu_op_cli_def cpu_op_clv_def
    cpu_op_sec_def cpu_op_sed_def cpu_op_sei_def)

lemma ext: "I s \<Longrightarrow> I (run_ext f s)"
  using arith [of _ ORA] arith [of _ EOR] arith [of _ AND_op] arith [of _ ADC]
    arith [of _ CMP] arith [of _ SBC] shift [of _ ASL] shift [of _ LSR] shift [of _ ROL]
    shift [of _ ROR]
  by (cases f) (simp_all add: op_keeps flags operand Let_def cpu_op_aso_def cpu_op_axa_def
    cpu_op_axs_def cpu_op_dcm_def cpu_op_ins_def cpu_op_lax_def cpu_op_lse_def cpu_op_rla_def
    cpu_op_rra_def)

lemma handler: "I s \<Longrightarrow> I (run_handler f s)"
  by (cases f) (simp_all add: arith shift move flow flag_ops ext)

text \<open>An addressing mode may also count an extra cycle, as its last step.\<close>

definition paged :: "nes \<Rightarrow> bool" where
  "paged t \<longleftrightarrow> I t \<or> (\<exists>s. I s \<and> t = s\<lparr>op_cycles := op_cycles s + 1\<rparr>)"

lemma page_cycle_paged: "I s \<Longrightarrow> paged (page_cycle s)"
  by (auto simp: page_cycle_def paged_def)

lemma unpaged: "I s \<Longrightarrow> paged s"
  by (simp add: paged_def)

lemma mode: "I s \<Longrightarrow> paged (run_mode m s)"
  by (cases m; simp add: Let_def split_beta mode_defs split del: if_split;
      (rule page_cycle_paged, simp add: op_keeps operand split_beta; fail |
       rule unpaged, simp add: op_keeps operand split_beta; fail))

end

text \<open>The bus keeps what \<open>core\<close> collects besides the registers and the operand.\<close>

definition clocks :: "nes \<Rightarrow> int \<times> u64 \<times> (u8 \<Rightarrow> cpu_row option) \<times> fce_file \<times> am_devices" where
  "clocks s = (op_cycles s, cpu_cycles s, cpu_rows s, fce s, am s)"

interpretation clocks: bus_client "\<lambda>s. clocks s = k" for k
  by unfold_locales (simp_all add: clocks_def)

interpretation sound: bus_client sound
  by unfold_locales (simp_all add: sound_memory_readb sound_memory_writeb core_simps)

end
