(* ===== verification/NesRun.thy ===== *)
theory NesRun
  imports NesCpu
begin

text \<open>
  The life of the 6502 of LiteNES (the rest of \<open>cpu.c\<close>): the rows of the instruction table that
  \<open>cpu_init\<close> fills, reset, the interrupt, and the loop of \<open>cpu_run\<close> with its clock. The loop is
  a partial function, and the lemmas show that it returns: opcodes without a row cost no
  cycles, but they only move the program counter on, which cannot pass the ports of the picture
  processor, where it reads \<open>0xFF\<close>.
\<close>

section \<open>The instruction table\<close>

definition CPU_OP_BIS :: "u8 \<Rightarrow> int \<Rightarrow> cpu_op \<Rightarrow> string \<Rightarrow> cpu_mode \<Rightarrow> u8 \<times> cpu_row" where
  "CPU_OP_BIS opc c f n a =
     (opc, \<lparr>row_cycles = c, row_handler = f, row_name = n, row_mode = a, row_base = True\<rparr>)"

definition CPU_OP_NII :: "u8 \<Rightarrow> cpu_mode \<Rightarrow> u8 \<times> cpu_row" where
  "CPU_OP_NII opc a =
     (opc, \<lparr>row_cycles = 1, row_handler = Flow FE, row_name = ''NOP'', row_mode = a,
           row_base = False\<rparr>)"

definition CPU_OP_EIS :: "u8 \<Rightarrow> int \<Rightarrow> cpu_op \<Rightarrow> string \<Rightarrow> cpu_mode \<Rightarrow> u8 \<times> cpu_row" where
  "CPU_OP_EIS opc c f n a =
     (opc, \<lparr>row_cycles = c, row_handler = f, row_name = n, row_mode = a, row_base = False\<rparr>)"

definition base_rows_00_3F :: "(u8 \<times> cpu_row) list" where
  "base_rows_00_3F = [
     CPU_OP_BIS 0x00 7 (Flow BRK) ''BRK'' implied,
     CPU_OP_BIS 0x01 6 (Arith ORA) ''ORA'' indirect_x,
     CPU_OP_BIS 0x05 3 (Arith ORA) ''ORA'' zero_page,
     CPU_OP_BIS 0x06 5 (Shift ASL) ''ASL'' zero_page,
     CPU_OP_BIS 0x08 3 (Move PHP) ''PHP'' implied,
     CPU_OP_BIS 0x09 2 (Arith ORA) ''ORA'' immediate,
     CPU_OP_BIS 0x0A 2 (Shift ASLA) ''ASL'' implied,
     CPU_OP_BIS 0x0D 4 (Arith ORA) ''ORA'' absolute,
     CPU_OP_BIS 0x0E 6 (Shift ASL) ''ASL'' absolute,
     CPU_OP_BIS 0x10 2 (Flow BPL) ''BPL'' relative,
     CPU_OP_BIS 0x11 5 (Arith ORA) ''ORA'' indirect_y,
     CPU_OP_BIS 0x15 4 (Arith ORA) ''ORA'' zero_page_x,
     CPU_OP_BIS 0x16 6 (Shift ASL) ''ASL'' zero_page_x,
     CPU_OP_BIS 0x18 2 (Flag CLC) ''CLC'' implied,
     CPU_OP_BIS 0x19 4 (Arith ORA) ''ORA'' absolute_y,
     CPU_OP_BIS 0x1D 4 (Arith ORA) ''ORA'' absolute_x,
     CPU_OP_BIS 0x1E 7 (Shift ASL) ''ASL'' absolute_x,
     CPU_OP_BIS 0x20 6 (Flow JSR) ''JSR'' absolute,
     CPU_OP_BIS 0x21 6 (Arith AND_op) ''AND'' indirect_x,
     CPU_OP_BIS 0x24 3 (Arith BIT_op) ''BIT'' zero_page,
     CPU_OP_BIS 0x25 3 (Arith AND_op) ''AND'' zero_page,
     CPU_OP_BIS 0x26 5 (Shift ROL) ''ROL'' zero_page,
     CPU_OP_BIS 0x28 4 (Move PLP) ''PLP'' implied,
     CPU_OP_BIS 0x29 2 (Arith AND_op) ''AND'' immediate,
     CPU_OP_BIS 0x2A 2 (Shift ROLA) ''ROL'' implied,
     CPU_OP_BIS 0x2C 4 (Arith BIT_op) ''BIT'' absolute,
     CPU_OP_BIS 0x2D 2 (Arith AND_op) ''AND'' absolute,
     CPU_OP_BIS 0x2E 6 (Shift ROL) ''ROL'' absolute,
     CPU_OP_BIS 0x30 2 (Flow BMI) ''BMI'' relative,
     CPU_OP_BIS 0x31 5 (Arith AND_op) ''AND'' indirect_y,
     CPU_OP_BIS 0x35 4 (Arith AND_op) ''AND'' zero_page_x,
     CPU_OP_BIS 0x36 6 (Shift ROL) ''ROL'' zero_page_x,
     CPU_OP_BIS 0x38 2 (Flag SEC) ''SEC'' implied,
     CPU_OP_BIS 0x39 4 (Arith AND_op) ''AND'' absolute_y,
     CPU_OP_BIS 0x3D 4 (Arith AND_op) ''AND'' absolute_x,
     CPU_OP_BIS 0x3E 7 (Shift ROL) ''ROL'' absolute_x]"

definition base_rows_40_7F :: "(u8 \<times> cpu_row) list" where
  "base_rows_40_7F = [
     CPU_OP_BIS 0x40 6 (Flow RTI) ''RTI'' implied,
     CPU_OP_BIS 0x41 6 (Arith EOR) ''EOR'' indirect_x,
     CPU_OP_BIS 0x45 3 (Arith EOR) ''EOR'' zero_page,
     CPU_OP_BIS 0x46 5 (Shift LSR) ''LSR'' zero_page,
     CPU_OP_BIS 0x48 3 (Move PHA) ''PHA'' implied,
     CPU_OP_BIS 0x49 2 (Arith EOR) ''EOR'' immediate,
     CPU_OP_BIS 0x4A 2 (Shift LSRA) ''LSR'' implied,
     CPU_OP_BIS 0x4C 3 (Flow JMP) ''JMP'' absolute,
     CPU_OP_BIS 0x4D 4 (Arith EOR) ''EOR'' absolute,
     CPU_OP_BIS 0x4E 6 (Shift LSR) ''LSR'' absolute,
     CPU_OP_BIS 0x50 2 (Flow BVC) ''BVC'' relative,
     CPU_OP_BIS 0x51 5 (Arith EOR) ''EOR'' indirect_y,
     CPU_OP_BIS 0x55 4 (Arith EOR) ''EOR'' zero_page_x,
     CPU_OP_BIS 0x56 6 (Shift LSR) ''LSR'' zero_page_x,
     CPU_OP_BIS 0x58 2 (Flag CLI) ''CLI'' implied,
     CPU_OP_BIS 0x59 4 (Arith EOR) ''EOR'' absolute_y,
     CPU_OP_BIS 0x5D 4 (Arith EOR) ''EOR'' absolute_x,
     CPU_OP_BIS 0x5E 7 (Shift LSR) ''LSR'' absolute_x,
     CPU_OP_BIS 0x60 6 (Flow RTS) ''RTS'' implied,
     CPU_OP_BIS 0x61 6 (Arith ADC) ''ADC'' indirect_x,
     CPU_OP_BIS 0x65 3 (Arith ADC) ''ADC'' zero_page,
     CPU_OP_BIS 0x66 5 (Shift ROR) ''ROR'' zero_page,
     CPU_OP_BIS 0x68 4 (Move PLA) ''PLA'' implied,
     CPU_OP_BIS 0x69 2 (Arith ADC) ''ADC'' immediate,
     CPU_OP_BIS 0x6A 2 (Shift RORA) ''ROR'' implied,
     CPU_OP_BIS 0x6C 5 (Flow JMP) ''JMP'' indirect,
     CPU_OP_BIS 0x6D 4 (Arith ADC) ''ADC'' absolute,
     CPU_OP_BIS 0x6E 6 (Shift ROR) ''ROR'' absolute,
     CPU_OP_BIS 0x70 2 (Flow BVS) ''BVS'' relative,
     CPU_OP_BIS 0x71 5 (Arith ADC) ''ADC'' indirect_y,
     CPU_OP_BIS 0x75 4 (Arith ADC) ''ADC'' zero_page_x,
     CPU_OP_BIS 0x76 6 (Shift ROR) ''ROR'' zero_page_x,
     CPU_OP_BIS 0x78 2 (Flag SEI) ''SEI'' implied,
     CPU_OP_BIS 0x79 4 (Arith ADC) ''ADC'' absolute_y,
     CPU_OP_BIS 0x7D 4 (Arith ADC) ''ADC'' absolute_x,
     CPU_OP_BIS 0x7E 7 (Shift ROR) ''ROR'' absolute_x]"

definition base_rows_80_BF :: "(u8 \<times> cpu_row) list" where
  "base_rows_80_BF = [
     CPU_OP_BIS 0x81 6 (Move STA) ''STA'' indirect_x,
     CPU_OP_BIS 0x84 3 (Move STY) ''STY'' zero_page,
     CPU_OP_BIS 0x85 3 (Move STA) ''STA'' zero_page,
     CPU_OP_BIS 0x86 3 (Move STX) ''STX'' zero_page,
     CPU_OP_BIS 0x88 2 (Arith DEY) ''DEY'' implied,
     CPU_OP_BIS 0x8A 2 (Move TXA) ''TXA'' implied,
     CPU_OP_BIS 0x8C 4 (Move STY) ''STY'' absolute,
     CPU_OP_BIS 0x8D 4 (Move STA) ''STA'' absolute,
     CPU_OP_BIS 0x8E 4 (Move STX) ''STX'' absolute,
     CPU_OP_BIS 0x90 2 (Flow BCC) ''BCC'' relative,
     CPU_OP_BIS 0x91 6 (Move STA) ''STA'' indirect_y,
     CPU_OP_BIS 0x94 4 (Move STY) ''STY'' zero_page_x,
     CPU_OP_BIS 0x95 4 (Move STA) ''STA'' zero_page_x,
     CPU_OP_BIS 0x96 4 (Move STX) ''STX'' zero_page_y,
     CPU_OP_BIS 0x98 2 (Move TYA) ''TYA'' implied,
     CPU_OP_BIS 0x99 5 (Move STA) ''STA'' absolute_y,
     CPU_OP_BIS 0x9A 2 (Move TXS) ''TXS'' implied,
     CPU_OP_BIS 0x9D 5 (Move STA) ''STA'' absolute_x,
     CPU_OP_BIS 0xA0 2 (Move LDY) ''LDY'' immediate,
     CPU_OP_BIS 0xA1 6 (Move LDA) ''LDA'' indirect_x,
     CPU_OP_BIS 0xA2 2 (Move LDX) ''LDX'' immediate,
     CPU_OP_BIS 0xA4 3 (Move LDY) ''LDY'' zero_page,
     CPU_OP_BIS 0xA5 3 (Move LDA) ''LDA'' zero_page,
     CPU_OP_BIS 0xA6 3 (Move LDX) ''LDX'' zero_page,
     CPU_OP_BIS 0xA8 2 (Move TAY) ''TAY'' implied,
     CPU_OP_BIS 0xA9 2 (Move LDA) ''LDA'' immediate,
     CPU_OP_BIS 0xAA 2 (Move TAX) ''TAX'' implied,
     CPU_OP_BIS 0xAC 4 (Move LDY) ''LDY'' absolute,
     CPU_OP_BIS 0xAD 4 (Move LDA) ''LDA'' absolute,
     CPU_OP_BIS 0xAE 4 (Move LDX) ''LDX'' absolute,
     CPU_OP_BIS 0xB0 2 (Flow BCS) ''BCS'' relative,
     CPU_OP_BIS 0xB1 5 (Move LDA) ''LDA'' indirect_y,
     CPU_OP_BIS 0xB4 4 (Move LDY) ''LDY'' zero_page_x,
     CPU_OP_BIS 0xB5 4 (Move LDA) ''LDA'' zero_page_x,
     CPU_OP_BIS 0xB6 4 (Move LDX) ''LDX'' zero_page_y,
     CPU_OP_BIS 0xB8 2 (Flag CLV) ''CLV'' implied,
     CPU_OP_BIS 0xB9 4 (Move LDA) ''LDA'' absolute_y,
     CPU_OP_BIS 0xBA 2 (Move TSX) ''TSX'' implied,
     CPU_OP_BIS 0xBC 4 (Move LDY) ''LDY'' absolute_x,
     CPU_OP_BIS 0xBD 4 (Move LDA) ''LDA'' absolute_x,
     CPU_OP_BIS 0xBE 4 (Move LDX) ''LDX'' absolute_y]"

definition base_rows_C0_FF :: "(u8 \<times> cpu_row) list" where
  "base_rows_C0_FF = [
     CPU_OP_BIS 0xC0 2 (Arith CPY) ''CPY'' immediate,
     CPU_OP_BIS 0xC1 6 (Arith CMP) ''CMP'' indirect_x,
     CPU_OP_BIS 0xC4 3 (Arith CPY) ''CPY'' zero_page,
     CPU_OP_BIS 0xC5 3 (Arith CMP) ''CMP'' zero_page,
     CPU_OP_BIS 0xC6 5 (Arith DEC) ''DEC'' zero_page,
     CPU_OP_BIS 0xC8 2 (Arith INY) ''INY'' implied,
     CPU_OP_BIS 0xC9 2 (Arith CMP) ''CMP'' immediate,
     CPU_OP_BIS 0xCA 2 (Arith DEX) ''DEX'' implied,
     CPU_OP_BIS 0xCC 4 (Arith CPY) ''CPY'' absolute,
     CPU_OP_BIS 0xCD 4 (Arith CMP) ''CMP'' absolute,
     CPU_OP_BIS 0xCE 6 (Arith DEC) ''DEC'' absolute,
     CPU_OP_BIS 0xD0 2 (Flow BNE) ''BNE'' relative,
     CPU_OP_BIS 0xD1 5 (Arith CMP) ''CMP'' indirect_y,
     CPU_OP_BIS 0xD5 4 (Arith CMP) ''CMP'' zero_page_x,
     CPU_OP_BIS 0xD6 6 (Arith DEC) ''DEC'' zero_page_x,
     CPU_OP_BIS 0xD8 2 (Flag CLD) ''CLD'' implied,
     CPU_OP_BIS 0xD9 4 (Arith CMP) ''CMP'' absolute_y,
     CPU_OP_BIS 0xDD 4 (Arith CMP) ''CMP'' absolute_x,
     CPU_OP_BIS 0xDE 7 (Arith DEC) ''DEC'' absolute_x,
     CPU_OP_BIS 0xE0 2 (Arith CPX) ''CPX'' immediate,
     CPU_OP_BIS 0xE1 6 (Arith SBC) ''SBC'' indirect_x,
     CPU_OP_BIS 0xE4 3 (Arith CPX) ''CPX'' zero_page,
     CPU_OP_BIS 0xE5 3 (Arith SBC) ''SBC'' zero_page,
     CPU_OP_BIS 0xE6 5 (Arith INC) ''INC'' zero_page,
     CPU_OP_BIS 0xE8 2 (Arith INX) ''INX'' implied,
     CPU_OP_BIS 0xE9 2 (Arith SBC) ''SBC'' immediate,
     CPU_OP_BIS 0xEA 2 (Flow NOP) ''NOP'' implied,
     CPU_OP_BIS 0xEC 4 (Arith CPX) ''CPX'' absolute,
     CPU_OP_BIS 0xED 4 (Arith SBC) ''SBC'' absolute,
     CPU_OP_BIS 0xEE 6 (Arith INC) ''INC'' absolute,
     CPU_OP_BIS 0xF0 2 (Flow BEQ) ''BEQ'' relative,
     CPU_OP_BIS 0xF1 5 (Arith SBC) ''SBC'' indirect_y,
     CPU_OP_BIS 0xF5 4 (Arith SBC) ''SBC'' zero_page_x,
     CPU_OP_BIS 0xF6 6 (Arith INC) ''INC'' zero_page_x,
     CPU_OP_BIS 0xF8 2 (Flag SED) ''SED'' implied,
     CPU_OP_BIS 0xF9 4 (Arith SBC) ''SBC'' absolute_y,
     CPU_OP_BIS 0xFD 4 (Arith SBC) ''SBC'' absolute_x,
     CPU_OP_BIS 0xFE 7 (Arith INC) ''INC'' absolute_x]"

definition extended_rows :: "(u8 \<times> cpu_row) list" where
  "extended_rows = [
     CPU_OP_EIS 0x03 8 (Ext ASO) ''SLO'' indirect_x,
     CPU_OP_EIS 0x07 5 (Ext ASO) ''SLO'' zero_page,
     CPU_OP_EIS 0x0F 6 (Ext ASO) ''SLO'' absolute,
     CPU_OP_EIS 0x13 8 (Ext ASO) ''SLO'' indirect_y,
     CPU_OP_EIS 0x17 6 (Ext ASO) ''SLO'' zero_page_x,
     CPU_OP_EIS 0x1B 7 (Ext ASO) ''SLO'' absolute_y,
     CPU_OP_EIS 0x1F 7 (Ext ASO) ''SLO'' absolute_x,
     CPU_OP_EIS 0x23 8 (Ext RLA) ''RLA'' indirect_x,
     CPU_OP_EIS 0x27 5 (Ext RLA) ''RLA'' zero_page,
     CPU_OP_EIS 0x2F 6 (Ext RLA) ''RLA'' absolute,
     CPU_OP_EIS 0x33 8 (Ext RLA) ''RLA'' indirect_y,
     CPU_OP_EIS 0x37 6 (Ext RLA) ''RLA'' zero_page_x,
     CPU_OP_EIS 0x3B 7 (Ext RLA) ''RLA'' absolute_y,
     CPU_OP_EIS 0x3F 7 (Ext RLA) ''RLA'' absolute_x,
     CPU_OP_EIS 0x43 8 (Ext LSE) ''SRE'' indirect_x,
     CPU_OP_EIS 0x47 5 (Ext LSE) ''SRE'' zero_page,
     CPU_OP_EIS 0x4F 6 (Ext LSE) ''SRE'' absolute,
     CPU_OP_EIS 0x53 8 (Ext LSE) ''SRE'' indirect_y,
     CPU_OP_EIS 0x57 6 (Ext LSE) ''SRE'' zero_page_x,
     CPU_OP_EIS 0x5B 7 (Ext LSE) ''SRE'' absolute_y,
     CPU_OP_EIS 0x5F 7 (Ext LSE) ''SRE'' absolute_x,
     CPU_OP_EIS 0x63 8 (Ext RRA) ''RRA'' indirect_x,
     CPU_OP_EIS 0x67 5 (Ext RRA) ''RRA'' zero_page,
     CPU_OP_EIS 0x6F 6 (Ext RRA) ''RRA'' absolute,
     CPU_OP_EIS 0x73 8 (Ext RRA) ''RRA'' indirect_y,
     CPU_OP_EIS 0x77 6 (Ext RRA) ''RRA'' zero_page_x,
     CPU_OP_EIS 0x7B 7 (Ext RRA) ''RRA'' absolute_y,
     CPU_OP_EIS 0x7F 7 (Ext RRA) ''RRA'' absolute_x,
     CPU_OP_EIS 0x83 6 (Ext AXS) ''SAX'' indirect_x,
     CPU_OP_EIS 0x87 3 (Ext AXS) ''SAX'' zero_page,
     CPU_OP_EIS 0x8F 4 (Ext AXS) ''SAX'' absolute,
     CPU_OP_EIS 0x93 6 (Ext AXA) ''SAX'' indirect_y,
     CPU_OP_EIS 0x97 4 (Ext AXS) ''SAX'' zero_page_y,
     CPU_OP_EIS 0x9F 5 (Ext AXA) ''SAX'' absolute_y,
     CPU_OP_EIS 0xA3 6 (Ext LAX) ''LAX'' indirect_x,
     CPU_OP_EIS 0xA7 3 (Ext LAX) ''LAX'' zero_page,
     CPU_OP_EIS 0xAF 4 (Ext LAX) ''LAX'' absolute,
     CPU_OP_EIS 0xB3 5 (Ext LAX) ''LAX'' indirect_y,
     CPU_OP_EIS 0xB7 4 (Ext LAX) ''LAX'' zero_page_y,
     CPU_OP_EIS 0xBF 4 (Ext LAX) ''LAX'' absolute_y,
     CPU_OP_EIS 0xC3 8 (Ext DCM) ''DCP'' indirect_x,
     CPU_OP_EIS 0xC7 5 (Ext DCM) ''DCP'' zero_page,
     CPU_OP_EIS 0xCF 6 (Ext DCM) ''DCP'' absolute,
     CPU_OP_EIS 0xD3 8 (Ext DCM) ''DCP'' indirect_y,
     CPU_OP_EIS 0xD7 6 (Ext DCM) ''DCP'' zero_page_x,
     CPU_OP_EIS 0xDB 7 (Ext DCM) ''DCP'' absolute_y,
     CPU_OP_EIS 0xDF 7 (Ext DCM) ''DCP'' absolute_x,
     CPU_OP_EIS 0xE3 8 (Ext INS) ''ISB'' indirect_x,
     CPU_OP_EIS 0xE7 5 (Ext INS) ''ISB'' zero_page,
     CPU_OP_EIS 0xEB 2 (Arith SBC) ''SBC'' immediate,
     CPU_OP_EIS 0xEF 6 (Ext INS) ''ISB'' absolute,
     CPU_OP_EIS 0xF3 8 (Ext INS) ''ISB'' indirect_y,
     CPU_OP_EIS 0xF7 6 (Ext INS) ''ISB'' zero_page_x,
     CPU_OP_EIS 0xFB 7 (Ext INS) ''ISB'' absolute_y,
     CPU_OP_EIS 0xFF 7 (Ext INS) ''ISB'' absolute_x]"

definition not_implemented_rows :: "(u8 \<times> cpu_row) list" where
  "not_implemented_rows = [
     CPU_OP_NII 0x04 zero_page,
     CPU_OP_NII 0x0C absolute,
     CPU_OP_NII 0x14 zero_page_x,
     CPU_OP_NII 0x1A implied,
     CPU_OP_NII 0x1C absolute_x,
     CPU_OP_NII 0x34 zero_page_x,
     CPU_OP_NII 0x3A implied,
     CPU_OP_NII 0x3C absolute_x,
     CPU_OP_NII 0x44 zero_page,
     CPU_OP_NII 0x54 zero_page_x,
     CPU_OP_NII 0x5A implied,
     CPU_OP_NII 0x5C absolute_x,
     CPU_OP_NII 0x64 zero_page,
     CPU_OP_NII 0x74 zero_page_x,
     CPU_OP_NII 0x7A implied,
     CPU_OP_NII 0x7C absolute_x,
     CPU_OP_NII 0x80 immediate,
     CPU_OP_NII 0xD4 zero_page_x,
     CPU_OP_NII 0xDA implied,
     CPU_OP_NII 0xDC absolute_x,
     CPU_OP_NII 0xF4 zero_page_x,
     CPU_OP_NII 0xFA implied,
     CPU_OP_NII 0xFC absolute_x]"

definition cpu_table :: "(u8 \<times> cpu_row) list" where
  "cpu_table = base_rows_00_3F @ base_rows_40_7F @ base_rows_80_BF @ base_rows_C0_FF @
     extended_rows @ not_implemented_rows"

section \<open>Initialisation, reset and interrupt\<close>

definition store_rows :: "(u8 \<times> cpu_row) list \<Rightarrow> (u8 \<Rightarrow> cpu_row option) \<Rightarrow> u8 \<Rightarrow> cpu_row option" where
  "store_rows = fold (\<lambda>(opc, r) m. m(opc \<mapsto> r))"

definition cpu_init :: "nes \<Rightarrow> nes" where
  "cpu_init s = s\<lparr>cpu_rows := store_rows cpu_table (cpu_rows s),
     cpu := (cpu s)\<lparr>cpu_P := 0x24, cpu_SP := 0x00, cpu_A := 0, cpu_X := 0, cpu_Y := 0\<rparr>\<rparr>"

definition cpu_reset :: "nes \<Rightarrow> nes" where
  "cpu_reset s =
     (let (a, s) = cpu_reset_interrupt_address s
      in cpu_update (\<lambda>c. c\<lparr>cpu_PC := a, cpu_SP := cpu_SP c - 3, cpu_P := cpu_P c OR interrupt_flag\<rparr>)
           s)"

definition cpu_interrupt :: "nes \<Rightarrow> nes" where
  "cpu_interrupt s =
     (if ppu_generates_nmi s then
        (let s = set_P (P_of s OR interrupt_flag) s; s = cpu_unset_flag unused_bp s;
             s = cpu_stack_pushw (PC_of s) s; s = cpu_stack_pushb (P_of s) s;
             (a, s) = cpu_nmi_interrupt_address s
         in set_PC a s)
      else s)"

definition cpu_clock :: "nes \<Rightarrow> u64" where
  "cpu_clock s = cpu_cycles s"

section \<open>The loop\<close>

text \<open>
  One round of the loop: the cycles it took off the budget, and the new state. The clock is
  decremented, as in the code.
\<close>

definition cpu_fetch :: "nes \<Rightarrow> u8 \<times> nes" where
  "cpu_fetch s = memory_readb (PC_of s) (set_PC (PC_of s + 1) s)"

definition cpu_dispatch :: "u8 \<Rightarrow> nes \<Rightarrow> nes" where
  "cpu_dispatch opc s =
     (case cpu_rows s opc of None \<Rightarrow> s
      | Some r \<Rightarrow> run_handler (row_handler r) (run_mode (row_mode r) s))"

definition row_cost :: "u8 \<Rightarrow> nes \<Rightarrow> int" where
  "row_cost opc s = (case cpu_rows s opc of None \<Rightarrow> 0 | Some r \<Rightarrow> row_cycles r)"

definition cpu_step :: "nes \<Rightarrow> int \<times> nes" where
  "cpu_step s =
     (let (opc, s) = cpu_fetch s; s = cpu_dispatch opc s; cost = row_cost opc s + op_cycles s
      in (cost, s\<lparr>cpu_cycles := cpu_cycles s - word_of_int cost, op_cycles := 0\<rparr>))"

partial_function (option) cpu_loop :: "int \<Rightarrow> nes \<Rightarrow> nes option" where
  "cpu_loop cycles s =
     (if cycles > 0 then (let (cost, s) = cpu_step s in cpu_loop (cycles - cost) s) else Some s)"

definition cpu_run :: "int \<Rightarrow> nes \<Rightarrow> nes option" where
  "cpu_run cycles = cpu_loop (c_div cycles 3)"

section \<open>The rows of the table\<close>

lemmas row_defs = cpu_table_def base_rows_00_3F_def base_rows_40_7F_def base_rows_80_BF_def
  base_rows_C0_FF_def extended_rows_def not_implemented_rows_def

lemma row_fields [simp]:
  "row_cycles (snd (CPU_OP_BIS opc c f n a)) = c" "fst (CPU_OP_BIS opc c f n a) = opc"
  "row_cycles (snd (CPU_OP_EIS opc c f n a)) = c" "fst (CPU_OP_EIS opc c f n a) = opc"
  "row_cycles (snd (CPU_OP_NII opc a)) = 1" "fst (CPU_OP_NII opc a) = opc"
  by (simp_all add: CPU_OP_BIS_def CPU_OP_EIS_def CPU_OP_NII_def)

lemma row_cycles_bounds:
  "list_all (\<lambda>r. 1 \<le> row_cycles (snd r) \<and> row_cycles (snd r) \<le> 8) cpu_table"
  unfolding row_defs list_all_append list.pred_inject row_fields by simp

lemma store_rows_SomeD:
  "store_rows t m opc = Some r \<Longrightarrow> (opc, r) \<in> set t \<or> m opc = Some r"
  unfolding store_rows_def by (induction t arbitrary: m) (force split: if_splits)+

lemma store_rows_Cons: "store_rows (x # t) m = store_rows t (m(fst x \<mapsto> snd x))"
  by (simp add: store_rows_def split_beta)

lemma store_rows_keeps: "m opc \<noteq> None \<Longrightarrow> store_rows t m opc \<noteq> None"
proof (induction t arbitrary: m)
  case (Cons x t)
  show ?case
    unfolding store_rows_Cons by (rule Cons.IH) (use Cons.prems in simp)
qed (simp add: store_rows_def)

lemma store_rows_dom: "opc \<in> fst ` set t \<Longrightarrow> store_rows t m opc \<noteq> None"
proof (induction t arbitrary: m)
  case (Cons x t)
  show ?case
  proof (cases "opc \<in> fst ` set t")
    case True
    then show ?thesis
      unfolding store_rows_Cons by (rule Cons.IH)
  next
    case False
    then show ?thesis
      unfolding store_rows_Cons using Cons.prems by (intro store_rows_keeps) simp
  qed
qed simp

text \<open>The rows after \<open>cpu_init\<close> on the zero-initialised arrays.\<close>

definition initial_rows :: "u8 \<Rightarrow> cpu_row option" where
  "initial_rows = store_rows cpu_table Map.empty"

lemma initial_row_cycles:
  assumes "initial_rows opc = Some r"
  shows "1 \<le> row_cycles r" "row_cycles r \<le> 8"
  using store_rows_SomeD [OF assms [unfolded initial_rows_def]] row_cycles_bounds
  by (auto simp: list_all_iff)

lemma initial_row_FF: "initial_rows 0xFF \<noteq> None"
proof -
  have "CPU_OP_EIS 0xFF 7 (Ext INS) ''ISB'' absolute_x \<in> set extended_rows"
    unfolding extended_rows_def by (intro list.set_intros)
  then have "fst (CPU_OP_EIS 0xFF 7 (Ext INS) ''ISB'' absolute_x) \<in> fst ` set cpu_table"
    unfolding cpu_table_def by (intro imageI) simp
  then have "0xFF \<in> fst ` set cpu_table" by simp
  then show ?thesis
    unfolding initial_rows_def by (rule store_rows_dom)
qed

section \<open>One round\<close>

lemma clocks_fetch: "clocks (snd (cpu_fetch s)) = clocks s"
  unfolding cpu_fetch_def by (rule clocks.readb) (simp add: clocks_def)

lemma PC_fetch: "PC_of (snd (cpu_fetch s)) = PC_of s + 1"
  by (simp add: cpu_fetch_def)

lemma fetch_2000: "PC_of s = 0x2000 \<Longrightarrow> fst (cpu_fetch s) = 0xFF"
  by (simp add: cpu_fetch_def memory_readb_def ppuio_read_def Let_def)

lemma dispatch_clocks:
  "cpu_rows (cpu_dispatch opc s) = cpu_rows s \<and> cpu_cycles (cpu_dispatch opc s) = cpu_cycles s \<and>
   fce (cpu_dispatch opc s) = fce s \<and> am (cpu_dispatch opc s) = am s \<and>
   op_cycles (cpu_dispatch opc s) \<in> {op_cycles s, op_cycles s + 1} \<and>
   (cpu_rows s opc = None \<longrightarrow> cpu_dispatch opc s = s)"
proof (cases "cpu_rows s opc")
  case (Some r)
  obtain t where t: "clocks t = clocks s"
    and m: "run_mode (row_mode r) s = t \<or> run_mode (row_mode r) s = t\<lparr>op_cycles := op_cycles t + 1\<rparr>"
    using clocks.mode [of s "clocks s" "row_mode r"] by (auto simp: clocks.paged_def)
  have "clocks (run_handler (row_handler r) (run_mode (row_mode r) s)) = clocks (run_mode (row_mode r) s)"
    by (rule clocks.handler) simp
  with t m show ?thesis
    by (auto simp: cpu_dispatch_def Some clocks_def)
qed (simp add: cpu_dispatch_def)


lemma dispatch_sound: "sound s \<Longrightarrow> sound (cpu_dispatch opc s)"
proof (cases "cpu_rows s opc")
  case (Some r)
  assume "sound s"
  then have "sound (run_mode (row_mode r) s)"
    using sound.mode [of s "row_mode r"] by (auto simp: sound.paged_def core_simps)
  then show ?thesis
    by (simp add: cpu_dispatch_def Some sound.handler)
qed (simp add: cpu_dispatch_def)

text \<open>
  \<open>ready s\<close>: the state \<open>cpu_loop\<close> starts its rounds in. A round leaves it ready, costs at
  most 9 cycles, and when it costs none the opcode had no row and only \<open>PC\<close> moved.
\<close>

definition cpu_ready :: "nes \<Rightarrow> bool" where
  "cpu_ready s \<longleftrightarrow> cpu_rows s = initial_rows \<and> op_cycles s = 0"

lemma cpu_step_ready:
  assumes "cpu_ready s" and step: "cpu_step s = (cost, t)"
  shows "cpu_ready t" "0 \<le> cost" "cost \<le> 9" "cpu_cycles t = cpu_cycles s - word_of_int cost"
    "fce t = fce s" "am t = am s" "sound s \<Longrightarrow> sound t"
    "cost = 0 \<Longrightarrow> PC_of s \<noteq> 0x2000 \<and> PC_of t = PC_of s + 1"
proof -
  obtain opc u where f: "cpu_fetch s = (opc, u)"
    by fastforce
  let ?d = "cpu_dispatch opc u"
  have u: "clocks u = clocks s" "PC_of u = PC_of s + 1"
    using clocks_fetch [of s] PC_fetch [of s] by (simp_all add: f)
  have rows: "cpu_rows u = initial_rows" "op_cycles u = 0"
    using u(1) assms(1) by (auto simp: clocks_def cpu_ready_def)
  note d = dispatch_clocks [of opc u]
  have t: "t = ?d\<lparr>cpu_cycles := cpu_cycles ?d - word_of_int cost, op_cycles := 0\<rparr>"
    "cost = row_cost opc ?d + op_cycles ?d"
    using step by (auto simp: cpu_step_def f Let_def)
  show "cpu_ready t" "cpu_cycles t = cpu_cycles s - word_of_int cost" "fce t = fce s" "am t = am s"
    using d u(1) rows by (auto simp: t cpu_ready_def clocks_def)
  have c: "row_cost opc ?d = (case initial_rows opc of None \<Rightarrow> 0 | Some r \<Rightarrow> row_cycles r)"
    using d rows by (simp add: row_cost_def)
  show "0 \<le> cost" "cost \<le> 9"
    unfolding t(2) c using d rows initial_row_cycles [of opc] by (auto split: option.split)
  have n: "initial_rows opc = None" if "cost = 0"
    using that d rows initial_row_cycles [of opc] unfolding t(2) c
    by (auto split: option.splits)
  show "PC_of s \<noteq> 0x2000 \<and> PC_of t = PC_of s + 1" if "cost = 0"
    using n [OF that] d rows u fetch_2000 [of s] initial_row_FF by (auto simp: t f)
  show "sound s \<Longrightarrow> sound t"
    using sound.readb [of "set_PC (PC_of s + 1) s" "PC_of s"] dispatch_sound [of u opc] f
    by (simp add: t core_simps cpu_fetch_def)
qed


section \<open>The loop returns\<close>

text \<open>
  The measure of a round: the budget left, then the distance of \<open>PC\<close> from the ports of the
  picture processor.
\<close>

definition ran :: "int \<Rightarrow> nes \<Rightarrow> nes \<Rightarrow> bool" where
  "ran n s t \<longleftrightarrow> cpu_ready t \<and> fce t = fce s \<and> am t = am s \<and> (sound s \<longrightarrow> sound t) \<and>
     (\<exists>used. cpu_cycles t = cpu_cycles s - word_of_int used \<and>
             (if n \<le> 0 then used = 0 else n \<le> used \<and> used \<le> n + 8))"

lemma ran_step:
  assumes "cpu_ready s" "cpu_step s = (cost, u)" "ran (n - cost) u t" "0 < n"
  shows "ran n s t"
proof -
  note st = cpu_step_ready [OF assms(1,2)]
  obtain used where used: "cpu_cycles t = cpu_cycles u - word_of_int used"
    "if n - cost \<le> 0 then used = 0 else n - cost \<le> used \<and> used \<le> n - cost + 8"
    using assms(3) by (auto simp: ran_def)
  have "cpu_cycles t = cpu_cycles s - word_of_int (cost + used)"
    by (simp add: used st(4))
  moreover have "n \<le> cost + used" "cost + used \<le> n + 8"
    using used(2) st(2,3) assms(4) by (auto split: if_splits)
  ultimately have "\<exists>used. cpu_cycles t = cpu_cycles s - word_of_int used \<and> n \<le> used \<and> used \<le> n + 8"
    by blast
  then show ?thesis
    using assms(3,4) st by (simp add: ran_def)
qed

lemma distance_decreases:
  "(pc :: u16) \<noteq> 0x2000 \<Longrightarrow> unat (0x2000 - (pc + 1)) < unat (0x2000 - pc)"
proof -
  assume "pc \<noteq> 0x2000"
  then have "0x2000 - pc \<noteq> 0" by simp
  then have "unat (0x2000 - pc - 1) < unat (0x2000 - pc)"
    by (metis measure_unat)
  then show ?thesis by (simp add: algebra_simps)
qed

lemma cpu_loop_returns: "cpu_ready s \<Longrightarrow> \<exists>t. cpu_loop n s = Some t \<and> ran n s t"
proof (induction "(nat n, unat (0x2000 - PC_of s))" arbitrary: n s
    rule: wf_induct_rule [OF wf_lex_prod [OF wf_less_than wf_less_than]])
  case (1 n s)
  show ?case
  proof (cases "0 < n")
    case False
    then have "cpu_loop n s = Some s"
      by (simp add: cpu_loop.simps)
    moreover have "ran n s s"
      using False 1(2) by (simp add: ran_def)
    ultimately show ?thesis by blast
  next
    case True
    obtain cost u where u: "cpu_step s = (cost, u)"
      by fastforce
    note st = cpu_step_ready [OF 1(2) u]
    have "((nat (n - cost), unat (0x2000 - PC_of u)), (nat n, unat (0x2000 - PC_of s)))
        \<in> less_than <*lex*> less_than"
      using True st(2) st(8) distance_decreases [of "PC_of s"] by (cases "cost = 0") auto
    then obtain t where "cpu_loop (n - cost) u = Some t" "ran (n - cost) u t"
      using 1(1) st(1) by blast
    moreover have "cpu_loop n s = cpu_loop (n - cost) u"
      using True by (simp add: cpu_loop.simps [of n s] u)
    ultimately show ?thesis
      using ran_step [OF 1(2) u _ True] by auto
  qed
qed

section \<open>What running the processor keeps\<close>

context bus_client begin

lemma interrupt: "I s \<Longrightarrow> I (cpu_interrupt s)"
  by (simp add: cpu_interrupt_def cpu_nmi_interrupt_address_def op_keeps flags Let_def split_beta)

end

text \<open>A client that does not look at the clock either is kept by whole runs.\<close>

locale clock_client = bus_client +
  assumes op_cycles_eq: "I (s\<lparr>op_cycles := n\<rparr>) = I s"
    and cpu_cycles_eq: "I (s\<lparr>cpu_cycles := c\<rparr>) = I s"
begin

lemma mode_keeps: "I s \<Longrightarrow> I (run_mode m s)"
  using mode [of s m] by (auto simp: paged_def op_cycles_eq)

lemma step: "I s \<Longrightarrow> I (snd (cpu_step s))"
  by (simp add: cpu_step_def cpu_fetch_def cpu_dispatch_def split_beta Let_def op_cycles_eq
      cpu_cycles_eq keeps mode_keeps handler split: option.split)

lemma loop:
  assumes "cpu_loop n s = Some t" "I s"
  shows "I t"
proof -
  have "I s \<longrightarrow> I t"
    using assms(1)
  proof (rule cpu_loop.raw_induct [rotated, where P = "\<lambda>n s t. I s \<longrightarrow> I t"])
    fix loop n s y
    assume IH: "\<And>n s y. loop n s = Some y \<Longrightarrow> I s \<longrightarrow> I y"
      and y: "(if 0 < n then let (cost, s) = cpu_step s in loop (n - cost) s else Some s) = Some y"
    show "I s \<longrightarrow> I y"
      using y IH step [of s] by (auto simp: split_beta Let_def split: if_splits)
  qed
  with assms(2) show ?thesis by simp
qed

lemma run: "cpu_run n s = Some t \<Longrightarrow> I s \<Longrightarrow> I t"
  unfolding cpu_run_def by (rule loop)

end

interpretation sound: clock_client sound
  by unfold_locales (simp_all add: core_simps)

text \<open>
  C22: \<open>cpu_run\<close> returns for every content of the memory and every state of the registers: with
  the instruction table of \<open>cpu_init\<close>, it spends at least a third of the cycles asked for and at
  most 8 more, moves the clock back by what it spent, and makes no access outside an array if
  the cartridge has no bank switching.
\<close>

theorem cpu_run_returns:
  assumes "cpu_rows s = initial_rows" "op_cycles s = 0"
  shows "\<exists>t used. cpu_run n s = Some t \<and> cpu_clock t = cpu_clock s - word_of_int used \<and>
     (if c_div n 3 \<le> 0 then used = 0 else c_div n 3 \<le> used \<and> used \<le> c_div n 3 + 8) \<and>
     (sound s \<longrightarrow> sound t)"
proof -
  have "cpu_ready s"
    using assms by (simp add: cpu_ready_def)
  from cpu_loop_returns [OF this, of "c_div n 3"] show ?thesis
    by (fastforce simp: cpu_run_def cpu_clock_def ran_def)
qed

theorem cpu_run_returns_witness:
  "\<exists>t used. cpu_run 256 (cpu_init (initial_nes quiet_devices)) = Some t \<and>
     cpu_clock t = - word_of_int used \<and> 85 \<le> used \<and> used \<le> 93"
proof -
  let ?s = "cpu_init (initial_nes quiet_devices)"
  have "cpu_rows ?s = initial_rows" "op_cycles ?s = 0" "cpu_clock ?s = 0"
    by (simp_all add: cpu_init_def initial_nes_def initial_rows_def cpu_clock_def)
  moreover have "c_div 256 3 = 85"
    by (simp add: c_div_def)
  ultimately show ?thesis
    using cpu_run_returns [of ?s 256] by auto
qed

end
