(* ===== verification/NesAlu.thy ===== *)
theory NesAlu
  imports NesRun
begin

text \<open>
  What the instructions of the 6502 compute: addition, subtraction and comparison against
  arithmetic on integers, calls and returns through the stack, and the RAM behind its mirrors.
\<close>

section \<open>Flags bit by bit\<close>

lemma concat_replicate_replicate: "concat (replicate n (replicate m x)) = replicate (n * m) x"
  by (induction n) (simp_all add: replicate_add)

lemma cpu_zn_flag_table_nth:
  "n < 256 \<Longrightarrow> cpu_zn_flag_table ! n =
     (if n = 0 then zero_flag else if n < 128 then 0 else negative_flag)"
  by (auto simp: cpu_zn_flag_table_def concat_replicate_replicate nth_append nth_Cons')

lemma bit_zn_flags: "bit zero_flag k = (k = 1)" "bit negative_flag k = (k = 7)"
  using bit_exp_iff [where 'a = "8 word", of 1 k] bit_exp_iff [where 'a = "8 word", of 7 k]
  by (auto simp: flag_defs)


text \<open>Bit \<open>n\<close> of an integer between 0 and \<open>2 ^ (n + 1)\<close> says in which half it lies.\<close>

lemma top_bit:
  assumes "0 \<le> x" "x < 2 * 2 ^ n"
  shows "bit (x :: int) n \<longleftrightarrow> 2 ^ n \<le> x"
proof -
  have "x div 2 ^ n = (if x < 2 ^ n then 0 else 1)"
    using assms by (auto simp: div_pos_pos_trivial intro: int_div_pos_eq [of _ _ _ "x - 2 ^ n"])
  then show ?thesis
    by (auto simp: bit_iff_odd)
qed

lemma bit7_byte: "bit (w :: u8) 7 \<longleftrightarrow> 128 \<le> uint w"
  using top_bit [of "uint w" 7] byte_bound [of w] by (simp add: bit_uint_iff)

lemma zn_flags_bit:
  "bit (P_of (cpu_update_zn_flags (uint (w :: u8)) s)) k =
     (if k = zero_bp then w = 0 else if k = negative_bp then bit w 7 else bit (P_of s) k)"
proof -
  have "nat (uint w) < 256" "(nat (uint w) = 0) = (w = 0)" "(nat (uint w) < 128) = (uint w < 128)"
    using byte_bound [of w] by (auto simp: nat_less_iff uint_0_iff simp del: nat_uint_eq)
  then show ?thesis
    by (auto simp: cpu_update_zn_flags_def cpu_zn_flag_table_nth bp_defs bit_zn_flags
      bit_or_iff bit_and_iff bit_not_iff bit7_byte [of w] check_fault_def raise_fault_def dest: bit_imp_le_length)
qed


lemma modify_flag_bit:
  "n < 8 \<Longrightarrow> bit (P_of (cpu_modify_flag n b s)) k = (if k = n then b else bit (P_of s) k)"
  by (simp add: cpu_modify_flag_def nes_bits)

lemma set_A_fields: "P_of (set_A v s) = P_of s" "A_of (set_A v s) = v"
  by simp_all

lemma zn_A: "A_of (cpu_update_zn_flags v s) = A_of s"
  by (simp add: cpu_update_zn_flags_def check_fault_def raise_fault_def)

lemma sint_byte: "sint (w :: u8) = (if bit w 7 then uint w - 256 else uint w)"
proof -
  have "sint w = signed_take_bit 7 (uint w)"
    by (simp add: sint_uint)
  also have "\<dots> = (if bit w 7 then uint w - 256 else uint w)"
    using byte_bound [of w]
    by (auto simp: signed_take_bit_eq_take_bit_minus bit_uint_iff take_bit_int_eq_self)
  finally show ?thesis .
qed

lemma bits_and_exp:
  "(x AND 0x100 \<noteq> 0) = bit (x :: int) 8"
  "(x AND y AND 0x80 \<noteq> 0) = bit (x AND y :: int) 7"
  using and_exp_eq_0_iff_not_bit [of x 8] and_exp_eq_0_iff_not_bit [of "x AND y" 7]
  by (simp_all add: and.assoc)

text \<open>Bits 7 and 8 of sums and differences of bytes.\<close>

lemma bit_shift_256: "bit (x + 256 :: int) 7 = bit x 7"
  by (simp add: bit_iff_odd div_add1_eq)

lemma bits_sum:
  assumes "0 \<le> r" "r < 512"
  shows "bit r 8 \<longleftrightarrow> 256 \<le> (r :: int)"
    "bit r 7 \<longleftrightarrow> (128 \<le> r \<and> r < 256) \<or> 384 \<le> r"
proof -
  show "bit r 8 \<longleftrightarrow> 256 \<le> r"
    using top_bit [of r 8] assms by simp
  show "bit r 7 \<longleftrightarrow> (128 \<le> r \<and> r < 256) \<or> 384 \<le> r"
    using top_bit [of r 7] top_bit [of "r - 256" 7] bit_shift_256 [of "r - 256"] assms
    by (cases "r < 256") auto
qed

lemma bits_difference:
  assumes "-256 \<le> r" "r < 256"
  shows "bit r 8 \<longleftrightarrow> (r :: int) < 0"
    "bit r 7 \<longleftrightarrow> 128 \<le> r \<or> (- 128 \<le> r \<and> r < 0)"
proof -
  have "bit (r + 256) 8 \<noteq> bit r 8"
    by (simp add: bit_iff_odd div_add1_eq)
  then show "bit r 8 \<longleftrightarrow> r < 0"
    using top_bit [of "r + 256" 8] assms by auto
  show "bit r 7 \<longleftrightarrow> 128 \<le> r \<or> (- 128 \<le> r \<and> r < 0)"
    using bits_sum(2) [of "r + 256"] bit_shift_256 [of r] assms by auto
qed

section \<open>Addition and subtraction\<close>

text \<open>The flags of a result: carry, zero, overflow and negative, the others unchanged.\<close>

definition result_flags :: "bool \<Rightarrow> bool \<Rightarrow> u8 \<Rightarrow> u8 \<Rightarrow> u8 \<Rightarrow> bool" where
  "result_flags c v a p p' \<longleftrightarrow>
     (\<forall>k. bit p' k = (if k = carry_bp then c else if k = overflow_bp then v
                      else if k = zero_bp then a = 0 else if k = negative_bp then bit a 7
                      else bit p k))"

lemma masked_byte: "word_of_int (r AND 0xFF) = (word_of_int r :: u8)"
  by (rule bit_word_eqI)
    (auto simp: bit_word_of_int_iff bit_and_iff bit_mask_iff dest: bit_imp_le_length
      simp flip: mask_eq_exp_minus_1 [where 'a = int and n = 8, simplified])


definition signed_byte :: "int \<Rightarrow> int" where
  "signed_byte x = (if 128 \<le> x then x - 256 else x)"

lemma sint_signed_byte: "sint (w :: u8) = signed_byte (uint w)"
  by (simp add: sint_byte bit7_byte signed_byte_def)

lemma overflow_sum:
  assumes "0 \<le> a" "a < 256" "0 \<le> v" "v < 256" "0 \<le> c" "c \<le> (1 :: int)"
  shows "bit (NOT (a XOR v) AND (a XOR (a + v + c))) 7 \<longleftrightarrow>
     signed_byte a + signed_byte v + c \<notin> {- 128 .. 127}"
  using bits_sum(2) [of "a + v + c"] top_bit [of a 7] top_bit [of v 7] assms
  by (auto simp: bit_simps signed_byte_def)

lemma overflow_difference:
  assumes "0 \<le> a" "a < 256" "0 \<le> v" "v < 256" "0 \<le> c" "c \<le> (1 :: int)"
  shows "bit ((a XOR v) AND (a XOR (a - v - c))) 7 \<longleftrightarrow>
     signed_byte a - signed_byte v - c \<notin> {- 128 .. 127}"
  using bits_difference(2) [of "a - v - c"] top_bit [of a 7] top_bit [of v 7] assms
  by (auto simp: bit_simps signed_byte_def)

lemma of_bool_bounds: "0 \<le> (of_bool p :: int)" "of_bool p \<le> (1 :: int)"
  by simp_all

definition put_result :: "bool \<Rightarrow> bool \<Rightarrow> u8 \<Rightarrow> nes \<Rightarrow> nes" where
  "put_result c v w s = cpu_update_zn_flags (uint w)
     (set_A w (cpu_modify_flag overflow_bp v (cpu_modify_flag carry_bp c s)))"

lemma put_result_A: "A_of (put_result c v w s) = w"
  by (simp add: put_result_def zn_A)

lemma put_result_flags: "result_flags c v w (P_of s) (P_of (put_result c v w s))"
  unfolding result_flags_def put_result_def zn_flags_bit set_A_fields
  by (simp add: modify_flag_bit bp_defs)

lemma put_result_frame:
  "put_result c v w s = s\<lparr>cpu := (cpu s)\<lparr>cpu_A := w, cpu_P := P_of (put_result c v w s)\<rparr>\<rparr>"
  using byte_bound [of w] by (simp add: put_result_def cpu_update_zn_flags_def cpu_modify_flag_def)

lemma cpu_op_adc_correct:
  assumes "0 \<le> op_value s" "op_value s < 256"
  shows "let a = A_of s; v = op_value s; c = of_bool (cpu_flag_set carry_bp s);
             r = uint a + v + c; t = cpu_op_adc s
         in A_of t = word_of_int r \<and>
            result_flags (256 \<le> r)
              (sint a + sint (word_of_int v :: u8) + c \<notin> {- 128 .. 127}) (A_of t) (P_of s) (P_of t) \<and>
            t = s\<lparr>cpu := (cpu s)\<lparr>cpu_A := A_of t, cpu_P := P_of t\<rparr>\<rparr>"
proof -
  let ?a = "uint (A_of s)" and ?v = "op_value s" and ?c = "of_bool (cpu_flag_set carry_bp s) :: int"
  let ?r = "?a + ?v + ?c"
  note b = byte_bound [of "A_of s"]
  have r: "0 \<le> ?r" "?r < 512"
    using b assms(1,2) by (auto split: if_splits)
  have v: "uint (word_of_int ?v :: u8) = ?v"
    using assms(1,2) by (simp add: uint_word_of_int)
  have c: "(if cpu_flag_set carry_bp s then 1 else 0) = ?c"
    by simp
  define t where "t = cpu_op_adc s"
  have t: "t = put_result (256 \<le> ?r)
      (sint (A_of s) + sint (word_of_int ?v :: u8) + ?c \<notin> {- 128 .. 127}) (word_of_int ?r) s"
    unfolding t_def put_result_def cpu_op_adc_def Let_def c masked_byte bits_and_exp set_A_fields
      bits_sum(1) [OF r] overflow_sum [OF b(2,1) assms of_bool_bounds] sint_signed_byte v ..
  show ?thesis
    unfolding Let_def t_def [symmetric] t put_result_A
    using put_result_flags put_result_frame by blast
qed

lemma cpu_op_sbc_correct:
  assumes "0 \<le> op_value s" "op_value s < 256"
  shows "let a = A_of s; v = op_value s; c = of_bool (\<not> cpu_flag_set carry_bp s);
             r = uint a - v - c; t = cpu_op_sbc s
         in A_of t = word_of_int r \<and>
            result_flags (0 \<le> r)
              (sint a - sint (word_of_int v :: u8) - c \<notin> {- 128 .. 127}) (A_of t) (P_of s) (P_of t) \<and>
            t = s\<lparr>cpu := (cpu s)\<lparr>cpu_A := A_of t, cpu_P := P_of t\<rparr>\<rparr>"
proof -
  let ?a = "uint (A_of s)" and ?v = "op_value s"
  let ?c = "of_bool (\<not> cpu_flag_set carry_bp s) :: int"
  let ?r = "?a - ?v - ?c"
  note b = byte_bound [of "A_of s"]
  have r: "- 256 \<le> ?r" "?r < 256"
    using b assms of_bool_bounds [of "\<not> cpu_flag_set carry_bp s"] by linarith+
  have v: "uint (word_of_int ?v :: u8) = ?v"
    using assms(1,2) by (simp add: uint_word_of_int)
  have c: "(if cpu_flag_set carry_bp s then 0 else 1) = ?c"
    by simp
  define t where "t = cpu_op_sbc s"
  have t: "t = put_result (0 \<le> ?r)
      (sint (A_of s) - sint (word_of_int ?v :: u8) - ?c \<notin> {- 128 .. 127}) (word_of_int ?r) s"
    unfolding t_def put_result_def cpu_op_sbc_def Let_def c masked_byte bits_and_exp set_A_fields
      bits_difference(1) [OF r] not_less
      overflow_difference [OF b(2,1) assms of_bool_bounds] sint_signed_byte v ..
  show ?thesis
    unfolding Let_def t_def [symmetric] t put_result_A
    using put_result_flags put_result_frame by blast
qed

text \<open>
  A comparison sets the flags of the difference and stores nothing.
\<close>

lemma cpu_compare_correct:
  assumes "0 \<le> op_value s" "op_value s < 256"
  shows "cpu_compare reg s = s\<lparr>cpu := (cpu s)\<lparr>cpu_P := P_of (cpu_compare reg s)\<rparr>\<rparr>"
    and "bit (P_of (cpu_compare reg s)) k =
      (if k = carry_bp then op_value s \<le> uint reg else if k = zero_bp then op_value s = uint reg
       else if k = negative_bp then bit (reg - word_of_int (op_value s)) 7 else bit (P_of s) k)"
proof -
  have "(drop_bit 7 (uint reg - op_value s) AND 1 \<noteq> 0) = bit (uint reg - op_value s) 7"
    by (simp add: bit_iff_odd_drop_bit and_one_eq mod_2_eq_odd)
  also have "\<dots> = bit (word_of_int (uint reg - op_value s) :: u8) 7"
    by (simp add: bit_word_of_int_iff del: of_int_diff)
  also have "word_of_int (uint reg - op_value s) = reg - word_of_int (op_value s)"
    by simp
  finally have n: "(drop_bit 7 (uint reg - op_value s) AND 1 \<noteq> 0) = bit (reg - word_of_int (op_value s)) 7" .
  show "cpu_compare reg s = s\<lparr>cpu := (cpu s)\<lparr>cpu_P := P_of (cpu_compare reg s)\<rparr>\<rparr>"
    by (simp add: cpu_compare_def cpu_modify_flag_def Let_def)
  show "bit (P_of (cpu_compare reg s)) k =
      (if k = carry_bp then op_value s \<le> uint reg else if k = zero_bp then op_value s = uint reg
       else if k = negative_bp then bit (reg - word_of_int (op_value s)) 7 else bit (P_of s) k)"
    unfolding cpu_compare_def Let_def n by (auto simp: modify_flag_bit bp_defs)
qed

section \<open>The stack\<close>

lemma low_address:
  assumes "(a :: u16) < 0x800"
  shows "a \<noteq> 0x4014" "drop_bit 13 a = 0" "a AND 0x7FF = a"
proof -
  have u: "unat a < 2048"
    using assms by (simp add: word_less_nat_alt)
  show "a \<noteq> 0x4014" using assms by auto
  show "a AND 0x7FF = a"
    using u by (simp add: masks16 word_unat_eq_iff unsigned_take_bit_eq take_bit_nat_eq_self)
  show "drop_bit 13 a = 0"
    using u by (simp add: word_unat_eq_iff unsigned_drop_bit_eq drop_bit_nat_def take_bit_nat_eq_self)
qed

lemma writeb_low: "a < 0x800 \<Longrightarrow> memory_writeb a d s = s\<lparr>CPU_RAM := (CPU_RAM s)(a := d)\<rparr>"
  by (simp add: memory_writeb_def low_address cpu_ram_write_def Let_def)

lemma readb_low: "a < 0x800 \<Longrightarrow> memory_readb a s = (CPU_RAM s a, s)"
  by (simp add: memory_readb_def low_address cpu_ram_read_def Let_def)

lemma unat_ucast_byte: "unat (ucast (w :: u8) :: u16) = unat w" "unat w < 256"
proof -
  show "unat w < 256"
    using byte_bound [of w] by (simp add: unat_eq_nat_uint nat_less_iff del: nat_uint_eq)
  then show "unat (ucast w :: u16) = unat w"
    by (simp add: unsigned_ucast_eq take_bit_nat_eq_self)
qed

lemma stack_address: "0xFF + ucast (sp :: u8) < (0x800 :: u16)" "0x100 + ucast sp < (0x800 :: u16)"
  using unat_ucast_byte [of sp] by (simp_all add: word_less_nat_alt unat_word_ariths)

lemma stack_next: "0xFF + w + 1 = (0x100 + w :: u16)"
  by simp

lemma word_halves:
  "ucast (ucast (d AND 0xFF) :: u8) + push_bit 8 (ucast (ucast (drop_bit 8 d) :: u8)) = (d :: u16)"
proof -
  have m: "d AND 0xFF = take_bit 8 d"
    by (simp add: take_bit_eq_mask mask_eq_exp_minus_1)
  have "ucast (ucast (take_bit 8 d) :: u8) AND push_bit 8 (ucast (ucast (drop_bit 8 d) :: u8)) = (0 :: u16)"
    by (rule bit_word_eqI) (auto simp: bit_simps)
  then have "ucast (ucast (take_bit 8 d) :: u8) + push_bit 8 (ucast (ucast (drop_bit 8 d) :: u8)) =
      ucast (ucast (take_bit 8 d) :: u8) OR push_bit 8 (ucast (ucast (drop_bit 8 d) :: u8) :: u16)"
    by (rule disjunctive_add_eq_or)
  also have "\<dots> = d"
    by (rule bit_word_eqI) (auto simp: bit_simps)
  finally show ?thesis
    unfolding m .
qed

lemma stack_pushw:
  "cpu_stack_pushw d s = s\<lparr>cpu := (cpu s)\<lparr>cpu_SP := SP_of s - 2\<rparr>,
     CPU_RAM := (CPU_RAM s)(0xFF + ucast (SP_of s) := ucast (d AND 0xFF),
                            0x100 + ucast (SP_of s) := ucast (drop_bit 8 d))\<rparr>"
  by (simp add: cpu_stack_pushw_def memory_writew_def writeb_low stack_address stack_next)

lemma stack_popw:
  "cpu_stack_popw s =
     (let s = set_SP (SP_of s + 2) s
      in (ucast (CPU_RAM s (0xFF + ucast (SP_of s))) +
          push_bit 8 (ucast (CPU_RAM s (0x100 + ucast (SP_of s)))), s))"
  by (simp add: cpu_stack_popw_def memory_readw_def readb_low stack_address stack_next Let_def)

text \<open>
  C24: a call pushes the address of its last byte, jumps, and the matching return restores the
  whole state but the two stack bytes, for every stack pointer. The low byte goes to
  \<open>0xFF + SP\<close>: with \<open>SP = 0\<close> it lands in the zero page, where the 6502 would wrap to \<open>0x1FF\<close>.
\<close>

theorem jsr_rts_roundtrip:
  "let sp = SP_of s; ret = PC_of s - 1; t = cpu_op_jsr s
   in CPU_RAM t = (CPU_RAM s)(0xFF + ucast sp := ucast ret,
                             0x100 + ucast sp := ucast (drop_bit 8 ret)) \<and>
      PC_of t = word_of_int (op_address s) \<and> SP_of t = sp - 2 \<and>
      cpu_op_rts t = s\<lparr>CPU_RAM := CPU_RAM t\<rparr>"
proof -
  define m where "m = (CPU_RAM s)(0xFF + ucast (SP_of s) := ucast ((PC_of s - 1) AND 0xFF),
    0x100 + ucast (SP_of s) := ucast (drop_bit 8 (PC_of s - 1)))"
  have low: "ucast (w AND 0xFF) = (ucast w :: u8)" for w :: u16
    by (rule bit_word_eqI)
      (auto simp: bit_simps simp flip: mask_eq_exp_minus_1 [where 'a = u16 and n = 8, simplified])
  have "0xFF + ucast (SP_of s) \<noteq> (0x100 + ucast (SP_of s) :: u16)"
    by simp
  then have pop: "ucast (m (0xFF + ucast (SP_of s))) + push_bit 8 (ucast (m (0x100 + ucast (SP_of s)))) =
      PC_of s - 1"
    by (simp add: m_def word_halves del: add_left_cancel)
  have jsr: "cpu_op_jsr s = s\<lparr>cpu := (cpu s)\<lparr>cpu_SP := SP_of s - 2,
      cpu_PC := word_of_int (op_address s)\<rparr>, CPU_RAM := m\<rparr>"
    by (simp add: cpu_op_jsr_def stack_pushw m_def Let_def)
  show ?thesis
    unfolding Let_def jsr
    by (simp add: cpu_op_rts_def stack_popw Let_def pop) (simp add: m_def low)
qed

section \<open>The RAM and its mirrors\<close>

text \<open>The accesses of the two ranges that reach the RAM of the processor.\<close>

lemma ram_access:
  assumes "drop_bit 13 a \<in> {0, 3 :: u16}"
  shows "memory_readb a s = (CPU_RAM s (a AND 0x7FF), s)"
    "memory_writeb a d s = s\<lparr>CPU_RAM := (CPU_RAM s)(a AND 0x7FF := d)\<rparr>"
proof -
  have "(a AND 0x7FF) AND 0x7FF = a AND 0x7FF" "(a AND 0x1FFF) AND 0x7FF = a AND 0x7FF"
    by (simp_all add: and.assoc)
  moreover have "a \<noteq> 0x4014"
    using assms by auto
  ultimately show "memory_readb a s = (CPU_RAM s (a AND 0x7FF), s)"
    "memory_writeb a d s = s\<lparr>CPU_RAM := (CPU_RAM s)(a AND 0x7FF := d)\<rparr>"
    using assms by (auto simp: memory_readb_def memory_writeb_def cpu_ram_read_def
        cpu_ram_write_def Let_def)
qed

text \<open>
  C23: \<open>adc\<close> and \<open>sbc\<close> compute the sum and the difference with carry of bytes; carry is the
  unsigned and overflow the signed overflow, zero and negative describe the result, and nothing
  else changes.
\<close>

theorem adc_sbc_correct:
  assumes "0 \<le> op_value s" "op_value s < 256"
  shows "let a = A_of s; v = op_value s; sv = sint (word_of_int v :: u8);
             c = of_bool (cpu_flag_set carry_bp s); b = of_bool (\<not> cpu_flag_set carry_bp s);
             sum = uint a + v + c; diff = uint a - v - b; t = cpu_op_adc s; u = cpu_op_sbc s
         in A_of t = word_of_int sum \<and>
            result_flags (256 \<le> sum) (sint a + sv + c \<notin> {- 128 .. 127}) (A_of t) (P_of s) (P_of t) \<and>
            t = s\<lparr>cpu := (cpu s)\<lparr>cpu_A := A_of t, cpu_P := P_of t\<rparr>\<rparr> \<and>
            A_of u = word_of_int diff \<and>
            result_flags (0 \<le> diff) (sint a - sv - b \<notin> {- 128 .. 127}) (A_of u) (P_of s) (P_of u) \<and>
            u = s\<lparr>cpu := (cpu s)\<lparr>cpu_A := A_of u, cpu_P := P_of u\<rparr>\<rparr>"
  using cpu_op_adc_correct [OF assms] cpu_op_sbc_correct [OF assms] unfolding Let_def by blast

definition add_example :: nes where
  "add_example = (initial_nes quiet_devices)\<lparr>op_value := 0x50,
     cpu := \<lparr>cpu_PC = 0, cpu_SP = 0, cpu_A = 0x50, cpu_X = 0, cpu_Y = 0, cpu_P = 0\<rparr>\<rparr>"

theorem adc_sbc_correct_witness:
  "A_of (cpu_op_adc add_example) = 0xA0 \<and> bit (P_of (cpu_op_adc add_example)) overflow_bp \<and>
   A_of (cpu_op_sbc add_example) = 0xFF \<and> \<not> bit (P_of (cpu_op_sbc add_example)) carry_bp"
proof -
  have p: "A_of add_example = 0x50" "P_of add_example = 0" "op_value add_example = 0x50"
    by (simp_all add: add_example_def)
  have c: "\<not> cpu_flag_set carry_bp add_example"
    by (simp add: cpu_flag_set_def p nes_bits)
  have "A_of (cpu_op_adc add_example) = 0xA0 \<and>
      result_flags False True (A_of (cpu_op_adc add_example)) 0 (P_of (cpu_op_adc add_example)) \<and>
      A_of (cpu_op_sbc add_example) = 0xFF \<and>
      result_flags False False (A_of (cpu_op_sbc add_example)) 0 (P_of (cpu_op_sbc add_example))"
    using adc_sbc_correct [of add_example, unfolded Let_def p, simplified c] by simp metis
  then show ?thesis
    by (simp add: result_flags_def bp_defs)
qed

text \<open>
  The RAM is seen through every address below 0x2000 modulo its size, and so are the
  addresses 0x6000 to 0x7FFF, the place of the cartridge's save RAM: a write through one of them
  is read back through every mirror and changes nothing else.
\<close>

theorem ram_mirrored:
  assumes "drop_bit 13 a \<in> {0, 3}" "drop_bit 13 b \<in> {0, 3}"
  shows "memory_readb b (memory_writeb a d s) =
    (if a AND 0x7FF = b AND 0x7FF then d else fst (memory_readb b s), memory_writeb a d s)"
  by (simp add: ram_access [OF assms(1)] ram_access [OF assms(2)])

theorem ram_mirrored_witness:
  "fst (memory_readb 0x0005 (memory_writeb 0x6805 7 (initial_nes quiet_devices))) = 7 \<and>
   fst (memory_readb 0x1806 (memory_writeb 0x6805 7 (initial_nes quiet_devices))) = 0"
  using ram_mirrored [of "0x6805" "0x0005" 7 "initial_nes quiet_devices"]
    ram_mirrored [of "0x6805" "0x1806" 7 "initial_nes quiet_devices"]
    ram_access(1) [of "0x1806" "initial_nes quiet_devices"]
  by (simp add: initial_nes_def)

end
