(* ===== verification/NesPpu.thy ===== *)
theory NesPpu
  imports NesRun
begin

text \<open>
  The picture of LiteNES: \<open>draw\<close> and \<open>fce_update_screen\<close> of \<open>fce.c\<close>, the two renderers of a
  scanline of \<open>ppu.c\<close> and \<open>ppu_cycle\<close>, which runs the processor for one scanline and draws it.
\<close>

section \<open>The canvas\<close>

definition FPS :: int where "FPS = 60"
definition SCR_W :: int where "SCR_W = 256"
definition SCR_H :: int where "SCR_H = 240"
definition FRAME_SKIP :: int where "FRAME_SKIP = 1"

definition palette :: "u32 list" where
  "palette = [
     0x808080, 0x0000BB, 0x3700BF, 0x8400A6, 0xBB006A, 0xB7001E, 0xB30000, 0x912600,
     0x7B2B00, 0x003E00, 0x00480D, 0x003C22, 0x002F66, 0x000000, 0x050505, 0x050505,
     0xC8C8C8, 0x0059FF, 0x443CFF, 0xB733CC, 0xFF33AA, 0xFF375E, 0xFF371A, 0xD54B00,
     0xC46200, 0x3C7B00, 0x1E8415, 0x009566, 0x0084C4, 0x111111, 0x090909, 0x090909,
     0xFFFFFF, 0x0095FF, 0x6F84FF, 0xD56FFF, 0xFF77CC, 0xFF6F99, 0xFF7B59, 0xFF915F,
     0xFFA233, 0xA6BF00, 0x51D96A, 0x4DD5AE, 0x00D9FF, 0x666666, 0x0D0D0D, 0x0D0D0D,
     0xFFFFFF, 0x84BFFF, 0xBBBBFF, 0xD0BBFF, 0xFFBFEA, 0xFFBFCC, 0xFFC4B7, 0xFFCCAE,
     0xFFD9A2, 0xCCE199, 0xAEEEB7, 0xAAF7EE, 0xB3EEFF, 0xDDDDDD, 0x111111, 0x111111]"

text \<open>The palette has 64 colours; the index is a byte of the palette memory.\<close>

definition palette_at :: "int \<Rightarrow> u32" where
  "palette_at idx = (if 0 \<le> idx \<and> idx < 64 then palette ! nat idx else 0)"

definition check_palette :: "int \<Rightarrow> nes \<Rightarrow> nes" where
  "check_palette idx = check_fault OutOfBounds (0 \<le> idx \<and> idx < 64)"

definition candraw :: "nes \<Rightarrow> bool" where
  "candraw s = (c_mod (frame_cnt (fce s)) (1 + FRAME_SKIP) = 0)"

definition draw :: "int \<Rightarrow> int \<Rightarrow> int \<Rightarrow> nes \<Rightarrow> nes" where
  "draw x y idx s =
     (if x \<ge> 0 \<and> x < SCR_W \<and> y \<ge> 0 \<and> y < SCR_H \<and> candraw s
      then fce_update (canvas_update (\<lambda>c. c(nat (y * SCR_W + x) := palette_at idx)))
             (check_palette idx s)
      else s)"

definition fce_update_screen :: "nes \<Rightarrow> nes" where
  "fce_update_screen s =
     (let s = fce_update (frame_cnt_update (\<lambda>n. n + 1)) s
      in if \<not> candraw s then s
         else
           (let (i, s) = ppu_ram_read 0x3F00 s; idx = uint i; s = check_palette idx s;
                bgc = palette_at idx;
                (width, height) = gpu_size (am s);
                xpad = c_div (width - SCR_W) 2; ypad = c_div (height - SCR_H) 2;
                s = check_fault Panic (\<not> (xpad < 0 \<or> ypad < 0)) s;
                s = am_update (fb_frames_update (\<lambda>f. (xpad, ypad, canvas (fce s)) # f)) s
            in fce_update (canvas_update
                 (\<lambda>c i. if i < nat (SCR_W * SCR_H) then bgc else c i)) s))"

section \<open>The background of a scanline\<close>

definition set_background :: "int \<Rightarrow> int \<Rightarrow> u8 \<Rightarrow> nes \<Rightarrow> nes" where
  "set_background x y c s =
     ppuf_update (ppu_screen_background_update (\<lambda>b. b(x := (b x)(y := c))))
       (check_fault OutOfBounds (0 \<le> x \<and> x < 264 \<and> 0 \<le> y \<and> y < 248) s)"

definition mirror_offset :: "bool \<Rightarrow> int \<Rightarrow> int" where
  "mirror_offset mirror d = (if mirror then d else 0)"

definition draw_background_pixel ::
    "bool \<Rightarrow> int \<Rightarrow> u8 \<Rightarrow> u8 \<Rightarrow> nat \<Rightarrow> nes \<Rightarrow> nes" where
  "draw_background_pixel mirror tile_x l h x s =
     (let color = ppu_l_h_addition_table (ppuf s) l h x; line = scanline (ppu s)
      in if color \<noteq> 0 then
           (let attribute_address = word_of_int
                  (uint (ppu_base_nametable_address s) + mirror_offset mirror 0x400 + 0x3C0 +
                   drop_bit 2 tile_x + drop_bit 5 line * 8);
                is_top = c_mod line 32 < 16;
                is_left = c_mod tile_x 4 < 2;
                (attr, s) = ppu_ram_read attribute_address s;
                attr = (if is_top then attr else drop_bit 4 attr);
                attr = (if is_left then attr else drop_bit 2 attr) AND 3;
                palette_address = (0x3F00 + push_bit 2 (ucast attr) :: u16);
                (idx, s) = ppu_ram_read (palette_address + ucast color) s;
                s = set_background (push_bit 3 tile_x + int x) line color s
            in draw (push_bit 3 tile_x + int x - uint (PPUSCROLL_X (ppu s)) +
                       mirror_offset mirror 256) (line + 1) (uint idx) s)
         else s)"

definition draw_background_tile :: "bool \<Rightarrow> int \<Rightarrow> nes \<Rightarrow> nes" where
  "draw_background_tile mirror tile_x s =
     (if push_bit 3 tile_x - uint (PPUSCROLL_X (ppu s)) + mirror_offset mirror 256 > 256 then s
      else
        (let line = scanline (ppu s); tile_y = drop_bit 3 line;
             (tile_index, s) = ppu_ram_read (word_of_int
                (uint (ppu_base_nametable_address s) + tile_x + push_bit 5 tile_y +
                 mirror_offset mirror 0x400)) s;
             tile_address = ppu_background_pattern_table_address s + 16 * ucast tile_index;
             y_in_tile = word_of_int (line AND 0x7);
             (l, s) = ppu_ram_read (tile_address + y_in_tile) s;
             (h, s) = ppu_ram_read (tile_address + y_in_tile + 8) s
         in fold (draw_background_pixel mirror tile_x l h) [0..<8] s))"

definition ppu_draw_background_scanline :: "bool \<Rightarrow> nes \<Rightarrow> nes" where
  "ppu_draw_background_scanline mirror s =
     fold (draw_background_tile mirror)
       [if ppu_shows_background_in_leftmost_8px s then 0 else 1 .. 31] s"

section \<open>The sprites of a scanline\<close>

text \<open>Both branches on the priority bit of the sprite draw the same, as in the code.\<close>

definition sprite_0_hit :: "nat \<Rightarrow> int \<Rightarrow> int \<Rightarrow> u8 \<Rightarrow> nes \<Rightarrow> nes" where
  "sprite_0_hit n screen_x screen_y color s =
     (if ppu_shows_background s \<and> \<not> ppu_sprite_hit_occured (ppuf s) \<and> n = 0 then
        (let s = check_fault OutOfBounds
               (0 \<le> screen_x \<and> screen_x < 264 \<and> 0 \<le> screen_y \<and> screen_y < 248) s
         in if ppu_screen_background (ppuf s) screen_x screen_y = color
            then ppuf_update (ppu_sprite_hit_occured_update (\<lambda>_. True)) (ppu_set_sprite_0_hit True s)
            else s)
      else s)"

definition draw_sprite_pixel ::
    "nat \<Rightarrow> u8 \<Rightarrow> u8 \<Rightarrow> u8 \<Rightarrow> u8 \<Rightarrow> nat \<Rightarrow> nes \<Rightarrow> nes" where
  "draw_sprite_pixel n sprite_x sprite_y l h x s =
     (let attr = PPU_SPRRAM (ppuf s) (of_nat n + 2); hflip = (attr AND 0x40 \<noteq> 0);
          palette_address = (0x3F10 + push_bit 2 (ucast (attr AND 3)) :: u16);
          color = (if hflip then ppu_l_h_addition_flip_table (ppuf s) l h x
                   else ppu_l_h_addition_table (ppuf s) l h x)
      in if color \<noteq> 0 then
           (let screen_x = uint sprite_x + int x;
                screen_y = uint sprite_y + (scanline (ppu s) AND 0x7);
                (idx, s) = ppu_ram_read (palette_address + ucast color) s;
                s = (if attr AND 0x20 \<noteq> 0 then draw screen_x (screen_y + 1) (uint idx) s
                     else draw screen_x (screen_y + 1) (uint idx) s)
            in sprite_0_hit n screen_x screen_y color s)
         else s)"

definition draw_sprite :: "nat \<Rightarrow> nat \<times> nes \<Rightarrow> nat \<times> nes" where
  "draw_sprite n = (\<lambda>(count, s).
     let sprite_x = PPU_SPRRAM (ppuf s) (of_nat n + 3);
         sprite_y = PPU_SPRRAM (ppuf s) (of_nat n); line = scanline (ppu s)
     in if uint sprite_y > line \<or> uint sprite_y + uint (ppu_sprite_height s) < line then (count, s)
        else
          (let count = count + 1;
               s = (if count > 8 then ppu_set_sprite_overflow True s else s);
               vflip = (PPU_SPRRAM (ppuf s) (of_nat n + 2) AND 0x80 \<noteq> 0);
               tile_address = ppu_sprite_pattern_table_address s +
                 16 * ucast (PPU_SPRRAM (ppuf s) (of_nat n + 1));
               y_in_tile = line AND 0x7;
               row = word_of_int (if vflip then 7 - y_in_tile else y_in_tile);
               (l, s) = ppu_ram_read (tile_address + row) s;
               (h, s) = ppu_ram_read (tile_address + row + 8) s
           in (count, fold (draw_sprite_pixel n sprite_x sprite_y l h) [0..<8] s)))"

definition ppu_draw_sprite_scanline :: "nes \<Rightarrow> nes" where
  "ppu_draw_sprite_scanline s = snd (fold (\<lambda>i. draw_sprite (4 * i)) [0..<64] (0, s))"

section \<open>One scanline\<close>

text \<open>
  \<open>ppu_cycle\<close> before and after the three runs of the processor. The result is \<open>None\<close> when a
  run of the processor does not return.
\<close>

definition ppu_get_ready :: "nes \<Rightarrow> nes" where
  "ppu_get_ready s =
     (if \<not> ppu_ready (ppu s) \<and> cpu_clock s > 29658
      then ppu_update (ppu_ready_update (\<lambda>_. True)) s else s)"

definition ppu_background_phase :: "nes \<Rightarrow> nes" where
  "ppu_background_phase s =
     (let s = ppu_update (scanline_update (\<lambda>l. l + 1)) s
      in if scanline (ppu s) < SCR_H \<and> ppu_shows_background s
         then ppu_draw_background_scanline True (ppu_draw_background_scanline False s) else s)"

definition ppu_sprite_phase :: "nes \<Rightarrow> nes" where
  "ppu_sprite_phase s =
     (if scanline (ppu s) < SCR_H \<and> ppu_shows_sprites s then ppu_draw_sprite_scanline s else s)"

definition ppu_end_phase :: "nes \<Rightarrow> nes" where
  "ppu_end_phase s =
     (if scanline (ppu s) = 241
      then cpu_interrupt (ppu_set_sprite_0_hit False (ppu_set_in_vblank True s))
      else if scanline (ppu s) = 262 then
        (let s = ppu_update (scanline_update (\<lambda>_. - 1)) s;
             s = ppuf_update (ppu_sprite_hit_occured_update (\<lambda>_. False)) s
         in fce_update_screen (ppu_set_in_vblank False s))
      else s)"

definition ppu_cycle :: "nes \<Rightarrow> nes option" where
  "ppu_cycle s = do {
     s \<leftarrow> cpu_run 256 (ppu_get_ready s);
     s \<leftarrow> cpu_run (85 - 16) (ppu_background_phase s);
     s \<leftarrow> cpu_run 16 (ppu_sprite_phase s);
     Some (ppu_end_phase s)
   }"

primrec ppu_cycles :: "nat \<Rightarrow> nes \<Rightarrow> nes option" where
  "ppu_cycles 0 s = Some s"
| "ppu_cycles (Suc n) s = do { s \<leftarrow> ppu_cycle s; ppu_cycles n s }"

definition ppu_run :: "int \<Rightarrow> nes \<Rightarrow> nes option" where
  "ppu_run cycles = ppu_cycles (nat cycles)"

end
