(* ===== verification/NesRaster.thy ===== *)
theory NesRaster
  imports NesPpu
begin

text \<open>
  The renderer of LiteNES: which parts of the state a scanline changes, the period of the
  raster, and the array accesses of drawing.
\<close>

text \<open>The raster: where the picture processor is, and its tables of pixel values.\<close>

definition raster :: "nes \<Rightarrow> int \<times> (u8 \<Rightarrow> u8 \<Rightarrow> nat \<Rightarrow> u8) \<times> (u8 \<Rightarrow> u8 \<Rightarrow> nat \<Rightarrow> u8)" where
  "raster s = (scanline (ppu s), ppu_l_h_addition_table (ppuf s), ppu_l_h_addition_flip_table (ppuf s))"

lemma raster_updates:
  "raster (s\<lparr>CPU_RAM := m\<rparr>) = raster s" "raster (psg_update k s) = raster s"
  "raster (cpu_update c s) = raster s" "raster (s\<lparr>op_value := v\<rparr>) = raster s"
  "raster (s\<lparr>op_address := v\<rparr>) = raster s" "raster (s\<lparr>op_cycles := v\<rparr>) = raster s"
  "raster (s\<lparr>cpu_cycles := w\<rparr>) = raster s" "raster (mmc_update h s) = raster s"
  "raster (check_fault e b s) = raster s" "raster (set_latch d s) = raster s"
  "raster (set_first_read q s) = raster s" "raster (mask_ppuaddr s) = raster s"
  "raster (ppu_sprram_write d s) = raster s" "raster (ppu_ram_write a d s) = raster s"
  "raster (snd (ppu_ram_read a s)) = raster s"
  by (simp_all add: raster_def check_fault_def raise_fault_def set_latch_def set_first_read_def
      mask_ppuaddr_def ppu_sprram_write_def ppu_ram_write_def ppu_ram_read_def Let_def)

lemma raster_ppu:
  "(\<And>p. scanline (f p) = scanline p) \<Longrightarrow> raster (ppu_update f s) = raster s"
  "(\<And>p. ppu_l_h_addition_table (g p) = ppu_l_h_addition_table p) \<Longrightarrow>
   (\<And>p. ppu_l_h_addition_flip_table (g p) = ppu_l_h_addition_flip_table p) \<Longrightarrow>
   raster (ppuf_update g s) = raster s"
  "scanline p = scanline (ppu s) \<Longrightarrow> raster (s\<lparr>ppu := p\<rparr>) = raster s"
  by (simp_all add: raster_def)

lemmas raster_simps = raster_updates raster_ppu

lemma raster_readb: "raster (snd (memory_readb a s)) = raster s"
  by (simp add: memory_readb_def psgio_read_def ppuio_read_def ppuio_read_status_def
      ppuio_read_data_def ppu_set_defs Let_def split_beta raster_simps)

lemma raster_dma: "raster (dma_transfer d s) = raster s"
  unfolding dma_transfer_def by (rule fold_keeps) (simp add: raster_simps)

lemma raster_writeb: "raster (memory_writeb a d s) = raster s"
  by (simp add: memory_writeb_def cpu_ram_write_def psgio_write_def mmc_write_def ppu_copy_def
      ppuio_write_def ppuio_write_data_def ppuio_write_addr_def Let_def raster_dma raster_simps)

interpretation raster: clock_client "\<lambda>s. raster s = k" for k
  by unfold_locales (simp_all add: raster_readb raster_writeb raster_simps)

section \<open>What drawing keeps\<close>

definition undrawn ::
  "nes \<Rightarrow> CPU_STATE \<times> (u16 \<Rightarrow> u8) \<times> int \<times> u64 \<times> (u8 \<Rightarrow> cpu_row option) \<times> int \<times> mmc_file \<times>
    am_devices" where
  "undrawn s = (cpu s, CPU_RAM s, op_cycles s, cpu_cycles s, cpu_rows s, frame_cnt (fce s), mmc s,
     am s)"

named_theorems draw_simps \<open>functions of the renderer and what they keep\<close>

lemma undrawn_updates [draw_simps]:
  "undrawn (check_fault e b s) = undrawn s" "undrawn (check_palette i s) = undrawn s"
  "undrawn (snd (ppu_ram_read a s)) = undrawn s" "undrawn (draw x y i s) = undrawn s"
  "undrawn (set_background x y c s) = undrawn s" "undrawn (ppu_update f s) = undrawn s"
  "undrawn (ppuf_update g s) = undrawn s" "undrawn (fce_update (canvas_update h) s) = undrawn s"
  by (simp_all add: undrawn_def check_palette_def check_fault_def raise_fault_def ppu_ram_read_def
      draw_def set_background_def Let_def)

lemma raster_draws [draw_simps]:
  "raster (check_palette i s) = raster s" "raster (draw x y i s) = raster s"
  "raster (set_background x y c s) = raster s"
  by (simp_all add: raster_def check_palette_def check_fault_def raise_fault_def draw_def
      set_background_def)

lemmas background_defs = ppu_draw_background_scanline_def draw_background_tile_def
  draw_background_pixel_def

lemmas sprite_defs = draw_sprite_def draw_sprite_pixel_def sprite_0_hit_def ppu_set_defs

lemma background_keeps [draw_simps]:
  "undrawn (ppu_draw_background_scanline m s) = undrawn s"
  "raster (ppu_draw_background_scanline m s) = raster s"
  unfolding ppu_draw_background_scanline_def
  by (rule fold_keeps; simp add: draw_background_tile_def Let_def split_beta;
      intro impI; subst fold_keeps; simp add: draw_background_pixel_def Let_def split_beta
        draw_simps raster_simps)+

lemma sprite_pixel_keeps [draw_simps]:
  "undrawn (draw_sprite_pixel n x y l h i s) = undrawn s"
  "raster (draw_sprite_pixel n x y l h i s) = raster s"
  by (simp_all add: draw_sprite_pixel_def sprite_0_hit_def ppu_set_defs Let_def split_beta draw_simps
      raster_simps)

lemma sprite_keeps [draw_simps]:
  "undrawn (snd (draw_sprite n c)) = undrawn (snd c)" "raster (snd (draw_sprite n c)) = raster (snd c)"
  by (cases c; simp add: draw_sprite_def ppu_set_defs Let_def split_beta draw_simps raster_simps
      fold_keeps [where f = undrawn] fold_keeps [where f = raster])+

lemma sprites_keep [draw_simps]:
  "undrawn (ppu_draw_sprite_scanline s) = undrawn s" "raster (ppu_draw_sprite_scanline s) = raster s"
  unfolding ppu_draw_sprite_scanline_def
  using fold_keeps [where f = "\<lambda>p. undrawn (snd p)" and g = "\<lambda>i. draw_sprite (4 * i)"]
    fold_keeps [where f = "\<lambda>p. raster (snd p)" and g = "\<lambda>i. draw_sprite (4 * i)"]
  by (simp_all add: draw_simps)

section \<open>The period of the raster\<close>

text \<open>
  What a scanline needs of the state: the processor between two rounds and a line in range.
\<close>

definition beam :: "nes \<Rightarrow> int \<times> int \<times> nat" where
  "beam s = (scanline (ppu s), frame_cnt (fce s), length (fb_frames (am s)))"

lemma cpu_run_beam:
  assumes "cpu_ready s"
  obtains t where "cpu_run n s = Some t" "cpu_ready t" "beam t = beam s"
proof -
  obtain t where t: "cpu_run n s = Some t" "ran (c_div n 3) s t"
    using cpu_loop_returns [OF assms, of "c_div n 3"] by (auto simp: cpu_run_def)
  have "raster t = raster s"
    using raster.run [OF t(1)] by blast
  then have "beam t = beam s"
    using t(2) by (simp add: ran_def beam_def raster_def)
  moreover have "cpu_ready t"
    using t(2) by (simp add: ran_def)
  ultimately show thesis
    using that t(1) by blast
qed

lemma cpu_ready_undrawn: "undrawn t = undrawn s \<Longrightarrow> cpu_ready t = cpu_ready s"
  by (simp add: undrawn_def cpu_ready_def)

lemma beam_undrawn: "undrawn t = undrawn s \<Longrightarrow> raster t = raster s \<Longrightarrow> beam t = beam s"
  by (simp add: undrawn_def raster_def beam_def)

lemma get_ready_phase:
  "cpu_ready (ppu_get_ready s) = cpu_ready s" "beam (ppu_get_ready s) = beam s"
  by (simp_all add: ppu_get_ready_def cpu_ready_def beam_def)

lemma sprite_phase:
  "cpu_ready (ppu_sprite_phase s) = cpu_ready s" "beam (ppu_sprite_phase s) = beam s"
  unfolding ppu_sprite_phase_def
  by (auto intro!: cpu_ready_undrawn beam_undrawn simp: draw_simps split: if_split)

lemma background_phase:
  "cpu_ready (ppu_background_phase s) = cpu_ready s"
  "beam (ppu_background_phase s) = (scanline (ppu s) + 1, snd (beam s))"
proof -
  let ?s = "ppu_update (scanline_update (\<lambda>l. l + 1)) s"
  have "undrawn (ppu_background_phase s) = undrawn ?s \<and> raster (ppu_background_phase s) = raster ?s"
    by (cases "scanline (ppu ?s) < SCR_H \<and> ppu_shows_background ?s")
      (simp_all only: ppu_background_phase_def Let_def draw_simps if_True if_False HOL.simp_thms)
  then have "cpu_ready (ppu_background_phase s) = cpu_ready ?s" "beam (ppu_background_phase s) = beam ?s"
    using cpu_ready_undrawn beam_undrawn by blast+
  then show "cpu_ready (ppu_background_phase s) = cpu_ready s"
    "beam (ppu_background_phase s) = (scanline (ppu s) + 1, snd (beam s))"
    by (simp_all add: cpu_ready_def beam_def)
qed


lemma c_mod_2: "0 \<le> n \<Longrightarrow> c_mod n 2 = n mod 2"
  by (cases "n = 0") (simp_all add: c_mod_def c_div_def minus_div_mult_eq_mod [symmetric])

lemma update_screen:
  "cpu_ready (fce_update_screen s) = cpu_ready s"
  "0 \<le> frame_cnt (fce s) \<Longrightarrow> beam (fce_update_screen s) =
     (scanline (ppu s), frame_cnt (fce s) + 1,
      length (fb_frames (am s)) + of_bool (even (frame_cnt (fce s) + 1)))"
  by (simp_all add: fce_update_screen_def candraw_def FRAME_SKIP_def c_mod_2 ppu_ram_read_def
      check_palette_def check_fault_def raise_fault_def cpu_ready_def beam_def Let_def split_beta
      even_iff_mod_2_eq_zero)

lemma end_phase:
  assumes "cpu_ready s"
  shows "cpu_ready (ppu_end_phase s)"
    and "0 \<le> frame_cnt (fce s) \<Longrightarrow> beam (ppu_end_phase s) =
       (if scanline (ppu s) = 262
        then (- 1, frame_cnt (fce s) + 1,
              length (fb_frames (am s)) + of_bool (even (frame_cnt (fce s) + 1)))
        else beam s)"
proof -
  let ?v = "ppu_set_sprite_0_hit False (ppu_set_in_vblank True s)"
  let ?n = "ppu_set_in_vblank False (ppuf_update (ppu_sprite_hit_occured_update (\<lambda>_. False))
     (ppu_update (scanline_update (\<lambda>_. - 1)) s))"
  have v: "cpu_ready (cpu_interrupt ?v)" "beam (cpu_interrupt ?v) = beam s"
    using clocks.interrupt [of ?v "clocks s"] raster.interrupt [of ?v "raster s"] assms
    by (simp_all add: cpu_ready_def beam_def clocks_def raster_def ppu_set_defs)
  have n: "cpu_ready ?n = cpu_ready s"
      "beam ?n = (- 1, frame_cnt (fce s), length (fb_frames (am s)))"
      "fce ?n = fce s" "am ?n = am s" "scanline (ppu ?n) = - 1"
    by (simp_all add: cpu_ready_def beam_def ppu_set_defs)
  show "cpu_ready (ppu_end_phase s)"
    using v n assms by (simp add: ppu_end_phase_def update_screen Let_def)
  show "beam (ppu_end_phase s) = (if scanline (ppu s) = 262
        then (- 1, frame_cnt (fce s) + 1,
              length (fb_frames (am s)) + of_bool (even (frame_cnt (fce s) + 1)))
        else beam s)" if "0 \<le> frame_cnt (fce s)"
    using v n that update_screen(2) [of ?n] by (simp add: ppu_end_phase_def Let_def)
qed

lemma ppu_cycle_beam:
  assumes "cpu_ready s" "0 \<le> frame_cnt (fce s)"
  obtains t where "ppu_cycle s = Some t" "cpu_ready t" "beam t =
     (if scanline (ppu s) = 261
      then (- 1, frame_cnt (fce s) + 1,
            length (fb_frames (am s)) + of_bool (even (frame_cnt (fce s) + 1)))
      else (scanline (ppu s) + 1, snd (beam s)))"
proof -
  obtain a where a: "cpu_run 256 (ppu_get_ready s) = Some a" "cpu_ready a" "beam a = beam s"
    using cpu_run_beam [of "ppu_get_ready s" 256] assms(1) get_ready_phase [of s] by auto
  obtain b where b: "cpu_run 69 (ppu_background_phase a) = Some b" "cpu_ready b"
      "beam b = (scanline (ppu a) + 1, snd (beam a))"
    using cpu_run_beam [of "ppu_background_phase a" 69] a(2) background_phase [of a] by auto
  obtain c where c: "cpu_run 16 (ppu_sprite_phase b) = Some c" "cpu_ready c" "beam c = beam b"
    using cpu_run_beam [of "ppu_sprite_phase b" 16] b(2) sprite_phase [of b] by auto
  have "ppu_cycle s = Some (ppu_end_phase c)"
    by (simp add: ppu_cycle_def a b c)
  moreover have "beam c = (scanline (ppu s) + 1, snd (beam s))"
    using a b c by (simp add: beam_def)
  ultimately show thesis
    using that end_phase [OF c(2)] assms(2) by (simp add: beam_def)
qed

lemma mod_263_step:
  assumes "- 1 \<le> l" "l \<le> 261"
  shows "((if l = 261 then - 1 else l + 1) + 1 + n) mod 263 = (l + 1 + (1 + n)) mod (263 :: int)"
    "(if l = 261 then 1 else 0) + ((if l = 261 then - 1 else l + 1) + 1 + n) div 263 =
       (l + 1 + (1 + n)) div (263 :: int)"
proof -
  have "(261 + 1 + (1 + n)) mod 263 = n mod 263" "(261 + 1 + (1 + n)) div 263 = 1 + n div 263"
    by (simp_all add: add.assoc [symmetric])
  then show "((if l = 261 then - 1 else l + 1) + 1 + n) mod 263 = (l + 1 + (1 + n)) mod 263"
    "(if l = 261 then 1 else 0) + ((if l = 261 then - 1 else l + 1) + 1 + n) div 263 =
       (l + 1 + (1 + n)) div 263"
    by (auto simp: algebra_simps)
qed

lemma half_step: "(n + 1) div 2 = n div 2 + of_bool (even (n + 1 :: int))"
  unfolding of_bool_def by presburger

lemma ppu_cycles_period:
  assumes "cpu_ready s" "- 1 \<le> scanline (ppu s)" "scanline (ppu s) \<le> 261" "0 \<le> frame_cnt (fce s)"
  shows "\<exists>t. ppu_cycles n s = Some t \<and>
     scanline (ppu t) = (scanline (ppu s) + 1 + int n) mod 263 - 1 \<and>
     frame_cnt (fce t) = frame_cnt (fce s) + (scanline (ppu s) + 1 + int n) div 263 \<and>
     int (length (fb_frames (am t))) = int (length (fb_frames (am s))) +
       (frame_cnt (fce t) div 2 - frame_cnt (fce s) div 2)"
  using assms
proof (induction n arbitrary: s)
  case 0
  then show ?case by simp
next
  case (Suc n)
  obtain u where u: "ppu_cycle s = Some u" "cpu_ready u" "beam u =
     (if scanline (ppu s) = 261
      then (- 1, frame_cnt (fce s) + 1,
            length (fb_frames (am s)) + of_bool (even (frame_cnt (fce s) + 1)))
      else (scanline (ppu s) + 1, snd (beam s)))"
    using ppu_cycle_beam [OF Suc.prems(1,4)] .
  have l: "scanline (ppu u) = (if scanline (ppu s) = 261 then - 1 else scanline (ppu s) + 1)"
    "frame_cnt (fce u) = frame_cnt (fce s) + (if scanline (ppu s) = 261 then 1 else 0)"
    "int (length (fb_frames (am u))) = int (length (fb_frames (am s))) +
       (frame_cnt (fce u) div 2 - frame_cnt (fce s) div 2)"
    using u(3) half_step [of "frame_cnt (fce s)"] by (auto simp: beam_def split: if_splits)
  have "- 1 \<le> scanline (ppu u)" "scanline (ppu u) \<le> 261" "0 \<le> frame_cnt (fce u)"
    unfolding l(1,2) using Suc.prems by auto
  from Suc.IH [OF u(2) this] obtain t where t: "ppu_cycles n u = Some t"
    "scanline (ppu t) = (scanline (ppu u) + 1 + int n) mod 263 - 1"
    "frame_cnt (fce t) = frame_cnt (fce u) + (scanline (ppu u) + 1 + int n) div 263"
    "int (length (fb_frames (am t))) = int (length (fb_frames (am u))) +
       (frame_cnt (fce t) div 2 - frame_cnt (fce u) div 2)"
    by blast
  note m = mod_263_step [OF Suc.prems(2,3), of "int n"]
  have "scanline (ppu t) = (scanline (ppu s) + 1 + int (Suc n)) mod 263 - 1"
    unfolding t(2) l(1) m(1) by simp
  moreover have "frame_cnt (fce t) = frame_cnt (fce s) + (scanline (ppu s) + 1 + int (Suc n)) div 263"
    unfolding t(3) l(1,2) using m(2) by simp
  ultimately show ?case
    using t(1,4) u(1) l(3) by simp
qed

section \<open>Drawing stays inside the arrays\<close>

definition palette_ok :: "nes \<Rightarrow> bool" where
  "palette_ok s \<longleftrightarrow> (\<forall>k < 32. PPU_RAM (ppuf s) (of_nat (0x3F00 + k)) < 64)"

definition drawable :: "nes \<Rightarrow> bool" where
  "drawable s \<longleftrightarrow> sound s \<and> palette_ok s \<and> ppu_l_h_addition_table (ppuf s) = l_h_addition \<and>
     ppu_l_h_addition_flip_table (ppuf s) = l_h_addition_flip \<and>
     0 \<le> scanline (ppu s) \<and> scanline (ppu s) < SCR_H"

lemma one_bit: "(w AND 1 :: u8) \<le> 1"
  by (simp add: word_and_le1)

lemma pixel_bound: "uint (l_h_addition l h x) < 4" "uint (l_h_addition_flip l h x) < 4"
proof -
  have two: "uint (push_bit 1 (a AND 1) OR (b AND 1) :: u8) < 4" for a b :: u8
  proof -
    have "push_bit 1 (a AND 1) OR (b AND 1) = take_bit 2 (push_bit 1 (a AND 1) OR (b AND 1))"
      by (rule bit_word_eqI) (auto simp: bit_simps)
    then show ?thesis
      using less_exp_take_bit [of 2 "push_bit 1 (a AND 1) OR (b AND 1)"] by (simp add: word_less_def)
  qed
  show "uint (l_h_addition l h x) < 4" "uint (l_h_addition_flip l h x) < 4"
    by (simp_all only: l_h_addition_def l_h_addition_flip_def two)
qed

lemma palette_read:
  assumes "palette_ok s" "0x3F00 \<le> a" "a < 0x4000"
  shows "uint (fst (ppu_ram_read a s)) < 64"
proof -
  obtain k where k: "k < 32" "ppu_get_real_ram_address a = of_nat (0x3F00 + palette_index k)"
    using palette_address [OF assms(2,3)] by metis
  have "palette_index k < 32"
    using k(1) by (auto simp: palette_index_def)
  then have "PPU_RAM (ppuf s) (of_nat (0x3F00 + palette_index k)) < 64"
    using assms(1) unfolding palette_ok_def by blast
  then show ?thesis
    by (simp only: ppu_ram_read_def k(2) Let_def fst_conv word_less_def) simp
qed

lemma drawable_updates [draw_simps]:
  "drawable (ppu_update (PPUSTATUS_update f) s) = drawable s"
  "drawable (ppuf_update (ppu_sprite_hit_occured_update g) s) = drawable s"
  by (simp_all add: drawable_def sound_def palette_ok_def)

lemma draw_drawable: "drawable s \<Longrightarrow> 0 \<le> i \<Longrightarrow> i < 64 \<Longrightarrow> drawable (draw x y i s)"
  by (simp add: draw_def check_palette_def drawable_def sound_def palette_ok_def)

lemma set_background_drawable:
  "drawable s \<Longrightarrow> 0 \<le> x \<Longrightarrow> x < 264 \<Longrightarrow> 0 \<le> y \<Longrightarrow> y < 248 \<Longrightarrow> drawable (set_background x y c s)"
  by (simp add: set_background_def drawable_def sound_def palette_ok_def)

lemma and_bound: "uint ((a :: u8) AND 3) < 4"
  using less_exp_take_bit [of 2 "take_bit 2 a"]
  by (simp add: take_bit_eq_mask mask_eq_exp_minus_1 word_less_def)

lemma uint_ucast_byte: "uint (ucast (w :: u8) :: u16) = uint w"
  using byte_bound [of w] by (simp add: unsigned_ucast_eq take_bit_int_eq_self)

lemma palette_range:
  assumes "c \<in> {0x3F00, 0x3F10 :: u16}" "uint (color :: u8) < 4"
  shows "0x3F00 \<le> c + push_bit 2 (ucast (a AND 3 :: u8)) + ucast color"
    "c + push_bit 2 (ucast (a AND 3 :: u8)) + ucast color < 0x4000"
proof -
  note b = and_bound [of a] assms(2) byte_bound [of "a AND 3"] byte_bound [of color]
  have p: "uint (push_bit 2 (ucast (a AND 3)) :: u16) = 4 * uint (a AND 3)"
    using b by (simp add: push_bit_eq_mult uint_word_ariths uint_ucast_byte)
  have "uint (c + push_bit 2 (ucast (a AND 3 :: u8)) + ucast color) =
      uint c + 4 * uint (a AND 3) + uint color"
    using assms(1) b by (auto simp: uint_word_ariths p uint_ucast_byte)
  then show "0x3F00 \<le> c + push_bit 2 (ucast (a AND 3 :: u8)) + ucast color"
    "c + push_bit 2 (ucast (a AND 3 :: u8)) + ucast color < 0x4000"
    using assms(1) b by (auto simp: word_le_def word_less_def)
qed

lemma int_address: "0 \<le> i \<Longrightarrow> i < 0x4000 \<Longrightarrow> word_of_int i < (0x4000 :: u16)"
  by (simp add: word_less_def uint_word_of_int)

lemma base_bound: "0 \<le> uint (ppu_base_nametable_address s)" "uint (ppu_base_nametable_address s) \<le> 0x2C00"
proof -
  have "unat (PPUCTRL (ppu s) AND 3) < 4"
    using and_bound [of "PPUCTRL (ppu s)"] by (simp add: unat_eq_nat_uint nat_less_iff del: nat_uint_eq)
  then have "unat (PPUCTRL (ppu s) AND 3) \<in> {0, 1, 2, 3}"
    by auto
  then show "uint (ppu_base_nametable_address s) \<le> 0x2C00"
    by (auto simp: ppu_base_nametable_address_def ppu_base_nametable_addresses_def)
qed simp

lemma uint16_add: "uint a + uint b < 65536 \<Longrightarrow> uint (a + b :: u16) = uint a + uint b"
  by (simp add: uint_word_ariths)

lemma tile_range:
  assumes "t \<in> {0, 0x1000 :: u16}" "0 \<le> y" "y < 8"
  shows "t + 16 * ucast (i :: u8) + word_of_int y < 0x4000"
    "t + 16 * ucast (i :: u8) + word_of_int y + 8 < 0x4000"
proof -
  note b = byte_bound [of i]
  have m: "uint (16 * ucast i :: u16) = 16 * uint i"
    using b by (simp add: uint_word_ariths uint_ucast_byte)
  have w: "uint (word_of_int y :: u16) = y"
    using assms by (simp add: uint_word_of_int)
  have s1: "uint (t + 16 * ucast i) = uint t + 16 * uint i"
    using assms b by (auto simp: uint16_add m)
  then have s2: "uint (t + 16 * ucast i + word_of_int y) = uint t + 16 * uint i + y"
    using assms b by (subst uint16_add) (auto simp: w)
  then have s3: "uint (t + 16 * ucast i + word_of_int y + 8) = uint t + 16 * uint i + y + 8"
    using assms b by (subst uint16_add) auto
  show "t + 16 * ucast i + word_of_int y < 0x4000" "t + 16 * ucast i + word_of_int y + 8 < 0x4000"
    using assms b unfolding word_less_def s2 s3 by auto
qed

lemma line_and_7: "(l AND 7) = (l mod 8 :: int)"
  using take_bit_eq_mask [of 3 l] by (simp add: take_bit_eq_mod mask_eq_exp_minus_1)

lemma fold_member:
  "P s \<Longrightarrow> (\<And>i s. i \<in> set xs \<Longrightarrow> P s \<Longrightarrow> P (g i s)) \<Longrightarrow> P (fold g xs s)"
  by (induction xs arbitrary: s) simp_all

text \<open>Reading the memory of the picture processor below 0x4000 leaves the state as it is.\<close>

lemma background_pixel_drawable:
  assumes "drawable s" "0 \<le> tile_x" "tile_x < 32" "x < 8"
  shows "drawable (draw_background_pixel mirror tile_x l h x s)"
proof -
  let ?color = "l_h_addition l h x" and ?line = "scanline (ppu s)"
  have d: "ppu_l_h_addition_table (ppuf s) = l_h_addition" "palette_ok s" "0 \<le> ?line" "?line < 240"
    using assms(1) by (simp_all add: drawable_def SCR_H_def)
  define A :: u16 where "A = word_of_int (uint (ppu_base_nametable_address s) +
      mirror_offset mirror 0x400 + 0x3C0 + drop_bit 2 tile_x + drop_bit 5 ?line * 8)"
  have "A < 0x4000"
    unfolding A_def using base_bound [of s] assms(2,3) d(3,4)
    by (intro int_address) (auto simp: mirror_offset_def drop_bit_eq_div)
  note attr = ppu_ram_read_sound [OF this, of s]
  have rng: "0x3F00 \<le> 0x3F00 + push_bit 2 (ucast (a AND 3 :: u8)) + (ucast ?color :: u16)"
    "0x3F00 + push_bit 2 (ucast (a AND 3 :: u8)) + (ucast ?color :: u16) < 0x4000" for a
    using palette_range [of "0x3F00" ?color a] pixel_bound(1) [of l h x] by auto
  have x: "0 \<le> push_bit 3 tile_x + int x" "push_bit 3 tile_x + int x < 264"
    using assms(2-4) by (simp_all add: push_bit_eq_mult)
  have i: "0 \<le> uint (fst (ppu_ram_read (0x3F00 + push_bit 2 (ucast (a AND 3 :: u8)) + ucast ?color) s))"
    "uint (fst (ppu_ram_read (0x3F00 + push_bit 2 (ucast (a AND 3 :: u8)) + ucast ?color) s)) < 64" for a
    using palette_read [OF d(2) rng] by simp_all
  have b: "drawable (set_background (push_bit 3 tile_x + int x) ?line ?color s)"
    using assms(1) x d(3,4) by (simp add: set_background_drawable)
  show ?thesis
    unfolding draw_background_pixel_def Let_def d(1) split_beta A_def [symmetric] attr
      ppu_ram_read_sound [OF rng(2)]
    using assms(1) draw_drawable [OF b i] by simp
qed

lemma background_tile_drawable:
  assumes "drawable s" "0 \<le> tile_x" "tile_x < 32"
  shows "drawable (draw_background_tile mirror tile_x s)"
proof -
  let ?line = "scanline (ppu s)"
  have d: "0 \<le> ?line" "?line < 240"
    using assms(1) by (simp_all add: drawable_def SCR_H_def)
  define A :: u16 where "A = word_of_int (uint (ppu_base_nametable_address s) + tile_x +
      push_bit 5 (drop_bit 3 ?line) + mirror_offset mirror 0x400)"
  have "A < 0x4000"
    unfolding A_def using base_bound [of s] assms(2,3) d
    by (intro int_address) (auto simp: mirror_offset_def drop_bit_eq_div push_bit_eq_mult)
  note index = ppu_ram_read_sound [OF this, of s]
  have t: "ppu_background_pattern_table_address s \<in> {0, 0x1000}"
    by (simp add: ppu_background_pattern_table_address_def)
  have y: "0 \<le> ?line AND 7" "?line AND 7 < 8"
    by (simp_all add: line_and_7)
  note tile = ppu_ram_read_sound [OF tile_range(1) [OF t y]] ppu_ram_read_sound [OF tile_range(2) [OF t y]]
  have "drawable (fold (draw_background_pixel mirror tile_x l h) [0..<8] s)" for l h
    by (rule fold_member [of drawable, OF assms(1)]) (simp add: background_pixel_drawable assms(2,3))
  then show ?thesis
    unfolding draw_background_tile_def Let_def split_beta A_def [symmetric] index tile
    using assms(1) by simp
qed

lemma background_drawable:
  "drawable s \<Longrightarrow> drawable (ppu_draw_background_scanline mirror s)"
  unfolding ppu_draw_background_scanline_def
  by (rule fold_member [of drawable]) (auto simp: background_tile_drawable split: if_splits)

lemma sprite_pixel_drawable:
  assumes "drawable s" "uint sprite_y \<le> scanline (ppu s)" "x < 8"
  shows "drawable (draw_sprite_pixel n sprite_x sprite_y l h x s)"
proof -
  let ?line = "scanline (ppu s)" and ?attr = "PPU_SPRRAM (ppuf s) (of_nat n + 2)"
  define color where "color = (if ?attr AND 0x40 \<noteq> 0 then l_h_addition_flip l h x
                   else l_h_addition l h x)"
  have c: "uint color < 4"
    by (simp add: color_def pixel_bound)
  have d: "ppu_l_h_addition_table (ppuf s) = l_h_addition" 
    "ppu_l_h_addition_flip_table (ppuf s) = l_h_addition_flip" "palette_ok s" "0 \<le> ?line" "?line < 240"
    using assms(1) by (simp_all add: drawable_def SCR_H_def)
  have rng: "0x3F00 \<le> 0x3F10 + push_bit 2 (ucast (?attr AND 3)) + (ucast color :: u16)"
    "0x3F10 + push_bit 2 (ucast (?attr AND 3)) + (ucast color :: u16) < 0x4000"
    using palette_range [of "0x3F10" color ?attr] c by auto
  let ?i = "uint (fst (ppu_ram_read (0x3F10 + push_bit 2 (ucast (?attr AND 3)) + ucast color) s))"
  have i: "0 \<le> ?i" "?i < 64"
    using palette_read [OF d(3) rng] by simp_all
  have "?line mod 8 < 8" "0 \<le> ?line mod 8"
    by simp_all
  then have "0 \<le> uint sprite_x + int x" "uint sprite_x + int x < 264"
    "0 \<le> uint sprite_y + ?line mod 8" "uint sprite_y + ?line mod 8 < 248"
    using byte_bound [of sprite_x] byte_bound [of sprite_y] assms(2,3) d(5) by linarith+
  then have hit: "drawable t \<Longrightarrow> drawable (sprite_0_hit n (uint sprite_x + int x)
      (uint sprite_y + (?line AND 7)) color t)" for t
    unfolding sprite_0_hit_def line_and_7 by (simp add: ppu_set_defs draw_simps Let_def)
  show ?thesis
    unfolding draw_sprite_pixel_def Let_def d(1,2) split_beta color_def [symmetric]
      ppu_ram_read_sound [OF rng(2)] if_cancel
    using assms(1) hit [OF draw_drawable [OF assms(1) i]] by simp
qed

lemma sprite_drawable:
  assumes "drawable (snd c)"
  shows "drawable (snd (draw_sprite n c))"
proof -
  obtain count s where c: "c = (count, s)" by fastforce
  let ?line = "scanline (ppu s)" 
  have d: "drawable s" "0 \<le> ?line" "?line < 240"
    using assms by (simp_all add: c drawable_def SCR_H_def)
  show ?thesis
  proof (cases "uint (PPU_SPRRAM (ppuf s) (of_nat n)) > ?line \<or>
      uint (PPU_SPRRAM (ppuf s) (of_nat n)) + uint (ppu_sprite_height s) < ?line")
    case True
    then show ?thesis
      using d(1) by (simp add: c draw_sprite_def)
  next
    case False
    let ?y = "PPU_SPRRAM (ppuf s) (of_nat n)"
    define u where "u = (if count + 1 > 8 then ppu_set_sprite_overflow True s else s)"
    have u: "drawable u" "scanline (ppu u) = ?line" "ppuf u = ppuf s"
      using d(1) by (simp_all add: u_def ppu_set_defs draw_simps)
    have t: "ppu_sprite_pattern_table_address u \<in> {0, 0x1000}"
      by (simp add: ppu_sprite_pattern_table_address_def)
    define row where "row = (if PPU_SPRRAM (ppuf u) (of_nat n + 2) AND 0x80 \<noteq> 0
      then 7 - (?line AND 7) else ?line AND 7)"
    have "0 \<le> ?line mod 8" "?line mod 8 < 8"
      by simp_all
    then have y: "0 \<le> row" "row < 8"
      unfolding row_def line_and_7 by (simp_all split: if_split, linarith+)
    note tile = ppu_ram_read_sound [OF tile_range(1) [OF t y], of _ u]
      ppu_ram_read_sound [OF tile_range(2) [OF t y], of _ u]
    have "drawable (fold (draw_sprite_pixel n x ?y l h) [0..<8] u) \<and>
        uint ?y \<le> scanline (ppu (fold (draw_sprite_pixel n x ?y l h) [0..<8] u))" for x l h
    proof (rule fold_member [of "\<lambda>s. drawable s \<and> uint ?y \<le> scanline (ppu s)"])
      fix i t
      assume "i \<in> set [0..<8]" "drawable t \<and> uint ?y \<le> scanline (ppu t)"
      then show "drawable (draw_sprite_pixel n x ?y l h i t) \<and>
          uint ?y \<le> scanline (ppu (draw_sprite_pixel n x ?y l h i t))"
        using sprite_pixel_drawable [of t ?y i] sprite_pixel_keeps(2) [of n x ?y l h i t]
        by (simp add: raster_def)
    qed (use u False in auto)
    then show ?thesis
      unfolding c draw_sprite_def Let_def split_beta fst_conv snd_conv u_def [symmetric]
        if_not_P [OF False]
      unfolding row_def [symmetric] tile by simp
  qed
qed

lemma sprites_drawable: "drawable s \<Longrightarrow> drawable (ppu_draw_sprite_scanline s)"
  unfolding ppu_draw_sprite_scanline_def
  by (rule fold_member [of "\<lambda>p. drawable (snd p)"]) (simp_all add: sprite_drawable)

text \<open>
  C25: drawing a scanline makes no access outside an array - name tables, attribute tables,
  patterns, palette memory, the background of the sprite-0 test, the canvas - provided the
  palette memory holds colour numbers below 64 only.
\<close>

theorem scanline_in_bounds:
  assumes "drawable s"
  shows "drawable (ppu_draw_background_scanline mirror s) \<and> drawable (ppu_draw_sprite_scanline s) \<and>
    fault (ppu_draw_sprite_scanline (ppu_draw_background_scanline True
      (ppu_draw_background_scanline False s))) = None"
  using background_drawable sprites_drawable assms by (simp add: drawable_def sound_def)

theorem scanline_in_bounds_witness:
  "fault (ppu_draw_sprite_scanline (ppu_draw_background_scanline True
     (ppu_draw_background_scanline False
       (ppu_set_mirroring 1 (ppu_init (initial_nes quiet_devices)))))) = None"
proof -
  have "drawable (ppu_set_mirroring 1 (ppu_init (initial_nes quiet_devices)))"
    by (simp add: drawable_def sound_def palette_ok_def ppu_set_mirroring_def ppu_init_def
        initial_nes_def SCR_H_def)
  from scanline_in_bounds [OF this] show ?thesis by blast
qed



end
