(* ===== verification/NesFce.thy ===== *)
theory NesFce
  imports NesRaster
begin

text \<open>
  The main program of LiteNES (\<open>fce.c\<close>, \<open>main.c\<close>): loading a cartridge image into the memory
  of the processor and of the picture processor, the initialisation, and the frame loop.
\<close>

section \<open>Loading a cartridge\<close>

text \<open>
  The image is a list of bytes; the pointer \<open>buf\<close> is an offset into it. Copying from the image
  beyond its end is an access out of bounds.
\<close>

definition rom_bytes :: "u8 list \<Rightarrow> nat \<Rightarrow> nat \<Rightarrow> u8" where
  "rom_bytes rom off i = (if off + i < length rom then rom ! (off + i) else 0)"

definition check_rom :: "u8 list \<Rightarrow> nat \<Rightarrow> nes \<Rightarrow> nes" where
  "check_rom rom n = check_fault OutOfBounds (n \<le> length rom)"

definition ines_header_of :: "u8 list \<Rightarrow> ines_header" where
  "ines_header_of rom = \<lparr>
     ines_signature = map (rom_bytes rom 0) [0..<4],
     prg_block_count = rom_bytes rom 0 4,
     chr_block_count = rom_bytes rom 0 5,
     rom_type = ucast (rom_bytes rom 0 6) + push_bit 8 (ucast (rom_bytes rom 0 7))\<rparr>"

definition copy_prg :: "u8 list \<Rightarrow> nat \<Rightarrow> u8 \<Rightarrow> nes \<Rightarrow> nes" where
  "copy_prg rom blk prg s =
     (if prg = 1
      then mmc_copy 0xC000 (rom_bytes rom blk) 0x4000
             (mmc_copy 0x8000 (rom_bytes rom blk) 0x4000 (check_rom rom (blk + 0x4000) s))
      else mmc_copy 0x8000 (rom_bytes rom blk) 0x8000 (check_rom rom (blk + 0x8000) s))"

definition copy_chr :: "u8 list \<Rightarrow> nat \<Rightarrow> nat \<Rightarrow> nes \<Rightarrow> nes" where
  "copy_chr rom buf i s =
     (let blk = buf + 0x2000 * i;
          s = mmc_append_chr_rom_page (rom_bytes rom blk) (check_rom rom (blk + 0x2000) s)
      in if i = 0 then ppu_copy 0x0000 (rom_bytes rom blk) 0x2000 s else s)"

definition fce_load_rom :: "u8 list \<Rightarrow> nes \<Rightarrow> int \<times> nes" where
  "fce_load_rom rom s =
     (let h = ines_header_of rom;
          s = fce_update (fce_rom_header_update (\<lambda>_. Some h)) (check_rom rom 4 s)
      in if ines_signature h \<noteq> [0x4E, 0x45, 0x53, 0x1A] then (-1, s)
         else
           (let s = check_rom rom 16 s;
                mapper = ucast (drop_bit 4 (rom_type h AND 0xF0)) :: u8;
                s = mmc_update (mmc_id_update (\<lambda>_. mapper)) s;
                prg_size = unat (prg_block_count h) * 0x4000
            in if mapper = 0 \<or> mapper = 3
               then (0, fold (copy_chr rom (16 + prg_size)) [0..<unat (chr_block_count h)]
                          (copy_prg rom 16 (prg_block_count h) s))
               else (-1, s)))"

definition fce_init :: "nes \<Rightarrow> nes" where
  "fce_init s =
     (let s = ppu_init (cpu_init s)
      in case fce_rom_header (fce s) of
           None \<Rightarrow> raise_fault NullDeref s
         | Some h \<Rightarrow> cpu_reset (ppu_set_mirroring (ucast (rom_type h AND 1)) s))"

section \<open>The frame loop\<close>

definition uptime_ms :: "nes \<Rightarrow> int \<times> nes" where
  "uptime_ms s =
     (sint (ucast (uptime_us (am s) (uptime_reads (am s)) div 1000) :: u32),
      am_update (uptime_reads_update Suc) s)"

partial_function (option) wait_loop :: "int \<Rightarrow> nes \<Rightarrow> (int \<times> nes) option" where
  "wait_loop cur s =
     (if cur - gtime (fce s) < c_div 1000 FPS
      then (let (cur, s) = uptime_ms s in wait_loop cur s) else Some (cur, s))"

definition wait_for_frame :: "nes \<Rightarrow> nes option" where
  "wait_for_frame s = do {
     let (cur, s) = uptime_ms s;
     (cur, s) \<leftarrow> wait_loop cur s;
     Some (fce_update (gtime_update (\<lambda>_. cur)) s)
   }"

text \<open>
  One round of the loop of \<open>fce_run\<close>: 262 scanlines, each followed by a look at the keyboard,
  and the frame count. The locals are the number of frames since the last report and its time;
  a report (seconds of uptime, frames) is the line printed.
\<close>

primrec run_scanlines :: "nat \<Rightarrow> nes \<Rightarrow> nes option" where
  "run_scanlines 0 s = Some s"
| "run_scanlines (Suc n) s = do {
     s \<leftarrow> ppu_cycle s;
     s \<leftarrow> psg_detect_key s;
     run_scanlines n s
   }"

record fce_locals =
  nr_draw :: int
  last_report :: u32
  reports :: "(int \<times> int) list"

definition fce_frame :: "fce_locals \<Rightarrow> nes \<Rightarrow> (fce_locals \<times> nes) option" where
  "fce_frame l s = do {
     s \<leftarrow> wait_for_frame s;
     s \<leftarrow> run_scanlines 262 s;
     let n = nr_draw l + 1;
     let (upt, s) = uptime_ms s;
     Some (if word_of_int upt - last_report l > 1000
           then (l\<lparr>nr_draw := 0, last_report := word_of_int upt,
                   reports := reports l @ [(c_div upt 1000, n)]\<rparr>, s)
           else (l\<lparr>nr_draw := n\<rparr>, s))
   }"

primrec fce_frames :: "nat \<Rightarrow> fce_locals \<Rightarrow> nes \<Rightarrow> (fce_locals \<times> nes) option" where
  "fce_frames 0 l s = Some (l, s)"
| "fce_frames (Suc n) l s = do { (l, s) \<leftarrow> fce_frame l s; fce_frames n l s }"

text \<open>\<open>fce_run\<close> never returns; \<open>fce_run n\<close> is its first \<open>n\<close> frames.\<close>

definition fce_run :: "nat \<Rightarrow> nes \<Rightarrow> (fce_locals \<times> nes) option" where
  "fce_run n s =
     (let (t, s) = uptime_ms s
      in fce_frames n \<lparr>nr_draw = 0, last_report = word_of_int t, reports = []\<rparr>
           (fce_update (gtime_update (\<lambda>_. t)) s))"

text \<open>\<open>main\<close> does not look at the result of \<open>fce_load_rom\<close>.\<close>

definition litenes_main :: "u8 list \<Rightarrow> nat \<Rightarrow> nes \<Rightarrow> (fce_locals \<times> nes) option" where
  "litenes_main rom n s = fce_run n (fce_init (snd (fce_load_rom rom s)))"

section \<open>Booting a cartridge\<close>

lemma of_nat_u16: "i < 65536 \<Longrightarrow> unat (of_nat i :: u16) = i"
  by (simp add: unat_of_nat)

lemma rom_bytes_nth: "off + i < length rom \<Longrightarrow> rom_bytes rom off i = rom ! (off + i)"
  by (simp add: rom_bytes_def)

definition nrom :: "u8 list \<Rightarrow> bool" where
  "nrom rom \<longleftrightarrow> length rom = 16 + 0x8000 + 0x2000 \<and> take 4 rom = [0x4E, 0x45, 0x53, 0x1A] \<and>
     rom ! 4 = 2 \<and> rom ! 5 = 1 \<and> rom ! 6 AND 0xF0 = 0"

lemma nrom_signature:
  assumes "nrom rom"
  shows "ines_signature (ines_header_of rom) = [0x4E, 0x45, 0x53, 0x1A]"
proof -
  have l: "length rom = 40976"
    using assms by (simp add: nrom_def)
  have "ines_signature (ines_header_of rom) = take 4 rom"
    by (intro nth_equalityI) (simp_all add: ines_header_of_def rom_bytes_def l)
  then show ?thesis
    using assms by (simp add: nrom_def)
qed

lemma nrom_header:
  assumes "nrom rom"
  shows "prg_block_count (ines_header_of rom) = 2" "chr_block_count (ines_header_of rom) = 1"
    "rom_type (ines_header_of rom) AND 0xF0 = 0"
proof -
  show "prg_block_count (ines_header_of rom) = 2" "chr_block_count (ines_header_of rom) = 1"
    using assms by (auto simp: nrom_def ines_header_of_def rom_bytes_def)
  have h: "(ucast a + push_bit 8 (ucast b)) AND 0xF0 = (ucast (a AND 0xF0) :: u16)" for a b :: u8
  proof -
    have d: "ucast a AND push_bit 8 (ucast b) = (0 :: u16)"
      by (rule bit_word_eqI) (auto simp: bit_simps dest: bit_imp_le_length)
    have p: "push_bit 8 (ucast b) AND 0xF0 = (0 :: u16)"
    proof -
      have "push_bit 8 (ucast b) AND take_bit 8 m = 0" for m :: u16
        by (rule bit_word_eqI) (auto simp: bit_simps)
      from this [of "0xF0"] show ?thesis by simp
    qed
    have "(ucast a + push_bit 8 (ucast b)) AND 0xF0 =
        (ucast a AND 0xF0) OR (push_bit 8 (ucast b) AND 0xF0 :: u16)"
      unfolding disjunctive_add_eq_or [OF d] by (rule bit.conj_disj_distrib2)
    then show ?thesis
      by (simp add: p unsigned_and_eq)
  qed
  show "rom_type (ines_header_of rom) AND 0xF0 = 0"
    using assms by (simp add: nrom_def ines_header_of_def rom_bytes_def h)
qed

lemma load_nrom:
  assumes "nrom rom" "mmc_chr_pages_number (mmc s) = 0"
  shows "fce_load_rom rom s = (0, s\<lparr>
       fce := (fce s)\<lparr>fce_rom_header := Some (ines_header_of rom)\<rparr>,
       mmc := (mmc s)\<lparr>mmc_id := 0,
         memory := copy_bytes 0x8000 (rom_bytes rom 16) 0x8000 (memory (mmc s)),
         mmc_chr_pages := (mmc_chr_pages (mmc s))
           (0 := copy_bytes 0 (rom_bytes rom (16 + 0x8000)) 0x2000 (mmc_chr_pages (mmc s) 0)),
         mmc_chr_pages_number := 1\<rparr>,
       ppuf := (ppuf s)\<lparr>PPU_RAM :=
         copy_bytes 0 (rom_bytes rom (16 + 0x8000)) 0x2000 (PPU_RAM (ppuf s))\<rparr>\<rparr>)"
proof -
  have l: "length rom = 40976"
    using assms by (simp add: nrom_def)
  show ?thesis
    using assms(2)
    by (simp add: fce_load_rom_def Let_def nrom_signature [OF assms(1)] nrom_header [OF assms(1)]
      l check_rom_def copy_prg_def mmc_copy_def copy_chr_def mmc_append_chr_rom_page_def
      ppu_copy_def MMC_MAX_PAGE_COUNT_def)
qed

lemma copy_bytes_nth:
  assumes "a + n \<le> 65536" "i < n"
  shows "copy_bytes a src n m (of_nat (a + i)) = src i"
  using assms of_nat_u16 [of "a + i"] by (simp add: copy_bytes_def del: of_nat_add)

lemma ppu_init_fields: "mmc (ppu_init s) = mmc s" "fce (ppu_init s) = fce s"
  "cpu (ppu_init s) = cpu s" "cpu_rows (ppu_init s) = cpu_rows s" "fault (ppu_init s) = fault s"
  "op_cycles (ppu_init s) = op_cycles s" "am (ppu_init s) = am s"
  by (simp_all add: ppu_init_def)

lemma readb_high: "drop_bit 13 a \<notin> {0, 1, 2, 3 :: u16} \<Longrightarrow> memory_readb a s = (memory (mmc s) a, s)"
  by (simp add: memory_readb_def mmc_read_def Let_def)

lemma read_reset_vector:
  "memory_readw 0xFFFC s =
     (ucast (memory (mmc s) 0xFFFC) + push_bit 8 (ucast (memory (mmc s) 0xFFFD)), s)"
  by (simp add: memory_readw_def readb_high)

lemma rom_type_parity: "unat (ucast (rom_type h AND 1) :: u8) \<in> {0, 1}"
  by (cases "even (rom_type h)") (auto simp: and_one_eq even_iff_mod_2_eq_zero odd_iff_mod_2_eq_one)

lemma nrom_boots:
  fixes rom dev
  assumes "nrom rom"
  defines "t \<equiv> fce_init (snd (fce_load_rom rom (initial_nes dev)))"
  shows "fst (fce_load_rom rom (initial_nes dev)) = 0" "cpu_ready t" "sound t"
    "i < 0x8000 \<Longrightarrow> memory (mmc t) (of_nat (0x8000 + i)) = rom ! (16 + i)"
    "j < 0x2000 \<Longrightarrow> PPU_RAM (ppuf t) (of_nat j) = rom ! (16 + 0x8000 + j)"
    "PC_of t = ucast (rom ! (16 + 0x7FFC)) + push_bit 8 (ucast (rom ! (16 + 0x7FFD)))"
    "SP_of t = 0xFD" "P_of t = 0x24" "scanline (ppu t) = 0" "frame_cnt (fce t) = 0" "am t = dev"
proof -
  have l: "length rom = 40976"
    using assms by (simp add: nrom_def)
  define s where "s = snd (fce_load_rom rom (initial_nes dev))"
  have ld: "fce_load_rom rom (initial_nes dev) = (0, s)"
    using load_nrom [OF assms(1), of "initial_nes dev"] by (simp add: s_def initial_nes_def)
  then show "fst (fce_load_rom rom (initial_nes dev)) = 0" by simp
  have s: "fce_rom_header (fce s) = Some (ines_header_of rom)" "fault s = None" "mmc_id (mmc s) = 0"
    "memory (mmc s) = copy_bytes 0x8000 (rom_bytes rom 16) 0x8000 (\<lambda>_. 0)"
    "PPU_RAM (ppuf s) = copy_bytes 0 (rom_bytes rom (16 + 0x8000)) 0x2000 (\<lambda>_. 0)"
    "cpu_rows s = Map.empty" "op_cycles s = 0" "scanline (ppu s) = 0" "frame_cnt (fce s) = 0" "am s = dev"
    unfolding s_def using load_nrom [OF assms(1), of "initial_nes dev"] by (simp_all add: initial_nes_def)
  define u where "u = ppu_set_mirroring (ucast (rom_type (ines_header_of rom) AND 1)) (ppu_init (cpu_init s))"
  have u: "mmc u = mmc s" "fault u = None" "cpu_rows u = initial_rows" "op_cycles u = 0"
    "mirroring_xor (ppu u) \<in> {0x400, 0x800}" "PPU_RAM (ppuf u) = PPU_RAM (ppuf s)"
    "SP_of u = 0" "P_of u = 0x24" "scanline (ppu u) = 0" "frame_cnt (fce u) = 0" "am u = dev"
    using s rom_type_parity [of "ines_header_of rom"]
    by (auto simp: u_def ppu_set_mirroring_def ppu_init_def cpu_init_def initial_rows_def)
  have t: "t = cpu_reset u"
    by (simp add: t_def s_def [symmetric] fce_init_def Let_def ppu_init_fields u_def s cpu_init_def)
  have r: "cpu_reset u = cpu_update (\<lambda>c. c\<lparr>cpu_PC := ucast (memory (mmc u) 0xFFFC) + push_bit 8 (ucast (memory (mmc u) 0xFFFD)),
     cpu_SP := cpu_SP c - 3, cpu_P := cpu_P c OR interrupt_flag\<rparr>) u"
    by (simp add: cpu_reset_def cpu_reset_interrupt_address_def read_reset_vector)
  show "cpu_ready t" "sound t" "SP_of t = 0xFD" "P_of t = 0x24" "scanline (ppu t) = 0"
    "frame_cnt (fce t) = 0" "am t = dev"
    using u s(3) by (auto simp: t r cpu_ready_def sound_def flag_defs)
  have m: "memory (mmc t) (of_nat (0x8000 + i)) = rom ! (16 + i)" if "i < 0x8000" for i
    using that by (simp add: t r u s copy_bytes_nth rom_bytes_nth l del: of_nat_add)
  show "i < 0x8000 \<Longrightarrow> memory (mmc t) (of_nat (0x8000 + i)) = rom ! (16 + i)"
    by (rule m)
  show "j < 0x2000 \<Longrightarrow> PPU_RAM (ppuf t) (of_nat j) = rom ! (16 + 0x8000 + j)"
    using copy_bytes_nth [of 0 "0x2000" j "rom_bytes rom 32784" "\<lambda>_. 0"] by (simp add: t r u s rom_bytes_nth l)
  show "PC_of t = ucast (rom ! (16 + 0x7FFC)) + push_bit 8 (ucast (rom ! (16 + 0x7FFD)))"
    using m [of "0x7FFC"] m [of "0x7FFD"] by (simp add: t r)
qed

section \<open>The backdrop colour\<close>

definition store_backdrop :: "u8 \<Rightarrow> nes \<Rightarrow> nes" where
  "store_backdrop d s = memory_writeb 0x2007 d (memory_writeb 0x2006 0x00 (memory_writeb 0x2006 0x3F s))"

lemma port_write: "drop_bit 13 a = (1 :: u16) \<Longrightarrow> memory_writeb a d s = ppuio_write a d s"
  by (auto simp: memory_writeb_def Let_def)

lemma store_backdrop_effect:
  assumes "sound s" "ppu_ready (ppu s)" "\<not> addr_received_high_byte (ppu s)"
  shows "sound (store_backdrop d s)" "fst (ppu_ram_read 0x3F00 (store_backdrop d s)) = d"
    "frame_cnt (fce (store_backdrop d s)) = frame_cnt (fce s)" "am (store_backdrop d s) = am s"
proof -
  show "sound (store_backdrop d s)"
    unfolding store_backdrop_def by (intro sound_memory_writeb assms(1))
  show "frame_cnt (fce (store_backdrop d s)) = frame_cnt (fce s)" "am (store_backdrop d s) = am s"
    by (simp_all add: store_backdrop_def)
  have m: "mirroring_xor (ppu s) = 0x400 \<or> mirroring_xor (ppu s) = 0x800"
    using assms(1) by (auto simp: sound_def)
  have p: "PPU_RAM (ppuf (store_backdrop d s)) 0x3F00 = d"
    using m assms(2,3)
    by (simp add: store_backdrop_def port_write ppuio_write_def ppuio_write_addr_def
      ppuio_write_data_def set_latch_def set_first_read_def mask_ppuaddr_def ppu_ram_write_def
      ppu_get_real_ram_address_def Let_def)
  then show "fst (ppu_ram_read 0x3F00 (store_backdrop d s)) = d"
    by (simp add: ppu_ram_read_def ppu_get_real_ram_address_def Let_def)
qed

lemma backdrop_outcome:
  assumes "sound s" "ppu_ready (ppu s)" "\<not> addr_received_high_byte (ppu s)"
    "odd (frame_cnt (fce s))" "0 \<le> frame_cnt (fce s)"
    "gpu_size (am s) = (w, h)" "SCR_W \<le> w" "SCR_H \<le> h"
  shows "let t = fce_update_screen (store_backdrop d s)
         in fault t = (if d < 64 then None else Some OutOfBounds) \<and>
            canvas (fce t) 0 = (if d < 64 then palette ! unat d else 0)"
proof -
  note b = store_backdrop_effect [OF assms(1-3), of d]
  let ?u = "store_backdrop d s"
  have r: "ppu_ram_read 0x3F00 (fce_update (frame_cnt_update (\<lambda>n. n + 1)) ?u) =
    (d, fce_update (frame_cnt_update (\<lambda>n. n + 1)) ?u)"
    using b(2) by (simp add: ppu_ram_read_def ppu_get_real_ram_address_def Let_def)
  have c: "candraw (fce_update (frame_cnt_update (\<lambda>n. n + 1)) ?u)"
    using assms(4,5) b(3) by (simp add: candraw_def FRAME_SKIP_def c_mod_2 odd_iff_mod_2_eq_one even_iff_mod_2_eq_zero [symmetric])
  have "uint d < 64 \<longleftrightarrow> d < 64" 
    by (simp add: word_less_def)
  moreover have "0 \<le> c_div (w - SCR_W) 2" "0 \<le> c_div (h - SCR_H) 2"
    using assms(7,8) by (simp_all add: c_div_def sgn_if)
  ultimately show ?thesis
    using b assms(6) unfolding fce_update_screen_def Let_def
    by (simp add: c r check_palette_def palette_at_def sound_def check_fault_def raise_fault_def
        not_less SCR_W_def SCR_H_def) (auto simp: not_le [symmetric])
qed



text \<open>
  C28: the palette memory takes any byte, but the colour table has 64 entries: a program that
  stores the backdrop colour through the ports and lets the next frame be drawn makes the
  emulator read outside its table exactly when the byte is 64 or more.
\<close>

theorem backdrop_out_of_bounds:
  assumes "sound s" "ppu_ready (ppu s)" "\<not> addr_received_high_byte (ppu s)"
    "odd (frame_cnt (fce s))" "0 \<le> frame_cnt (fce s)"
    "gpu_size (am s) = (w, h)" "SCR_W \<le> w" "SCR_H \<le> h"
  shows "let t = fce_update_screen (memory_writeb 0x2007 d
                   (memory_writeb 0x2006 0x00 (memory_writeb 0x2006 0x3F s)))
         in fault t = (if d < 64 then None else Some OutOfBounds) \<and>
            canvas (fce t) 0 = (if d < 64 then palette ! unat d else 0)"
  using backdrop_outcome [OF assms, of d] by (simp add: store_backdrop_def)

definition backdrop_example :: nes where
  "backdrop_example = ppu_update (ppu_ready_update (\<lambda>_. True))
     (fce_update (frame_cnt_update (\<lambda>_. 1)) (ppu_set_mirroring 0 (initial_nes quiet_devices)))"

theorem backdrop_out_of_bounds_witness:
  "fault (fce_update_screen (memory_writeb 0x2007 0x40
     (memory_writeb 0x2006 0x00 (memory_writeb 0x2006 0x3F backdrop_example)))) = Some OutOfBounds"
proof -
  have "sound backdrop_example" "ppu_ready (ppu backdrop_example)"
    "\<not> addr_received_high_byte (ppu backdrop_example)" "frame_cnt (fce backdrop_example) = 1"
    "gpu_size (am backdrop_example) = (400, 300)"
    by (simp_all add: backdrop_example_def sound_def ppu_set_mirroring_def initial_nes_def
        quiet_devices_def)
  then show ?thesis
    using backdrop_out_of_bounds [of backdrop_example 400 300 "0x40"]
    by (simp add: SCR_W_def SCR_H_def Let_def)
qed

end
