(* ===== verification/Hart.thy ===== *)
theory Hart
  imports RiscvSpec
begin

text \<open>
  The RISC-V integer machine that assembly code of the abstract machine runs on: registers and
  a byte memory. One step executes any instruction of RV32I, with the functional units of
  \<open>RiscvSpec\<close>; a program is a list of instructions at an address. The theory is the common
  ground for the instruction macros of \<open>tools/minirv\<close>: source and target of the expansion are
  run by the same step.
\<close>

section \<open>State and one step\<close>

record hart =
  xr :: "rid \<Rightarrow> u32"
  hmem :: "u32 \<Rightarrow> u8"

definition rg :: "rid \<Rightarrow> hart \<Rightarrow> u32" where
  "rg r h = (if r = 0 then 0 else xr h r)"

definition set_rg :: "rid \<Rightarrow> u32 \<Rightarrow> hart \<Rightarrow> hart" where
  "set_rg r v h = (if r = 0 then h else h\<lparr>xr := (xr h)(r := v)\<rparr>)"

definition peek :: "u32 \<Rightarrow> hart \<Rightarrow> u8" where
  "peek a h = hmem h a"

definition put8 :: "u32 \<Rightarrow> u8 \<Rightarrow> hart \<Rightarrow> hart" where
  "put8 a v h = h\<lparr>hmem := (hmem h)(a := v)\<rparr>"

text \<open>Byte \<open>i\<close> of a word, and the word of four bytes.\<close>

definition wbyte :: "nat \<Rightarrow> u32 \<Rightarrow> u8" where
  "wbyte i v = ucast (drop_bit (8 * i) v)"

definition word4 :: "u8 \<Rightarrow> u8 \<Rightarrow> u8 \<Rightarrow> u8 \<Rightarrow> u32" where
  "word4 a b c d = le_word [a, b, c, d]"

fun peek_len :: "nat \<Rightarrow> u32 \<Rightarrow> hart \<Rightarrow> u8 list" where
  "peek_len 0 a h = []"
| "peek_len (Suc n) a h = peek a h # peek_len n (a + 1) h"

fun put_len :: "u32 \<Rightarrow> u8 list \<Rightarrow> hart \<Rightarrow> hart" where
  "put_len a [] h = h"
| "put_len a (v # vs) h = put_len (a + 1) vs (put8 a v h)"

text \<open>
  One instruction at \<open>p\<close>: the next program counter and the state. The multiplication extension
  and \<open>ebreak\<close> are not part of the machine.
\<close>

fun hart_step :: "instr \<Rightarrow> u32 \<Rightarrow> hart \<Rightarrow> u32 \<times> hart" where
  "hart_step (Lui rd imm) p h = (p + 4, set_rg rd (push_bit 12 (ucast imm)) h)"
| "hart_step (Auipc rd imm) p h = (p + 4, set_rg rd (p + push_bit 12 (ucast imm)) h)"
| "hart_step (Jal rd k) p h = (p + 2 * scast k, set_rg rd (p + 4) h)"
| "hart_step (Jalr rd rs1 imm) p h = ((rg rs1 h + scast imm) AND NOT 1, set_rg rd (p + 4) h)"
| "hart_step (Branch c rs1 rs2 k) p h =
     (if cond_sem c (rg rs1 h) (rg rs2 h) then p + 2 * scast k else p + 4, h)"
| "hart_step (Load l rd rs1 imm) p h =
     (p + 4, set_rg rd (snd (load_sem l) (le_word (peek_len (fst (load_sem l)) (rg rs1 h + scast imm) h))) h)"
| "hart_step (Store st rs1 rs2 imm) p h =
     (p + 4, put_len (rg rs1 h + scast imm) (le_bytes (store_len st) (rg rs2 h)) h)"
| "hart_step (OpImm a rd rs1 imm) p h = (p + 4, set_rg rd (alui_sem a (rg rs1 h) (scast imm)) h)"
| "hart_step (ShiftImm a rd rs1 sh) p h = (p + 4, set_rg rd (shifti_sem a (rg rs1 h) (ucast sh)) h)"
| "hart_step (Op a rd rs1 rs2) p h = (p + 4, set_rg rd (alu_sem a (rg rs1 h) (rg rs2 h)) h)"
| "hart_step (MulDiv a rd rs1 rs2) p h = (p, h)"
| "hart_step Ebreak p h = (p, h)"

section \<open>Programs\<close>

text \<open>
  The instruction at \<open>p\<close> of the program \<open>code\<close> loaded at \<open>base\<close>, and at most \<open>n\<close> steps of it:
  the run stops when the program counter leaves the program.
\<close>

definition fetch_at :: "instr list \<Rightarrow> u32 \<Rightarrow> u32 \<Rightarrow> instr option" where
  "fetch_at code base p =
     (let k = unat (p - base) in if k mod 4 = 0 \<and> k div 4 < length code then Some (code ! (k div 4)) else None)"

fun hart_steps :: "instr list \<Rightarrow> u32 \<Rightarrow> nat \<Rightarrow> u32 \<times> hart \<Rightarrow> u32 \<times> hart" where
  "hart_steps code base 0 s = s"
| "hart_steps code base (Suc n) (p, h) =
     (case fetch_at code base p of None \<Rightarrow> (p, h) | Some i \<Rightarrow> hart_steps code base n (hart_step i p h))"

text \<open>Code without jumps runs from top to bottom; its effect does not depend on its place.\<close>

fun straight :: "instr \<Rightarrow> bool" where
  "straight (Auipc rd imm) = False"
| "straight (Jal rd k) = False"
| "straight (Jalr rd rs1 imm) = False"
| "straight (Branch c rs1 rs2 k) = False"
| "straight (MulDiv a rd rs1 rs2) = False"
| "straight Ebreak = False"
| "straight i = True"

definition hart_do :: "instr \<Rightarrow> hart \<Rightarrow> hart" where
  "hart_do i h = snd (hart_step i 0 h)"

fun hart_run :: "instr list \<Rightarrow> hart \<Rightarrow> hart" where
  "hart_run [] h = h"
| "hart_run (i # xs) h = hart_run xs (hart_do i h)"

section \<open>Lemmas\<close>

named_theorems hart_simps \<open>reading registers and memory after an update\<close>

lemma rg_set_rg [hart_simps]: "rg r (set_rg q v h) = (if r = q \<and> r \<noteq> 0 then v else rg r h)"
  by (simp add: rg_def set_rg_def)

lemma rg_put8 [hart_simps]: "rg r (put8 a v h) = rg r h"
  by (simp add: rg_def put8_def)

lemma peek_set_rg [hart_simps]: "peek a (set_rg q v h) = peek a h"
  by (simp add: peek_def set_rg_def)

lemma peek_put8: "peek a (put8 b v h) = (if a = b then v else peek a h)"
  by (simp add: peek_def put8_def)

lemma rg_zero [simp]: "rg 0 h = 0"
  by (simp add: rg_def)

lemma set_rg_zero [simp]: "set_rg 0 v h = h"
  by (simp add: set_rg_def)

lemma hart_eqI:
  assumes "\<And>r. r \<noteq> 0 \<Longrightarrow> rg r h = rg r h'" and "xr h 0 = xr h' 0" and "\<And>a. peek a h = peek a h'"
  shows "h = h'"
proof -
  have "xr h r = xr h' r" for r
    using assms(1) [of r] assms(2) by (cases "r = 0") (simp_all add: rg_def)
  then have "xr h = xr h'" by blast
  moreover have "hmem h = hmem h'" using assms(3) by (auto simp: peek_def)
  ultimately show ?thesis by simp
qed

lemma hart_run_append: "hart_run (xs @ ys) h = hart_run ys (hart_run xs h)"
  by (induction xs arbitrary: h) simp_all

lemma straight_step: "straight i \<Longrightarrow> hart_step i p h = (p + 4, hart_do i h)"
  by (cases i) (simp_all add: hart_do_def)

lemma fetch_at_pos:
  assumes "k < length code" and "4 * length code < 2 ^ 32"
  shows "fetch_at code base (base + 4 * of_nat k) = Some (code ! k)"
proof -
  have "unat (4 * of_nat k :: u32) = 4 * k"
    using assms by (simp add: unat_word_ariths unat_of_nat take_bit_eq_mod)
  then show ?thesis using assms(1) by (simp add: fetch_at_def Let_def)
qed

lemma hart_steps_append:
  "hart_steps code base (m + n) s = hart_steps code base n (hart_steps code base m s)"
proof (induction m arbitrary: s)
  case 0
  then show ?case by simp
next
  case (Suc m)
  obtain p h where s: "s = (p, h)" by fastforce
  have stuck: "fetch_at code base p = None \<Longrightarrow> hart_steps code base n (p, h) = (p, h)" for n
    by (cases n) simp_all
  show ?case using Suc.IH by (cases "fetch_at code base p") (simp_all add: s stuck)
qed

text \<open>A program runs its straight part in as many steps as it has instructions.\<close>

lemma hart_steps_prefix:
  assumes "list_all straight xs" and "4 * length (ys @ xs @ zs) < 2 ^ 32"
  shows "hart_steps (ys @ xs @ zs) base (length xs) (base + 4 * of_nat (length ys), h)
    = (base + 4 * of_nat (length ys + length xs), hart_run xs h)"
  using assms
proof (induction xs arbitrary: ys h)
  case Nil
  then show ?case by simp
next
  case (Cons i xs)
  have f: "fetch_at (ys @ (i # xs) @ zs) base (base + 4 * of_nat (length ys)) = Some i"
    using Cons.prems(2) by (subst fetch_at_pos) (simp_all add: nth_append)
  show ?case
    using f Cons.IH [of "ys @ [i]" "hart_do i h"] Cons.prems
    by (simp add: straight_step algebra_simps)
qed

lemma hart_steps_straight:
  assumes "list_all straight xs" and "4 * length xs < 2 ^ 32"
  shows "hart_steps xs base (length xs) (base, h) = (base + 4 * of_nat (length xs), hart_run xs h)"
  using hart_steps_prefix [of xs "[]" "[]" base h] assms by simp

text \<open>Straight code up to a jump.\<close>

lemma hart_steps_to_jump:
  assumes "list_all straight xs" and "4 * length (xs @ j # zs) < 2 ^ 32"
  shows "hart_steps (xs @ j # zs) base (length xs + 1) (base, h)
    = hart_step j (base + 4 * of_nat (length xs)) (hart_run xs h)"
proof -
  have "hart_steps (xs @ j # zs) base (length xs) (base, h) = (base + 4 * of_nat (length xs), hart_run xs h)"
    using hart_steps_prefix [of xs "[]" "j # zs" base h] assms by simp
  moreover have "fetch_at (xs @ j # zs) base (base + 4 * of_nat (length xs)) = Some j"
    using assms(2) by (subst fetch_at_pos) simp_all
  ultimately show ?thesis
    unfolding hart_steps_append by (cases "hart_step j (base + 4 * of_nat (length xs)) (hart_run xs h)") simp
qed

lemma hart_steps_jump:
  assumes "list_all straight xs" and "4 * length (xs @ [j]) < 2 ^ 32"
  shows "hart_steps (xs @ [j]) base (length (xs @ [j])) (base, h)
    = hart_step j (base + 4 * of_nat (length xs)) (hart_run xs h)"
  using hart_steps_to_jump [OF assms] by simp

end
