(* ===== verification/MinirvLut.thy ===== *)
theory MinirvLut
  imports Hart
begin

text \<open>
  The lookup tables of the minirv instruction macros: the file \<open>lut.bin\<close> that
  \<open>tools/minirv/gen-lut.c\<close> writes, which the macros include at \<open>_logic_shift_table\<close>, and the
  small tables \<open>inst-replace.h\<close> defines itself.
\<close>

section \<open>gen-lut.c\<close>

text \<open>The macro \<open>gen_table\<close>: \<open>expr\<close> over the row \<open>j\<close> and the column \<open>i\<close>.\<close>

definition gen_table :: "nat \<Rightarrow> nat \<Rightarrow> nat \<Rightarrow> (nat \<Rightarrow> nat \<Rightarrow> u32) \<Rightarrow> u8 list" where
  "gen_table row col entry_size expr =
     concat (map (\<lambda>j. concat (map (\<lambda>i. le_bytes entry_size (expr j i)) [0..<col])) [0..<row])"

definition sll8 :: "nat \<Rightarrow> nat \<Rightarrow> u32" where
  "sll8 j i = push_bit j (of_nat i)"

definition srl8 :: "nat \<Rightarrow> nat \<Rightarrow> u32" where
  "srl8 j i = drop_bit j (push_bit 24 (of_nat i))"

definition sra8 :: "nat \<Rightarrow> nat \<Rightarrow> u32" where
  "sra8 j i = signed_drop_bit j (push_bit 24 (of_nat i))"

definition lut_bin :: "u8 list" where
  "lut_bin =
     gen_table 256 256 1 (\<lambda>j i. of_nat j AND of_nat i)
     @ gen_table 256 256 1 (\<lambda>j i. of_nat j OR of_nat i)
     @ gen_table 256 256 1 (\<lambda>j i. of_nat j XOR of_nat i)
     @ gen_table 32 256 4 sll8
     @ gen_table 32 256 4 srl8
     @ gen_table 32 256 4 sra8"

section \<open>The tables of inst-replace.h\<close>

definition same_result_table :: "u8 list" where
  "same_result_table = [1, 0, 0, 0, 0, 0, 0, 0]"

definition check_8bit_0_table :: "u8 list" where
  "check_8bit_0_table = 0 # replicate 255 1"

definition slt1_table :: "u8 list" where
  "slt1_table = [0, 1, 0, 0, 1, 1, 0, 1]"

definition sltu1_table :: "u8 list" where
  "sltu1_table = [0, 1, 1, 1, 0, 0, 0, 1]"

definition or1_table :: "u8 list" where
  "or1_table = [0, 1, 1, 1]"

text \<open>
  The addresses the linker gives to the tables and to the scratch array of \<open>seq\<close>; the six parts
  of \<open>lut.bin\<close> lie at fixed offsets.
\<close>

record syms =
  same_result_sym :: u32
  check_8bit_0_sym :: u32
  slt1_sym :: u32
  sltu1_sym :: u32
  or1_sym :: u32
  logic_shift_sym :: u32
  check_same_sym :: u32

definition and8_sym :: "syms \<Rightarrow> u32" where
  "and8_sym y = logic_shift_sym y"

definition or8_sym :: "syms \<Rightarrow> u32" where
  "or8_sym y = and8_sym y + 256 * 256"

definition xor8_sym :: "syms \<Rightarrow> u32" where
  "xor8_sym y = or8_sym y + 256 * 256"

definition sll8_sym :: "syms \<Rightarrow> u32" where
  "sll8_sym y = xor8_sym y + 256 * 256"

definition srl8_sym :: "syms \<Rightarrow> u32" where
  "srl8_sym y = sll8_sym y + 32 * 256 * 4"

definition sra8_sym :: "syms \<Rightarrow> u32" where
  "sra8_sym y = srl8_sym y + 32 * 256 * 4"

section \<open>Entries of the tables\<close>

lemma length_gen_table [simp]: "length (gen_table row col es f) = row * col * es"
proof -
  have "length (concat (map (\<lambda>i. le_bytes es (f j i)) [0..<col])) = col * es" for j
    by (induction col) simp_all
  then show ?thesis by (induction row) (simp_all add: gen_table_def algebra_simps)
qed

lemma nth_concat_blocks:
  assumes "\<And>i. i < m \<Longrightarrow> length (f i) = n" and "i < m" and "k < n"
  shows "concat (map f [0..<m]) ! (i * n + k) = f i ! k"
  using assms
proof (induction m)
  case 0
  then show ?case by simp
next
  case (Suc m)
  have len: "length (concat (map f [0..<m])) = m * n"
    using Suc.prems(1) by (induction m) simp_all
  show ?case
  proof (cases "i = m")
    case True
    then show ?thesis using len by (simp add: nth_append)
  next
    case False
    then have "i < m" using Suc.prems(2) by simp
    then have "Suc i * n \<le> m * n" by (intro mult_le_mono1) simp
    then have "i * n + k < m * n" using Suc.prems(3) by simp
    then show ?thesis using Suc \<open>i < m\<close> len by (simp add: nth_append)
  qed
qed

lemma gen_table_nth:
  assumes "j < row" and "i < col" and "k < es"
  shows "gen_table row col es f ! ((j * col + i) * es + k) = wbyte k (f j i)"
proof -
  have "length (concat (map (\<lambda>i. le_bytes es (f j i)) [0..<col])) = col * es" for j
    by (induction col) simp_all
  moreover have "i * es + k < col * es"
  proof -
    have "Suc i * es \<le> col * es" using assms(2) by (intro mult_le_mono1) simp
    then show ?thesis using assms(3) by simp
  qed
  ultimately have "gen_table row col es f ! (j * (col * es) + (i * es + k))
      = concat (map (\<lambda>i. le_bytes es (f j i)) [0..<col]) ! (i * es + k)"
    unfolding gen_table_def using assms(1) by (intro nth_concat_blocks) simp_all
  also have "\<dots> = le_bytes es (f j i) ! k"
    using assms(2,3) by (intro nth_concat_blocks) simp_all
  finally show ?thesis using assms(3) by (simp add: wbyte_def algebra_simps)
qed

lemma length_lut_bin [simp]: "length lut_bin = 294912"
  by (simp add: lut_bin_def)

text \<open>\<open>table_at a bs h\<close>: the bytes \<open>bs\<close> lie in memory from \<open>a\<close> on.\<close>

definition table_at :: "u32 \<Rightarrow> u8 list \<Rightarrow> hart \<Rightarrow> bool" where
  "table_at a bs h \<longleftrightarrow> (\<forall>k < length bs. peek (a + of_nat k) h = bs ! k)"

lemma table_atD: "table_at a bs h \<Longrightarrow> k < length bs \<Longrightarrow> peek (a + of_nat k) h = bs ! k"
  by (simp add: table_at_def)

lemma table_at_append:
  "table_at a (xs @ ys) h \<longleftrightarrow> table_at a xs h \<and> table_at (a + of_nat (length xs)) ys h"
proof -
  have split: "(\<forall>k < m + n. P k) \<longleftrightarrow> (\<forall>k < m. P k) \<and> (\<forall>k < n. P (m + k))" for P and m n :: nat
  proof (intro iffI conjI allI impI)
    fix k assume P: "(\<forall>k < m. P k) \<and> (\<forall>k < n. P (m + k))" and k: "k < m + n"
    show "P k"
    proof (cases "k < m")
      case True
      then show ?thesis using P by blast
    next
      case False
      then have "k - m < n" "m + (k - m) = k" using k by simp_all
      then show ?thesis using P by metis
    qed
  qed simp_all
  show ?thesis unfolding table_at_def length_append split by (simp add: nth_append add.assoc)
qed

lemma lut_parts:
  assumes "table_at (logic_shift_sym y) lut_bin h"
  shows "table_at (and8_sym y) (gen_table 256 256 1 (\<lambda>j i. of_nat j AND of_nat i)) h"
    "table_at (or8_sym y) (gen_table 256 256 1 (\<lambda>j i. of_nat j OR of_nat i)) h"
    "table_at (xor8_sym y) (gen_table 256 256 1 (\<lambda>j i. of_nat j XOR of_nat i)) h"
    "table_at (sll8_sym y) (gen_table 32 256 4 sll8) h"
    "table_at (srl8_sym y) (gen_table 32 256 4 srl8) h"
    "table_at (sra8_sym y) (gen_table 32 256 4 sra8) h"
  using assms
  by (simp_all add: lut_bin_def table_at_append and8_sym_def or8_sym_def xor8_sym_def sll8_sym_def
      srl8_sym_def sra8_sym_def)

end
