(* ===== verification/Minirv.thy ===== *)
theory Minirv
  imports MinirvLut
begin

text \<open>
  The assembler macros of \<open>tools/minirv/inst-replace.h\<close>: each instruction of RV32I that the
  minirv processor lacks is replaced by a sequence of \<open>add\<close>, \<open>addi\<close>, \<open>lui\<close>, \<open>lw\<close>, \<open>lbu\<close>, \<open>sw\<close>,
  \<open>sb\<close> and \<open>jalr\<close>, which works on a few words below the stack pointer and on lookup tables.
  A macro is a function from its operands to the list of instructions it expands to; the
  conditions of \<open>.if\<close> are evaluated on the operands, as the assembler does. A macro that uses
  another calls its function, and an instruction name inside a macro means the macro of that
  name where there is one.
\<close>

section \<open>Registers, base instructions and stack variables\<close>

abbreviation x_zero :: rid where "x_zero \<equiv> 0"
abbreviation x_ra :: rid where "x_ra \<equiv> 1"
abbreviation x_sp :: rid where "x_sp \<equiv> 2"
abbreviation x_gp :: rid where "x_gp \<equiv> 3"
abbreviation x_tp :: rid where "x_tp \<equiv> 4"
abbreviation x_s0 :: rid where "x_s0 \<equiv> 8"
abbreviation x_s1 :: rid where "x_s1 \<equiv> 9"

abbreviation i_add :: "rid \<Rightarrow> rid \<Rightarrow> rid \<Rightarrow> instr" where "i_add rd rs1 rs2 \<equiv> Op A_ADD rd rs1 rs2"
abbreviation i_addi :: "rid \<Rightarrow> rid \<Rightarrow> 12 word \<Rightarrow> instr" where "i_addi rd rs1 imm \<equiv> OpImm ADDI rd rs1 imm"
abbreviation i_lw :: "rid \<Rightarrow> rid \<Rightarrow> 12 word \<Rightarrow> instr" where "i_lw rd b off \<equiv> Load LW rd b off"
abbreviation i_lbu :: "rid \<Rightarrow> rid \<Rightarrow> 12 word \<Rightarrow> instr" where "i_lbu rd b off \<equiv> Load LBU rd b off"
abbreviation i_sw :: "rid \<Rightarrow> rid \<Rightarrow> 12 word \<Rightarrow> instr" where "i_sw r b off \<equiv> Store SW b r off"
abbreviation i_sb :: "rid \<Rightarrow> rid \<Rightarrow> 12 word \<Rightarrow> instr" where "i_sb r b off \<equiv> Store SB b r off"
abbreviation i_mv :: "rid \<Rightarrow> rid \<Rightarrow> instr" where "i_mv rd rs \<equiv> OpImm ADDI rd rs 0"

fun is_base :: "instr \<Rightarrow> bool" where
  "is_base (Op a rd rs1 rs2) \<longleftrightarrow> a = A_ADD"
| "is_base (OpImm a rd rs1 imm) \<longleftrightarrow> a = ADDI"
| "is_base (Lui rd imm) \<longleftrightarrow> True"
| "is_base (Load l rd rs1 imm) \<longleftrightarrow> l = LW \<or> l = LBU"
| "is_base (Store st rs1 rs2 imm) \<longleftrightarrow> st = SW \<or> st = SB"
| "is_base (Jalr rd rs1 imm) \<longleftrightarrow> True"
| "is_base i \<longleftrightarrow> False"

text \<open>\<open>SP_VAR_BYTE(n, boffset)\<close>, the offset of a byte of variable \<open>n\<close> from the stack pointer.\<close>

definition sp_var_byte :: "nat \<Rightarrow> nat \<Rightarrow> 12 word" where
  "sp_var_byte n boffset = word_of_int (- int n * 4 + int boffset)"

definition sp_var :: "nat \<Rightarrow> 12 word" where
  "sp_var n = sp_var_byte n 0"

abbreviation (input) VAR_A :: nat where "VAR_A \<equiv> 4"
abbreviation (input) VAR_B :: nat where "VAR_B \<equiv> 5"
abbreviation (input) VAR_C :: nat where "VAR_C \<equiv> 6"
abbreviation (input) VAR_D :: nat where "VAR_D \<equiv> 7"

definition PUSH :: "rid \<Rightarrow> nat \<Rightarrow> instr" where
  "PUSH r n = i_sw r x_sp (sp_var n)"

definition POP :: "rid \<Rightarrow> nat \<Rightarrow> instr" where
  "POP r n = i_lw r x_sp (sp_var n)"

text \<open>\<open>%hi\<close> and \<open>%lo\<close> of an address, and \<open>la\<close>.\<close>

definition hi20 :: "u32 \<Rightarrow> 20 word" where
  "hi20 a = ucast (drop_bit 12 (a + 0x800))"

definition lo12 :: "u32 \<Rightarrow> 12 word" where
  "lo12 a = ucast a"

definition m_la :: "rid \<Rightarrow> u32 \<Rightarrow> instr list" where
  "m_la r addr = [Lui r (hi20 addr), i_addi r r (lo12 addr)]"

section \<open>Jumps\<close>

definition m_call_template :: "rid \<Rightarrow> u32 \<Rightarrow> instr list" where
  "m_call_template r addr = m_la r addr @ [Jalr r r 0]"

definition m_j :: "u32 \<Rightarrow> instr list" where
  "m_j addr = m_la x_tp addr @ [Jalr x_zero x_tp 0]"

definition m_jal :: "rid \<Rightarrow> u32 \<Rightarrow> instr list" where
  "m_jal rd addr = (if rd = x_zero then m_j addr else m_call_template rd addr)"

definition m_call :: "u32 \<Rightarrow> instr list" where
  "m_call addr = m_call_template x_ra addr"

definition m_tail :: "u32 \<Rightarrow> instr list" where
  "m_tail addr = m_la x_tp addr @ [Jalr x_zero x_tp 0] @ m_call_template x_ra addr"

section \<open>Bytes, halfwords and shifts by a constant\<close>

definition m_getbyte :: "rid \<Rightarrow> rid \<Rightarrow> nat \<Rightarrow> instr list" where
  "m_getbyte rd rs1 b = [i_sw rs1 x_sp (sp_var VAR_C), i_lbu rd x_sp (sp_var_byte VAR_C b)]"

text \<open>\<open>sh rs, off(b)\<close>; the offset of the second store is \<open>1 + off\<close>.\<close>

definition m_sh :: "rid \<Rightarrow> rid \<Rightarrow> 12 word \<Rightarrow> instr list" where
  "m_sh rs b off = [i_sb rs b off] @ m_getbyte x_tp rs 1 @ [i_sb x_tp b (1 + off)]"

fun m_slli :: "rid \<Rightarrow> rid \<Rightarrow> nat \<Rightarrow> instr list" where
  "m_slli rd rs1 imm =
     (if imm = 0 then (if rd \<noteq> rs1 then [i_mv rd rs1] else [])
      else if 24 \<le> imm then
        [i_sw x_zero x_sp (sp_var VAR_A), i_sb rs1 x_sp (sp_var_byte VAR_A 3), i_lw rd x_sp (sp_var VAR_A)]
        @ m_slli rd rd (imm - 24)
      else if 16 \<le> imm then
        [i_sw x_zero x_sp (sp_var VAR_A)] @ m_sh rs1 x_sp (sp_var_byte VAR_A 2) @ [i_lw rd x_sp (sp_var VAR_A)]
        @ m_slli rd rd (imm - 16)
      else [i_add rd rs1 rs1] @ replicate (imm - 1) (i_add rd rd rd))"

declare m_slli.simps [simp del]

definition m_msb :: "rid \<Rightarrow> rid \<Rightarrow> instr list" where
  "m_msb rd rs1 = m_getbyte rd rs1 3 @ m_slli rd rd 1 @ m_getbyte rd rd 1"

section \<open>Logic, subtraction and comparison\<close>

definition m_not_byte :: "nat \<Rightarrow> instr list" where
  "m_not_byte b =
     [i_lbu x_gp x_sp (sp_var_byte VAR_C b), i_add x_gp x_gp x_tp, i_lbu x_gp x_gp 0,
      i_sb x_gp x_sp (sp_var_byte VAR_D b)]"

definition m_not :: "syms \<Rightarrow> rid \<Rightarrow> rid \<Rightarrow> instr list" where
  "m_not y rd rs1 =
     [PUSH x_gp 3, i_sw rs1 x_sp (sp_var VAR_C)] @ m_la x_tp (xor8_sym y + push_bit 8 0xff)
     @ m_not_byte 3 @ m_not_byte 2 @ m_not_byte 1 @ m_not_byte 0
     @ [POP x_gp 3, i_lw rd x_sp (sp_var VAR_D)]"

definition m_sub :: "syms \<Rightarrow> rid \<Rightarrow> rid \<Rightarrow> rid \<Rightarrow> instr list" where
  "m_sub y rd rs1 rs2 = m_not y x_tp rs2 @ [i_add rd rs1 x_tp, i_addi rd rd 1]"

definition m_slt_template :: "syms \<Rightarrow> u32 \<Rightarrow> rid \<Rightarrow> rid \<Rightarrow> rid \<Rightarrow> instr list" where
  "m_slt_template y lut rd rs1 rs2 =
     [PUSH x_s0 1, PUSH x_s1 2, i_sw rs2 x_sp (sp_var VAR_A), i_mv x_s0 rs1, i_lw x_s1 x_sp (sp_var VAR_A)]
     @ m_msb x_gp x_s0 @ m_slli x_gp x_gp 1
     @ m_msb x_tp x_s1 @ [i_add x_gp x_gp x_tp] @ m_slli x_gp x_gp 1
     @ m_sub y x_tp x_s0 x_s1 @ m_msb x_tp x_tp @ [i_add x_gp x_gp x_tp]
     @ m_la x_tp lut @ [i_add x_tp x_tp x_gp, POP x_s1 2, POP x_s0 1, i_lbu rd x_tp 0]"

definition m_slt :: "syms \<Rightarrow> rid \<Rightarrow> rid \<Rightarrow> rid \<Rightarrow> instr list" where
  "m_slt y rd rs1 rs2 = m_slt_template y (slt1_sym y) rd rs1 rs2"

definition m_sltu :: "syms \<Rightarrow> rid \<Rightarrow> rid \<Rightarrow> rid \<Rightarrow> instr list" where
  "m_sltu y rd rs1 rs2 = m_slt_template y (sltu1_sym y) rd rs1 rs2"

definition m_logic8_byte_internal :: "rid \<Rightarrow> nat \<Rightarrow> instr list" where
  "m_logic8_byte_internal lut_reg boffset =
     [i_lbu x_tp x_sp (sp_var_byte VAR_A boffset), i_sb x_tp x_sp (sp_var_byte VAR_D 1),
      i_lbu x_tp x_sp (sp_var_byte VAR_B boffset), i_sb x_tp x_sp (sp_var_byte VAR_D 0),
      i_lw x_tp x_sp (sp_var VAR_D), i_add x_tp lut_reg x_tp, i_lbu x_tp x_tp 0,
      i_sb x_tp x_sp (sp_var_byte VAR_C boffset)]"

text \<open>\<open>.abort\<close> stops the assembler: no code.\<close>

definition m_logic :: "u32 \<Rightarrow> rid \<Rightarrow> rid \<Rightarrow> rid \<Rightarrow> instr list option" where
  "m_logic lut rd rs1 rs2 =
     (if rd = x_zero then Some []
      else if rd = x_sp \<or> rs1 = x_sp \<or> rs2 = x_sp then None
      else if rd = x_gp \<or> rs1 = x_gp \<or> rs2 = x_gp then None
      else if rd = x_tp \<or> rs1 = x_tp then None
      else Some
       ([i_sw rs1 x_sp (sp_var VAR_A), i_sw rs2 x_sp (sp_var VAR_B)] @ m_la rd lut
        @ [i_sw x_zero x_sp (sp_var VAR_D)]
        @ m_logic8_byte_internal rd 3 @ m_logic8_byte_internal rd 2
        @ m_logic8_byte_internal rd 1 @ m_logic8_byte_internal rd 0
        @ [i_lw rd x_sp (sp_var VAR_C)]))"

definition m_and :: "syms \<Rightarrow> rid \<Rightarrow> rid \<Rightarrow> rid \<Rightarrow> instr list option" where
  "m_and y = m_logic (and8_sym y)"

definition m_or :: "syms \<Rightarrow> rid \<Rightarrow> rid \<Rightarrow> rid \<Rightarrow> instr list option" where
  "m_or y = m_logic (or8_sym y)"

definition m_xor :: "syms \<Rightarrow> rid \<Rightarrow> rid \<Rightarrow> rid \<Rightarrow> instr list option" where
  "m_xor y = m_logic (xor8_sym y)"

definition m_check_8bit_same :: "rid \<Rightarrow> rid \<Rightarrow> nat \<Rightarrow> instr list" where
  "m_check_8bit_same table rd boffset =
     [i_lbu rd x_sp (sp_var_byte VAR_A boffset), i_add x_tp table rd, i_addi rd x_zero 1, i_sb rd x_tp 0,
      i_lbu rd x_sp (sp_var_byte VAR_B boffset), i_add rd table rd, i_sb x_zero rd 0, i_lbu rd x_tp 0]"

definition m_seq :: "syms \<Rightarrow> rid \<Rightarrow> rid \<Rightarrow> rid \<Rightarrow> instr list" where
  "m_seq y rd rs1 rs2 =
     [i_sw rs1 x_sp (sp_var VAR_A), i_sw rs2 x_sp (sp_var VAR_B), PUSH x_s0 1, PUSH x_s1 2]
     @ m_la x_s0 (check_same_sym y)
     @ m_check_8bit_same x_s0 x_gp 0
     @ m_check_8bit_same x_s0 x_s1 1 @ [i_add x_gp x_gp x_s1]
     @ m_check_8bit_same x_s0 x_s1 2 @ [i_add x_gp x_gp x_s1]
     @ m_check_8bit_same x_s0 x_s1 3 @ [i_add x_gp x_gp x_s1]
     @ m_la x_tp (same_result_sym y) @ [i_add x_tp x_tp x_gp, i_lbu rd x_tp 0, POP x_s1 2, POP x_s0 1]"

definition m_check_8bit_0 :: "rid \<Rightarrow> rid \<Rightarrow> nat \<Rightarrow> instr list" where
  "m_check_8bit_0 table rd boffset =
     [i_lbu rd x_sp (sp_var_byte VAR_A boffset), i_add rd table rd, i_lbu rd rd 0]"

definition m_seqz :: "syms \<Rightarrow> rid \<Rightarrow> rid \<Rightarrow> instr list" where
  "m_seqz y rd rs1 =
     [i_sw rs1 x_sp (sp_var VAR_A), PUSH x_s0 1]
     @ m_la x_s0 (check_8bit_0_sym y)
     @ m_check_8bit_0 x_s0 x_gp 0
     @ m_check_8bit_0 x_s0 x_tp 1 @ [i_add x_gp x_gp x_tp]
     @ m_check_8bit_0 x_s0 x_tp 2 @ [i_add x_gp x_gp x_tp]
     @ m_check_8bit_0 x_s0 x_tp 3 @ [i_add x_gp x_gp x_tp]
     @ m_la x_tp (same_result_sym y) @ [i_add x_tp x_tp x_gp, i_lbu rd x_tp 0, POP x_s0 1]"

section \<open>Shifts\<close>

definition m_getshamt :: "syms \<Rightarrow> rid \<Rightarrow> rid \<Rightarrow> instr list" where
  "m_getshamt y rd rs1 =
     [i_sb rs1 x_sp (sp_var_byte VAR_B 0), i_lbu rd x_sp (sp_var_byte VAR_B 0)]
     @ m_la x_tp (and8_sym y + push_bit 8 0x1f) @ [i_add rd rd x_tp, i_lbu rd rd 0]"

definition m_get_shift_byte_in_tp :: "rid \<Rightarrow> nat \<Rightarrow> instr list" where
  "m_get_shift_byte_in_tp b boffset =
     [i_lbu x_tp x_sp (sp_var_byte VAR_A boffset)] @ m_slli x_tp x_tp 2 @ [i_add x_tp b x_tp, i_lw x_tp x_tp 0]"

definition m_sll :: "syms \<Rightarrow> rid \<Rightarrow> rid \<Rightarrow> rid \<Rightarrow> instr list" where
  "m_sll y rd rs1 rs2 =
     [PUSH x_s0 1, i_sw rs1 x_sp (sp_var VAR_A)] @ m_getshamt y x_s0 rs2
     @ [i_sw x_zero x_sp (sp_var VAR_B), i_sb x_s0 x_sp (sp_var_byte VAR_B 1), i_lw x_s0 x_sp (sp_var VAR_B)]
     @ m_slli x_s0 x_s0 2 @ m_la x_tp (sll8_sym y) @ [i_add x_s0 x_s0 x_tp]
     @ [i_sw x_zero x_sp (sp_var VAR_B)] @ m_get_shift_byte_in_tp x_s0 3
     @ [i_sb x_tp x_sp (sp_var_byte VAR_B 3), i_lw x_gp x_sp (sp_var VAR_B)]
     @ m_get_shift_byte_in_tp x_s0 2
     @ m_sh x_tp x_sp (sp_var_byte VAR_B 2) @ [i_lw x_tp x_sp (sp_var VAR_B), i_add x_gp x_gp x_tp]
     @ m_get_shift_byte_in_tp x_s0 1 @ m_slli x_tp x_tp 8 @ [i_add x_gp x_gp x_tp]
     @ m_get_shift_byte_in_tp x_s0 0
     @ [POP x_s0 1, i_add rd x_gp x_tp]"

text \<open>The operand \<open>rs2\<close> of the right shifts is a register, or an amount when \<open>is_rs2_imm\<close> is 1.\<close>

datatype shift_operand = Reg rid | Imm nat

definition m_shift_index :: "syms \<Rightarrow> shift_operand \<Rightarrow> instr list" where
  "m_shift_index y rs2 =
     (case rs2 of
        Reg r \<Rightarrow> m_getshamt y x_s0 r
          @ [i_sw x_zero x_sp (sp_var VAR_B), i_sb x_s0 x_sp (sp_var_byte VAR_B 1), i_lw x_s0 x_sp (sp_var VAR_B)]
          @ m_slli x_s0 x_s0 2 @ m_la x_tp (srl8_sym y) @ [i_add x_s0 x_s0 x_tp]
      | Imm k \<Rightarrow> m_la x_s0 (srl8_sym y + push_bit 10 (of_nat k)))"

definition m_shift_right_template :: "syms \<Rightarrow> rid \<Rightarrow> rid \<Rightarrow> shift_operand \<Rightarrow> bool \<Rightarrow> instr list" where
  "m_shift_right_template y rd rs1 rs2 is_arith =
     (if rs2 = Imm 24 then
        (if is_arith then
           [i_sw rs1 x_sp (sp_var VAR_A)] @ m_la x_tp (sra8_sym y + push_bit 10 24)
           @ [i_lbu rd x_sp (sp_var_byte VAR_A 3)] @ m_slli rd rd 2 @ [i_add x_tp x_tp rd, i_lw rd x_tp 0]
         else m_getbyte rd rs1 3)
      else
        [PUSH x_s0 1, i_sw rs1 x_sp (sp_var VAR_A)] @ m_shift_index y rs2
        @ m_get_shift_byte_in_tp x_s0 2 @ [i_sw x_tp x_sp (sp_var VAR_B)]
        @ m_get_shift_byte_in_tp x_s0 1 @ [i_sw x_tp x_sp (sp_var VAR_C)]
        @ m_get_shift_byte_in_tp x_s0 0 @ [i_sw x_tp x_sp (sp_var VAR_D)]
        @ [i_lbu x_gp x_sp (sp_var_byte VAR_B 1), i_lbu x_tp x_sp (sp_var_byte VAR_C 2), i_add x_gp x_gp x_tp,
           i_lbu x_tp x_sp (sp_var_byte VAR_D 3), i_add x_gp x_gp x_tp, i_sw x_gp x_sp (sp_var VAR_D),
           i_lbu x_gp x_sp (sp_var_byte VAR_B 2), i_lbu x_tp x_sp (sp_var_byte VAR_C 3), i_add x_gp x_gp x_tp,
           i_sb x_gp x_sp (sp_var_byte VAR_D 1),
           i_lbu x_gp x_sp (sp_var_byte VAR_B 3), i_sb x_gp x_sp (sp_var_byte VAR_D 2),
           i_lw x_gp x_sp (sp_var VAR_D)]
        @ (if is_arith then m_la x_tp (sra8_sym y - srl8_sym y) @ [i_add x_s0 x_s0 x_tp] else [])
        @ m_get_shift_byte_in_tp x_s0 3
        @ [POP x_s0 1, i_add rd x_gp x_tp])"

definition m_srl :: "syms \<Rightarrow> rid \<Rightarrow> rid \<Rightarrow> rid \<Rightarrow> instr list" where
  "m_srl y rd rs1 rs2 = m_shift_right_template y rd rs1 (Reg rs2) False"

definition m_sra :: "syms \<Rightarrow> rid \<Rightarrow> rid \<Rightarrow> rid \<Rightarrow> instr list" where
  "m_sra y rd rs1 rs2 = m_shift_right_template y rd rs1 (Reg rs2) True"

definition m_srli :: "syms \<Rightarrow> rid \<Rightarrow> rid \<Rightarrow> nat \<Rightarrow> instr list" where
  "m_srli y rd rs1 imm = m_shift_right_template y rd rs1 (Imm imm) False"

definition m_srai :: "syms \<Rightarrow> rid \<Rightarrow> rid \<Rightarrow> nat \<Rightarrow> instr list" where
  "m_srai y rd rs1 imm = m_shift_right_template y rd rs1 (Imm imm) True"

section \<open>Operations with an immediate\<close>

text \<open>\<open>def_itype\<close>: \<open>li tp, imm\<close>, one \<open>addi\<close> for a 12-bit immediate, and the register form.\<close>

definition def_itype :: "(rid \<Rightarrow> rid \<Rightarrow> rid \<Rightarrow> instr list option) \<Rightarrow> rid \<Rightarrow> rid \<Rightarrow> 12 word \<Rightarrow> instr list option" where
  "def_itype rtype rd rs1 imm = map_option (\<lambda>c. i_addi x_tp x_zero imm # c) (rtype rd rs1 x_tp)"

definition m_slti :: "syms \<Rightarrow> rid \<Rightarrow> rid \<Rightarrow> 12 word \<Rightarrow> instr list option" where
  "m_slti y = def_itype (\<lambda>rd rs1 rs2. Some (m_slt y rd rs1 rs2))"

definition m_sltiu :: "syms \<Rightarrow> rid \<Rightarrow> rid \<Rightarrow> 12 word \<Rightarrow> instr list option" where
  "m_sltiu y = def_itype (\<lambda>rd rs1 rs2. Some (m_sltu y rd rs1 rs2))"

definition m_andi :: "syms \<Rightarrow> rid \<Rightarrow> rid \<Rightarrow> 12 word \<Rightarrow> instr list option" where
  "m_andi y = def_itype (m_and y)"

definition m_ori :: "syms \<Rightarrow> rid \<Rightarrow> rid \<Rightarrow> 12 word \<Rightarrow> instr list option" where
  "m_ori y = def_itype (m_or y)"

definition m_xori :: "syms \<Rightarrow> rid \<Rightarrow> rid \<Rightarrow> 12 word \<Rightarrow> instr list option" where
  "m_xori y = def_itype (m_xor y)"

section \<open>Loads\<close>

definition m_lb :: "syms \<Rightarrow> rid \<Rightarrow> rid \<Rightarrow> 12 word \<Rightarrow> instr list" where
  "m_lb y rd b off =
     [i_sw x_zero x_sp (sp_var VAR_A), i_lbu rd b off, i_sb rd x_sp (sp_var_byte VAR_A 3),
      i_lw rd x_sp (sp_var VAR_A)] @ m_srai y rd rd 24"

definition m_lhu :: "rid \<Rightarrow> rid \<Rightarrow> 12 word \<Rightarrow> instr list" where
  "m_lhu rd b off =
     [i_sw x_zero x_sp (sp_var VAR_A), i_lbu x_tp b (1 + off), i_sb x_tp x_sp (sp_var_byte VAR_A 1),
      i_lw x_tp x_sp (sp_var VAR_A), i_lbu rd b (0 + off), i_add rd rd x_tp]"

definition m_lh :: "syms \<Rightarrow> rid \<Rightarrow> rid \<Rightarrow> 12 word \<Rightarrow> instr list" where
  "m_lh y rd b off =
     [i_sw x_zero x_sp (sp_var VAR_A), i_lbu x_gp b (1 + off), i_sb x_gp x_sp (sp_var_byte VAR_A 3),
      i_lw x_gp x_sp (sp_var VAR_A)] @ m_srai y x_gp x_gp 16 @ [i_lbu rd b (0 + off), i_add rd rd x_gp]"

section \<open>Branches\<close>

text \<open>
  \<open>branch_resolve\<close>: \<open>tp\<close> holds 0 or 1 and selects one of two addresses; \<open>here\<close> is the address
  of the label behind the code.
\<close>

definition m_branch_resolve :: "u32 \<Rightarrow> bool \<Rightarrow> u32 \<Rightarrow> instr list" where
  "m_branch_resolve target is_tp_high_sel_target here =
     m_slli x_tp x_tp 2 @ [i_add x_tp x_sp x_tp]
     @ (if is_tp_high_sel_target
        then m_la x_gp target @ [i_sw x_gp x_sp (sp_var VAR_A)] @ m_la x_gp here @ [i_sw x_gp x_sp (sp_var VAR_B)]
        else m_la x_gp here @ [i_sw x_gp x_sp (sp_var VAR_A)] @ m_la x_gp target @ [i_sw x_gp x_sp (sp_var VAR_B)])
     @ [i_lw x_tp x_tp (word_of_int (- int VAR_B * 4)), Jalr x_zero x_tp 0]"

definition m_beq :: "syms \<Rightarrow> rid \<Rightarrow> rid \<Rightarrow> u32 \<Rightarrow> u32 \<Rightarrow> instr list" where
  "m_beq y rs1 rs2 target here =
     (if rs2 = x_zero then m_seqz y x_tp rs1
      else if rs1 = x_zero then m_seqz y x_tp rs2
      else m_seq y x_tp rs1 rs2) @ m_branch_resolve target True here"

definition m_bne :: "syms \<Rightarrow> rid \<Rightarrow> rid \<Rightarrow> u32 \<Rightarrow> u32 \<Rightarrow> instr list" where
  "m_bne y rs1 rs2 target here =
     (if rs2 = x_zero then m_seqz y x_tp rs1
      else if rs1 = x_zero then m_seqz y x_tp rs2
      else m_seq y x_tp rs1 rs2) @ m_branch_resolve target False here"

text \<open>\<open>rs2 \<le> 0\<close> in \<open>tp\<close>: the sign bit of \<open>rs2\<close> or of \<open>rs2 - 1\<close> is set.\<close>

definition m_not_positive :: "syms \<Rightarrow> rid \<Rightarrow> instr list" where
  "m_not_positive y rs2 =
     m_msb x_gp rs2 @ [i_addi x_tp rs2 (- 1)] @ m_msb x_tp x_tp @ [i_add x_gp x_gp x_tp]
     @ m_la x_tp (or1_sym y) @ [i_add x_tp x_gp x_tp, i_lbu x_tp x_tp 0]"

definition m_blt :: "syms \<Rightarrow> rid \<Rightarrow> rid \<Rightarrow> u32 \<Rightarrow> u32 \<Rightarrow> instr list" where
  "m_blt y rs1 rs2 target here =
     (if rs2 = x_zero then m_msb x_tp rs1 @ m_branch_resolve target True here
      else if rs1 = x_zero then m_not_positive y rs2 @ m_branch_resolve target False here
      else m_slt y x_tp rs1 rs2 @ m_branch_resolve target True here)"

definition m_bltu :: "syms \<Rightarrow> rid \<Rightarrow> rid \<Rightarrow> u32 \<Rightarrow> u32 \<Rightarrow> instr list" where
  "m_bltu y rs1 rs2 target here = m_sltu y x_tp rs1 rs2 @ m_branch_resolve target True here"

definition m_bge :: "syms \<Rightarrow> rid \<Rightarrow> rid \<Rightarrow> u32 \<Rightarrow> u32 \<Rightarrow> instr list" where
  "m_bge y rs1 rs2 target here =
     (if rs1 = x_zero then m_not_positive y rs2 @ m_branch_resolve target True here
      else m_slt y x_tp rs1 rs2 @ m_branch_resolve target False here)"

definition m_bgeu :: "syms \<Rightarrow> rid \<Rightarrow> rid \<Rightarrow> u32 \<Rightarrow> u32 \<Rightarrow> instr list" where
  "m_bgeu y rs1 rs2 target here = m_sltu y x_tp rs1 rs2 @ m_branch_resolve target False here"

section \<open>Pseudo-instructions\<close>

definition m_neg :: "syms \<Rightarrow> rid \<Rightarrow> rid \<Rightarrow> instr list" where
  "m_neg y rd rs = m_sub y rd x_zero rs"

definition m_snez :: "syms \<Rightarrow> rid \<Rightarrow> rid \<Rightarrow> instr list" where
  "m_snez y rd rs = m_sltu y rd x_zero rs"

definition m_sltz :: "rid \<Rightarrow> rid \<Rightarrow> instr list" where
  "m_sltz rd rs = m_msb rd rs"

definition m_sgt :: "syms \<Rightarrow> rid \<Rightarrow> rid \<Rightarrow> rid \<Rightarrow> instr list" where
  "m_sgt y rd rs1 rs2 = m_slt y rd rs2 rs1"

definition m_sgtu :: "syms \<Rightarrow> rid \<Rightarrow> rid \<Rightarrow> rid \<Rightarrow> instr list" where
  "m_sgtu y rd rs1 rs2 = m_sltu y rd rs2 rs1"

definition m_sgtz :: "syms \<Rightarrow> rid \<Rightarrow> rid \<Rightarrow> instr list" where
  "m_sgtz y rd rs = m_slt y rd x_zero rs"

definition m_beqz :: "syms \<Rightarrow> rid \<Rightarrow> u32 \<Rightarrow> u32 \<Rightarrow> instr list" where
  "m_beqz y rs target here = m_beq y rs x_zero target here"

definition m_bnez :: "syms \<Rightarrow> rid \<Rightarrow> u32 \<Rightarrow> u32 \<Rightarrow> instr list" where
  "m_bnez y rs target here = m_bne y rs x_zero target here"

definition m_blez :: "syms \<Rightarrow> rid \<Rightarrow> u32 \<Rightarrow> u32 \<Rightarrow> instr list" where
  "m_blez y rs target here = m_bge y x_zero rs target here"

definition m_bgez :: "syms \<Rightarrow> rid \<Rightarrow> u32 \<Rightarrow> u32 \<Rightarrow> instr list" where
  "m_bgez y rs target here = m_bge y rs x_zero target here"

definition m_bltz :: "syms \<Rightarrow> rid \<Rightarrow> u32 \<Rightarrow> u32 \<Rightarrow> instr list" where
  "m_bltz y rs target here = m_blt y rs x_zero target here"

definition m_bgtz :: "syms \<Rightarrow> rid \<Rightarrow> u32 \<Rightarrow> u32 \<Rightarrow> instr list" where
  "m_bgtz y rs target here = m_blt y x_zero rs target here"

definition m_bgt :: "syms \<Rightarrow> rid \<Rightarrow> rid \<Rightarrow> u32 \<Rightarrow> u32 \<Rightarrow> instr list" where
  "m_bgt y rs rt target here = m_blt y rt rs target here"

definition m_ble :: "syms \<Rightarrow> rid \<Rightarrow> rid \<Rightarrow> u32 \<Rightarrow> u32 \<Rightarrow> instr list" where
  "m_ble y rs rt target here = m_bge y rt rs target here"

definition m_bgtu :: "syms \<Rightarrow> rid \<Rightarrow> rid \<Rightarrow> u32 \<Rightarrow> u32 \<Rightarrow> instr list" where
  "m_bgtu y rs rt target here = m_bltu y rt rs target here"

definition m_bleu :: "syms \<Rightarrow> rid \<Rightarrow> rid \<Rightarrow> u32 \<Rightarrow> u32 \<Rightarrow> instr list" where
  "m_bleu y rs rt target here = m_bgeu y rt rs target here"

end
