(* ===== verification/MinirvExec.thy ===== *)
theory MinirvExec
  imports Minirv
begin

text \<open>
  How the building blocks of the minirv macros execute. The words below the stack pointer are
  read and written symbolically: an update of the state is a term in \<open>set_rg\<close>, \<open>put8\<close> and
  \<open>put32\<close>, and the collection \<open>hart_simps\<close> reads registers and bytes through such terms.
\<close>

section \<open>The base instructions\<close>

definition put32 :: "u32 \<Rightarrow> u32 \<Rightarrow> hart \<Rightarrow> hart" where
  "put32 a v h = put_len a [wbyte 0 v, wbyte 1 v, wbyte 2 v, wbyte 3 v] h"

text \<open>\<open>in_word a b\<close>: \<open>a\<close> is one of the four bytes from \<open>b\<close> on; \<open>woff a b\<close> is its number.\<close>

definition in_word :: "u32 \<Rightarrow> u32 \<Rightarrow> bool" where
  "in_word a b \<longleftrightarrow> a - b < 4"

definition at_byte :: "u32 \<Rightarrow> u32 \<Rightarrow> bool" where
  "at_byte a b \<longleftrightarrow> a = b"

definition woff :: "u32 \<Rightarrow> u32 \<Rightarrow> nat" where
  "woff a b = unat (a - b)"

lemma word_less_4: "(x :: u32) < 4 \<longleftrightarrow> x = 0 \<or> x = 1 \<or> x = 2 \<or> x = 3"
proof
  assume "x < 4"
  then have "unat x < 4" by (simp add: word_less_nat_alt)
  then have "unat x = 0 \<or> unat x = 1 \<or> unat x = 2 \<or> unat x = 3" by auto
  moreover have eq: "x = of_nat k" if "unat x = k" for k
    using that by auto
  ultimately show "x = 0 \<or> x = 1 \<or> x = 2 \<or> x = 3"
    using eq [of 0] eq [of 1] eq [of 2] eq [of 3] by auto
next
  assume "x = 0 \<or> x = 1 \<or> x = 2 \<or> x = 3"
  then show "x < 4" by (elim disjE) simp_all
qed

lemma peek_put32_if:
  "peek a (put32 b v h) = (if in_word a b then wbyte (woff a b) v else peek a h)"
proof -
  have other: "a \<noteq> b \<and> a \<noteq> b + 1 \<and> a \<noteq> b + 2 \<and> a \<noteq> b + 3" if "\<not> in_word a b"
    using that unfolding in_word_def word_less_4 by auto
  have byte: "a = b + (a - b)" by simp
  show ?thesis
  proof (cases "in_word a b")
    case True
    then consider "a - b = 0" | "a - b = 1" | "a - b = 2" | "a - b = 3"
      unfolding in_word_def word_less_4 by blast
    then show ?thesis
      using True byte
      by cases (simp_all add: put32_def peek_put8 woff_def add.assoc)
  next
    case False
    then show ?thesis using other by (simp add: put32_def peek_put8 add.assoc)
  qed
qed

lemma peek_put [hart_simps]:
  "at_byte a b \<Longrightarrow> peek a (put8 b w h) = w" "\<not> at_byte a b \<Longrightarrow> peek a (put8 b w h) = peek a h"
  "in_word a b \<Longrightarrow> peek a (put32 b v h) = wbyte (woff a b) v"
  "\<not> in_word a b \<Longrightarrow> peek a (put32 b v h) = peek a h"
  by (simp_all add: at_byte_def peek_put8 peek_put32_if)

lemma rg_put32 [hart_simps]: "rg r (put32 a v h) = rg r h"
  by (simp add: put32_def rg_put8)

lemma le_bytes_simps:
  "le_bytes 4 v = [wbyte 0 v, wbyte 1 v, wbyte 2 v, wbyte 3 v]"
  "le_bytes 1 v = [wbyte 0 v]" "le_bytes (Suc 0) v = [wbyte 0 v]"
  by (simp_all add: le_bytes_def wbyte_def upt_rec)

named_theorems exec_simps \<open>execution of base instructions\<close>

lemma hart_do_base [exec_simps]:
  "hart_do (i_add rd r1 r2) h = set_rg rd (rg r1 h + rg r2 h) h"
  "hart_do (i_addi rd r1 imm) h = set_rg rd (rg r1 h + scast imm) h"
  "hart_do (Lui rd k) h = set_rg rd (push_bit 12 (ucast k)) h"
  "hart_do (i_sw r b off) h = put32 (rg b h + scast off) (rg r h) h"
  "hart_do (i_sb r b off) h = put8 (rg b h + scast off) (wbyte 0 (rg r h)) h"
  by (simp_all add: hart_do_def le_bytes_simps put32_def wi_hom_syms)

lemma hart_do_lbu [exec_simps]:
  "hart_do (i_lbu rd b off) h = set_rg rd (ucast (peek (rg b h + scast off) h)) h"
proof -
  have "ucast (ucast (le_word [x]) :: u8) = (ucast x :: u32)" for x
    by (rule bit_word_eqI) (auto simp: bit_le_word bit_simps dest: bit_imp_le_length)
  then show ?thesis by (simp add: hart_do_def)
qed

lemma hart_do_lw [exec_simps]:
  "hart_do (i_lw rd b off) h =
     set_rg rd (word4 (peek (rg b h + scast off) h) (peek (rg b h + scast off + 1) h)
       (peek (rg b h + scast off + 2) h) (peek (rg b h + scast off + 3) h)) h"
  by (simp add: hart_do_def numeral_eq_Suc word4_def add.assoc)

section \<open>Bytes of words\<close>

lemma bit_word4:
  "bit (word4 a b c d) n \<longleftrightarrow>
     (if n < 8 then bit a n else if n < 16 then bit b (n - 8) else if n < 24 then bit c (n - 16)
      else n < 32 \<and> bit d (n - 24))"
proof -
  consider "n < 8" | "8 \<le> n" "n < 16" | "16 \<le> n" "n < 24" | "24 \<le> n" "n < 32" | "32 \<le> n" by linarith
  then show ?thesis
  proof cases
    case 5
    then show ?thesis unfolding word4_def bit_le_word by (auto dest: bit_imp_le_length)
  qed (simp_all add: word4_def bit_le_word le_div_geq le_mod_geq del: le_word.simps)
qed

lemma bit_wbyte: "bit (wbyte i v) n \<longleftrightarrow> n < 8 \<and> bit v (8 * i + n)"
  by (auto simp: wbyte_def bit_simps)

lemma wbyte_word4 [simp]:
  "wbyte 0 (word4 a b c d) = a" "wbyte 1 (word4 a b c d) = b" "wbyte (Suc 0) (word4 a b c d) = b"
  "wbyte 2 (word4 a b c d) = c" "wbyte 3 (word4 a b c d) = d"
  by (rule bit_word_eqI; auto simp: bit_word4 bit_wbyte)+

lemma word4_wbyte [simp]:
  "word4 (wbyte 0 v) (wbyte 1 v) (wbyte 2 v) (wbyte 3 v) = v"
  "word4 (wbyte 0 v) (wbyte (Suc 0) v) (wbyte 2 v) (wbyte 3 v) = v"
  by (rule bit_word_eqI; auto simp: bit_word4 bit_wbyte)+

lemma wbyte_ucast [simp]:
  "wbyte 0 (ucast (b :: u8)) = b" "0 < i \<Longrightarrow> wbyte i (ucast (b :: u8)) = 0"
  by (rule bit_word_eqI; auto simp: bit_wbyte bit_simps dest: bit_imp_le_length)+

lemma wbyte_zero [simp]: "wbyte i 0 = 0"
  by (simp add: wbyte_def)

section \<open>Addresses\<close>

text \<open>The scratch words of the macros: the 28 bytes below the stack pointer.\<close>

definition scratch :: "u32 \<Rightarrow> u32 \<Rightarrow> bool" where
  "scratch sp a \<longleftrightarrow> sp - a - 1 < 28"

lemma scast_word_of_int12:
  assumes "- 2048 \<le> k" and "k < 2048"
  shows "scast (word_of_int k :: 12 word) = (word_of_int k :: u32)"
proof -
  have "sint (word_of_int k :: 12 word) = signed_take_bit 11 k" by (simp add: signed_of_int)
  also have "\<dots> = k" using assms by (intro signed_take_bit_int_eq_self) simp_all
  finally show ?thesis by (simp only: scast_eq)
qed

lemma sp_var_byte_off:
  assumes "n \<le> 7" and "b < 4"
  shows "scast (sp_var_byte n b) = (word_of_int (int b - 4 * int n) :: u32)"
proof -
  have eq: "- int n * 4 + int b = int b - 4 * int n" by presburger
  have lo: "- 2048 \<le> int b - 4 * int n" using assms by presburger
  have hi: "int b - 4 * int n < 2048" using assms by presburger
  show ?thesis unfolding sp_var_byte_def eq by (rule scast_word_of_int12 [OF lo hi])
qed

lemma sp_var_off [exec_simps]:
  "n \<le> 7 \<Longrightarrow> b < 4 \<Longrightarrow> a + scast (sp_var_byte n b) = a - (word_of_int (4 * int n - int b) :: u32)"
  "n \<le> 7 \<Longrightarrow> a + scast (sp_var n) = a - (word_of_int (4 * int n) :: u32)"
  using sp_var_byte_off [of n b] sp_var_byte_off [of n 0] of_int_minus [of "4 * int n - int b", where ?'a = "32 word"]
  by (simp_all add: sp_var_def del: of_int_diff of_int_mult)

text \<open>Addresses relative to the stack pointer are compared by their offsets.\<close>

lemma in_word_sp [hart_simps]:
  "in_word (s - a) (s - b) \<longleftrightarrow> b - a < 4" "woff (s - a) (s - b) = unat (b - a)"
  "at_byte (s - a) (s - b) \<longleftrightarrow> a = b"
  by (simp_all add: in_word_def woff_def at_byte_def)

lemma sp_next [exec_simps]:
  "(s :: u32) - numeral a + 1 = s - (numeral a - 1)" "s - numeral a + numeral b = s - (numeral a - numeral b)"
  by (simp_all only: diff_diff_eq2 diff_add_eq)

lemma scratch_sp:
  assumes "1 \<le> k" and "k \<le> 28"
  shows "scratch s (s - of_nat k)"
proof -
  obtain m where k: "k = Suc m" using assms(1) by (cases k) simp_all
  have "s - (s - of_nat k) - 1 = (of_nat m :: u32)" by (simp add: k)
  moreover have "unat (of_nat m :: u32) = m" using assms k by (simp add: unat_of_nat take_bit_eq_mod)
  ultimately show ?thesis using assms k by (simp add: scratch_def word_less_nat_alt)
qed

lemma scratch_not [hart_simps]:
  assumes "\<not> scratch s a"
  shows "numeral k \<le> (28 :: nat) \<Longrightarrow> at_byte a (s - numeral k) = False" "at_byte a (s - 1) = False"
    "(4 :: nat) \<le> numeral k \<Longrightarrow> numeral k \<le> (28 :: nat) \<Longrightarrow> in_word a (s - numeral k) = False"
proof -
  have far: "a \<noteq> s - of_nat k" if "1 \<le> k" "k \<le> 28" for k
    using scratch_sp [OF that] assms by blast
  show "numeral k \<le> (28 :: nat) \<Longrightarrow> at_byte a (s - numeral k) = False"
    using far [of "numeral k"] by (simp add: at_byte_def)
  show "at_byte a (s - 1) = False" using far [of 1] by (simp add: at_byte_def)
  assume k: "(4 :: nat) \<le> numeral k" "numeral k \<le> (28 :: nat)"
  have "a \<noteq> s - numeral k + of_nat j" if "j < 4" for j
  proof -
    have "of_nat (numeral k - j) = (of_nat (numeral k) - of_nat j :: u32)"
      using k that by (intro of_nat_diff) linarith
    then have "s - numeral k + of_nat j = s - (of_nat (numeral k - j) :: u32)" by simp
    moreover have "1 \<le> numeral k - j" "numeral k - j \<le> 28" using k that by linarith+
    ultimately show ?thesis using far by presburger
  qed
  from this [of 0] this [of 1] this [of 2] this [of 3] have
    "a \<noteq> s - numeral k" "a \<noteq> s - numeral k + 1" "a \<noteq> s - numeral k + 2" "a \<noteq> s - numeral k + 3"
    by simp_all
  then show "in_word a (s - numeral k) = False"
    unfolding in_word_def word_less_4 by (auto simp: diff_eq_eq add.commute)
qed

section \<open>Building blocks\<close>

lemma m_getbyte_run:
  "hart_run (m_getbyte rd rs b) h =
     set_rg rd (ucast (wbyte b (rg rs h))) (put32 (rg x_sp h - 24) (rg rs h) h)"
  if "b < 4"
proof -
  from that consider "b = 0" | "b = 1" | "b = 2" | "b = 3" by linarith
  then show ?thesis by cases (simp_all add: m_getbyte_def exec_simps hart_simps)
qed

lemma set_rg_same [hart_simps]: "set_rg r v (set_rg r w h) = set_rg r v h" "set_rg r (rg r h) h = h"
  by (simp_all add: set_rg_def rg_def)

lemma push_hi20: "push_bit 12 (ucast (ucast (drop_bit 12 x) :: 20 word)) = x - take_bit 12 (x :: u32)"
proof -
  have "push_bit 12 (ucast (ucast (drop_bit 12 x) :: 20 word)) = push_bit 12 (drop_bit 12 x)"
    by (rule bit_word_eqI) (auto simp: bit_simps)
  moreover have "push_bit 12 (drop_bit 12 x) + take_bit 12 x = x" by (rule bits_ident)
  ultimately show ?thesis by (metis add_diff_cancel_right')
qed

lemma scast_lo12: "scast (ucast a :: 12 word) = take_bit 12 ((a :: u32) + 2048) - 2048"
proof -
  have "sint (ucast a :: 12 word) = signed_take_bit 11 (uint a)"
    by (rule bit_eqI) (auto simp: bit_simps min_def)
  also have "\<dots> = take_bit 12 (uint a + 2048) - 2048"
    using signed_take_bit_eq_take_bit_shift [of 11 "uint a"] by simp
  finally have "scast (ucast a :: 12 word) = (word_of_int (take_bit 12 (uint a + 2048) - 2048) :: u32)"
    by (simp only: scast_eq)
  moreover have "word_of_int (take_bit 12 k) = (take_bit 12 (word_of_int k) :: u32)" for k
    by (rule bit_word_eqI) (auto simp: bit_simps)
  ultimately show ?thesis by simp
qed

lemma split_join: "x - t + (t - c) = x - (c :: u32)"
  by simp

lemma hi_lo: "push_bit 12 (ucast (hi20 a)) + scast (lo12 a) = a"
  unfolding hi20_def lo12_def push_hi20 scast_lo12 split_join by (rule add_diff_cancel_right')

lemma m_la_run [exec_simps]: "hart_run (m_la r a) h = set_rg r a h"
proof -
  have "hart_run (m_la r a) h = set_rg r (push_bit 12 (ucast (hi20 a)) + scast (lo12 a)) h" if "r \<noteq> 0"
    using that by (simp add: m_la_def exec_simps hart_simps)
  moreover have "hart_run (m_la 0 a) h = h" by (simp add: m_la_def exec_simps)
  ultimately show ?thesis by (cases "r = 0") (simp_all add: hi_lo)
qed

lemma push_twice: "push_bit n (v + v) = push_bit (Suc n) (v :: u32)"
  unfolding push_bit_Suc mult_2_right ..

lemma run_doubling:
  "hart_run (replicate n (i_add rd rd rd)) (set_rg rd v h) = set_rg rd (push_bit n v) h"
proof (induction n arbitrary: v)
  case 0
  then show ?case by simp
next
  case (Suc n)
  have "hart_do (i_add rd rd rd) (set_rg rd v h) = set_rg rd (v + v) h"
    by (cases "rd = 0") (simp_all add: exec_simps hart_simps)
  moreover have "push_bit n (v + v) = push_bit (Suc n) v" by (rule push_twice)
  ultimately show ?case using Suc.IH by simp
qed

lemma m_slli_Suc: "n < 15 \<Longrightarrow> m_slli rd rs (Suc n) = i_add rd rs rs # replicate n (i_add rd rd rd)"
  by (subst m_slli.simps) simp

lemma m_slli_zero: "m_slli rd rs 0 = (if rd = rs then [] else [i_mv rd rs])"
  by (subst m_slli.simps) simp

lemma m_slli_small [exec_simps]:
  assumes "imm < 16"
  shows "hart_run (m_slli rd rs imm) h = set_rg rd (push_bit imm (rg rs h)) h"
proof (cases imm)
  case 0
  then show ?thesis by (simp add: m_slli_zero exec_simps hart_simps)
next
  case (Suc n)
  have "hart_run (m_slli rd rs imm) h = set_rg rd (push_bit n (rg rs h + rg rs h)) h"
    using assms Suc by (simp add: m_slli_Suc hart_do_base run_doubling del: replicate.simps)
  then show ?thesis unfolding push_twice Suc .
qed

lemma put_set_rg [hart_simps]:
  "put8 a v (set_rg r w h) = set_rg r w (put8 a v h)" "put32 a u (set_rg r w h) = set_rg r w (put32 a u h)"
  by (simp_all add: put32_def put8_def set_rg_def)

lemma bit_twice8: "bit (ucast (b :: u8) * 2 :: u32) (8 + n) \<longleftrightarrow> n = 0 \<and> bit b 7"
proof -
  have "ucast b * 2 = (push_bit 1 (ucast b) :: u32)" by (simp only: push_bit_eq_mult power_one_right)
  then have "bit (ucast b * 2 :: u32) (8 + n) \<longleftrightarrow> 8 + n < 32 \<and> bit b (7 + n)"
    by (simp only: bit_push_bit_iff bit_unsigned_iff) (auto dest: bit_imp_le_length)
  also have "\<dots> \<longleftrightarrow> n = 0 \<and> bit b 7"
    using bit_imp_le_length [of b "7 + n"] by (cases n) auto
  finally show ?thesis .
qed
lemma byte1_double: "ucast (wbyte (Suc 0) (ucast (b :: u8) * 2)) = (of_bool (bit b 7) :: u32)"
proof (rule bit_word_eqI)
  fix n assume n: "n < LENGTH(32)"
  show "bit (ucast (wbyte (Suc 0) (ucast b * 2)) :: u32) n \<longleftrightarrow> bit (of_bool (bit b 7) :: u32) n"
    using n bit_twice8 [of b n] by (auto simp add: bit_unsigned_iff bit_wbyte bit_of_bool_iff)
qed

text \<open>The sign bit of a word, as a word.\<close>

definition sign31 :: "u32 \<Rightarrow> u32" where
  "sign31 v = of_bool (bit v 31)"

lemma byte1_sign: "ucast (wbyte (Suc 0) (ucast (wbyte 3 v) * 2)) = sign31 v"
  by (simp add: byte1_double bit_wbyte sign31_def)

lemma put32_same [hart_simps]: "put32 a v (put32 a w h) = put32 a v h"
proof (rule hart_eqI)
  show "xr (put32 a v (put32 a w h)) 0 = xr (put32 a v h) 0" by (simp add: put32_def put8_def)
qed (simp_all add: rg_put32 peek_put32_if)

text \<open>An update hides an earlier one of the same register or word, whatever lies between.\<close>

lemma set_rg_hides [hart_simps]:
  "set_rg r v (set_rg q w (set_rg r u h)) = set_rg r v (set_rg q w h)"
  "set_rg r v (set_rg q w (set_rg q' w' (set_rg r u h))) = set_rg r v (set_rg q w (set_rg q' w' h))"
  "set_rg r v (set_rg q w (set_rg q' w' (set_rg q'' w'' (set_rg r u h)))) = set_rg r v (set_rg q w (set_rg q' w' (set_rg q'' w'' h)))"
  by (auto simp: set_rg_def fun_eq_iff)

lemma put32_hides [hart_simps]:
  "put32 a v (put32 b w (put32 a u h)) = put32 a v (put32 b w h)"
  "put32 a v (put32 b w (put32 b' w' (put32 a u h))) = put32 a v (put32 b w (put32 b' w' h))"
proof -
  have x: "xr (put32 a v h) = xr h" for a v h by (simp add: put32_def put8_def)
  show "put32 a v (put32 b w (put32 a u h)) = put32 a v (put32 b w h)"
    by (rule hart_eqI) (simp_all add: x rg_put32 peek_put32_if)
  show "put32 a v (put32 b w (put32 b' w' (put32 a u h))) = put32 a v (put32 b w (put32 b' w' h))"
    by (rule hart_eqI) (simp_all add: x rg_put32 peek_put32_if)
qed

lemma m_msb_run [exec_simps]:
  assumes "rd \<noteq> 0" and "rd \<noteq> x_sp"
  shows "hart_run (m_msb rd rs) h =
     set_rg rd (sign31 (rg rs h)) (put32 (rg x_sp h - 24) (ucast (wbyte 3 (rg rs h)) * 2) h)"
  using assms by (simp add: m_msb_def hart_run_append m_getbyte_run exec_simps hart_simps byte1_sign)

section \<open>The environment of the macros\<close>

definition region :: "u32 \<Rightarrow> nat \<Rightarrow> u32 \<Rightarrow> bool" where
  "region t n a \<longleftrightarrow> unat (a - t) < n"

definition rom_at :: "syms \<Rightarrow> u32 \<Rightarrow> bool" where
  "rom_at y a \<longleftrightarrow>
     region (same_result_sym y) 8 a \<or> region (check_8bit_0_sym y) 256 a \<or> region (slt1_sym y) 8 a
     \<or> region (sltu1_sym y) 8 a \<or> region (or1_sym y) 4 a \<or> region (logic_shift_sym y) 294912 a"

text \<open>
  The assumption of the macros: the tables are in memory, and neither they nor the array of
  \<open>seq\<close> overlap the scratch words below the stack pointer or one another.
\<close>

definition minirv_env :: "syms \<Rightarrow> hart \<Rightarrow> bool" where
  "minirv_env y h \<longleftrightarrow>
     table_at (same_result_sym y) same_result_table h \<and> table_at (check_8bit_0_sym y) check_8bit_0_table h
     \<and> table_at (slt1_sym y) slt1_table h \<and> table_at (sltu1_sym y) sltu1_table h
     \<and> table_at (or1_sym y) or1_table h \<and> table_at (logic_shift_sym y) lut_bin h
     \<and> (\<forall>a. rom_at y a \<or> region (check_same_sym y) 256 a \<longrightarrow> \<not> scratch (rg x_sp h) a)
     \<and> (\<forall>a. rom_at y a \<longrightarrow> \<not> region (check_same_sym y) 256 a)"

lemma region_offset: "k < n \<Longrightarrow> k < 2 ^ 32 \<Longrightarrow> region t n (t + of_nat k)"
  by (simp add: region_def unat_of_nat take_bit_eq_mod)

lemma minirv_env_set_rg [hart_simps]: "r \<noteq> x_sp \<Longrightarrow> minirv_env y (set_rg r v h) = minirv_env y h"
  by (simp add: minirv_env_def table_at_def hart_simps)

text \<open>Only the bytes of the tables matter.\<close>

lemma minirv_env_cong:
  assumes env: "minirv_env y h" and sp: "rg x_sp h' = rg x_sp h"
    and same: "\<And>a. rom_at y a \<Longrightarrow> peek a h' = peek a h"
  shows "minirv_env y h'"
proof -
  have tab: "table_at t bs h'"
    if r: "\<And>a. region t (length bs) a \<Longrightarrow> rom_at y a" and l: "length bs < 2 ^ 32" and t: "table_at t bs h" for t bs
    unfolding table_at_def
  proof (intro allI impI)
    fix k assume k: "k < length bs"
    then have "rom_at y (t + of_nat k)" using l by (intro r region_offset) simp_all
    then show "peek (t + of_nat k) h' = bs ! k" using same table_atD [OF t k] by simp
  qed
  note env' = env [unfolded minirv_env_def]
  have l: "length same_result_table = 8" "length check_8bit_0_table = 256" "length slt1_table = 8"
    "length sltu1_table = 8" "length or1_table = 4"
    by (simp_all add: same_result_table_def check_8bit_0_table_def slt1_table_def sltu1_table_def or1_table_def)
  have "table_at (same_result_sym y) same_result_table h'"
    using env' by (intro tab) (simp_all add: l rom_at_def)
  moreover have "table_at (check_8bit_0_sym y) check_8bit_0_table h'"
    using env' by (intro tab) (simp_all add: l rom_at_def)
  moreover have "table_at (slt1_sym y) slt1_table h'"
    using env' by (intro tab) (simp_all add: l rom_at_def)
  moreover have "table_at (sltu1_sym y) sltu1_table h'"
    using env' by (intro tab) (simp_all add: l rom_at_def)
  moreover have "table_at (or1_sym y) or1_table h'"
    using env' by (intro tab) (simp_all add: l rom_at_def)
  moreover have "table_at (logic_shift_sym y) lut_bin h'"
    using env' by (intro tab) (simp_all add: rom_at_def)
  ultimately show ?thesis using env' unfolding minirv_env_def sp by blast
qed

lemma minirv_env_put8_gen:
  assumes "scratch (rg x_sp h) b \<or> region (check_same_sym y) 256 b" and "minirv_env y h"
  shows "minirv_env y (put8 b v h)"
  using assms by (intro minirv_env_cong [OF assms(2)]) (auto simp: rg_put8 peek_put8 minirv_env_def)

lemma minirv_env_put8 [hart_simps]:
  "scratch (rg x_sp h) b \<or> region (check_same_sym y) 256 b \<Longrightarrow> minirv_env y h \<Longrightarrow> minirv_env y (put8 b v h)"
  by (rule minirv_env_put8_gen)

lemma scratch_in [hart_simps]:
  "numeral k \<le> (28 :: nat) \<Longrightarrow> scratch s (s - numeral k)" "scratch s (s - 1)"
  using scratch_sp [of "numeral k" s] scratch_sp [of 1 s] by simp_all

lemma minirv_env_put32 [hart_simps]:
  assumes "(4 :: nat) \<le> numeral k" "numeral k \<le> (28 :: nat)" "minirv_env y h" "s = rg x_sp h"
  shows "minirv_env y (put32 (s - numeral k) v h)"
proof -
  have sc: "scratch s (s - numeral k + of_nat j)" if "j < 4" for j
  proof -
    have "of_nat (numeral k - j) = (of_nat (numeral k) - of_nat j :: u32)"
      using assms that by (intro of_nat_diff) linarith
    then have "s - numeral k + of_nat j = s - (of_nat (numeral k - j) :: u32)" by simp
    moreover have "1 \<le> numeral k - j" "numeral k - j \<le> 28" using assms that by linarith+
    ultimately show ?thesis using scratch_sp by presburger
  qed
  from sc [of 0] sc [of 1] sc [of 2] sc [of 3] show ?thesis
    using assms(3,4) by (simp add: put32_def minirv_env_put8 rg_put8 add.assoc)
qed

section \<open>Reading the tables\<close>

lemma word4_sum: "word4 i j 0 0 = ucast i + ucast j * 256"
proof -
  have p: "ucast j * 256 = (push_bit 8 (ucast j) :: u32)" by (simp add: push_bit_eq_mult)
  have "ucast i + push_bit 8 (ucast j) = (ucast i OR push_bit 8 (ucast j) :: u32)"
    by (rule disjunctive_add) (auto simp: bit_simps dest: bit_imp_le_length)
  moreover have "word4 i j 0 0 = (ucast i OR push_bit 8 (ucast j) :: u32)"
    by (rule bit_word_eqI) (auto simp: bit_word4 bit_simps dest: bit_imp_le_length)
  ultimately show ?thesis using p by simp
qed

lemma word4_index: "word4 i j 0 0 = of_nat (unat j * 256 + unat i)"
  by (simp add: word4_sum)

lemma lut_byte:
  assumes "table_at t (gen_table 256 256 1 f) h"
  shows "peek (t + word4 i j 0 0) h = wbyte 0 (f (unat j) (unat i))"
proof -
  have b: "unat i < 256" "unat j < 256" using unsigned_less [of i] unsigned_less [of j] by simp_all
  then have "unat j * 256 + unat i < length (gen_table 256 256 1 f)" by simp
  from table_atD [OF assms this] show ?thesis
    using gen_table_nth [of "unat j" 256 "unat i" 256 0 1 f] b by (simp add: word4_index)
qed

lemma env_lut:
  assumes "minirv_env y h"
  shows "peek (and8_sym y + word4 i j 0 0) h = j AND i"
    "peek (or8_sym y + word4 i j 0 0) h = j OR i"
    "peek (xor8_sym y + word4 i j 0 0) h = j XOR i"
proof -
  have op: "ucast (ucast j AND ucast i :: u32) = j AND i" "ucast (ucast j OR ucast i :: u32) = j OR i"
    "ucast (ucast j XOR ucast i :: u32) = j XOR i"
    by (rule bit_word_eqI, auto simp: bit_simps)+
  have l: "table_at (logic_shift_sym y) lut_bin h" using assms by (simp add: minirv_env_def)
  show "peek (and8_sym y + word4 i j 0 0) h = j AND i"
    "peek (or8_sym y + word4 i j 0 0) h = j OR i"
    "peek (xor8_sym y + word4 i j 0 0) h = j XOR i"
    using lut_byte [OF lut_parts(1) [OF l]] lut_byte [OF lut_parts(2) [OF l]] lut_byte [OF lut_parts(3) [OF l]]
    by (simp_all add: wbyte_def op)
qed


lemma env_not: "minirv_env y h \<Longrightarrow> peek (ucast b + (xor8_sym y + 0xFF00)) h = NOT b"
proof -
  assume "minirv_env y h"
  from env_lut(3) [OF this, of b 255] have "peek (xor8_sym y + (ucast b + 0xFF00)) h = 255 XOR b"
    by (simp add: word4_sum)
  moreover have "(255 :: u8) = - 1" by simp
  then have "(255 :: u8) XOR b = NOT b" by (simp only: bit.xor_one_left)
  ultimately show ?thesis by (simp add: algebra_simps)
qed

lemma word4_NOT [simp]: "word4 (NOT (wbyte 0 v)) (NOT (wbyte (Suc 0) v)) (NOT (wbyte 2 v)) (NOT (wbyte 3 v)) = NOT v"
  by (rule bit_word_eqI) (auto simp: bit_word4 bit_wbyte bit_simps)

lemma set_rg_restore [hart_simps]: "rg r h = v \<Longrightarrow> set_rg r v h = h"
  by (auto simp: set_rg_def rg_def split: if_splits)

lemma put8_word:
  "put8 (s - 28) (wbyte 0 v) (put8 (s - 27) (wbyte (Suc 0) v) (put8 (s - 26) (wbyte 2 v)
     (put8 (s - 25) (wbyte 3 v) h))) = put32 (s - 28) v h"
  by (simp add: put32_def put8_def fun_upd_twist)

lemma wbyte_NOT: "i < 4 \<Longrightarrow> wbyte i (NOT v) = NOT (wbyte i v)"
  by (rule bit_word_eqI) (auto simp: bit_wbyte bit_simps)

lemma m_not_run [exec_simps]:
  assumes "minirv_env y h" and "rd \<noteq> x_sp"
  shows "hart_run (m_not y rd rs) h =
    set_rg rd (NOT (rg rs h)) (set_rg x_tp (xor8_sym y + 0xFF00)
      (put32 (rg x_sp h - 28) (NOT (rg rs h)) (put32 (rg x_sp h - 24) (rg rs h) (put32 (rg x_sp h - 12) (rg x_gp h) h))))"
  unfolding put8_word [symmetric]
  using assms by (simp add: m_not_def PUSH_def POP_def m_not_byte_def hart_run_append exec_simps hart_simps env_not wbyte_NOT)

lemma add_NOT: "a + NOT b + 1 = a - (b :: u32)"
  by (simp add: not_eq_complement)

lemma m_sub_run [exec_simps]:
  assumes "minirv_env y h" and "rd \<noteq> x_sp" and "rs1 \<noteq> x_tp"
  shows "hart_run (m_sub y rd rs1 rs2) h =
    set_rg rd (rg rs1 h - rg rs2 h) (set_rg x_tp (NOT (rg rs2 h))
      (put32 (rg x_sp h - 28) (NOT (rg rs2 h)) (put32 (rg x_sp h - 24) (rg rs2 h) (put32 (rg x_sp h - 12) (rg x_gp h) h))))"
  using assms by (cases "rd = 0") (simp_all add: m_sub_def hart_run_append exec_simps hart_simps add_NOT)

section \<open>Comparison\<close>

lemma sint_uint32: "sint v = (if 2147483648 \<le> uint v then uint v - 4294967296 else uint (v :: u32))"
proof -
  have r: "0 \<le> uint v" "uint v < 4294967296" using uint_lt2p [of v] by simp_all
  have "sint v = signed_take_bit 31 (uint v)" by (simp add: sint_uint)
  also have "\<dots> = (uint v + 2147483648) mod 4294967296 - 2147483648"
    using signed_take_bit_eq_take_bit_shift [of 31 "uint v"] by (simp add: take_bit_eq_mod)
  also have "\<dots> = (if 2147483648 \<le> uint v then uint v - 4294967296 else uint v)"
  proof (cases "2147483648 \<le> uint v")
    case True
    have "(uint v + 2147483648) mod 4294967296 = ((uint v - 2147483648) + 4294967296) mod 4294967296" by (simp add: add.commute)
    also have "\<dots> = uint v - 2147483648" unfolding mod_add_self2 using r True by (intro mod_pos_pos_trivial) simp_all
    finally show ?thesis using True by simp
  next
    case False
    then show ?thesis using r by (simp add: mod_pos_pos_trivial)
  qed
  finally show ?thesis .
qed

lemma sign31_cases: "sign31 v = 1 \<and> 2147483648 \<le> uint v \<or> sign31 v = 0 \<and> uint v < 2147483648"
proof -
  have "bit v 31 \<longleftrightarrow> sint v < 0" using bit_last_iff [of v] by simp
  also have "\<dots> \<longleftrightarrow> 2147483648 \<le> uint v" using uint_lt2p [of v] by (simp add: sint_uint32)
  finally show ?thesis by (auto simp: sign31_def)
qed

lemma slt_by_signs_int:
  fixes A B :: int
  defines "D \<equiv> (if B \<le> A then A - B else A - B + 4294967296)"
    and "sg \<equiv> \<lambda>x. 2147483648 \<le> (x :: int)"
    and "si \<equiv> \<lambda>x. (if 2147483648 \<le> (x :: int) then x - 4294967296 else x)"
  assumes "0 \<le> A" "A < 4294967296" "0 \<le> B" "B < 4294967296"
  shows "si A < si B \<longleftrightarrow> (if sg A = sg B then sg D else sg A)"
    "A < B \<longleftrightarrow> (if sg A = sg B then sg D else sg B)"
  using assms(4-7) unfolding D_def sg_def si_def by auto

lemma slt_by_signs:
  "sint a < sint b \<longleftrightarrow> (if sign31 a = sign31 b then sign31 (a - b) = 1 else sign31 a = 1)"
  "uint a < uint b \<longleftrightarrow> (if sign31 a = sign31 b then sign31 (a - b) = 1 else sign31 b = 1)"
proof -
  have d: "uint (a - b) = (if uint b \<le> uint a then uint a - uint b else uint a - uint b + 4294967296)"
    using uint_sub_if' [of a b] by simp
  have r: "0 \<le> uint a" "uint a < 4294967296" "0 \<le> uint b" "uint b < 4294967296"
    using uint_lt2p [of a] uint_lt2p [of b] by simp_all
  have sg: "sign31 v = of_bool (2147483648 \<le> uint v)" for v
    using sign31_cases [of v] by auto
  have eq: "(of_bool P = (of_bool Q :: u32)) = (P = Q)" "(of_bool P = (1 :: u32)) = P" for P Q by simp_all
  show "sint a < sint b \<longleftrightarrow> (if sign31 a = sign31 b then sign31 (a - b) = 1 else sign31 a = 1)"
    "uint a < uint b \<longleftrightarrow> (if sign31 a = sign31 b then sign31 (a - b) = 1 else sign31 b = 1)"
    unfolding sint_uint32 sg eq d by (rule slt_by_signs_int [OF r])+
qed

lemma env_slt:
  assumes "minirv_env y h"
  shows "peek (slt1_sym y + (4 * sign31 a + sign31 b * 2 + sign31 (a - b))) h = of_bool (sint a < sint b)"
    "peek (sltu1_sym y + (4 * sign31 a + sign31 b * 2 + sign31 (a - b))) h = of_bool (uint a < uint b)"
proof -
  have t: "table_at (slt1_sym y) slt1_table h" "table_at (sltu1_sym y) sltu1_table h"
    using assms by (simp_all add: minirv_env_def)
  have s: "sign31 x = 0 \<or> sign31 x = 1" for x by (simp add: sign31_def)
  note e = table_atD [OF t(1), unfolded slt1_table_def] table_atD [OF t(2), unfolded sltu1_table_def]
  show "peek (slt1_sym y + (4 * sign31 a + sign31 b * 2 + sign31 (a - b))) h = of_bool (sint a < sint b)"
    using s [of a] s [of b] s [of "a - b"] e(1) [of 0] e(1) [of 1] e(1) [of 2] e(1) [of 3] e(1) [of 4] e(1) [of 5] e(1) [of 6] e(1) [of 7]
    by (elim disjE) (simp_all add: slt_by_signs)
  show "peek (sltu1_sym y + (4 * sign31 a + sign31 b * 2 + sign31 (a - b))) h = of_bool (uint a < uint b)"
    using s [of a] s [of b] s [of "a - b"] e(2) [of 0] e(2) [of 1] e(2) [of 2] e(2) [of 3] e(2) [of 4] e(2) [of 5] e(2) [of 6] e(2) [of 7]
    by (elim disjE) (simp_all add: slt_by_signs)
qed

section \<open>The result of a macro\<close>

text \<open>
  The registers \<open>gp\<close>, \<open>tp\<close> and the scratch words are free for the macros: \<open>noise h h'\<close> says that
  \<open>h\<close> and \<open>h'\<close> differ only there, \<open>same_but rd v h h'\<close> that besides \<open>rd\<close> holds \<open>v\<close>.
\<close>

definition noise :: "hart \<Rightarrow> hart \<Rightarrow> bool" where
  "noise h h' \<longleftrightarrow>
     (\<forall>r. r \<noteq> x_gp \<and> r \<noteq> x_tp \<longrightarrow> rg r h' = rg r h)
     \<and> (\<forall>a. \<not> scratch (rg x_sp h) a \<longrightarrow> peek a h' = peek a h)"

definition same_but :: "rid \<Rightarrow> u32 \<Rightarrow> hart \<Rightarrow> hart \<Rightarrow> bool" where
  "same_but rd v h h' \<longleftrightarrow> rg rd h' = rg rd (set_rg rd v h) \<and> noise (set_rg rd v h) h'"

abbreviation user_reg :: "rid \<Rightarrow> bool" where
  "user_reg r \<equiv> r \<noteq> x_gp \<and> r \<noteq> x_tp"

lemma noise_simps [hart_simps]:
  "noise h h"
  "noise h (set_rg x_gp v h') \<longleftrightarrow> noise h h'" "noise h (set_rg x_tp v h') \<longleftrightarrow> noise h h'"
  "numeral k \<le> (28 :: nat) \<Longrightarrow> noise h (put8 (rg x_sp h - numeral k) w h') \<longleftrightarrow> noise h h'"
  "noise h (put8 (rg x_sp h - 1) w h') \<longleftrightarrow> noise h h'"
  "(4 :: nat) \<le> numeral k \<Longrightarrow> numeral k \<le> (28 :: nat) \<Longrightarrow> noise h (put32 (rg x_sp h - numeral k) v h') \<longleftrightarrow> noise h h'"
  by (auto simp: noise_def hart_simps)

lemma noise_trans: "noise h h' \<Longrightarrow> noise h' h'' \<Longrightarrow> noise h h''"
  by (simp add: noise_def)

lemma same_butI [hart_simps]: "noise h h' \<Longrightarrow> rd \<noteq> x_sp \<Longrightarrow> same_but rd v h (set_rg rd v h')"
  by (auto simp: same_but_def noise_def hart_simps)

lemma ucast_of_bool_truth [simp]: "ucast (of_bool P :: u8) = truth P"
  by (simp add: truth_def)

lemma m_slt_run:
  assumes "minirv_env y h" and "user_reg rs1" and "rs2 \<noteq> x_gp" and "rd \<noteq> x_sp"
  shows "same_but rd (truth (sint (rg rs1 h) < sint (rg rs2 h))) h (hart_run (m_slt y rd rs1 rs2) h)"
    "same_but rd (truth (uint (rg rs1 h) < uint (rg rs2 h))) h (hart_run (m_sltu y rd rs1 rs2) h)"
  using assms
  by (simp_all add: m_slt_def m_sltu_def m_slt_template_def PUSH_def POP_def hart_run_append exec_simps hart_simps env_slt)

section \<open>Logic\<close>

lemma m_logic_run:
  assumes lut: "\<And>H i j. minirv_env y H \<Longrightarrow> peek (lut + word4 i j 0 0) H = f j i"
    and env: "minirv_env y h" and c: "m_logic lut rd rs1 rs2 = Some c"
  shows "same_but rd (word4 (f (wbyte 0 (rg rs1 h)) (wbyte 0 (rg rs2 h))) (f (wbyte 1 (rg rs1 h)) (wbyte 1 (rg rs2 h)))
     (f (wbyte 2 (rg rs1 h)) (wbyte 2 (rg rs2 h))) (f (wbyte 3 (rg rs1 h)) (wbyte 3 (rg rs2 h)))) h (hart_run c h)"
proof (cases "rd = x_zero")
  case True
  then show ?thesis using c by (simp add: m_logic_def same_but_def hart_simps)
next
  case False
  then have "rd \<noteq> x_sp" "rd \<noteq> x_tp"
    and c': "c = [i_sw rs1 x_sp (sp_var 4), i_sw rs2 x_sp (sp_var 5)] @ m_la rd lut
        @ [i_sw x_zero x_sp (sp_var 7)]
        @ m_logic8_byte_internal rd 3 @ m_logic8_byte_internal rd 2
        @ m_logic8_byte_internal rd 1 @ m_logic8_byte_internal rd 0
        @ [i_lw rd x_sp (sp_var 6)]"
    using c by (auto simp: m_logic_def split: if_splits)
  then show ?thesis
    using env False unfolding c'
    by (simp add: m_logic8_byte_internal_def hart_run_append exec_simps hart_simps lut)
qed

lemma word4_bitwise:
  "word4 (wbyte 0 a AND wbyte 0 b) (wbyte (Suc 0) a AND wbyte (Suc 0) b) (wbyte 2 a AND wbyte 2 b) (wbyte 3 a AND wbyte 3 b) = a AND b"
  "word4 (wbyte 0 a OR wbyte 0 b) (wbyte (Suc 0) a OR wbyte (Suc 0) b) (wbyte 2 a OR wbyte 2 b) (wbyte 3 a OR wbyte 3 b) = a OR b"
  "word4 (wbyte 0 a XOR wbyte 0 b) (wbyte (Suc 0) a XOR wbyte (Suc 0) b) (wbyte 2 a XOR wbyte 2 b) (wbyte 3 a XOR wbyte 3 b) = a XOR b"
  by (rule bit_word_eqI; auto simp: bit_word4 bit_wbyte bit_simps)+

lemma m_bitwise_run:
  assumes "minirv_env y h"
  shows "m_and y rd rs1 rs2 = Some c \<Longrightarrow> same_but rd (rg rs1 h AND rg rs2 h) h (hart_run c h)"
    "m_or y rd rs1 rs2 = Some c \<Longrightarrow> same_but rd (rg rs1 h OR rg rs2 h) h (hart_run c h)"
    "m_xor y rd rs1 rs2 = Some c \<Longrightarrow> same_but rd (rg rs1 h XOR rg rs2 h) h (hart_run c h)"
  using m_logic_run [OF env_lut(1) assms] m_logic_run [OF env_lut(2) assms] m_logic_run [OF env_lut(3) assms]
  by (simp_all add: m_and_def m_or_def m_xor_def word4_bitwise)

section \<open>Comparison with zero and equality\<close>

lemma unat_u8: "unat (b :: u8) < 256"
proof -
  have "unat b < 2 ^ LENGTH(8)" by (rule unsigned_less)
  then show ?thesis by simp
qed

lemma env_zero:
  assumes "minirv_env y h"
  shows "peek (check_8bit_0_sym y + ucast (b :: u8)) h = of_bool (b \<noteq> 0)"
proof -
  have t: "table_at (check_8bit_0_sym y) check_8bit_0_table h" using assms by (simp add: minirv_env_def)
  have "unat b < 256" by (rule unat_u8)
  then have "peek (check_8bit_0_sym y + of_nat (unat b)) h = of_bool (b \<noteq> 0)"
    using table_atD [OF t, of "unat b"] by (cases "unat b") (auto simp: check_8bit_0_table_def unat_eq_0)
  then show ?thesis by simp
qed

lemma env_same_result:
  assumes "minirv_env y h"
  shows "peek (same_result_sym y + (truth p0 + truth p1 + truth p2 + truth p3)) h = of_bool (\<not> (p0 \<or> p1 \<or> p2 \<or> p3))"
proof -
  have t: "table_at (same_result_sym y) same_result_table h" using assms by (simp add: minirv_env_def)
  note e = table_atD [OF t, unfolded same_result_table_def]
  show ?thesis
    using e [of 0] e [of 1] e [of 2] e [of 3] e [of 4]
    by (cases p0; cases p1; cases p2; cases p3; simp add: truth_def)
qed

lemma zero_bytes: "v = 0 \<longleftrightarrow> wbyte 0 v = 0 \<and> wbyte (Suc 0) v = 0 \<and> wbyte 2 v = 0 \<and> wbyte 3 v = 0"
  using word4_wbyte(2) [of v] by (auto simp: word4_def) 

lemma m_seqz_run:
  assumes "minirv_env y h" and "rd \<noteq> x_sp" and "rd \<noteq> x_s0"
  shows "same_but rd (truth (rg rs1 h = 0)) h (hart_run (m_seqz y rd rs1) h)"
proof -
  have z: "(wbyte 2 v = 0 \<and> wbyte (Suc 0) v = 0 \<and> wbyte 0 v = 0 \<and> wbyte 3 v = 0) = (v = 0)" for v
    using zero_bytes [of v] by blast
  show ?thesis
    using assms
    by (simp add: m_seqz_def m_check_8bit_0_def PUSH_def POP_def hart_run_append exec_simps hart_simps
        env_zero env_same_result z)
qed

text \<open>
  With \<open>s0\<close> as the result register the macro restores the old value of \<open>s0\<close> over the result.
\<close>

lemma m_seqz_s0:
  assumes "minirv_env y h"
  shows "noise h (hart_run (m_seqz y x_s0 rs1) h)"
  using assms
  by (simp add: m_seqz_def m_check_8bit_0_def PUSH_def POP_def hart_run_append exec_simps hart_simps
      env_zero env_same_result)

section \<open>Shifts\<close>

text \<open>\<open>row t j\<close>: the address of row \<open>j\<close> of a shift table.\<close>

definition row :: "u32 \<Rightarrow> nat \<Rightarrow> u32" where
  "row t j = t + of_nat (j * 1024)"

lemma lut_word:
  assumes "table_at t (gen_table 32 256 4 f) h" and "j < 32"
  shows "word4 (peek (row t j + ucast x * 4) h) (peek (row t j + ucast x * 4 + 1) h)
      (peek (row t j + ucast x * 4 + 2) h) (peek (row t j + ucast x * 4 + 3) h) = f j (unat (x :: u8))"
proof -
  have x: "unat x < 256" by (rule unat_u8)
  have e: "peek (row t j + ucast x * 4 + of_nat k) h = wbyte k (f j (unat x))" if k: "k < 4" for k
  proof -
    have "(j * 256 + unat x) * 4 + k < length (gen_table 32 256 4 f)"
      using assms(2) x k by simp
    from table_atD [OF assms(1) this] gen_table_nth [OF assms(2) x k, of f]
    show ?thesis by (simp add: row_def algebra_simps)
  qed
  show ?thesis using e [of 0] e [of 1] e [of 2] e [of 3] by simp
qed

lemma env_shift:
  assumes "minirv_env y h" and "j < 32"
  shows "word4 (peek (row (sll8_sym y) j + ucast x * 4) h) (peek (row (sll8_sym y) j + ucast x * 4 + 1) h)
      (peek (row (sll8_sym y) j + ucast x * 4 + 2) h) (peek (row (sll8_sym y) j + ucast x * 4 + 3) h) = sll8 j (unat (x :: u8))"
    "word4 (peek (row (srl8_sym y) j + ucast x * 4) h) (peek (row (srl8_sym y) j + ucast x * 4 + 1) h)
      (peek (row (srl8_sym y) j + ucast x * 4 + 2) h) (peek (row (srl8_sym y) j + ucast x * 4 + 3) h) = srl8 j (unat (x :: u8))"
    "word4 (peek (row (sra8_sym y) j + ucast x * 4) h) (peek (row (sra8_sym y) j + ucast x * 4 + 1) h)
      (peek (row (sra8_sym y) j + ucast x * 4 + 2) h) (peek (row (sra8_sym y) j + ucast x * 4 + 3) h) = sra8 j (unat (x :: u8))"
proof -
  have l: "table_at (logic_shift_sym y) lut_bin h" using assms by (simp add: minirv_env_def)
  note p = lut_parts [OF l]
  show "word4 (peek (row (sll8_sym y) j + ucast x * 4) h) (peek (row (sll8_sym y) j + ucast x * 4 + 1) h)
      (peek (row (sll8_sym y) j + ucast x * 4 + 2) h) (peek (row (sll8_sym y) j + ucast x * 4 + 3) h) = sll8 j (unat (x :: u8))"
    by (rule lut_word [OF p(4) assms(2)])
  show "word4 (peek (row (srl8_sym y) j + ucast x * 4) h) (peek (row (srl8_sym y) j + ucast x * 4 + 1) h)
      (peek (row (srl8_sym y) j + ucast x * 4 + 2) h) (peek (row (srl8_sym y) j + ucast x * 4 + 3) h) = srl8 j (unat (x :: u8))"
    by (rule lut_word [OF p(5) assms(2)])
  show "word4 (peek (row (sra8_sym y) j + ucast x * 4) h) (peek (row (sra8_sym y) j + ucast x * 4 + 1) h)
      (peek (row (sra8_sym y) j + ucast x * 4 + 2) h) (peek (row (sra8_sym y) j + ucast x * 4 + 3) h) = sra8 j (unat (x :: u8))"
    by (rule lut_word [OF p(6) assms(2)])
qed

lemma env_shamt: "minirv_env y h \<Longrightarrow> peek (ucast b + (and8_sym y + 0x1F00)) h = b AND 31"
proof -
  assume "minirv_env y h"
  from env_lut(1) [OF this, of b 31] have "peek (and8_sym y + (ucast b + 0x1F00)) h = 31 AND b"
    by (simp add: word4_sum)
  then show ?thesis unfolding and.commute [of b] add.left_commute [of "ucast b"] .
qed

end
