(* ===== verification/MinirvShift.thy ===== *)
theory MinirvShift
  imports MinirvExec
begin

text \<open>
  The shift macros and the loads that use them: a word is shifted byte by byte with table
  entries, and the entries are put together without carries.
\<close>

lemma row_index: "push_bit 2 (word4 0 j 0 0) + t = row t (unat j)"
proof -
  have "push_bit 2 (word4 0 j 0 0) = word4 0 j 0 0 * 4" by (simp only: push_bit_eq_mult) simp
  then show ?thesis by (simp add: row_def word4_sum algebra_simps)
qed

lemma row_imm: "t + push_bit 10 (of_nat j) = row t j"
  by (simp add: row_def push_bit_eq_mult algebra_simps)

lemma env_row:
  assumes "minirv_env y h" and "j < 32"
  shows "word4 (peek (row (sll8_sym y) j + push_bit 2 (ucast x)) h) (peek (row (sll8_sym y) j + push_bit 2 (ucast x) + 1) h)
      (peek (row (sll8_sym y) j + push_bit 2 (ucast x) + 2) h) (peek (row (sll8_sym y) j + push_bit 2 (ucast x) + 3) h) = sll8 j (unat (x :: u8))"
    "word4 (peek (row (srl8_sym y) j + push_bit 2 (ucast x)) h) (peek (row (srl8_sym y) j + push_bit 2 (ucast x) + 1) h)
      (peek (row (srl8_sym y) j + push_bit 2 (ucast x) + 2) h) (peek (row (srl8_sym y) j + push_bit 2 (ucast x) + 3) h) = srl8 j (unat (x :: u8))"
    "word4 (peek (row (sra8_sym y) j + push_bit 2 (ucast x)) h) (peek (row (sra8_sym y) j + push_bit 2 (ucast x) + 1) h)
      (peek (row (sra8_sym y) j + push_bit 2 (ucast x) + 2) h) (peek (row (sra8_sym y) j + push_bit 2 (ucast x) + 3) h) = sra8 j (unat (x :: u8))"
proof -
  have "ucast x * 4 = (push_bit 2 (ucast x) :: u32)" by (simp only: push_bit_eq_mult) simp
  note e = env_shift [OF assms, of x, unfolded this]
  show "word4 (peek (row (sll8_sym y) j + push_bit 2 (ucast x)) h) (peek (row (sll8_sym y) j + push_bit 2 (ucast x) + 1) h)
      (peek (row (sll8_sym y) j + push_bit 2 (ucast x) + 2) h) (peek (row (sll8_sym y) j + push_bit 2 (ucast x) + 3) h) = sll8 j (unat (x :: u8))"
    by (rule e)
  show "word4 (peek (row (srl8_sym y) j + push_bit 2 (ucast x)) h) (peek (row (srl8_sym y) j + push_bit 2 (ucast x) + 1) h)
      (peek (row (srl8_sym y) j + push_bit 2 (ucast x) + 2) h) (peek (row (srl8_sym y) j + push_bit 2 (ucast x) + 3) h) = srl8 j (unat (x :: u8))"
    by (rule e)
  show "word4 (peek (row (sra8_sym y) j + push_bit 2 (ucast x)) h) (peek (row (sra8_sym y) j + push_bit 2 (ucast x) + 1) h)
      (peek (row (sra8_sym y) j + push_bit 2 (ucast x) + 2) h) (peek (row (sra8_sym y) j + push_bit 2 (ucast x) + 3) h) = sra8 j (unat (x :: u8))"
    by (rule e)
qed

lemma shamt_less: "unat (b AND 31 :: u8) < 32"
proof -
  have "b AND 31 \<le> 31" by (rule word_and_le1)
  then show ?thesis by (simp add: word_le_nat_alt)
qed

lemma sh_sp: "1 + sp_var_byte 4 2 = sp_var_byte 4 3" "1 + sp_var_byte 5 2 = sp_var_byte 5 3"
  by (simp_all add: sp_var_byte_def)

section \<open>Left shift\<close>

lemma unat_shamt: "unat (wbyte 0 v AND 31) = unat v mod 32"
proof -
  have "(31 :: u8) = mask 5" by (simp add: mask_eq_exp_minus_1)
  then have "unat (wbyte 0 v AND 31) = take_bit 5 (unat (wbyte 0 v))"
    by (simp only: unsigned_take_bit_eq flip: take_bit_eq_mask)
  also have "\<dots> = take_bit 5 (unat v)" by (simp add: wbyte_def unsigned_ucast_eq)
  finally show ?thesis by (simp add: take_bit_eq_mod)
qed

lemma word4_split: "word4 a b c d = ucast a + push_bit 8 (ucast b) + push_bit 16 (ucast c) + push_bit 24 (ucast d)"
proof -
  have 1: "ucast a + push_bit 8 (ucast b) = (ucast a OR push_bit 8 (ucast b) :: u32)"
    by (rule disjunctive_add) (auto simp: bit_simps dest: bit_imp_le_length)
  have 2: "(ucast a OR push_bit 8 (ucast b)) + push_bit 16 (ucast c)
      = ((ucast a OR push_bit 8 (ucast b)) OR push_bit 16 (ucast c) :: u32)"
    by (rule disjunctive_add) (auto simp: bit_simps dest: bit_imp_le_length)
  have 3: "((ucast a OR push_bit 8 (ucast b)) OR push_bit 16 (ucast c)) + push_bit 24 (ucast d)
      = (((ucast a OR push_bit 8 (ucast b)) OR push_bit 16 (ucast c)) OR push_bit 24 (ucast d) :: u32)"
    by (rule disjunctive_add) (auto simp: bit_simps dest: bit_imp_le_length)
  show ?thesis unfolding 1 2 3
    by (rule bit_word_eqI) (auto simp: bit_word4 bit_simps dest: bit_imp_le_length)
qed

lemma sll_assemble:
  "word4 0 0 0 (wbyte 0 (sll8 n (unat (wbyte 3 v)))) + word4 0 0 (wbyte 0 (sll8 n (unat (wbyte 2 v)))) (wbyte (Suc 0) (sll8 n (unat (wbyte 2 v))))
     + push_bit 8 (sll8 n (unat (wbyte (Suc 0) v))) + sll8 n (unat (wbyte 0 v)) = push_bit n v"
proof -
  have hi: "word4 0 0 0 (wbyte 0 w) = push_bit 24 w" "word4 0 0 (wbyte 0 w) (wbyte (Suc 0) w) = push_bit 16 w" for w
    by (rule bit_word_eqI; auto simp: bit_word4 bit_wbyte bit_simps)+
  have "v = ucast (wbyte 0 v) + push_bit 8 (ucast (wbyte (Suc 0) v)) + push_bit 16 (ucast (wbyte 2 v)) + push_bit 24 (ucast (wbyte 3 v))"
    using word4_split [of "wbyte 0 v" "wbyte (Suc 0) v" "wbyte 2 v" "wbyte 3 v"] by simp
  then have "push_bit n v = push_bit n (ucast (wbyte 0 v) + push_bit 8 (ucast (wbyte (Suc 0) v)) + push_bit 16 (ucast (wbyte 2 v)) + push_bit 24 (ucast (wbyte 3 v)))"
    by simp
  then show ?thesis
    unfolding hi sll8_def by (simp add: push_bit_add push_bit_push_bit add.commute add.left_commute)
qed

lemma m_sll_run:
  assumes "minirv_env y h" and "rd \<noteq> x_sp"
  shows "same_but rd (push_bit (unat (rg rs2 h) mod 32) (rg rs1 h)) h (hart_run (m_sll y rd rs1 rs2) h)"
  using assms
  by (simp add: m_sll_def m_getshamt_def m_get_shift_byte_in_tp_def m_sh_def m_getbyte_run sh_sp PUSH_def POP_def
      hart_run_append exec_simps hart_simps row_index env_shamt env_row shamt_less sll_assemble unat_shamt)

section \<open>Right shift\<close>

lemma bit_srl8: "bit (srl8 n (unat (x :: u8))) k \<longleftrightarrow> k < 32 \<and> n + k < 32 \<and> 24 \<le> n + k \<and> bit x (n + k - 24)"
  by (auto simp: srl8_def bit_simps dest: bit_imp_le_length)

lemma bit_sra8:
  "bit (sra8 n (unat (x :: u8))) k \<longleftrightarrow> k < 32 \<and> 24 \<le> n + k \<and> bit x (if n + k < 32 then n + k - 24 else 7)"
  by (auto simp: sra8_def bit_simps bit_signed_drop_bit_iff dest: bit_imp_le_length)

text \<open>The bytes of the entries do not overlap: the sums have no carries.\<close>

definition low_bytes :: "nat \<Rightarrow> u32 \<Rightarrow> u32" where
  "low_bytes n v =
     word4
      (wbyte 0 (ucast (wbyte (Suc 0) (srl8 n (unat (wbyte 2 v)))) + ucast (wbyte 2 (srl8 n (unat (wbyte (Suc 0) v))))
         + ucast (wbyte 3 (srl8 n (unat (wbyte 0 v))))))
      (wbyte 0 (ucast (wbyte 2 (srl8 n (unat (wbyte 2 v)))) + ucast (wbyte 3 (srl8 n (unat (wbyte (Suc 0) v))))))
      (wbyte 3 (srl8 n (unat (wbyte 2 v))))
      (wbyte 3 (ucast (wbyte (Suc 0) (srl8 n (unat (wbyte 2 v)))) + ucast (wbyte 2 (srl8 n (unat (wbyte (Suc 0) v))))
         + ucast (wbyte 3 (srl8 n (unat (wbyte 0 v))))))"

lemma bit_low_bytes: "bit (low_bytes n v) k \<longleftrightarrow> n + k < 24 \<and> bit v (n + k)"
proof -
  let ?y2 = "srl8 n (unat (wbyte 2 v))" and ?y1 = "srl8 n (unat (wbyte (Suc 0) v))" and ?y0 = "srl8 n (unat (wbyte 0 v))"
  have s1: "ucast (wbyte (Suc 0) ?y2) + ucast (wbyte 2 ?y1) = (ucast (wbyte (Suc 0) ?y2) OR ucast (wbyte 2 ?y1) :: u32)"
    by (rule disjunctive_add) (auto simp: bit_simps bit_wbyte bit_srl8)
  have s2: "(ucast (wbyte (Suc 0) ?y2) OR ucast (wbyte 2 ?y1)) + ucast (wbyte 3 ?y0)
      = ((ucast (wbyte (Suc 0) ?y2) OR ucast (wbyte 2 ?y1)) OR ucast (wbyte 3 ?y0) :: u32)"
    by (rule disjunctive_add) (auto simp: bit_simps bit_wbyte bit_srl8)
  have s3: "ucast (wbyte 2 ?y2) + ucast (wbyte 3 ?y1) = (ucast (wbyte 2 ?y2) OR ucast (wbyte 3 ?y1) :: u32)"
    by (rule disjunctive_add) (auto simp: bit_simps bit_wbyte bit_srl8)
  consider "n + k < 8" | "8 \<le> n + k" "n + k < 16" | "16 \<le> n + k" "n + k < 24" | "24 \<le> n + k" by linarith
  then show ?thesis
    unfolding low_bytes_def s1 s2 s3
    by cases (auto simp: bit_word4 bit_wbyte bit_simps bit_srl8 dest: bit_imp_le_length)
qed

lemma srl_assemble:
  assumes "n < 32"
  shows "low_bytes n v + srl8 n (unat (wbyte 3 v)) = drop_bit n v"
    "low_bytes n v + sra8 n (unat (wbyte 3 v)) = signed_drop_bit n v"
proof -
  have "low_bytes n v + srl8 n (unat (wbyte 3 v)) = (low_bytes n v OR srl8 n (unat (wbyte 3 v)))"
    by (rule disjunctive_add) (auto simp: bit_low_bytes bit_srl8)
  also have "\<dots> = drop_bit n v"
    by (rule bit_word_eqI) (auto simp: bit_low_bytes bit_srl8 bit_simps bit_wbyte not_less dest: bit_imp_le_length)
  finally show "low_bytes n v + srl8 n (unat (wbyte 3 v)) = drop_bit n v" .
  have "low_bytes n v + sra8 n (unat (wbyte 3 v)) = (low_bytes n v OR sra8 n (unat (wbyte 3 v)))"
    by (rule disjunctive_add) (auto simp: bit_low_bytes bit_sra8)
  also have "\<dots> = signed_drop_bit n v"
    by (rule bit_word_eqI) (use assms in \<open>auto simp: bit_or_iff bit_low_bytes bit_sra8 bit_signed_drop_bit_iff bit_wbyte not_less dest: bit_imp_le_length\<close>)
  finally show "low_bytes n v + sra8 n (unat (wbyte 3 v)) = signed_drop_bit n v" .
qed

lemma row_sra: "row (srl8_sym y) k + (sra8_sym y - srl8_sym y) = row (sra8_sym y) k"
  by (simp add: row_def)

definition shift_right :: "bool \<Rightarrow> nat \<Rightarrow> u32 \<Rightarrow> u32" where
  "shift_right is_arith n v = (if is_arith then signed_drop_bit n v else drop_bit n v)"

lemma m_shift_imm_run:
  assumes "minirv_env y h" and "rd \<noteq> x_sp" and "k < 32" and "k \<noteq> 24"
  shows "same_but rd (shift_right ar k (rg rs1 h)) h (hart_run (m_shift_right_template y rd rs1 (Imm k) ar) h)"
  using assms
  by (cases ar) (simp_all add: m_shift_right_template_def m_shift_index_def m_get_shift_byte_in_tp_def PUSH_def POP_def
     hart_run_append exec_simps hart_simps row_imm env_row row_sra srl_assemble shift_right_def flip: low_bytes_def)

lemma m_shift_reg_run:
  assumes "minirv_env y h" and "rd \<noteq> x_sp"
  shows "same_but rd (shift_right ar (unat (rg rs2 h) mod 32) (rg rs1 h)) h (hart_run (m_shift_right_template y rd rs1 (Reg rs2) ar) h)"
  using assms
  by (cases ar) (simp_all add: m_shift_right_template_def m_shift_index_def m_getshamt_def m_get_shift_byte_in_tp_def PUSH_def POP_def
     hart_run_append exec_simps hart_simps row_index env_shamt env_row row_sra shamt_less srl_assemble unat_shamt shift_right_def flip: low_bytes_def)

lemma shift_24:
  "sra8 24 (unat (wbyte 3 v)) = signed_drop_bit 24 v" "ucast (wbyte 3 v) = drop_bit 24 v"
  by (rule bit_word_eqI; auto simp: bit_sra8 bit_signed_drop_bit_iff bit_wbyte bit_simps not_less dest: bit_imp_le_length)+

lemma row_24: "sra8_sym y + 24576 = row (sra8_sym y) 24"
  by (simp add: row_def)

lemma same_but_zero: "same_but x_zero v h h' \<longleftrightarrow> noise h h'"
  by (simp add: same_but_def)

lemma m_shift_24_run:
  assumes "minirv_env y h" and "rd \<noteq> x_sp" and "rd \<noteq> x_tp"
  shows "same_but rd (shift_right ar 24 (rg rs1 h)) h (hart_run (m_shift_right_template y rd rs1 (Imm 24) ar) h)"
proof (cases ar)
  case True
  then show ?thesis
    using assms by (cases "rd = x_zero") (simp_all add: m_shift_right_template_def hart_run_append exec_simps hart_simps
      row_24 env_row shift_24(1) shift_right_def same_but_zero)
next
  case False
  then show ?thesis
    using assms by (simp add: m_shift_right_template_def m_getbyte_run hart_simps shift_24(2) shift_right_def)
qed

lemma m_shift_right_imm_run:
  assumes "minirv_env y h" and "rd \<noteq> x_sp" and "rd \<noteq> x_tp" and "k < 32"
  shows "same_but rd (shift_right ar k (rg rs1 h)) h (hart_run (m_shift_right_template y rd rs1 (Imm k) ar) h)"
  using assms m_shift_imm_run [of y h rd k ar rs1] m_shift_24_run [of y h rd ar rs1]
  by (cases "k = 24") simp_all

section \<open>Left shift by a constant\<close>

lemma m_slli_run:
  assumes "minirv_env y h" and "rd \<noteq> x_sp" and "k < 32"
  shows "same_but rd (push_bit k (rg rs1 h)) h (hart_run (m_slli rd rs1 k) h)"
proof -
  consider "k < 16" | "16 \<le> k" "k < 24" | "24 \<le> k" by linarith
  then show ?thesis
  proof cases
    case 1
    then show ?thesis using assms(2) by (simp add: exec_simps hart_simps)
  next
    case 2
    then have c: "m_slli rd rs1 k = [i_sw x_zero x_sp (sp_var 4)] @ m_sh rs1 x_sp (sp_var_byte 4 2)
        @ [i_lw rd x_sp (sp_var 4)] @ m_slli rd rd (k - 16)"
      by (subst m_slli.simps) simp
    have "word4 0 0 (wbyte 0 v) (wbyte (Suc 0) v) = push_bit 16 v" for v
      by (rule bit_word_eqI) (auto simp: bit_word4 bit_wbyte bit_simps)
    then show ?thesis
      using assms(2) 2 unfolding c
      by (cases "rd = x_zero") (simp_all add: m_sh_def m_getbyte_run sh_sp hart_run_append exec_simps hart_simps push_bit_push_bit same_but_zero)
  next
    case 3
    then have c: "m_slli rd rs1 k = [i_sw x_zero x_sp (sp_var 4), i_sb rs1 x_sp (sp_var_byte 4 3), i_lw rd x_sp (sp_var 4)]
        @ m_slli rd rd (k - 24)"
      by (subst m_slli.simps) simp
    have "word4 0 0 0 (wbyte 0 v) = push_bit 24 v" for v
      by (rule bit_word_eqI) (auto simp: bit_word4 bit_wbyte bit_simps)
    then show ?thesis
      using assms(2,3) 3 unfolding c
      by (cases "rd = x_zero") (simp_all add: hart_run_append exec_simps hart_simps push_bit_push_bit same_but_zero)
  qed
qed

section \<open>Loads and stores\<close>

text \<open>
  The address operand of a load or store may use any register; the bytes it touches lie outside
  the scratch words.
\<close>

lemma scast_succ:
  assumes "off \<noteq> 2047"
  shows "a + scast (1 + off :: 12 word) = a + scast off + (1 :: u32)"
proof -
  have "off = 2047" if "sint off = 2047"
    using arg_cong [OF that, of "word_of_int :: int \<Rightarrow> 12 word"] by simp
  then have n: "sint off \<noteq> 2047" using assms by blast
  have lo: "- 2048 \<le> sint off" and hi: "sint off < 2048"
    using sint_greater_eq [of off] sint_less [of off] by simp_all
  have lo1: "- 2048 \<le> 1 + sint off" using lo by linarith
  have hi1: "1 + sint off < 2048" using hi n by linarith
  have "1 + off = word_of_int (1 + sint off)" by simp
  then have "scast (1 + off) = (word_of_int (1 + sint off) :: u32)"
    by (rule ssubst) (rule scast_word_of_int12 [OF lo1 hi1])
  also have "\<dots> = 1 + scast off" by (simp only: scast_eq of_int_add of_int_1)
  finally have e: "scast (1 + off) = (1 + scast off :: u32)" .
  show ?thesis unfolding e by (rule trans [OF add.left_commute add.commute])
qed

lemma same_but_free: "same_but x_gp v h h' \<Longrightarrow> noise h h' \<and> rg x_gp h' = v"
  by (simp add: same_but_def noise_def hart_simps)

lemma same_but_chain:
  "noise h h1 \<Longrightarrow> rd \<noteq> x_sp \<Longrightarrow> same_but rd v (set_rg rd w h1) h2 \<Longrightarrow> same_but rd v h h2"
  unfolding same_but_def noise_def by (auto simp: hart_simps)

lemma noise_peek: "noise h h' \<Longrightarrow> \<not> scratch (rg x_sp h) a \<Longrightarrow> peek a h' = peek a h"
  by (simp add: noise_def)

lemma noise_rg: "noise h h' \<Longrightarrow> user_reg r \<Longrightarrow> rg r h' = rg r h"
  by (simp add: noise_def)

lemma sign_extend:
  "ucast a + word4 0 b 0 0 = word4 a b 0 0"
  "ucast a + signed_drop_bit 16 (word4 0 0 0 b) = scast (ucast (word4 a b 0 0) :: u16)"
  "signed_drop_bit 24 (word4 0 0 0 b) = scast b"
proof -
  have "ucast a + word4 0 b 0 0 = (ucast a OR word4 0 b 0 0)"
    by (rule disjunctive_add) (auto simp: bit_word4 bit_simps dest: bit_imp_le_length)
  then show "ucast a + word4 0 b 0 0 = word4 a b 0 0"
    by (simp only:) (rule bit_word_eqI, auto simp: bit_word4 bit_simps dest: bit_imp_le_length)
  have "ucast a + signed_drop_bit 16 (word4 0 0 0 b) = (ucast a OR signed_drop_bit 16 (word4 0 0 0 b))"
    by (rule disjunctive_add) (auto simp: bit_word4 bit_simps bit_signed_drop_bit_iff dest: bit_imp_le_length)
  then show "ucast a + signed_drop_bit 16 (word4 0 0 0 b) = scast (ucast (word4 a b 0 0) :: u16)"
  proof (simp only:, intro bit_word_eqI)
    fix n assume "n < LENGTH(32)"
    then show "bit (ucast a OR signed_drop_bit 16 (word4 0 0 0 b) :: u32) n \<longleftrightarrow> bit (scast (ucast (word4 a b 0 0) :: u16) :: u32) n"
      by (cases "n = 15") (auto simp: bit_word4 bit_simps bit_signed_drop_bit_iff min_def not_less dest: bit_imp_le_length)
  qed
  show "signed_drop_bit 24 (word4 0 0 0 b) = scast b"
  proof (rule bit_word_eqI)
    fix n assume "n < LENGTH(32)"
    then show "bit (signed_drop_bit 24 (word4 0 0 0 b)) n \<longleftrightarrow> bit (scast b :: u32) n"
      by (cases "n = 7") (auto simp: bit_word4 bit_simps bit_signed_drop_bit_iff min_def not_less dest: bit_imp_le_length)
  qed
qed

text \<open>The two bytes at the address of a halfword, outside the scratch words.\<close>

definition halfword_at :: "rid \<Rightarrow> 12 word \<Rightarrow> hart \<Rightarrow> u8 \<Rightarrow> u8 \<Rightarrow> bool" where
  "halfword_at b off h lo hi \<longleftrightarrow>
     user_reg b \<and> off \<noteq> 2047
     \<and> \<not> scratch (rg x_sp h) (rg b h + scast off) \<and> \<not> scratch (rg x_sp h) (rg b h + scast off + 1)
     \<and> peek (rg b h + scast off) h = lo \<and> peek (rg b h + scast off + 1) h = hi"

lemma m_lhu_run:
  assumes "rd \<noteq> x_sp" and "user_reg rd" and "halfword_at b off h lo hi"
  shows "same_but rd (word4 lo hi 0 0) h (hart_run (m_lhu rd b off) h)"
  using assms unfolding halfword_at_def
  by (cases "rd = x_zero") (simp_all add: m_lhu_def hart_run_append exec_simps hart_simps same_but_zero scast_succ sign_extend)

lemma m_lh_run:
  assumes env: "minirv_env y h" and rd: "rd \<noteq> x_sp" "user_reg rd" and hw: "halfword_at b off h lo hi"
  shows "same_but rd (scast (ucast (word4 lo hi 0 0) :: u16)) h (hart_run (m_lh y rd b off) h)"
proof -
  let ?pre = "[i_sw x_zero x_sp (sp_var 4), i_lbu x_gp b (1 + off), i_sb x_gp x_sp (sp_var_byte 4 3), i_lw x_gp x_sp (sp_var 4)]"
  let ?h1 = "hart_run ?pre h" and ?post = "[i_lbu rd b (0 + off), i_add rd rd x_gp]"
  note hw' = hw [unfolded halfword_at_def]
  have pre: "minirv_env y ?h1" "noise h ?h1" "rg x_gp ?h1 = word4 0 0 0 hi"
    using env hw' by (simp_all add: exec_simps hart_simps scast_succ)
  let ?h2 = "hart_run (m_srai y x_gp x_gp 16) ?h1"
  have "same_but x_gp (signed_drop_bit 16 (word4 0 0 0 hi)) ?h1 ?h2"
    using m_shift_right_imm_run [OF pre(1), of x_gp 16 True x_gp] pre(3) by (simp add: m_srai_def shift_right_def)
  from same_but_free [OF this] have h2: "noise h ?h2" "rg x_gp ?h2 = signed_drop_bit 16 (word4 0 0 0 hi)"
    using noise_trans [OF pre(2)] by simp_all
  have "hart_run (m_lh y rd b off) h = hart_run ?post ?h2" by (simp add: m_lh_def hart_run_append)
  then show ?thesis
    using h2 rd hw' noise_peek [OF h2(1)] noise_rg [OF h2(1)]
    by (cases "rd = x_zero") (simp_all add: exec_simps hart_simps same_but_zero sign_extend)
qed

lemma m_lb_run:
  assumes env: "minirv_env y h" and rd: "rd \<noteq> x_sp" "user_reg rd" "user_reg b"
    and ea: "\<not> scratch (rg x_sp h) (rg b h + scast off)"
  shows "same_but rd (scast (peek (rg b h + scast off) h)) h (hart_run (m_lb y rd b off) h)"
proof -
  let ?x = "if rd = x_zero then 0 else peek (rg b h + scast off) h"
  let ?m = "put8 (rg x_sp h - 13) ?x (put32 (rg x_sp h - 16) 0 h)"
  have m: "minirv_env y ?m" "noise h ?m" "rg x_sp ?m = rg x_sp h"
    using env by (simp_all add: hart_simps)
  have run: "hart_run (m_lb y rd b off) h = hart_run (m_srai y rd rd 24) (set_rg rd (word4 0 0 0 ?x) ?m)"
    using rd ea by (cases "rd = x_zero") (simp_all add: m_lb_def hart_run_append exec_simps hart_simps)
  have "same_but rd (scast (peek (rg b h + scast off) h)) (set_rg rd (word4 0 0 0 ?x) ?m) (hart_run (m_lb y rd b off) h)"
    using m_shift_24_run [of y "set_rg rd (word4 0 0 0 ?x) ?m" rd True rd] m rd unfolding run
    by (cases "rd = x_zero") (simp_all add: m_srai_def shift_right_def hart_simps sign_extend same_but_zero)
  then show ?thesis by (rule same_but_chain [OF m(2) rd(1)])
qed

end
