(* ===== verification/MinirvBranch.thy ===== *)
theory MinirvBranch
  imports MinirvShift
begin

text \<open>
  The macros of branches: a condition is computed into \<open>tp\<close> as 0 or 1, which selects one of two
  addresses on the stack.
\<close>

section \<open>Equality\<close>

text \<open>The macro \<open>seq\<close> also writes to the array \<open>_check_same_array\<close>.\<close>

definition quiet :: "syms \<Rightarrow> hart \<Rightarrow> hart \<Rightarrow> bool" where
  "quiet y h h' \<longleftrightarrow>
     (\<forall>r. r \<noteq> x_gp \<and> r \<noteq> x_tp \<longrightarrow> rg r h' = rg r h)
     \<and> (\<forall>a. \<not> scratch (rg x_sp h) a \<and> \<not> region (check_same_sym y) 256 a \<longrightarrow> peek a h' = peek a h)"

lemma noise_quiet: "noise h h' \<Longrightarrow> quiet y h h'"
  by (simp add: noise_def quiet_def)

lemma unat_ucast_u8: "unat (ucast (b :: u8) :: u32) = unat b"
  using unat_u8 [of b] by (simp add: unsigned_ucast_eq take_bit_nat_eq_self)

lemma ucast_u8_eq [simp]: "(ucast (a :: u8) = (ucast b :: u32)) = (a = b)"
  using unat_ucast_u8 [of a] unat_ucast_u8 [of b] by (metis unsigned_word_eqI)

lemma region_byte [simp]: "region t 256 (t + ucast (b :: u8))"
  using unat_u8 [of b] by (simp add: region_def unat_ucast_u8)

lemma wbyte_one [simp]: "wbyte 0 1 = 1"
  by (simp add: wbyte_def)

lemma quiet_simps [hart_simps]:
  "quiet y h h"
  "quiet y h (set_rg x_gp v h') \<longleftrightarrow> quiet y h h'" "quiet y h (set_rg x_tp v h') \<longleftrightarrow> quiet y h h'"
  "numeral k \<le> (28 :: nat) \<Longrightarrow> quiet y h (put8 (rg x_sp h - numeral k) w h') \<longleftrightarrow> quiet y h h'"
  "(4 :: nat) \<le> numeral k \<Longrightarrow> numeral k \<le> (28 :: nat) \<Longrightarrow> quiet y h (put32 (rg x_sp h - numeral k) v h') \<longleftrightarrow> quiet y h h'"
  "region (check_same_sym y) 256 a \<Longrightarrow> quiet y h (put8 a w h') \<longleftrightarrow> quiet y h h'"
proof -
  show "region (check_same_sym y) 256 a \<Longrightarrow> quiet y h (put8 a w h') \<longleftrightarrow> quiet y h h'"
    unfolding quiet_def rg_put8 peek_put8 by (auto split: if_splits)
qed (auto simp: quiet_def hart_simps)

lemma array_off_stack:
  assumes "\<not> scratch s a"
  shows "numeral k \<le> (28 :: nat) \<Longrightarrow> at_byte (s - numeral k) a = False" "at_byte (s - 1) a = False"
  using scratch_not(1,2) [OF assms] by (auto simp: at_byte_def)

lemma array_read:
  "peek (t + ucast a) (put8 (t + ucast b) 0 (put8 (t + ucast (a :: u8)) 1 h)) = of_bool (a \<noteq> b)"
  by (simp add: peek_put8)

lemma eq_bytes: "(wbyte 2 v = wbyte 2 w \<and> wbyte (Suc 0) v = wbyte (Suc 0) w \<and> wbyte 0 v = wbyte 0 w \<and> wbyte 3 v = wbyte 3 w)
    = (v = w)"
  by (metis word4_wbyte(2))

lemma m_seq_run:
  assumes env: "minirv_env y h"
  shows "rg x_tp (hart_run (m_seq y x_tp rs1 rs2) h) = truth (rg rs1 h = rg rs2 h) \<and> quiet y h (hart_run (m_seq y x_tp rs1 rs2) h)"
proof -
  have off: "\<not> scratch (rg x_sp h) (check_same_sym y + ucast (b :: u8))" for b
    using env region_byte unfolding minirv_env_def by blast
  show ?thesis
    using env
    by (simp add: m_seq_def m_check_8bit_same_def PUSH_def POP_def hart_run_append exec_simps hart_simps
        array_off_stack off array_read env_same_result eq_bytes)
qed

section \<open>Sign tests\<close>

lemma env_or1:
  assumes "minirv_env y h"
  shows "peek (sign31 a + sign31 b + or1_sym y) h = of_bool (sign31 a = 1 \<or> sign31 b = 1)"
proof -
  have t: "table_at (or1_sym y) or1_table h" using assms by (simp add: minirv_env_def)
  note e = table_atD [OF t, unfolded or1_table_def]
  have s: "sign31 x = 0 \<or> sign31 x = 1" for x by (simp add: sign31_def)
  show ?thesis
    using s [of a] s [of b] e [of 0] e [of 1] e [of 2] by (elim disjE) (simp_all add: add.commute)
qed

lemma sign31_truth: "sign31 v = truth (sint v < 0)"
  using sign31_cases [of v] uint_lt2p [of v] by (auto simp: sint_uint32 truth_def)

lemma not_positive: "(sign31 v = 1 \<or> sign31 (v - 1) = 1) = (sint v \<le> 0)"
proof -
  have d: "uint (v - 1) = (if 1 \<le> uint v then uint v - 1 else uint v - 1 + 4294967296)"
    using uint_sub_if' [of v 1] by simp
  have r: "0 \<le> uint v" "uint v < 4294967296" using uint_lt2p [of v] by simp_all
  have sg: "(sign31 w = 1) = (2147483648 \<le> uint w)" for w using sign31_cases [of w] by auto
  have "(2147483648 \<le> V \<or> 2147483648 \<le> (if 1 \<le> V then V - 1 else V - 1 + 4294967296))
     = ((if 2147483648 \<le> V then V - 4294967296 else V) \<le> 0)" if "0 \<le> V" "V < 4294967296" for V :: int
    using that by auto
  from this [OF r] show ?thesis unfolding sg d sint_uint32 .
qed

lemma m_not_positive_run:
  assumes "minirv_env y h" and "user_reg rs2"
  shows "rg x_tp (hart_run (m_not_positive y rs2) h) = truth (sint (rg rs2 h) \<le> 0)
     \<and> noise h (hart_run (m_not_positive y rs2) h)"
  using assms by (simp add: m_not_positive_def hart_run_append exec_simps hart_simps env_or1 not_positive)

section \<open>Selecting the address\<close>

definition m_branch_select :: "u32 \<Rightarrow> bool \<Rightarrow> u32 \<Rightarrow> instr list" where
  "m_branch_select target hi here = butlast (m_branch_resolve target hi here)"

lemma m_branch_resolve_jump: "m_branch_resolve target hi here = m_branch_select target hi here @ [Jalr x_zero x_tp 0]"
  by (simp add: m_branch_select_def m_branch_resolve_def butlast_append)

lemma m_branch_select_run:
  assumes "rg x_tp h = truth P"
  shows "rg x_tp (hart_run (m_branch_select target hi here) h) = (if P = hi then target else here)
     \<and> noise h (hart_run (m_branch_select target hi here) h)"
  using assms
  by (cases P; cases hi)
    (simp_all add: m_branch_select_def m_branch_resolve_def butlast_append hart_run_append exec_simps hart_simps truth_def)

end
