(* ===== verification/MinirvSpec.thy ===== *)
theory MinirvSpec
  imports MinirvBranch
begin

text \<open>
  The minirv macros are correct: the code an instruction of RV32I expands to uses the eight base
  instructions only, and running it has the effect of the instruction, up to \<open>gp\<close>, \<open>tp\<close> and
  the scratch words below the stack pointer. The exception is \<open>seqz\<close> with the result register
  \<open>s0\<close>.
\<close>

section \<open>Which macro stands for which instruction\<close>

fun expand :: "syms \<Rightarrow> instr \<Rightarrow> instr list option" where
  "expand y (Op a rd rs1 rs2) =
     (case a of
        A_ADD \<Rightarrow> Some [i_add rd rs1 rs2]
      | A_SUB \<Rightarrow> Some (m_sub y rd rs1 rs2)
      | A_SLL \<Rightarrow> Some (m_sll y rd rs1 rs2)
      | A_SLT \<Rightarrow> Some (m_slt y rd rs1 rs2)
      | A_SLTU \<Rightarrow> Some (m_sltu y rd rs1 rs2)
      | A_XOR \<Rightarrow> m_xor y rd rs1 rs2
      | A_SRL \<Rightarrow> Some (m_srl y rd rs1 rs2)
      | A_SRA \<Rightarrow> Some (m_sra y rd rs1 rs2)
      | A_OR \<Rightarrow> m_or y rd rs1 rs2
      | A_AND \<Rightarrow> m_and y rd rs1 rs2)"
| "expand y (OpImm a rd rs1 imm) =
     (case a of
        ADDI \<Rightarrow> Some [i_addi rd rs1 imm]
      | SLTI \<Rightarrow> m_slti y rd rs1 imm
      | SLTIU \<Rightarrow> m_sltiu y rd rs1 imm
      | XORI \<Rightarrow> m_xori y rd rs1 imm
      | ORI \<Rightarrow> m_ori y rd rs1 imm
      | ANDI \<Rightarrow> m_andi y rd rs1 imm)"
| "expand y (ShiftImm a rd rs1 sh) =
     (case a of
        SLLI \<Rightarrow> Some (m_slli rd rs1 (unat sh))
      | SRLI \<Rightarrow> Some (m_srli y rd rs1 (unat sh))
      | SRAI \<Rightarrow> Some (m_srai y rd rs1 (unat sh)))"
| "expand y (Load l rd b off) =
     (case l of
        LW \<Rightarrow> Some [i_lw rd b off]
      | LBU \<Rightarrow> Some [i_lbu rd b off]
      | LH \<Rightarrow> Some (m_lh y rd b off)
      | LHU \<Rightarrow> Some (m_lhu rd b off))"
| "expand y (Store st b r off) =
     (case st of
        SW \<Rightarrow> Some [i_sw r b off]
      | SB \<Rightarrow> Some [i_sb r b off]
      | SH \<Rightarrow> Some (m_sh r b off))"
| "expand y (Lui rd imm) = Some [Lui rd imm]"
| "expand y i = None"

text \<open>
  The calling convention of the macros: operands other than \<open>gp\<close> and \<open>tp\<close>, no result in \<open>sp\<close>;
  memory accesses stay away from the scratch words, stores also from the tables; the offset of a
  halfword access can be incremented.
\<close>

fun minirv_ok :: "syms \<Rightarrow> instr \<Rightarrow> hart \<Rightarrow> bool" where
  "minirv_ok y (Op a rd rs1 rs2) h \<longleftrightarrow> rd \<noteq> x_sp \<and> user_reg rd \<and> user_reg rs1 \<and> user_reg rs2"
| "minirv_ok y (OpImm a rd rs1 imm) h \<longleftrightarrow> rd \<noteq> x_sp \<and> user_reg rd \<and> user_reg rs1"
| "minirv_ok y (ShiftImm a rd rs1 sh) h \<longleftrightarrow> rd \<noteq> x_sp \<and> user_reg rd \<and> user_reg rs1"
| "minirv_ok y (Load l rd b off) h \<longleftrightarrow> rd \<noteq> x_sp \<and> user_reg rd \<and> user_reg b \<and> off \<noteq> 2047
     \<and> list_all (\<lambda>k. \<not> scratch (rg x_sp h) (rg b h + scast off + k)) (map of_nat [0..<fst (load_sem l)])"
| "minirv_ok y (Store st b r off) h \<longleftrightarrow> user_reg r \<and> user_reg b \<and> off \<noteq> 2047
     \<and> list_all (\<lambda>k. \<not> scratch (rg x_sp h) (rg b h + scast off + k) \<and> \<not> rom_at y (rg b h + scast off + k))
         (map of_nat [0..<store_len st])"
| "minirv_ok y (Lui rd imm) h \<longleftrightarrow> rd \<noteq> x_sp \<and> user_reg rd"
| "minirv_ok y i h \<longleftrightarrow> False"

section \<open>The shape of expanded code\<close>

definition plain :: "instr \<Rightarrow> bool" where
  "plain i \<longleftrightarrow> straight i \<and> is_base i"

named_theorems code_shape \<open>expanded code is plain and short\<close>

lemma plain_base [code_shape]:
  "plain (i_add rd r1 r2)" "plain (i_addi rd r1 imm)" "plain (Lui rd k)" "plain (i_lw rd b off)"
  "plain (i_lbu rd b off)" "plain (i_sw r b off)" "plain (i_sb r b off)" "plain (PUSH r n)" "plain (POP r n)"
  by (simp_all add: plain_def PUSH_def POP_def)

lemma m_slli_plain [code_shape]: "list_all plain (m_slli rd rs k)"
proof (induction rd rs k rule: m_slli.induct)
  case (1 rd rs k)
  have r: "list_all plain (replicate n (i_add rd rd rd))" for n
    by (simp add: list_all_length plain_base)
  show ?case using 1 by (subst m_slli.simps) (auto simp: r plain_base m_sh_def m_getbyte_def)
qed

lemma m_slli_length [code_shape]: "length (m_slli rd rs k) \<le> k + 12"
proof (induction rd rs k rule: m_slli.induct)
  case (1 rd rs k)
  show ?case using 1 by (subst m_slli.simps) (auto simp: m_sh_def m_getbyte_def)
qed

lemma parts_plain [code_shape]:
  "list_all plain (m_la r a)" "list_all plain (m_getbyte rd rs b)" "list_all plain (m_logic8_byte_internal r b)"
  "list_all plain (m_check_8bit_same t r b)" "list_all plain (m_check_8bit_0 t r b)" "list_all plain (m_not_byte b)"
  by (simp_all add: m_la_def m_getbyte_def m_logic8_byte_internal_def m_check_8bit_same_def m_check_8bit_0_def
      m_not_byte_def code_shape)

lemma blocks_plain [code_shape]:
  "list_all plain (m_sh r bs off)" "list_all plain (m_msb rd rs)" "list_all plain (m_not y rd rs)"
  "list_all plain (m_getshamt y rd rs1)" "list_all plain (m_get_shift_byte_in_tp bs b)"
  by (simp_all add: m_sh_def m_msb_def m_not_def m_getshamt_def m_get_shift_byte_in_tp_def code_shape)

lemma m_sub_plain [code_shape]: "list_all plain (m_sub y rd rs1 rs2)"
  by (simp add: m_sub_def code_shape)

lemma m_shift_index_plain [code_shape]: "list_all plain (m_shift_index y op)"
  by (cases op) (simp_all add: m_shift_index_def code_shape)

lemma macros_plain [code_shape]:
  "list_all plain (m_slt_template y lut rd rs1 rs2)" "list_all plain (m_seq y rd rs1 rs2)" "list_all plain (m_seqz y rd rs1)"
  "list_all plain (m_sll y rd rs1 rs2)" "list_all plain (m_shift_right_template y rd rs1 op ar)"
  "list_all plain (m_lhu rd bs off)" "list_all plain (m_not_positive y rs2)" "list_all plain (m_branch_select target hi here)"
  by (simp_all add: m_slt_template_def m_seq_def m_seqz_def m_sll_def m_shift_right_template_def m_lhu_def
      m_not_positive_def m_branch_select_def m_branch_resolve_def butlast_append code_shape)

lemma load_macros_plain [code_shape]: "list_all plain (m_lb y rd bs off)" "list_all plain (m_lh y rd bs off)"
  by (simp_all add: m_lb_def m_lh_def m_srai_def code_shape)

lemmas macro_defs = m_slt_template_def m_seq_def m_seqz_def m_sll_def m_shift_right_template_def m_lhu_def m_lb_def m_lh_def
  m_not_positive_def m_branch_select_def m_branch_resolve_def m_srai_def m_srli_def m_sra_def m_srl_def m_sub_def
  m_sh_def m_msb_def m_not_def m_getshamt_def m_get_shift_byte_in_tp_def m_la_def m_getbyte_def m_logic8_byte_internal_def
  m_check_8bit_same_def m_check_8bit_0_def m_not_byte_def

lemma slli_lengths: "length (m_slli rd rs 1) = 1" "length (m_slli rd rs (Suc 0)) = 1" "length (m_slli rd rs 2) = 2" "length (m_slli rd rs 8) = 8"
  by (subst m_slli.simps; simp)+

lemma macros_length:
  "length (m_sub y rd rs1 rs2) \<le> 900"
  "length (m_slt_template y lut rd rs1 rs2) \<le> 900" "length (m_seq y rd rs1 rs2) \<le> 900" "length (m_seqz y rd rs1) \<le> 900"
  "length (m_sll y rd rs1 rs2) \<le> 900" "length (m_shift_right_template y rd rs1 op ar) \<le> 900"
  "length (m_lhu rd bs off) \<le> 900" "length (m_sh r bs off) \<le> 900" "length (m_lb y rd bs off) \<le> 900" "length (m_lh y rd bs off) \<le> 900"
  "length (m_not_positive y rs2) \<le> 900" "length (m_branch_select target hi here) \<le> 900"
  by (simp_all add: macro_defs slli_lengths m_shift_index_def split: shift_operand.splits)

lemma shamt5: "unat (ucast (sh :: 5 word) :: u32) mod 32 = unat sh" "unat (sh :: 5 word) < 32"
proof -
  have "unat sh < 2 ^ LENGTH(5)" by (rule unsigned_less)
  then show l: "unat sh < 32" by simp
  then show "unat (ucast sh :: u32) mod 32 = unat sh"
    by (simp add: unsigned_ucast_eq take_bit_nat_eq_self)
qed

lemma m_logic_plain [code_shape]: "m_logic lut rd rs1 rs2 = Some c \<Longrightarrow> list_all plain c \<and> length c \<le> 900"
  by (auto simp: m_logic_def m_la_def m_logic8_byte_internal_def plain_base split: if_splits)

lemma m_slli_imm_length: "length (m_slli rd rs (unat (k :: 5 word))) \<le> 900"
  using m_slli_length [of rd rs "unat k"] shamt5(2) [of k] by simp

lemma expand_op_shape: "expand y (Op a rd rs1 rs2) = Some code \<Longrightarrow> list_all plain code \<and> length code \<le> 900"
  by (cases a) (auto simp: m_and_def m_or_def m_xor_def m_slt_def m_sltu_def m_srl_def m_sra_def code_shape macros_length
      dest!: m_logic_plain)

lemma expand_shape: "expand y i = Some code \<Longrightarrow> list_all plain code \<and> length code \<le> 901"
proof (cases i)
  case (Op a rd rs1 rs2)
  then show "expand y i = Some code \<Longrightarrow> ?thesis" using expand_op_shape [of y a rd rs1 rs2 code] by simp
next
  case (OpImm a rd rs1 imm)
  assume e: "expand y i = Some code"
  have "\<exists>op c. code = i_addi x_tp x_zero imm # c \<and> expand y (Op op rd rs1 x_tp) = Some c" if "a \<noteq> ADDI"
    using e OpImm that
    by (cases a) (force simp: m_slti_def m_sltiu_def m_xori_def m_ori_def m_andi_def def_itype_def
        intro: exI [of _ A_SLT] exI [of _ A_SLTU] exI [of _ A_XOR] exI [of _ A_OR] exI [of _ A_AND])+
  then show ?thesis
    using e OpImm expand_op_shape by (cases "a = ADDI") (auto simp: plain_base)
next
  case (ShiftImm a rd rs1 sh)
  then show "expand y i = Some code \<Longrightarrow> ?thesis"
    using le_SucI [OF macros_length(6)] le_SucI [OF m_slli_imm_length]
    by (cases a) (auto simp: m_srli_def m_srai_def code_shape)
next
  case (Load l rd bs off)
  then show "expand y i = Some code \<Longrightarrow> ?thesis"
    using le_SucI [OF macros_length(7)] le_SucI [OF macros_length(10)] by (cases l) (auto simp: code_shape)
next
  case (Store st bs r off)
  then show "expand y i = Some code \<Longrightarrow> ?thesis"
    using le_SucI [OF macros_length(8)] by (cases st) (auto simp: code_shape)
next
  case (Lui rd imm)
  then show "expand y i = Some code \<Longrightarrow> ?thesis" by (auto simp: plain_base)
qed simp_all

section \<open>Arithmetic of the reference\<close>

lemma shift_sem:
  "alu_sem A_SLL a b = push_bit (unat b mod 32) a"
  "alu_sem A_SRL a b = shift_right False (unat b mod 32) a"
  "alu_sem A_SRA a b = shift_right True (unat b mod 32) a"
proof -
  let ?n = "unat b mod 32"
  show "alu_sem A_SLL a b = push_bit ?n a" by (simp add: push_bit_eq_mult)
  have "uint (drop_bit ?n a) = uint a div 2 ^ ?n"
    unfolding unsigned_drop_bit_eq using uint_lt2p [of a] by (simp add: drop_bit_eq_div take_bit_int_eq_self)
  then have "word_of_int (uint a div 2 ^ ?n) = drop_bit ?n a" by (metis word_of_int_uint)
  then show "alu_sem A_SRL a b = shift_right False ?n a"
    by (simp only: alu_sem.simps shift_right_def if_False)
  have "sint (signed_drop_bit ?n a) = sint a div 2 ^ ?n"
    unfolding sint_signed_drop_bit_eq by (rule drop_bit_eq_div)
  moreover have "word_of_int (sint (signed_drop_bit ?n a)) = signed_drop_bit ?n a" by simp
  ultimately have "word_of_int (sint a div 2 ^ ?n) = signed_drop_bit ?n a" by (simp only:)
  then show "alu_sem A_SRA a b = shift_right True ?n a"
    by (simp only: alu_sem.simps shift_right_def if_True)
qed

lemma imm_operand:
  "noise (set_rg rd v (set_rg x_tp w h)) h' \<Longrightarrow> noise (set_rg rd v h) h'"
  by (auto simp: noise_def hart_simps split: if_splits)

lemma same_but_noise: "same_but rd v h h' \<Longrightarrow> noise (set_rg rd v h) h'"
  by (simp add: same_but_def)

section \<open>The instruction and its expansion\<close>

lemma expand_op:
  assumes env: "minirv_env y h" and e: "expand y (Op a rd rs1 rs2) = Some code" and ok: "rd \<noteq> x_sp" "user_reg rs1" "rs2 \<noteq> x_gp"
  shows "same_but rd (alu_sem a (rg rs1 h) (rg rs2 h)) h (hart_run code h)"
proof (cases a)
  case A_ADD
  then show ?thesis using e ok by (auto simp: exec_simps hart_simps)
next
  case A_SUB
  then show ?thesis using e ok env by (auto simp: exec_simps hart_simps)
next
  case A_SLL
  then show ?thesis using e m_sll_run [OF env ok(1), of rs2 rs1] by (auto simp: push_bit_eq_mult)
next
  case A_SLT
  then show ?thesis using e m_slt_run(1) [OF env ok(2,3,1)] by auto
next
  case A_SLTU
  then show ?thesis using e m_slt_run(2) [OF env ok(2,3,1)] by auto
next
  case A_XOR
  then show ?thesis using e m_bitwise_run(3) [OF env] by auto
next
  case A_SRL
  then show ?thesis using e m_shift_reg_run [OF env ok(1), of False rs2 rs1] shift_sem(2) by (auto simp: m_srl_def simp del: alu_sem.simps)
next
  case A_SRA
  then show ?thesis using e m_shift_reg_run [OF env ok(1), of True rs2 rs1] shift_sem(3) by (auto simp: m_sra_def simp del: alu_sem.simps)
next
  case A_OR
  then show ?thesis using e m_bitwise_run(2) [OF env] by auto
next
  case A_AND
  then show ?thesis using e m_bitwise_run(1) [OF env] by auto
qed

lemma expand_imm:
  assumes env: "minirv_env y h" and e: "expand y (OpImm a rd rs1 imm) = Some code" and ok: "rd \<noteq> x_sp" "user_reg rs1"
  shows "noise (set_rg rd (alui_sem a (rg rs1 h) (scast imm)) h) (hart_run code h)"
proof (cases "a = ADDI")
  case True
  then show ?thesis using e ok by (auto simp: exec_simps hart_simps)
next
  case False
  let ?h = "set_rg x_tp (scast imm) h" and ?op = "case a of SLTI \<Rightarrow> A_SLT | SLTIU \<Rightarrow> A_SLTU | XORI \<Rightarrow> A_XOR | ORI \<Rightarrow> A_OR | ANDI \<Rightarrow> A_AND | ADDI \<Rightarrow> A_ADD"
  obtain c where c: "code = i_addi x_tp x_zero imm # c" "expand y (Op ?op rd rs1 x_tp) = Some c"
    using e False by (cases a) (auto simp: m_slti_def m_sltiu_def m_xori_def m_ori_def m_andi_def def_itype_def)
  have env': "minirv_env y ?h" using env by (simp add: hart_simps)
  have "same_but rd (alu_sem ?op (rg rs1 ?h) (rg x_tp ?h)) ?h (hart_run c ?h)"
    by (rule expand_op [OF env' c(2) ok]) simp
  moreover have "alu_sem ?op (rg rs1 ?h) (rg x_tp ?h) = alui_sem a (rg rs1 h) (scast imm)"
    using ok(2) False by (cases a) (simp_all add: hart_simps)
  ultimately have "noise (set_rg rd (alui_sem a (rg rs1 h) (scast imm)) h) (hart_run c ?h)"
    using same_but_noise imm_operand by metis
  then show ?thesis by (simp add: c(1) exec_simps)
qed

lemma expand_shift_imm:
  assumes env: "minirv_env y h" and e: "expand y (ShiftImm a rd rs1 sh) = Some code" and ok: "rd \<noteq> x_sp" "rd \<noteq> x_tp"
  shows "same_but rd (shifti_sem a (rg rs1 h) (ucast sh)) h (hart_run code h)"
  using e m_slli_run [OF env ok(1) shamt5(2), of sh rs1]
    m_shift_right_imm_run [OF env ok shamt5(2), of False sh rs1] m_shift_right_imm_run [OF env ok shamt5(2), of True sh rs1]
  by (cases a) (auto simp: shift_sem shamt5(1) m_srli_def m_srai_def simp del: alu_sem.simps)

lemma le_word_2: "le_word [a, b] = word4 a b 0 0"
  by (rule bit_word_eqI) (auto simp: word4_def bit_le_word less_Suc_eq nth_Cons' div_eq_0_iff)

lemma hart_do_half:
  "hart_do (Load LHU rd b off) h = set_rg rd (word4 (peek (rg b h + scast off) h) (peek (rg b h + scast off + 1) h) 0 0) h"
  "hart_do (Load LH rd b off) h
     = set_rg rd (scast (ucast (word4 (peek (rg b h + scast off) h) (peek (rg b h + scast off + 1) h) 0 0) :: u16)) h"
  "hart_do (Store SH b r off) h = put8 (rg b h + scast off + 1) (wbyte 1 (rg r h)) (put8 (rg b h + scast off) (wbyte 0 (rg r h)) h)"
proof -
  have "ucast (ucast (word4 a b 0 0) :: u16) = word4 a b 0 0" for a b
    by (rule bit_word_eqI) (auto simp: bit_word4 bit_simps)
  then show "hart_do (Load LHU rd b off) h = set_rg rd (word4 (peek (rg b h + scast off) h) (peek (rg b h + scast off + 1) h) 0 0) h"
    by (simp add: hart_do_def numeral_2_eq_2 le_word_2 del: le_word.simps)
  show "hart_do (Load LH rd b off) h
     = set_rg rd (scast (ucast (word4 (peek (rg b h + scast off) h) (peek (rg b h + scast off + 1) h) 0 0) :: u16)) h"
    by (simp add: hart_do_def numeral_2_eq_2 le_word_2 del: le_word.simps)
  show "hart_do (Store SH b r off) h = put8 (rg b h + scast off + 1) (wbyte 1 (rg r h)) (put8 (rg b h + scast off) (wbyte 0 (rg r h)) h)"
    by (simp add: hart_do_def le_bytes_def wbyte_def upt_rec)
qed

lemma expand_load:
  assumes env: "minirv_env y h" and e: "expand y (Load l rd b off) = Some code" and ok: "minirv_ok y (Load l rd b off) h"
  shows "noise (hart_do (Load l rd b off) h) (hart_run code h)"
proof -
  have hw: "halfword_at b off h (peek (rg b h + scast off) h) (peek (rg b h + scast off + 1) h)" if "l = LH \<or> l = LHU"
    using ok that by (auto simp: halfword_at_def numeral_2_eq_2)
  show ?thesis
    using same_but_noise [OF m_lhu_run [OF _ _ hw], of rd] same_but_noise [OF m_lh_run [OF env _ _ hw], of rd] e ok
    by (cases l) (auto simp: hart_do_half hart_simps)
qed

lemma noise_put8: "noise h h' \<Longrightarrow> noise (put8 a v h) (put8 a v h')"
  by (simp add: noise_def rg_put8 peek_put8)

lemma noise_put32:
  "s = rg x_sp h \<Longrightarrow> (4 :: nat) \<le> numeral k \<Longrightarrow> numeral k \<le> (28 :: nat) \<Longrightarrow> noise h h' \<Longrightarrow> noise h (put32 (s - numeral k) v h')"
  using noise_simps(6) by simp

lemma expand_store:
  assumes e: "expand y (Store st b r off) = Some code" and ok: "minirv_ok y (Store st b r off) h"
  shows "noise (hart_do (Store st b r off) h) (hart_run code h)"
proof (cases st)
  case SH
  let ?a = "rg b h + scast off"
  let ?m = "put32 (rg x_sp h - 24) (rg r h) (put8 ?a (wbyte 0 (rg r h)) h)"
  have sc: "\<not> scratch (rg x_sp h) ?a" "\<not> scratch (rg x_sp h) (?a + 1)" and o: "off \<noteq> 2047" "user_reg b" "user_reg r"
    using ok SH by (simp_all add: numeral_2_eq_2)
  have "hart_run code h = set_rg x_tp (ucast (wbyte 1 (rg r h))) (put8 (?a + 1) (wbyte 1 (rg r h)) ?m)"
    using e SH o by (auto simp: m_sh_def m_getbyte_run hart_run_append exec_simps hart_simps scast_succ)
  moreover have "noise (put8 ?a (wbyte 0 (rg r h)) h) ?m"
    by (rule noise_put32) (simp_all add: noise_simps rg_put8)
  ultimately show ?thesis using SH by (simp add: hart_do_half noise_simps noise_put8)
qed (use e in \<open>auto simp: hart_simps\<close>)

lemma noise_env:
  assumes env: "minirv_env y h" and n: "noise h h'"
  shows "minirv_env y h'"
proof (rule minirv_env_cong [OF env])
  show "rg x_sp h' = rg x_sp h" using n by (simp add: noise_def)
  fix a assume "rom_at y a"
  then have "\<not> scratch (rg x_sp h) a" using env unfolding minirv_env_def by blast
  then show "peek a h' = peek a h" by (rule noise_peek [OF n])
qed

lemma hart_do_env:
  assumes env: "minirv_env y h" and ok: "minirv_ok y i h"
  shows "minirv_env y (hart_do i h)"
proof (cases i)
  case (Store st b r off)
  let ?a = "rg b h + scast off"
  have put: "minirv_env y (put8 a v g)" if "minirv_env y g" "\<not> rom_at y a" for a v g
    using that by (intro minirv_env_cong [OF that(1)]) (auto simp: rg_put8 peek_put8)
  have nat_up: "[0..<4] = [0, 1, 2, 3]" "[0..<2] = [0, 1]" by (simp_all add: upt_rec)
  show ?thesis
    using env ok Store
    by (cases st) (simp_all add: exec_simps hart_do_half put32_def nat_up put add.assoc)
qed (use env ok in \<open>simp_all add: hart_do_def hart_simps\<close>)

text \<open>The theorem for one instruction.\<close>

lemma expand_noise:
  assumes env: "minirv_env y h" and e: "expand y i = Some code" and ok: "minirv_ok y i h"
  shows "noise (hart_do i h) (hart_run code h)"
proof (cases i)
  case (Op a rd rs1 rs2)
  then show ?thesis
    using same_but_noise [OF expand_op [OF env]] e ok by (simp add: hart_do_def)
next
  case (OpImm a rd rs1 imm)
  then show ?thesis using expand_imm [OF env] e ok by (simp add: hart_do_def)
next
  case (ShiftImm a rd rs1 sh)
  then show ?thesis
    using same_but_noise [OF expand_shift_imm [OF env]] e ok by (simp add: hart_do_def)
next
  case (Load l rd b off)
  then show ?thesis using expand_load [OF env] e ok by simp
next
  case (Store st b r off)
  then show ?thesis using expand_store e ok by simp
next
  case (Lui rd imm)
  then show ?thesis using e by (auto simp: hart_simps)
qed (use e in simp_all)

text \<open>Expanded code runs to its end in as many steps as it has instructions.\<close>

lemma plain_split: "list_all plain code \<Longrightarrow> list_all straight code \<and> list_all is_base code"
  by (simp add: list_all_iff plain_def)

lemma plain_run:
  assumes "list_all plain code" and "length code \<le> 1000"
  shows "hart_steps code base (length code) (base, h) = (base + 4 * of_nat (length code), hart_run code h)"
  using assms plain_split by (intro hart_steps_straight) simp_all

lemma hart_do_step: "expand y i = Some code \<Longrightarrow> snd (hart_step i base h) = hart_do i h"
  by (cases i) (simp_all add: hart_do_def)

lemma expand_correct_inner:
  assumes env: "minirv_env y h" and e: "expand y i = Some code" and ok: "minirv_ok y i h"
  shows "list_all is_base code
    \<and> hart_steps code base (length code) (base, h) = (base + 4 * of_nat (length code), hart_run code h)
    \<and> noise (snd (hart_step i base h)) (hart_run code h) \<and> minirv_env y (hart_run code h)"
proof -
  have n: "noise (hart_do i h) (hart_run code h)" by (rule expand_noise [OF env e ok])
  then have "minirv_env y (hart_run code h)" using noise_env [OF hart_do_env [OF env ok]] by blast
  then show ?thesis
    using n plain_run plain_split expand_shape [OF e] hart_do_step [OF e] by simp
qed

section \<open>Branches\<close>

fun branch_code :: "syms \<Rightarrow> cond \<Rightarrow> rid \<Rightarrow> rid \<Rightarrow> u32 \<Rightarrow> u32 \<Rightarrow> instr list" where
  "branch_code y BEQ rs1 rs2 target here = m_beq y rs1 rs2 target here"
| "branch_code y BNE rs1 rs2 target here = m_bne y rs1 rs2 target here"
| "branch_code y BLT rs1 rs2 target here = m_blt y rs1 rs2 target here"
| "branch_code y BGE rs1 rs2 target here = m_bge y rs1 rs2 target here"
| "branch_code y BLTU rs1 rs2 target here = m_bltu y rs1 rs2 target here"
| "branch_code y BGEU rs1 rs2 target here = m_bgeu y rs1 rs2 target here"

text \<open>\<open>tests p P h\<close>: the code \<open>p\<close> leaves the truth of \<open>P\<close> in \<open>tp\<close>.\<close>

definition tests :: "syms \<Rightarrow> instr list \<Rightarrow> bool \<Rightarrow> hart \<Rightarrow> bool" where
  "tests y p P h \<longleftrightarrow> list_all plain p \<and> length p \<le> 900 \<and> rg x_tp (hart_run p h) = truth P \<and> quiet y h (hart_run p h)"

lemma same_but_tp: "same_but x_tp v h h' \<Longrightarrow> rg x_tp h' = v \<and> noise h h'"
  by (simp add: same_but_def noise_def hart_simps)

lemma condition_tests:
  assumes env: "minirv_env y h" and r: "user_reg rs1" "user_reg rs2"
  shows "tests y (m_seqz y x_tp rs1) (rg rs1 h = 0) h" "tests y (m_seq y x_tp rs1 rs2) (rg rs1 h = rg rs2 h) h"
    "tests y (m_slt y x_tp rs1 rs2) (sint (rg rs1 h) < sint (rg rs2 h)) h"
    "tests y (m_sltu y x_tp rs1 rs2) (uint (rg rs1 h) < uint (rg rs2 h)) h"
    "tests y (m_msb x_tp rs1) (sint (rg rs1 h) < 0) h"
    "tests y (m_not_positive y rs2) (sint (rg rs2 h) \<le> 0) h"
proof -
  note slt = m_slt_run [OF env r(1), of rs2 x_tp, simplified]
  show "tests y (m_seqz y x_tp rs1) (rg rs1 h = 0) h"
    using same_but_tp [OF m_seqz_run [OF env, of x_tp rs1]] noise_quiet
    by (simp add: tests_def macros_plain macros_length)
  show "tests y (m_seq y x_tp rs1 rs2) (rg rs1 h = rg rs2 h) h"
    using m_seq_run [OF env, of rs1 rs2] by (simp add: tests_def macros_plain macros_length)
  show "tests y (m_slt y x_tp rs1 rs2) (sint (rg rs1 h) < sint (rg rs2 h)) h"
    "tests y (m_sltu y x_tp rs1 rs2) (uint (rg rs1 h) < uint (rg rs2 h)) h"
    using same_but_tp [OF slt(1)] same_but_tp [OF slt(2)] noise_quiet r
    by (simp_all add: tests_def m_slt_def m_sltu_def macros_plain macros_length)
  show "tests y (m_msb x_tp rs1) (sint (rg rs1 h) < 0) h"
    by (simp add: tests_def exec_simps hart_simps sign31_truth blocks_plain) (simp add: m_msb_def m_getbyte_def slli_lengths)
  show "tests y (m_not_positive y rs2) (sint (rg rs2 h) \<le> 0) h"
    using m_not_positive_run [OF env r(2)] noise_quiet by (simp add: tests_def macros_plain macros_length)
qed

text \<open>The test of each branch macro, and whether the taken address is selected by 1.\<close>

definition branch_via :: "syms \<Rightarrow> cond \<Rightarrow> rid \<Rightarrow> rid \<Rightarrow> hart \<Rightarrow> instr list \<Rightarrow> bool \<Rightarrow> bool \<Rightarrow> bool" where
  "branch_via y c rs1 rs2 h p P hi \<longleftrightarrow>
     tests y p P h \<and> (P = hi) = cond_sem c (rg rs1 h) (rg rs2 h)
     \<and> (\<forall>target here. branch_code y c rs1 rs2 target here = p @ m_branch_resolve target hi here)"

lemma branch_shape:
  assumes env: "minirv_env y h" and r: "user_reg rs1" "user_reg rs2"
  shows "\<exists>p P hi. branch_via y c rs1 rs2 h p P hi"
proof -
  note t = condition_tests [OF env r] and t' = condition_tests [OF env r(2,1)]
  have eq: "\<exists>p P. tests y p P h \<and> P = (rg rs1 h = rg rs2 h)
      \<and> (if rs2 = x_zero then m_seqz y x_tp rs1 else if rs1 = x_zero then m_seqz y x_tp rs2 else m_seq y x_tp rs1 rs2) = p"
    using t(1,2) t'(1) by (cases "rs2 = x_zero"; cases "rs1 = x_zero") (auto simp: eq_commute [of 0])
  show ?thesis
  proof (cases c)
    case BEQ
    from eq obtain p P where "tests y p P h" "P = (rg rs1 h = rg rs2 h)"
      "(if rs2 = x_zero then m_seqz y x_tp rs1 else if rs1 = x_zero then m_seqz y x_tp rs2 else m_seq y x_tp rs1 rs2) = p" by blast
    then have "branch_via y c rs1 rs2 h p P True" using BEQ by (simp add: branch_via_def m_beq_def)
    then show ?thesis by blast
  next
    case BNE
    from eq obtain p P where "tests y p P h" "P = (rg rs1 h = rg rs2 h)"
      "(if rs2 = x_zero then m_seqz y x_tp rs1 else if rs1 = x_zero then m_seqz y x_tp rs2 else m_seq y x_tp rs1 rs2) = p" by blast
    then have "branch_via y c rs1 rs2 h p P False" using BNE by (simp add: branch_via_def m_bne_def)
    then show ?thesis by blast
  next
    case BLT
    have "branch_via y c rs1 rs2 h (m_msb x_tp rs1) (sint (rg rs1 h) < 0) True" if "rs2 = x_zero"
      using that t(5) BLT by (simp add: branch_via_def m_blt_def)
    moreover have "branch_via y c rs1 rs2 h (m_not_positive y rs2) (sint (rg rs2 h) \<le> 0) False" if "rs2 \<noteq> x_zero" "rs1 = x_zero"
      using that t(6) BLT by (auto simp: branch_via_def m_blt_def)
    moreover have "branch_via y c rs1 rs2 h (m_slt y x_tp rs1 rs2) (sint (rg rs1 h) < sint (rg rs2 h)) True" if "rs2 \<noteq> x_zero" "rs1 \<noteq> x_zero"
      using that t(3) BLT by (simp add: branch_via_def m_blt_def)
    ultimately show ?thesis by blast
  next
    case BGE
    have "branch_via y c rs1 rs2 h (m_not_positive y rs2) (sint (rg rs2 h) \<le> 0) True" if "rs1 = x_zero"
      using that t(6) BGE by (simp add: branch_via_def m_bge_def)
    moreover have "branch_via y c rs1 rs2 h (m_slt y x_tp rs1 rs2) (sint (rg rs1 h) < sint (rg rs2 h)) False" if "rs1 \<noteq> x_zero"
      using that t(3) BGE by (auto simp: branch_via_def m_bge_def)
    ultimately show ?thesis by blast
  next
    case BLTU
    have "branch_via y c rs1 rs2 h (m_sltu y x_tp rs1 rs2) (uint (rg rs1 h) < uint (rg rs2 h)) True"
      using t(4) BLTU by (simp add: branch_via_def m_bltu_def)
    then show ?thesis by blast
  next
    case BGEU
    have "branch_via y c rs1 rs2 h (m_sltu y x_tp rs1 rs2) (uint (rg rs1 h) < uint (rg rs2 h)) False"
      using t(4) BGEU by (auto simp: branch_via_def m_bgeu_def)
    then show ?thesis by blast
  qed
qed

lemma m_branch_select_length: "length (m_branch_select target hi here) = length (m_branch_select 0 hi 0)"
  by (simp add: macro_defs)

lemma quiet_noise: "quiet y h h' \<Longrightarrow> noise h' h'' \<Longrightarrow> quiet y h h''"
  by (auto simp: quiet_def noise_def)

lemma quiet_env:
  assumes env: "minirv_env y h" and q: "quiet y h h'"
  shows "minirv_env y h'"
proof (rule minirv_env_cong [OF env])
  show "rg x_sp h' = rg x_sp h" using q by (simp add: quiet_def)
  fix a assume "rom_at y a"
  then have "\<not> scratch (rg x_sp h) a" "\<not> region (check_same_sym y) 256 a"
    using env unfolding minirv_env_def by blast+
  then show "peek a h' = peek a h" using q unfolding quiet_def by blast
qed

lemma even_jump: "even w \<Longrightarrow> (w + scast (0 :: 12 word)) AND NOT 1 = (w :: u32)"
proof -
  assume "even w"
  then have "\<not> bit w 0" by (simp add: bit_0)
  then have "bit (w AND NOT 1) n = bit w n" if "n < LENGTH(32)" for n
    using that by (cases n) (simp_all add: bit_simps bit_1_iff)
  then have "w AND NOT 1 = w" by (rule bit_word_eqI)
  then show ?thesis by simp
qed

text \<open>A branch macro at \<open>base\<close>; the label behind it is the address of the next instruction.\<close>

definition branch_at :: "syms \<Rightarrow> cond \<Rightarrow> rid \<Rightarrow> rid \<Rightarrow> u32 \<Rightarrow> u32 \<Rightarrow> instr list" where
  "branch_at y c rs1 rs2 target base =
     branch_code y c rs1 rs2 target (base + 4 * of_nat (length (branch_code y c rs1 rs2 target 0)))"

lemma branch_correct_inner:
  assumes env: "minirv_env y h" and r: "user_reg rs1" "user_reg rs2" and al: "even target" "even base"
  shows "\<exists>h'. list_all is_base (branch_at y c rs1 rs2 target base)
    \<and> hart_steps (branch_at y c rs1 rs2 target base) base (length (branch_at y c rs1 rs2 target base)) (base, h)
      = (if cond_sem c (rg rs1 h) (rg rs2 h) then target else base + 4 * of_nat (length (branch_at y c rs1 rs2 target base)), h')
    \<and> quiet y h h' \<and> minirv_env y h'"
proof -
  obtain p P hi where v: "branch_via y c rs1 rs2 h p P hi" using branch_shape [OF env r] by blast
  let ?len = "length (branch_code y c rs1 rs2 target 0)" and ?code = "branch_at y c rs1 rs2 target base"
  let ?here = "base + 4 * of_nat ?len"
  let ?q = "p @ m_branch_select target hi ?here" and ?h = "hart_run (p @ m_branch_select target hi ?here) h"
  have t: "tests y p P h" using v by (simp add: branch_via_def)
  have code: "?code = ?q @ [Jalr x_zero x_tp 0]"
    using v by (simp add: branch_via_def branch_at_def m_branch_resolve_jump)
  have len: "length ?code = ?len"
    using v m_branch_select_length [of target hi] unfolding code by (simp add: branch_via_def m_branch_resolve_jump)
  have q: "list_all plain ?q" "length ?q \<le> 1800"
    using t macros_plain macros_length(12) [of target hi ?here] by (simp_all add: tests_def)
  have sel: "rg x_tp ?h = (if P = hi then target else ?here)" "noise (hart_run p h) ?h"
    using t m_branch_select_run [of "hart_run p h" P target hi ?here] by (simp_all add: tests_def hart_run_append)
  have quiet: "quiet y h ?h" using t sel(2) quiet_noise by (auto simp: tests_def)
  have ev: "even (rg x_tp ?h)" using sel(1) al by simp
  have "hart_steps (?q @ [Jalr x_zero x_tp 0]) base (length (?q @ [Jalr x_zero x_tp 0])) (base, h)
      = hart_step (Jalr x_zero x_tp 0) (base + 4 * of_nat (length ?q)) (hart_run ?q h)"
    using q plain_split [OF q(1)] by (intro hart_steps_jump) simp_all
  also have "\<dots> = (rg x_tp ?h, ?h)" using even_jump [OF ev] by simp
  finally have "hart_steps ?code base (length ?code) (base, h) = (rg x_tp ?h, ?h)" unfolding code .
  moreover have "(P = hi) = cond_sem c (rg rs1 h) (rg rs2 h)" using v by (simp add: branch_via_def)
  moreover have "list_all is_base ?code" unfolding code using plain_split [OF q(1)] by simp
  ultimately show ?thesis using sel(1) quiet quiet_env [OF env quiet] len by auto
qed

section \<open>Jumps and pseudo-instructions\<close>

lemma jump_via:
  assumes "even addr" and "r \<noteq> 0" and "length zs < 1000"
  shows "hart_steps (m_la r addr @ Jalr rd r 0 # zs) base 3 (base, h) = (addr, set_rg rd (base + 12) (set_rg r addr h))"
proof -
  have len: "length (m_la r addr) = 2" by (simp add: m_la_def)
  have "hart_steps (m_la r addr @ Jalr rd r 0 # zs) base (length (m_la r addr) + 1) (base, h)
      = hart_step (Jalr rd r 0) (base + 4 * of_nat (length (m_la r addr))) (hart_run (m_la r addr) h)"
    using plain_split [OF parts_plain(1) [of r addr]] assms(3) by (intro hart_steps_to_jump) (simp_all add: len)
  then have "hart_steps (m_la r addr @ Jalr rd r 0 # zs) base 3 (base, h)
      = hart_step (Jalr rd r 0) (base + 8) (set_rg r addr h)"
    unfolding len m_la_run by (simp add: numeral_3_eq_3 del: hart_step.simps hart_steps.simps)
  also have "\<dots> = (addr, set_rg rd (base + 12) (set_rg r addr h))"
    using even_jump [OF assms(1)] assms(2) by (simp add: hart_simps add.commute)
  finally show ?thesis .
qed

lemma m_jal_inner:
  assumes "even addr" and "user_reg rd" and "rd \<noteq> x_sp"
  shows "\<exists>h'. list_all is_base (m_jal rd addr)
    \<and> hart_steps (m_jal rd addr) base 3 (base, h) = (addr, h') \<and> noise (set_rg rd (base + 4 * of_nat (length (m_jal rd addr))) h) h'"
proof (cases "rd = x_zero")
  case True
  then show ?thesis
    using jump_via [OF assms(1), of x_tp "[]" x_zero base h] plain_split [OF parts_plain(1)]
    by (simp add: m_jal_def m_j_def hart_simps del: hart_steps.simps)
next
  case False
  moreover have "length (m_la rd addr) = 2" by (simp add: m_la_def)
  ultimately show ?thesis
    using jump_via [OF assms(1), of rd "[]" rd base h] plain_split [OF parts_plain(1)]
    by (simp add: m_jal_def m_call_template_def hart_simps del: hart_steps.simps)
qed

lemma m_tail_inner:
  assumes "even addr"
  shows "\<exists>h'. hart_steps (m_tail addr) base 3 (base, h) = (addr, h') \<and> noise h h'"
proof -
  have "m_tail addr = m_la x_tp addr @ Jalr 0 x_tp 0 # m_call_template x_ra addr" "length (m_call_template x_ra addr) < 1000"
    by (simp_all add: m_tail_def m_call_template_def m_la_def)
  then show ?thesis using jump_via [OF assms, of x_tp "m_call_template x_ra addr" 0 base h] by (simp add: hart_simps)
qed

lemma pseudo_expansions:
  "Some (m_neg y rd rs) = expand y (Op A_SUB rd x_zero rs)"
  "Some (m_snez y rd rs) = expand y (Op A_SLTU rd x_zero rs)"
  "Some (m_sgt y rd rs1 rs2) = expand y (Op A_SLT rd rs2 rs1)"
  "Some (m_sgtu y rd rs1 rs2) = expand y (Op A_SLTU rd rs2 rs1)"
  "Some (m_sgtz y rd rs) = expand y (Op A_SLT rd x_zero rs)"
  by (simp_all add: m_neg_def m_snez_def m_sgt_def m_sgtu_def m_sgtz_def)

lemma pseudo_branches:
  "m_beqz y rs target here = branch_code y BEQ rs x_zero target here"
  "m_bnez y rs target here = branch_code y BNE rs x_zero target here"
  "m_blez y rs target here = branch_code y BGE x_zero rs target here"
  "m_bgez y rs target here = branch_code y BGE rs x_zero target here"
  "m_bltz y rs target here = branch_code y BLT rs x_zero target here"
  "m_bgtz y rs target here = branch_code y BLT x_zero rs target here"
  "m_bgt y rs rt target here = branch_code y BLT rt rs target here"
  "m_ble y rs rt target here = branch_code y BGE rt rs target here"
  "m_bgtu y rs rt target here = branch_code y BLTU rt rs target here"
  "m_bleu y rs rt target here = branch_code y BGEU rt rs target here"
  by (simp_all add: m_beqz_def m_bnez_def m_blez_def m_bgez_def m_bltz_def m_bgtz_def m_bgt_def m_ble_def m_bgtu_def m_bleu_def)

end
