(* ===== verification/MinirvCorrect.thy ===== *)
theory MinirvCorrect
  imports MinirvSpec
begin

text \<open>
  The correctness theorems of the minirv macros: for programs, for branches, for jumps and for
  the pseudo-instruction \<open>seqz\<close>, with a concrete machine that has the tables in memory.
\<close>

section \<open>Programs\<close>

fun expand_all :: "syms \<Rightarrow> instr list \<Rightarrow> instr list option" where
  "expand_all y [] = Some []"
| "expand_all y (i # xs) =
     (case expand y i of None \<Rightarrow> None
      | Some c \<Rightarrow> (case expand_all y xs of None \<Rightarrow> None | Some cs \<Rightarrow> Some (c @ cs)))"

fun ok_all :: "syms \<Rightarrow> instr list \<Rightarrow> hart \<Rightarrow> bool" where
  "ok_all y [] h \<longleftrightarrow> True"
| "ok_all y (i # xs) h \<longleftrightarrow> minirv_ok y i h \<and> ok_all y xs (hart_do i h)"

lemma noise_set_rg: "noise h h' \<Longrightarrow> rd \<noteq> x_sp \<Longrightarrow> noise (set_rg rd v h) (set_rg rd v h')"
  by (auto simp: noise_def hart_simps)

text \<open>What an instruction within the calling convention reads is not disturbed by the macros.\<close>

lemma noise_do:
  assumes n: "noise h h'" and ok: "minirv_ok y i h"
  shows "noise (hart_do i h) (hart_do i h')" and "minirv_ok y i h'"
proof -
  have r: "user_reg q \<Longrightarrow> rg q h' = rg q h" for q using n by (simp add: noise_def)
  have sp: "rg x_sp h' = rg x_sp h" using r by simp
  have m: "\<not> scratch (rg x_sp h) a \<Longrightarrow> peek a h' = peek a h" for a using noise_peek [OF n] by blast
  show "minirv_ok y i h'" using ok r sp by (cases i) simp_all
  show "noise (hart_do i h) (hart_do i h')"
  proof (cases i)
    case (Load l rd b off)
    have up: "[0..<4] = [0, 1, 2, 3]" "[0..<2] = [0, 1]" "[0..<1] = [0]" by (simp_all add: upt_rec)
    from Load show ?thesis using ok r m n
      by (cases l) (simp_all add: exec_simps hart_do_half noise_set_rg up)
  next
    case (Store st b r off)
    then show ?thesis using ok r n by (cases st) (simp_all add: exec_simps hart_do_half noise_put8 put32_def)
  qed (use ok r n in \<open>simp_all add: hart_do_def noise_set_rg\<close>)
qed

lemma expand_all_run:
  assumes "minirv_env y h" and "expand_all y xs = Some code" and "ok_all y xs h" and "noise h g" and "minirv_env y g"
  shows "list_all plain code \<and> noise (hart_run xs h) (hart_run code g) \<and> minirv_env y (hart_run code g)"
  using assms
proof (induction xs arbitrary: h g code)
  case Nil
  then show ?case by simp
next
  case (Cons i xs)
  from Cons.prems(2) obtain c cs where c: "expand y i = Some c" "expand_all y xs = Some cs" "code = c @ cs"
    by (auto split: option.splits)
  have ok: "minirv_ok y i h" "ok_all y xs (hart_do i h)" using Cons.prems(3) by simp_all
  note g = noise_do [OF Cons.prems(4) ok(1)]
  have "noise (hart_do i g) (hart_run c g)" by (rule expand_noise [OF Cons.prems(5) c(1) g(2)])
  with g(1) have n: "noise (hart_do i h) (hart_run c g)" by (rule noise_trans)
  have env: "minirv_env y (hart_do i h)" by (rule hart_do_env [OF Cons.prems(1) ok(1)])
  from Cons.IH [OF env c(2) ok(2) n noise_env [OF env n]]
  show ?case using c(3) expand_shape [OF c(1)] by (simp add: hart_run_append)
qed

lemma expandable_straight: "expand y i = Some c \<Longrightarrow> straight i"
  by (cases i) simp_all

lemma expand_all_straight: "expand_all y xs = Some code \<Longrightarrow> list_all straight xs"
  by (induction xs arbitrary: code) (auto split: option.splits dest: expandable_straight)

section \<open>A machine with the tables\<close>

definition minirv_rodata :: "u8 list" where
  "minirv_rodata = same_result_table @ check_8bit_0_table @ slt1_table @ sltu1_table @ or1_table @ lut_bin"

definition example_syms :: syms where
  "example_syms = \<lparr>same_result_sym = 0x80100000, check_8bit_0_sym = 0x80100008, slt1_sym = 0x80100108,
     sltu1_sym = 0x80100110, or1_sym = 0x80100118, logic_shift_sym = 0x8010011C, check_same_sym = 0x80200000\<rparr>"

definition example_hart :: "(rid \<Rightarrow> u32) \<Rightarrow> hart" where
  "example_hart regs = \<lparr>xr = regs(x_sp := 0x80F00000),
     hmem = (\<lambda>a. if unat (a - 0x80100000) < length minirv_rodata then minirv_rodata ! unat (a - 0x80100000) else 0)\<rparr>"

lemma table_lengths: "length same_result_table = 8" "length check_8bit_0_table = 256" "length slt1_table = 8"
  "length sltu1_table = 8" "length or1_table = 4"
  by (simp_all add: same_result_table_def check_8bit_0_table_def slt1_table_def sltu1_table_def or1_table_def)

lemma region_off_stack:
  assumes "region t n a" and "n + 28 \<le> unat (s - t - 1)"
  shows "\<not> scratch s a"
proof -
  define k c where "k = unat (a - t)" and "c = unat (s - t - 1)"
  have k: "k < n" "a = t + of_nat k" using assms(1) by (simp_all add: k_def region_def)
  have c: "s - t - 1 = of_nat c" by (simp add: c_def)
  have c32: "c < 2 ^ 32" unfolding c_def using unsigned_less [of "s - t - 1"] by simp
  have kc: "k \<le> c" "28 \<le> c - k" using k(1) assms(2) by (simp_all add: c_def)
  have "s - a - 1 = (s - t - 1) - of_nat k" by (simp add: k(2))
  also have "\<dots> = of_nat (c - k)" unfolding c using kc(1) by (simp add: of_nat_diff)
  finally have "unat (s - a - 1) = c - k" using c32 by (simp only: unat_of_nat take_bit_eq_mod) simp
  then show ?thesis using kc(2) by (simp add: scratch_def word_less_nat_alt)
qed

lemma region_apart:
  assumes "region t n a" and "n \<le> unat (t' - t)" and "unat (t' - t) + n' < 2 ^ 32"
  shows "\<not> region t' n' a"
proof -
  define k d where "k = unat (a - t)" and "d = unat (t' - t)"
  have k: "k < n" "a = t + of_nat k" using assms(1) by (simp_all add: k_def region_def)
  have d: "t' = t + of_nat d" by (simp add: d_def)
  define m where "m = d - k"
  have m: "0 < m" "m + n' < 2 ^ 32" "k + m = d" using k(1) assms(2,3) by (simp_all add: m_def d_def)
  have "t' - a = of_nat m" by (simp add: k(2) d flip: m(3))
  then have neg: "a - t' = - of_nat m" by (metis minus_diff_eq)
  obtain M where M: "m + M = 2 ^ 32" using m(2) by (metis add_leD1 le_add_diff_inverse less_imp_le_nat)
  have "of_nat m + of_nat M = (of_nat (2 ^ 32) :: u32)" unfolding M [symmetric] by (rule of_nat_add [symmetric])
  also have "\<dots> = 0" by simp
  finally have "a - t' = of_nat M" unfolding neg by (rule minus_unique)
  moreover have "unat (of_nat M :: u32) = M" using M m(1) by (simp add: unat_of_nat take_bit_eq_mod)
  ultimately show ?thesis using m(2) M by (simp add: region_def)
qed

lemma example_env: "minirv_env example_syms (example_hart regs)"
proof -
  have len: "length minirv_rodata = 295196" by (simp add: minirv_rodata_def table_lengths)
  have "table_at 0x80100000 minirv_rodata (example_hart regs)"
    unfolding table_at_def by (simp add: peek_def example_hart_def len unat_of_nat take_bit_eq_mod)
  then have t: "table_at (same_result_sym example_syms) same_result_table (example_hart regs)"
    "table_at (check_8bit_0_sym example_syms) check_8bit_0_table (example_hart regs)"
    "table_at (slt1_sym example_syms) slt1_table (example_hart regs)"
    "table_at (sltu1_sym example_syms) sltu1_table (example_hart regs)"
    "table_at (or1_sym example_syms) or1_table (example_hart regs)"
    "table_at (logic_shift_sym example_syms) lut_bin (example_hart regs)"
    by (simp_all add: minirv_rodata_def table_at_append table_lengths example_syms_def)
  have sp: "rg x_sp (example_hart regs) = 0x80F00000" by (simp add: rg_def example_hart_def)
  have stack: "\<not> scratch (rg x_sp (example_hart regs)) a"
    if "rom_at example_syms a \<or> region (check_same_sym example_syms) 256 a" for a
    using that unfolding rom_at_def sp example_syms_def syms.select_convs
    by (elim disjE) (erule region_off_stack, simp)+
  have apart: "\<not> region (check_same_sym example_syms) 256 a" if "rom_at example_syms a" for a
    using that unfolding rom_at_def example_syms_def syms.select_convs
    by (elim disjE) (erule region_apart, simp, simp)+
  show ?thesis unfolding minirv_env_def using t stack apart by blast
qed

lemma expand_all_length: "expand_all y xs = Some code \<Longrightarrow> length code \<le> 901 * length xs"
proof (induction xs arbitrary: code)
  case (Cons i xs)
  from Cons.prems obtain c cs where c: "expand y i = Some c" "expand_all y xs = Some cs" "code = c @ cs"
    by (auto split: option.splits)
  show ?case using Cons.IH [OF c(2)] expand_shape [OF c(1)] c(3) by simp
qed simp

section \<open>Properties\<close>


definition example_program :: "instr list" where
  "example_program = [Op A_SLTU 10 11 12, OpImm XORI 13 10 1, ShiftImm SLLI 14 11 17, Op A_SRA 15 11 10]"


text \<open>
  C30: every conditional branch macro jumps to its target exactly when the condition of the
  RISC-V branch holds, and falls through otherwise; it changes only \<open>gp\<close>, \<open>tp\<close>, the scratch words
  and the array of \<open>seq\<close>, and consists of base instructions.
\<close>

theorem minirv_branches_correct:
  assumes "minirv_env y h" and "user_reg rs1" and "user_reg rs2" and "even target" and "even base"
    and "code = branch_at y c rs1 rs2 target base"
  shows "\<exists>h'. list_all is_base code
    \<and> hart_steps code base (length code) (base, h)
      = (if cond_sem c (rg rs1 h) (rg rs2 h) then target else base + 4 * of_nat (length code), h')
    \<and> quiet y h h' \<and> minirv_env y h'"
  unfolding assms(6) by (rule branch_correct_inner [OF assms(1-5)])

theorem minirv_branches_correct_witness:
  "\<exists>h'. hart_steps (branch_at example_syms BLT 11 12 0x80001000 0x80000000) 0x80000000
       (length (branch_at example_syms BLT 11 12 0x80001000 0x80000000)) (0x80000000, example_hart ((\<lambda>_. 0)(11 := - 5, 12 := 7)))
     = (0x80001000, h')"
proof -
  have "cond_sem BLT (rg 11 (example_hart ((\<lambda>_. 0)(11 := - 5, 12 := 7)))) (rg 12 (example_hart ((\<lambda>_. 0)(11 := - 5, 12 := 7))))"
    by (simp add: rg_def example_hart_def)
  then show ?thesis
    using minirv_branches_correct [OF example_env [of "(\<lambda>_. 0)(11 := - 5, 12 := 7)"], where ?rs1.0 = 11 and ?rs2.0 = 12
        and target = "0x80001000" and base = "0x80000000" and c = BLT] by auto
qed

text \<open>
  C31: every macro of the file, whatever its operands, expands into instructions of the minirv
  processor: \<open>add\<close>, \<open>addi\<close>, \<open>lui\<close>, \<open>lw\<close>, \<open>lbu\<close>, \<open>sw\<close>, \<open>sb\<close> and \<open>jalr\<close>.
\<close>

theorem minirv_macros_typed:
  "(\<forall>i c. expand y i = Some c \<longrightarrow> list_all is_base c)
   \<and> list_all is_base (branch_code y c rs1 rs2 target here)
   \<and> list_all is_base (m_jal rd addr) \<and> list_all is_base (m_call addr) \<and> list_all is_base (m_tail addr)
   \<and> list_all is_base (m_seqz y rd rs1) \<and> list_all is_base (m_sltz rd rs1)
   \<and> list_all is_base (m_lb y rd b off)"
proof -
  have p: "list_all plain xs \<Longrightarrow> list_all is_base xs" for xs using plain_split by blast
  have la: "list_all is_base (m_la r a)" for r a using p parts_plain(1) by blast
  have tests: "list_all is_base (m_seqz y x_tp r)" "list_all is_base (m_seq y x_tp r r')" "list_all is_base (m_slt y x_tp r r')"
    "list_all is_base (m_sltu y x_tp r r')" "list_all is_base (m_msb x_tp r)" "list_all is_base (m_not_positive y r)" for r r'
    unfolding m_slt_def m_sltu_def by (rule p, simp add: macros_plain blocks_plain)+
  have sel: "list_all is_base (m_branch_resolve t hi x)" for t hi x
    using p [OF macros_plain(8)] by (simp add: m_branch_resolve_jump)
  have "list_all is_base (branch_code y c rs1 rs2 target here)"
    by (cases c) (simp_all add: m_beq_def m_bne_def m_blt_def m_bge_def m_bltu_def m_bgeu_def tests sel)
  moreover have "list_all is_base (m_jal rd addr)" "list_all is_base (m_call addr)" "list_all is_base (m_tail addr)"
    by (simp_all add: m_jal_def m_j_def m_call_def m_tail_def m_call_template_def la)
  moreover have "list_all is_base (m_seqz y rd rs1)" "list_all is_base (m_sltz rd rs1)" "list_all is_base (m_lb y rd b off)"
    unfolding m_sltz_def by (rule p, simp add: macros_plain blocks_plain load_macros_plain)+
  ultimately show ?thesis using p expand_shape by blast
qed

theorem minirv_macros_typed_witness:
  "\<exists>c. expand example_syms (Op A_SRA 10 11 12) = Some c \<and> list_all is_base c"
proof -
  have e: "expand example_syms (Op A_SRA 10 11 12) = Some (m_sra example_syms 10 11 12)" by simp
  have "\<forall>i c. expand example_syms i = Some c \<longrightarrow> list_all is_base c"
    using minirv_macros_typed by blast
  then show ?thesis using e by blast
qed

text \<open>
  C32: \<open>seqz rd, rs\<close> sets \<open>rd\<close> to 1 or 0 as \<open>rs\<close> is zero or not, except when \<open>rd\<close> is \<open>s0\<close>: there the
  macro restores the old value of \<open>s0\<close> over the result, and the instruction has no effect at all.
\<close>

theorem minirv_seqz_correct:
  assumes "minirv_env y h" and "code = m_seqz y rd rs" and "rd \<noteq> x_sp" and "user_reg rd"
  shows "\<exists>h'. hart_steps code base (length code) (base, h) = (base + 4 * of_nat (length code), h')
    \<and> noise (if rd = x_s0 then h else set_rg rd (truth (rg rs h = 0)) h) h'"
proof -
  have "hart_steps code base (length code) (base, h) = (base + 4 * of_nat (length code), hart_run code h)"
    unfolding assms(2) using macros_plain(3) macros_length(4) [of y rd rs] by (intro plain_run) simp_all
  then show ?thesis
    using m_seqz_s0 [OF assms(1), of rs] same_but_noise [OF m_seqz_run [OF assms(1,3), of rs]] assms(2) by auto
qed

theorem minirv_seqz_correct_witness:
  "(\<exists>p h'. hart_steps (m_seqz example_syms x_s0 11) 0 (length (m_seqz example_syms x_s0 11)) (0, example_hart (\<lambda>_. 0)) = (p, h')
     \<and> rg x_s0 h' = 0)
   \<and> (\<exists>p h'. hart_steps (m_seqz example_syms 10 11) 0 (length (m_seqz example_syms 10 11)) (0, example_hart (\<lambda>_. 0)) = (p, h')
     \<and> rg 10 h' = 1)"
proof -
  let ?h = "example_hart (\<lambda>_. 0)"
  from minirv_seqz_correct [OF example_env [of "\<lambda>_. 0"] refl, where rd = x_s0 and rs = 11 and base = 0]
  obtain h1 where 1: "hart_steps (m_seqz example_syms x_s0 11) 0 (length (m_seqz example_syms x_s0 11)) (0, ?h)
      = (0 + 4 * of_nat (length (m_seqz example_syms x_s0 11)), h1)" "noise ?h h1" by auto
  from minirv_seqz_correct [OF example_env [of "\<lambda>_. 0"] refl, where rd = 10 and rs = 11 and base = 0]
  obtain h2 where 2: "hart_steps (m_seqz example_syms 10 11) 0 (length (m_seqz example_syms 10 11)) (0, ?h)
      = (0 + 4 * of_nat (length (m_seqz example_syms 10 11)), h2)" "noise (set_rg 10 (truth (rg 11 ?h = 0)) ?h) h2" by auto
  have "rg x_s0 h1 = 0" using noise_rg [OF 1(2), of x_s0] by (simp add: rg_def example_hart_def)
  moreover have "rg 11 ?h = 0" by (simp add: rg_def example_hart_def)
  then have "rg 10 h2 = 1" using noise_rg [OF 2(2), of 10] by (simp add: hart_simps truth_def)
  ultimately show ?thesis using 1(1) 2(1) by blast
qed

end
