(* ===== verification/Gdb.thy ===== *)
theory Gdb
  imports Prelude
begin

text \<open>
  The client of the GDB remote protocol, \<open>nemu/tools/qemu-diff/src/protocol.c\<close>. A connection
  is the bytes that have arrived and were not read, the acknowledgement mode and the peer. The
  peer is a parameter \<open>srv\<close>: what it answers to the bytes the client flushes, \<open>None\<close> when the
  write fails. At the end of the input \<open>fgetc\<close> returns \<open>EOF\<close>: the peer has closed the
  connection. The heap memory \<open>malloc\<close> hands out has unknown contents, the parameter \<open>junk\<close>.
\<close>

section \<open>Hexadecimal digits\<close>

text \<open>The C library's \<open>isdigit\<close>, \<open>isxdigit\<close> and \<open>tolower\<close> in the C locale.\<close>

definition c_isdigit :: "u8 \<Rightarrow> bool" where
  "c_isdigit c \<longleftrightarrow> 0x30 \<le> c \<and> c \<le> 0x39"

definition c_isxdigit :: "u8 \<Rightarrow> bool" where
  "c_isxdigit c \<longleftrightarrow> c_isdigit c \<or> 0x61 \<le> c \<and> c \<le> 0x66 \<or> 0x41 \<le> c \<and> c \<le> 0x46"

definition c_tolower :: "u8 \<Rightarrow> u8" where
  "c_tolower c = (if 0x41 \<le> c \<and> c \<le> 0x5A then c + 0x20 else c)"

definition hex_nibble :: "u8 \<Rightarrow> u8" where
  "hex_nibble hex = (if c_isdigit hex then hex - 0x30 else c_tolower hex - 0x61 + 10)"

definition hex_encode :: "u8 \<Rightarrow> u8" where
  "hex_encode digit = (if digit > 9 then 0x61 + digit - 10 else 0x30 + digit)"

definition gdb_decode_hex :: "u8 \<Rightarrow> u8 \<Rightarrow> u16" where
  "gdb_decode_hex msb lsb =
     (if \<not> c_isxdigit msb \<or> \<not> c_isxdigit lsb then 0xFFFF
      else 16 * ucast (hex_nibble msb) + ucast (hex_nibble lsb))"

text \<open>
  The loop of \<open>gdb_decode_hex_str\<close> over a buffer of \<open>cap\<close> bytes; \<open>bytes\<close> is the pointer, as an
  offset into the buffer.
\<close>

function decode_hex_loop :: "(nat \<Rightarrow> u8) \<Rightarrow> nat \<Rightarrow> nat \<Rightarrow> u64 \<Rightarrow> u64 \<Rightarrow> u64 res" where
  "decode_hex_loop buf cap bytes value weight =
     (if cap \<le> bytes then Inl OutOfBounds
      else if \<not> c_isxdigit (buf bytes) then Inr value
      else if cap \<le> bytes + 1 then Inl OutOfBounds
      else if \<not> c_isxdigit (buf (bytes + 1)) then Inr value
      else decode_hex_loop buf cap (bytes + 2)
             (value + weight * ucast (gdb_decode_hex (buf bytes) (buf (bytes + 1)))) (weight * (16 * 16)))"
  by pat_completeness auto
termination by (relation "measure (\<lambda>(buf, cap, bytes, value, weight). cap - bytes)") auto

declare decode_hex_loop.simps [simp del]

definition gdb_decode_hex_str :: "(nat \<Rightarrow> u8) \<Rightarrow> nat \<Rightarrow> nat \<Rightarrow> u64 res" where
  "gdb_decode_hex_str buf cap bytes = decode_hex_loop buf cap bytes 0 1"

section \<open>The connection\<close>

record 'q gdb_conn =
  inp :: "u8 list"
  ack :: bool
  peer :: 'q

type_synonym 'q server = "u8 list \<Rightarrow> 'q \<Rightarrow> (u8 list \<times> 'q) option"

text \<open>\<open>fgetc\<close>; \<open>None\<close> is \<open>EOF\<close>, which is 255 as a byte.\<close>

fun c_fgetc :: "u8 list \<Rightarrow> u8 option \<times> u8 list" where
  "c_fgetc [] = (None, [])"
| "c_fgetc (c # s) = (Some c, s)"

fun eof_byte :: "u8 option \<Rightarrow> u8" where
  "eof_byte None = 0xFF"
| "eof_byte (Some c) = c"

definition conn_getc :: "'q gdb_conn \<Rightarrow> u8 option \<times> 'q gdb_conn" where
  "conn_getc conn = (case c_fgetc (inp conn) of (c, s) \<Rightarrow> (c, conn\<lparr>inp := s\<rparr>))"

text \<open>\<open>fputc\<close> and \<open>fflush\<close> with no look at the result.\<close>

definition conn_flush :: "'q server \<Rightarrow> u8 list \<Rightarrow> 'q gdb_conn \<Rightarrow> 'q gdb_conn" where
  "conn_flush srv bs conn = (case srv bs (peer conn) of None \<Rightarrow> conn
     | Some (r, q) \<Rightarrow> conn\<lparr>inp := inp conn @ r, peer := q\<rparr>)"

definition gdb_begin :: "'q server \<Rightarrow> 'q \<Rightarrow> 'q gdb_conn" where
  "gdb_begin srv q = conn_flush srv [0x2B] \<lparr>inp = [], ack = True, peer = q\<rparr>"

section \<open>Sending\<close>

text \<open>One digit of \<open>%02X\<close>.\<close>

definition upper_hex :: "u8 \<Rightarrow> u8" where
  "upper_hex d = (if d > 9 then 0x41 + d - 10 else 0x30 + d)"

definition gdb_packet :: "u8 list \<Rightarrow> u8 list" where
  "gdb_packet command = (let sum = foldl (+) 0 command in
     [0x24] @ command @ [0x23, upper_hex (sum div 16), upper_hex (sum mod 16)])"

definition send_packet :: "'q server \<Rightarrow> u8 list \<Rightarrow> 'q gdb_conn \<Rightarrow> 'q gdb_conn res" where
  "send_packet srv command conn = (case srv (gdb_packet command) (peer conn) of
       None \<Rightarrow> Inl (HostExit 1)
     | Some (r, q) \<Rightarrow> Inr (conn\<lparr>inp := inp conn @ r, peer := q\<rparr>))"

partial_function (option) gdb_send :: "'q server \<Rightarrow> u8 list \<Rightarrow> 'q gdb_conn \<Rightarrow> 'q gdb_conn run" where
  "gdb_send srv command conn =
     bind_run (Some (send_packet srv command conn)) (\<lambda>conn1.
     if \<not> ack conn1 then Some (Inr conn1)
     else case conn_getc conn1 of (c, conn2) \<Rightarrow>
       if c = Some 0x2B then Some (Inr conn2) else gdb_send srv command conn2)"

section \<open>Receiving\<close>

text \<open>
  The state of \<open>recv_packet\<close>: the buffer with its allocated size (what is beyond it is what
  \<open>realloc\<close> will find there), the number of bytes written, the checksum and the escape flag.
\<close>

record rx =
  rbuf :: "nat \<Rightarrow> u8"
  rcap :: nat
  rpos :: nat
  rsum :: u8
  resc :: bool

definition rx_store :: "nat \<Rightarrow> u8 \<Rightarrow> rx \<Rightarrow> rx res" where
  "rx_store i c r = (if i < rcap r then Inr (r\<lparr>rbuf := (rbuf r)(i := c)\<rparr>) else Inl OutOfBounds)"

text \<open>Lines 250-265: add one character.\<close>

definition rx_put :: "u8 \<Rightarrow> rx \<Rightarrow> rx res" where
  "rx_put c r =
     (let c = (if resc r then c XOR 0x20 else c);
          r = r\<lparr>resc := False\<rparr>;
          r = (if rpos r = rcap r then r\<lparr>rcap := 2 * rcap r\<rparr> else r)
      in bind_res (rx_store (rpos r) c r) (\<lambda>r. Inr (r\<lparr>rpos := rpos r + 1\<rparr>)))"

text \<open>Lines 231-244: repeat the last character.\<close>

definition rx_repeat :: "nat \<Rightarrow> rx \<Rightarrow> rx res" where
  "rx_repeat count r =
     (let r = (if rpos r + count > rcap r then r\<lparr>rcap := 2 * rcap r\<rparr> else r)
      in if rpos r = 0 \<or> rcap r < rpos r + count then Inl OutOfBounds
         else Inr (r\<lparr>rbuf := (\<lambda>k. if rpos r \<le> k \<and> k < rpos r + count then rbuf r (rpos r - 1) else rbuf r k),
                    rpos := rpos r + count\<rparr>))"

text \<open>Lines 196-213: the checksum and the terminating zero.\<close>

definition rx_end :: "rx \<Rightarrow> u8 list \<Rightarrow> (rx \<times> bool \<times> u8 list) res" where
  "rx_end r s =
     (let r = r\<lparr>rsum := rsum r - 0x23\<rparr> in
      case c_fgetc s of (msb, s1) \<Rightarrow> case c_fgetc s1 of (lsb, s2) \<Rightarrow>
      let ok = (ucast (rsum r) = gdb_decode_hex (eof_byte msb) (eof_byte lsb));
          r = (if rpos r = rcap r then r\<lparr>rcap := rcap r + 1\<rparr> else r)
      in bind_res (rx_store (rpos r) 0 r) (\<lambda>r. Inr (r, ok, s2)))"

definition bad_count :: "u8 option \<Rightarrow> bool" where
  "bad_count c2 = (case c2 of None \<Rightarrow> True | Some c \<Rightarrow> c < 29 \<or> c > 126 \<or> c = 0x24 \<or> c = 0x23)"

function recv_loop :: "rx \<Rightarrow> u8 list \<Rightarrow> (rx \<times> bool \<times> u8 list) res" where
  "recv_loop r [] = Inl (HostExit 0)"
| "recv_loop r (c # s) =
     (let r = r\<lparr>rsum := rsum r + c\<rparr> in
      if c = 0x24 then recv_loop (r\<lparr>rpos := 0, rsum := 0, resc := False\<rparr>) s
      else if c = 0x23 then rx_end r s
      else if c = 0x7D then recv_loop (r\<lparr>resc := True\<rparr>) s
      else if c = 0x2A \<and> rpos r > 0 \<and> \<not> bad_count (fst (c_fgetc s)) then
        bind_res (rx_repeat (unat (hd s) - 29) r) (\<lambda>r. recv_loop (r\<lparr>rsum := rsum r + hd s\<rparr>) (tl s))
      else bind_res (rx_put c r) (\<lambda>r. recv_loop r s))"
  by pat_completeness auto
termination by (relation "measure (\<lambda>(r, s). length s)") (auto simp: less_Suc_eq_le)

declare recv_loop.simps(2) [simp del]

fun skip_to_start :: "u8 list \<Rightarrow> u8 list" where
  "skip_to_start [] = []"
| "skip_to_start (c # s) = (if c = 0x24 then s else skip_to_start s)"

definition recv_packet :: "(nat \<Rightarrow> u8) \<Rightarrow> u8 list \<Rightarrow> (rx \<times> bool \<times> u8 list) res" where
  "recv_packet junk s =
     recv_loop \<lparr>rbuf = junk, rcap = 4096, rpos = 0, rsum = 0, resc = False\<rparr> (skip_to_start s)"

partial_function (option) gdb_recv :: "'q server \<Rightarrow> (nat \<Rightarrow> u8) \<Rightarrow> 'q gdb_conn \<Rightarrow> (rx \<times> 'q gdb_conn) run" where
  "gdb_recv srv junk conn =
     bind_run (Some (recv_packet junk (inp conn))) (\<lambda>(reply, acked, rest).
     let conn1 = conn\<lparr>inp := rest\<rparr> in
     if \<not> ack conn1 then Some (Inr (reply, conn1))
     else let conn2 = conn_flush srv [if acked then 0x2B else 0x2D] conn1 in
       if acked then Some (Inr (reply, conn2)) else gdb_recv srv junk conn2)"

text \<open>\<open>strcmp(reply, "OK") == 0\<close>, and the whole of \<open>gdb_start_noack\<close>.\<close>

definition ascii :: "string \<Rightarrow> u8 list" where
  "ascii cs = map of_char cs"

definition reply_ok :: "rx \<Rightarrow> bool" where
  "reply_ok r \<longleftrightarrow> rbuf r 0 = 0x4F \<and> rbuf r 1 = 0x4B \<and> rbuf r 2 = 0"

definition gdb_start_noack :: "'q server \<Rightarrow> (nat \<Rightarrow> u8) \<Rightarrow> 'q gdb_conn \<Rightarrow> (string \<times> 'q gdb_conn) run" where
  "gdb_start_noack srv junk conn =
     bind_run (gdb_send srv (ascii ''QStartNoAckMode'') conn) (\<lambda>conn.
     bind_run (gdb_recv srv junk conn) (\<lambda>(reply, conn).
     let ok = (rpos reply = 2 \<and> reply_ok reply) in
     Some (Inr (if ok then ''OK'' else '''', if ok then conn\<lparr>ack := False\<rparr> else conn))))"

end
