(* ===== verification/GdbSpec.thy ===== *)
theory GdbSpec
  imports Gdb
begin

text \<open>
  What the protocol client guarantees: the receiver stays in its buffer on every input and
  decodes every encoding of a packet; the sender repeats its packet until it is acknowledged;
  and against a server that keeps the protocol, one exchange gives the server's answer.
\<close>

section \<open>Hexadecimal digits\<close>

lemma nibble_cases:
  fixes h :: u8
  assumes "h < 16"
  shows "h \<in> set [0, 1, 2, 3, 4, 5, 6, 7, 8, 9, 10, 11, 12, 13, 14, 15]"
proof -
  have up: "[0..<16] = [0, 1, 2, 3, 4, 5, 6, 7, 8, 9, 10, 11, 12, 13, 14, 15]" by (simp add: upt_rec)
  have "unat h \<in> set [0..<16]" using assms by (simp add: word_less_nat_alt)
  then have "of_nat (unat h) \<in> set (map (of_nat :: nat \<Rightarrow> u8) [0..<16])"
    unfolding set_map by (rule imageI)
  then show ?thesis unfolding up by simp
qed

lemma hex_digits_table:
  "list_all (\<lambda>h. c_isxdigit (hex_encode h) \<and> hex_nibble (hex_encode h) = h
     \<and> c_isxdigit (upper_hex h) \<and> hex_nibble (upper_hex h) = h)
   [0, 1, 2, 3, 4, 5, 6, 7, 8, 9, 10, 11, 12, 13, 14, 15]"
  by (simp add: c_isxdigit_def c_isdigit_def hex_encode_def upper_hex_def hex_nibble_def c_tolower_def)

lemma hex_digits_read:
  assumes "h < 16"
  shows "c_isxdigit (hex_encode h)" "hex_nibble (hex_encode h) = h"
    "c_isxdigit (upper_hex h)" "hex_nibble (upper_hex h) = h"
  using nibble_cases [OF assms] hex_digits_table unfolding list_all_iff by blast+

lemma hex_byte:
  fixes b :: u8
  shows "16 * (ucast (b div 16) :: u16) + ucast (b mod 16) = ucast b" "b div 16 < 16" "b mod 16 < 16"
proof -
  have u: "uint b < 256" "0 \<le> uint b" using uint_lt2p [of b] by simp_all
  show "b div 16 < 16" "b mod 16 < 16"
    using u by (simp_all add: word_less_def uint_div uint_mod)
  have *: "16 * uint (b div 16) + uint (b mod 16) = uint b" by (simp add: uint_div uint_mod)
  have "16 * (word_of_int (uint (b div 16)) :: u16) + word_of_int (uint (b mod 16)) = word_of_int (uint b)"
    unfolding * [symmetric] by simp
  then show "16 * (ucast (b div 16) :: u16) + ucast (b mod 16) = ucast b" by (simp add: word_of_int_uint)
qed

lemma gdb_decode_hex_encode [simp]:
  "gdb_decode_hex (hex_encode (b div 16)) (hex_encode (b mod 16)) = ucast b"
  "gdb_decode_hex (upper_hex (b div 16)) (upper_hex (b mod 16)) = ucast b"
  using hex_byte [of b] by (simp_all add: gdb_decode_hex_def hex_digits_read)

section \<open>The receiver stays in its buffer\<close>

definition rx_ok :: "rx \<Rightarrow> bool" where
  "rx_ok r \<longleftrightarrow> rpos r \<le> rcap r \<and> 4096 \<le> rcap r"

definition rx_bytes :: "rx \<Rightarrow> u8 list" where
  "rx_bytes r = map (rbuf r) [0..<rpos r]"

lemma length_rx_bytes [simp]: "length (rx_bytes r) = rpos r"
  by (simp add: rx_bytes_def)

lemma rx_bytes_cong: "rpos r' = rpos r \<Longrightarrow> rbuf r' = rbuf r \<Longrightarrow> rx_bytes r' = rx_bytes r"
  by (simp add: rx_bytes_def)

lemma rx_put_run:
  assumes "rx_ok r"
  obtains r' where "rx_put c r = Inr r'" "rx_ok r'" "rsum r' = rsum r" "\<not> resc r'"
    "rx_bytes r' = rx_bytes r @ [if resc r then c XOR 0x20 else c]"
proof -
  define r1 where "r1 = (if rpos r = rcap r then r\<lparr>resc := False, rcap := 2 * rcap r\<rparr> else r\<lparr>resc := False\<rparr>)"
  have r1: "rpos r1 < rcap r1" "rpos r1 = rpos r" "rbuf r1 = rbuf r" "rsum r1 = rsum r" "\<not> resc r1" "4096 \<le> rcap r1"
    using assms by (auto simp: r1_def rx_ok_def)
  let ?c = "if resc r then c XOR 0x20 else c"
  have "rx_put c r = Inr (r1\<lparr>rbuf := (rbuf r1)(rpos r1 := ?c), rpos := rpos r1 + 1\<rparr>)"
    using assms by (cases "rpos r = rcap r") (simp_all add: rx_put_def rx_store_def r1_def rx_ok_def)
  then show ?thesis using that r1 by (fastforce simp: rx_ok_def rx_bytes_def)
qed

lemma rx_repeat_run:
  assumes "rx_ok r" and "0 < rpos r" and "count \<le> 97"
  obtains r' where "rx_repeat count r = Inr r'" "rx_ok r'" "rsum r' = rsum r" "resc r' = resc r"
    "rx_bytes r' = rx_bytes r @ replicate count (last (rx_bytes r))"
proof -
  define r1 where "r1 = (if rpos r + count > rcap r then r\<lparr>rcap := 2 * rcap r\<rparr> else r)"
  have r1: "rpos r + count \<le> rcap r1" "rpos r1 = rpos r" "rbuf r1 = rbuf r" "rsum r1 = rsum r" "resc r1 = resc r" "4096 \<le> rcap r1"
    using assms by (auto simp: r1_def rx_ok_def)
  define r' where "r' = r1\<lparr>rbuf := (\<lambda>k. if rpos r1 \<le> k \<and> k < rpos r1 + count then rbuf r1 (rpos r1 - 1) else rbuf r1 k),
                    rpos := rpos r1 + count\<rparr>"
  have "rx_repeat count r = Inr r'" using assms(2) r1 by (simp add: rx_repeat_def r1_def [symmetric] r'_def)
  moreover have "last (rx_bytes r) = rbuf r (rpos r - 1)"
    using assms(2) by (cases "rpos r") (simp_all add: rx_bytes_def)
  moreover have "rx_bytes r' = rx_bytes r @ replicate count (rbuf r (rpos r - 1))"
    by (rule nth_equalityI) (auto simp: rx_bytes_def r'_def r1 nth_append)
  ultimately show ?thesis using that [of r'] r1 by (simp add: r'_def rx_ok_def)
qed

lemma rx_end_run:
  assumes "rx_ok r"
  obtains r' ok where "rx_end r s = Inr (r', ok, drop 2 s)" "rpos r' < rcap r'" "4096 \<le> rcap r'" "rbuf r' (rpos r') = 0"
    "rx_bytes r' = rx_bytes r"
    "ok = (ucast (rsum r - 0x23) = gdb_decode_hex (eof_byte (fst (c_fgetc s))) (eof_byte (fst (c_fgetc (tl s)))))"
proof -
  have d: "snd (c_fgetc s) = tl s" "snd (c_fgetc (tl s)) = drop 2 s" for s
    by (cases s; cases "tl s"; simp)+
  define r1 where "r1 = (if rpos r = rcap r then r\<lparr>rsum := rsum r - 0x23, rcap := rcap r + 1\<rparr> else r\<lparr>rsum := rsum r - 0x23\<rparr>)"
  have r1: "rpos r1 < rcap r1" "rpos r1 = rpos r" "rbuf r1 = rbuf r" "4096 \<le> rcap r1"
    using assms by (auto simp: r1_def rx_ok_def)
  let ?r = "r1\<lparr>rbuf := (rbuf r1)(rpos r1 := 0)\<rparr>"
    and ?ok = "ucast (rsum r - 0x23) = gdb_decode_hex (eof_byte (fst (c_fgetc s))) (eof_byte (fst (c_fgetc (tl s))))"
  have "rx_end r s = Inr (?r, ?ok, drop 2 s)"
    using assms by (cases s; cases "tl s"; cases "rpos r = rcap r") (simp_all add: rx_end_def rx_store_def r1_def rx_ok_def)
  moreover have "rx_bytes ?r = rx_bytes r" using r1 by (simp add: rx_bytes_def)
  ultimately show thesis using that [of ?r ?ok] r1 by simp
qed

definition rx_result :: "nat \<Rightarrow> (rx \<times> bool \<times> u8 list) res \<Rightarrow> bool" where
  "rx_result n m = (case m of Inl e \<Rightarrow> e = HostExit 0
     | Inr (r, ok, rest) \<Rightarrow> rpos r < rcap r \<and> 4096 \<le> rcap r \<and> rbuf r (rpos r) = 0 \<and> length rest \<le> n)"

lemma rx_result_mono: "rx_result n m \<Longrightarrow> n \<le> n' \<Longrightarrow> rx_result n' m"
  by (auto simp: rx_result_def split: sum.splits)

lemma count_small: "\<not> bad_count (fst (c_fgetc s)) \<Longrightarrow> unat (hd s) - 29 \<le> 97 \<and> s \<noteq> []"
  by (cases s) (auto simp: bad_count_def word_less_nat_alt not_less)

lemma recv_loop_result: "rx_ok r \<Longrightarrow> rx_result (length s) (recv_loop r s)"
proof (induction r s rule: recv_loop.induct)
  case (1 r)
  then show ?case by (simp add: rx_result_def)
next
  case IS: (2 r c s)
  let ?r = "r\<lparr>rsum := rsum r + c\<rparr>"
  have ok: "rx_ok ?r" "rx_ok (?r\<lparr>rpos := 0, rsum := 0, resc := False\<rparr>)" "rx_ok (?r\<lparr>resc := True\<rparr>)"
    using IS(5) by (simp_all add: rx_ok_def)
  note IH = IS(1) [OF refl _ ok(2)] IS(2) [OF refl _ _ _ ok(3)]
  define rle where "rle \<longleftrightarrow> c = 0x2A \<and> rpos ?r > 0 \<and> \<not> bad_count (fst (c_fgetc s))"
  have step: "recv_loop r (c # s) =
      (if c = 0x24 then recv_loop (?r\<lparr>rpos := 0, rsum := 0, resc := False\<rparr>) s
       else if c = 0x23 then rx_end ?r s
       else if c = 0x7D then recv_loop (?r\<lparr>resc := True\<rparr>) s
       else if rle then bind_res (rx_repeat (unat (hd s) - 29) ?r) (\<lambda>r. recv_loop (r\<lparr>rsum := rsum r + hd s\<rparr>) (tl s))
       else bind_res (rx_put c ?r) (\<lambda>r. recv_loop r s))"
    unfolding rle_def by (simp only: recv_loop.simps(2) Let_def)
  consider "c = 0x24" | "c \<noteq> 0x24" "c = 0x23" | "c \<noteq> 0x24" "c \<noteq> 0x23" "c = 0x7D"
    | (rle) "c \<noteq> 0x24" "c \<noteq> 0x23" "c \<noteq> 0x7D" "rle"
    | (put) "c \<noteq> 0x24" "c \<noteq> 0x23" "c \<noteq> 0x7D" "\<not> rle"
    by blast
  then show ?case
  proof cases
    case 1
    then show ?thesis unfolding step using rx_result_mono [OF IH(1)] by simp
  next
    case 2
    obtain r' k where "rx_end ?r s = Inr (r', k, drop 2 s)" "rpos r' < rcap r'" "4096 \<le> rcap r'" "rbuf r' (rpos r') = 0"
      by (rule rx_end_run [OF ok(1), of s])
    then show ?thesis unfolding step using 2 by (simp add: rx_result_def)
  next
    case 3
    then show ?thesis unfolding step using rx_result_mono [OF IH(2)] by simp
  next
    case rle
    have q: "c = 0x2A \<and> rpos ?r > 0 \<and> \<not> bad_count (fst (c_fgetc s))" using rle(4) unfolding rle_def .
    obtain r' where r': "rx_repeat (unat (hd s) - 29) ?r = Inr r'" "rx_ok r'"
      using rx_repeat_run [OF ok(1), of "unat (hd s) - 29"] count_small [of s] q by blast
    have "rx_ok (r'\<lparr>rsum := rsum r' + hd s\<rparr>)" using r'(2) by (simp add: rx_ok_def)
    from IS(3) [OF refl rle(1-3) q r'(1) this] have "rx_result (length (tl s)) (recv_loop (r'\<lparr>rsum := rsum r' + hd s\<rparr>) (tl s))" .
    from rx_result_mono [OF this, of "length (c # s)"] show ?thesis unfolding step using rle r' by simp
  next
    case put
    obtain r' where r': "rx_put c ?r = Inr r'" "rx_ok r'" by (rule rx_put_run [OF ok(1)])
    from IS(4) [OF refl put(1-3) put(4) [unfolded rle_def] r'] have "rx_result (length s) (recv_loop r' s)" .
    from rx_result_mono [OF this, of "length (c # s)"] show ?thesis unfolding step using put r' by simp
  qed
qed

section \<open>Encodings of a packet\<close>

datatype item = Lit u8 | Esc u8 | Rep nat

definition special :: "u8 \<Rightarrow> bool" where
  "special c \<longleftrightarrow> c = 0x24 \<or> c = 0x23 \<or> c = 0x7D \<or> c = 0x2A"

fun item_text :: "item \<Rightarrow> u8 list" where
  "item_text (Lit c) = [c]"
| "item_text (Esc c) = [0x7D, c XOR 0x20]"
| "item_text (Rep n) = [0x2A, of_nat (n + 29)]"

fun item_ok :: "u8 list \<Rightarrow> item \<Rightarrow> bool" where
  "item_ok acc (Lit c) \<longleftrightarrow> \<not> special c"
| "item_ok acc (Esc c) \<longleftrightarrow> \<not> special (c XOR 0x20)"
| "item_ok acc (Rep n) \<longleftrightarrow> acc \<noteq> [] \<and> n \<le> 97 \<and> n \<noteq> 6 \<and> n \<noteq> 7"

fun item_sem :: "u8 list \<Rightarrow> item \<Rightarrow> u8 list" where
  "item_sem acc (Lit c) = acc @ [c]"
| "item_sem acc (Esc c) = acc @ [c]"
| "item_sem acc (Rep n) = acc @ replicate n (last acc)"

fun items_ok :: "u8 list \<Rightarrow> item list \<Rightarrow> bool" where
  "items_ok acc [] \<longleftrightarrow> True"
| "items_ok acc (i # its) \<longleftrightarrow> item_ok acc i \<and> items_ok (item_sem acc i) its"

definition items_data :: "item list \<Rightarrow> u8 list" where
  "items_data its = foldl item_sem [] its"

definition body_text :: "item list \<Rightarrow> u8 list" where
  "body_text its = concat (map item_text its)"

lemma recv_loop_item:
  assumes "rx_ok r" and "\<not> resc r" and "item_ok (rx_bytes r) i"
  shows "\<exists>r'. recv_loop r (item_text i @ s) = recv_loop r' s \<and> rx_ok r' \<and> \<not> resc r'
     \<and> rx_bytes r' = item_sem (rx_bytes r) i \<and> rsum r' = foldl (+) (rsum r) (item_text i)"
proof (cases i)
  case (Lit c)
  let ?r = "r\<lparr>rsum := rsum r + c\<rparr>"
  have c: "c \<noteq> 0x24" "c \<noteq> 0x23" "c \<noteq> 0x7D" "c \<noteq> 0x2A" using assms(3) Lit by (simp_all add: special_def)
  have "rx_ok ?r" using assms(1) by (simp add: rx_ok_def)
  from rx_put_run [OF this, of c] obtain r' where r': "rx_put c ?r = Inr r'" "rx_ok r'" "rsum r' = rsum r + c"
    "\<not> resc r'" "rx_bytes r' = rx_bytes ?r @ [c]" using assms(2) by auto
  have "recv_loop r (c # s) = recv_loop r' s" using c r'(1) by (simp add: recv_loop.simps(2))
  then show ?thesis using r'(2-5) Lit by (auto simp: rx_bytes_def)
next
  case (Esc c)
  let ?c = "c XOR 0x20"
  let ?u = "r\<lparr>rsum := rsum r + 0x7D, resc := True\<rparr>"
  let ?r = "?u\<lparr>rsum := rsum ?u + ?c\<rparr>"
  have c: "?c \<noteq> 0x24" "?c \<noteq> 0x23" "?c \<noteq> 0x7D" "?c \<noteq> 0x2A" using assms(3) Esc by (simp_all add: special_def)
  have "rx_ok ?r" using assms(1) by (simp add: rx_ok_def)
  from rx_put_run [OF this, of ?c] obtain r' where r': "rx_put ?c ?r = Inr r'" "rx_ok r'" "rsum r' = rsum r + 0x7D + ?c"
    "\<not> resc r'" "rx_bytes r' = rx_bytes ?r @ [?c XOR 0x20]" by auto
  have "recv_loop r (0x7D # ?c # s) = recv_loop ?u (?c # s)" by (simp add: recv_loop.simps(2) [of r "0x7D"])
  also have "\<dots> = recv_loop r' s"
    using c r'(1) by (simp only: recv_loop.simps(2) [of ?u] Let_def) simp
  finally show ?thesis using r'(2-5) Esc by (auto simp: rx_bytes_def xor.assoc)
next
  case (Rep n)
  let ?r = "r\<lparr>rsum := rsum r + 0x2A\<rparr>" and ?b = "of_nat (n + 29) :: u8"
  have ok: "rx_ok ?r" "0 < rpos ?r" using assms Rep by (auto simp: rx_ok_def rx_bytes_def)
  have n: "n \<le> 97" "n \<noteq> 6" "n \<noteq> 7" using assms Rep by simp_all
  have u: "unat ?b = n + 29" using n(1) by (simp only: unat_of_nat take_bit_eq_mod) simp
  have b: "\<not> bad_count (Some ?b)"
    unfolding bad_count_def option.case using n u
    by (simp add: word_less_nat_alt word_unat_eq_iff del: of_nat_add)
  from rx_repeat_run [OF ok n(1)] obtain r' where r': "rx_repeat n ?r = Inr r'" "rx_ok r'" "rsum r' = rsum r + 0x2A" "resc r' = resc r"
    "rx_bytes r' = rx_bytes ?r @ replicate n (last (rx_bytes ?r))" by auto
  have "recv_loop r (0x2A # ?b # s) = recv_loop (r'\<lparr>rsum := rsum r' + ?b\<rparr>) s"
    using b ok(2) r'(1) u by (simp add: recv_loop.simps(2) del: of_nat_add)
  then show ?thesis using r'(2-5) assms(2) Rep by (auto simp: rx_bytes_def rx_ok_def simp del: of_nat_add)
qed

lemma recv_loop_items:
  assumes "rx_ok r" and "\<not> resc r" and "items_ok (rx_bytes r) its"
  shows "\<exists>r'. recv_loop r (body_text its @ s) = recv_loop r' s \<and> rx_ok r' \<and> \<not> resc r'
     \<and> rx_bytes r' = foldl item_sem (rx_bytes r) its \<and> rsum r' = foldl (+) (rsum r) (body_text its)"
  using assms
proof (induction its arbitrary: r)
  case Nil
  then show ?case by (auto simp: body_text_def)
next
  case (Cons i its)
  from recv_loop_item [OF Cons.prems(1,2), of i "body_text its @ s"] Cons.prems(3)
  obtain r1 where 1: "recv_loop r (item_text i @ body_text its @ s) = recv_loop r1 (body_text its @ s)"
    "rx_ok r1" "\<not> resc r1" "rx_bytes r1 = item_sem (rx_bytes r) i" "rsum r1 = foldl (+) (rsum r) (item_text i)"
    by auto
  from Cons.IH [OF 1(2,3)] Cons.prems(3) 1(4)
  show ?case using 1 by (auto simp: body_text_def)
qed

text \<open>A frame around a body, with the checksum in two digits of either case.\<close>

definition frame :: "item list \<Rightarrow> u8 list \<Rightarrow> bool" where
  "frame its bs \<longleftrightarrow> (\<exists>m l. bs = [0x24] @ body_text its @ [0x23, m, l]
      \<and> gdb_decode_hex m l = ucast (foldl (+) (0 :: u8) (body_text its)))"

lemma skip_noise: "0x24 \<notin> set noise \<Longrightarrow> skip_to_start (noise @ 0x24 # s) = s"
  by (induction noise) auto

lemma recv_packet_frame:
  assumes "frame its bs" and "items_ok [] its" and "0x24 \<notin> set noise"
  shows "\<exists>r. recv_packet junk (noise @ bs @ rest) = Inr (r, True, rest) \<and> rx_bytes r = items_data its
     \<and> rpos r < rcap r \<and> 4096 \<le> rcap r \<and> rbuf r (rpos r) = 0"
proof -
  let ?r0 = "\<lparr>rbuf = junk, rcap = 4096, rpos = 0, rsum = 0, resc = False\<rparr>"
  obtain m l where bs: "bs = [0x24] @ body_text its @ [0x23, m, l]"
    and sum: "gdb_decode_hex m l = ucast (foldl (+) (0 :: u8) (body_text its))"
    using assms(1) by (auto simp: frame_def)
  have b0: "rx_bytes ?r0 = []" by (simp add: rx_bytes_def)
  have "rx_ok ?r0" "\<not> resc ?r0" "items_ok (rx_bytes ?r0) its" using assms(2) by (simp_all add: rx_ok_def b0)
  from recv_loop_items [OF this, of "0x23 # m # l # rest"] b0
  obtain r1 where r1: "recv_loop ?r0 (body_text its @ 0x23 # m # l # rest) = recv_loop r1 (0x23 # m # l # rest)"
    "rx_ok r1" "rx_bytes r1 = items_data its" "rsum r1 = foldl (+) 0 (body_text its)"
    by (auto simp: items_data_def)
  have "rx_ok (r1\<lparr>rsum := rsum r1 + 0x23\<rparr>)" using r1(2) by (simp add: rx_ok_def)
  from rx_end_run [OF this, of "m # l # rest"] obtain r2 ok where
    r2: "rx_end (r1\<lparr>rsum := rsum r1 + 0x23\<rparr>) (m # l # rest) = Inr (r2, ok, rest)"
      "rpos r2 < rcap r2" "4096 \<le> rcap r2" "rbuf r2 (rpos r2) = 0" "rx_bytes r2 = rx_bytes r1"
      "ok \<longleftrightarrow> ucast (rsum r1) = gdb_decode_hex m l"
    by (auto simp: rx_bytes_def)
  have "recv_packet junk (noise @ bs @ rest) = recv_loop ?r0 (body_text its @ 0x23 # m # l # rest)"
    using skip_noise [OF assms(3)] by (simp add: recv_packet_def bs)
  then show ?thesis using r1 r2 sum by (simp add: recv_loop.simps(2))
qed

end
