(* ===== verification/GdbHost.thy ===== *)
theory GdbHost
  imports Gdb
begin

text \<open>
  The reference side of the differential test for QEMU: the commands of \<open>gdb-host.c\<close> over the
  protocol client, the start of a guest (\<open>isa.c\<close>) and the interface the emulator calls
  (\<open>diff-test.c\<close>) of \<open>nemu/tools/qemu-diff\<close>. The register file is the array of the union
  \<open>isa_gdb_regs\<close>, 77 words; its named registers are positions of the array. Lengths are
  \<open>int\<close> in C and never negative here, so they are natural numbers below \<open>2^31\<close>.
\<close>

section \<open>Memory\<close>

text \<open>\<open>sprintf\<close> with \<open>%x\<close>, and the two digits of a byte.\<close>

fun hex_number :: "nat \<Rightarrow> u8 list" where
  "hex_number n = (if n < 16 then [hex_encode (of_nat n)] else hex_number (n div 16) @ [hex_encode (of_nat (n mod 16))])"

declare hex_number.simps [simp del]

definition hex_pair :: "u8 \<Rightarrow> u8 list" where
  "hex_pair b = [hex_encode (drop_bit 4 b), hex_encode (b AND 0xF)]"

definition hex_text :: "u8 list \<Rightarrow> u8 list" where
  "hex_text bs = concat (map hex_pair bs)"

definition gdb_memcpy_to_qemu_small ::
    "'q server \<Rightarrow> (nat \<Rightarrow> u8) \<Rightarrow> u32 \<Rightarrow> u8 list \<Rightarrow> nat \<Rightarrow> 'q gdb_conn \<Rightarrow> (bool \<times> 'q gdb_conn) run" where
  "gdb_memcpy_to_qemu_small srv junk dest src len conn =
     (if length src < len then Some (Inl OutOfBounds)
      else let buf = ascii ''M0x'' @ hex_number (unat dest) @ ascii '','' @ hex_number len @ ascii '':'' @ hex_text (take len src) in
        bind_run (gdb_send srv buf conn) (\<lambda>conn1.
        bind_run (gdb_recv srv junk conn1) (\<lambda>(reply, conn2).
        Some (Inr (reply_ok reply, conn2)))))"

function memcpy_loop ::
    "'q server \<Rightarrow> (nat \<Rightarrow> u8) \<Rightarrow> bool \<Rightarrow> u32 \<Rightarrow> u8 list \<Rightarrow> nat \<Rightarrow> 'q gdb_conn \<Rightarrow> (bool \<times> 'q gdb_conn) run" where
  "memcpy_loop srv junk ok dest src len conn =
     (if len > 1500 then
        bind_run (gdb_memcpy_to_qemu_small srv junk dest src 1500 conn) (\<lambda>(b, conn1).
        memcpy_loop srv junk (ok \<and> b) (dest + 1500) (drop 1500 src) (len - 1500) conn1)
      else
        bind_run (gdb_memcpy_to_qemu_small srv junk dest src len conn) (\<lambda>(b, conn1).
        Some (Inr (ok \<and> b, conn1))))"
  by pat_completeness auto
termination by (relation "measure (\<lambda>(srv, junk, ok, dest, src, len, conn). len)") auto

declare memcpy_loop.simps [simp del]

definition gdb_memcpy_to_qemu ::
    "'q server \<Rightarrow> (nat \<Rightarrow> u8) \<Rightarrow> u32 \<Rightarrow> u8 list \<Rightarrow> nat \<Rightarrow> 'q gdb_conn \<Rightarrow> (bool \<times> 'q gdb_conn) run" where
  "gdb_memcpy_to_qemu srv junk dest src len conn = memcpy_loop srv junk True dest src len conn"

section \<open>Registers\<close>

text \<open>
  One turn of the loop of \<open>gdb_getregs\<close>: the ninth byte is replaced by a zero while the eight
  before it are read.
\<close>

definition gdb_reg_word :: "rx \<Rightarrow> nat \<Rightarrow> u32 res" where
  "gdb_reg_word reply p =
     (if rcap reply \<le> p + 8 then Inl OutOfBounds
      else bind_res (gdb_decode_hex_str ((rbuf reply)(p + 8 := 0)) (rcap reply) p) (\<lambda>v. Inr (ucast v)))"

primrec getregs_loop :: "nat \<Rightarrow> rx \<Rightarrow> nat \<Rightarrow> u32 list res" where
  "getregs_loop 0 reply p = Inr []"
| "getregs_loop (Suc n) reply p =
     bind_res (gdb_reg_word reply p) (\<lambda>w.
     bind_res (getregs_loop n reply (p + 8)) (\<lambda>ws. Inr (w # ws)))"

definition isa_gdb_regs_words :: nat where
  "isa_gdb_regs_words = 77"

definition gdb_getregs :: "'q server \<Rightarrow> (nat \<Rightarrow> u8) \<Rightarrow> 'q gdb_conn \<Rightarrow> (u32 list \<times> 'q gdb_conn) run" where
  "gdb_getregs srv junk conn =
     bind_run (gdb_send srv (ascii ''g'') conn) (\<lambda>conn1.
     bind_run (gdb_recv srv junk conn1) (\<lambda>(reply, conn2).
     bind_run (Some (getregs_loop isa_gdb_regs_words reply 0)) (\<lambda>ws. Some (Inr (ws, conn2)))))"

definition gdb_setregs :: "'q server \<Rightarrow> (nat \<Rightarrow> u8) \<Rightarrow> u32 list \<Rightarrow> 'q gdb_conn \<Rightarrow> (bool \<times> 'q gdb_conn) run" where
  "gdb_setregs srv junk r conn =
     bind_run (gdb_send srv (ascii ''G'' @ hex_text (concat (map (le_bytes 4) r))) conn) (\<lambda>conn1.
     bind_run (gdb_recv srv junk conn1) (\<lambda>(reply, conn2).
     Some (Inr (reply_ok reply, conn2))))"

definition gdb_si :: "'q server \<Rightarrow> (nat \<Rightarrow> u8) \<Rightarrow> 'q gdb_conn \<Rightarrow> 'q gdb_conn run" where
  "gdb_si srv junk conn =
     bind_run (gdb_send srv (ascii ''vCont;s:1'') conn) (\<lambda>conn1.
     bind_run (gdb_recv srv junk conn1) (\<lambda>(reply, conn2). Some (Inr conn2)))"

section \<open>The interface of the differential test\<close>

datatype qemu_isa = QEMU_x86 | QEMU_mips32 | QEMU_riscv32 | QEMU_loongarch32r

text \<open>\<open>DIFFTEST_REG_SIZE\<close> in words.\<close>

fun difftest_reg_words :: "qemu_isa \<Rightarrow> nat" where
  "difftest_reg_words QEMU_x86 = 9"
| "difftest_reg_words QEMU_mips32 = 38"
| "difftest_reg_words QEMU_riscv32 = 33"
| "difftest_reg_words QEMU_loongarch32r = 33"

definition qemu_difftest_memcpy ::
    "'q server \<Rightarrow> (nat \<Rightarrow> u8) \<Rightarrow> u32 \<Rightarrow> u8 list \<Rightarrow> nat \<Rightarrow> bool \<Rightarrow> 'q gdb_conn \<Rightarrow> 'q gdb_conn run" where
  "qemu_difftest_memcpy srv junk addr buf n direction conn =
     bind_run (Some (assert_then direction (Inr ()))) (\<lambda>_.
     bind_run (gdb_memcpy_to_qemu srv junk addr buf n conn) (\<lambda>(ok, conn1).
     Some (assert_then ok (Inr conn1))))"

text \<open>The registers of the device under test are a list of words; the result has them after the copy.\<close>

definition qemu_difftest_regcpy ::
    "'q server \<Rightarrow> (nat \<Rightarrow> u8) \<Rightarrow> qemu_isa \<Rightarrow> u32 list \<Rightarrow> bool \<Rightarrow> 'q gdb_conn \<Rightarrow> (u32 list \<times> 'q gdb_conn) run" where
  "qemu_difftest_regcpy srv junk isa dut direction conn =
     bind_run (gdb_getregs srv junk conn) (\<lambda>(qemu_r, conn1).
     let n = difftest_reg_words isa in
     if length dut < n then Some (Inl OutOfBounds)
     else if direction then
       bind_run (gdb_setregs srv junk (take n dut @ drop n qemu_r) conn1) (\<lambda>(ok, conn2). Some (Inr (dut, conn2)))
     else Some (Inr (take n qemu_r @ drop n dut, conn1)))"

primrec qemu_difftest_exec :: "'q server \<Rightarrow> (nat \<Rightarrow> u8) \<Rightarrow> nat \<Rightarrow> 'q gdb_conn \<Rightarrow> 'q gdb_conn run" where
  "qemu_difftest_exec srv junk 0 conn = Some (Inr conn)"
| "qemu_difftest_exec srv junk (Suc n) conn = bind_run (gdb_si srv junk conn) (qemu_difftest_exec srv junk n)"

definition qemu_difftest_raise_intr :: "u64 \<Rightarrow> 'q gdb_conn \<Rightarrow> 'q gdb_conn run" where
  "qemu_difftest_raise_intr NO conn = Some (Inl AssertFail)"

section \<open>Starting\<close>

definition mbr :: "u8 list" where
  "mbr = [0xfa, 0x31, 0xc0, 0x8e, 0xd8, 0x8e, 0xc0, 0x8e, 0xd0,
     0x0f, 0x01, 0x16, 0x44, 0x7c, 0x0f, 0x20, 0xc0, 0x66, 0x83, 0xc8, 0x01, 0x0f, 0x22, 0xc0,
     0xea, 0x1d, 0x7c, 0x08, 0x00,
     0x66, 0xb8, 0x10, 0x00, 0x8e, 0xd8, 0x8e, 0xc0, 0x8e, 0xd0, 0xeb, 0xfe, 0x8d, 0x76, 0x00,
     0x00, 0x00, 0x00, 0x00, 0x00, 0x00, 0x00, 0x00,
     0xff, 0xff, 0x00, 0x00, 0x00, 0x9a, 0xcf, 0x00,
     0xff, 0xff, 0x00, 0x00, 0x00, 0x92, 0xcf, 0x00,
     0x17, 0x00, 0x2c, 0x7c, 0x00, 0x00]"

text \<open>\<open>eip\<close> and \<open>cs\<close> are the words 8 and 10 of the x86 register file.\<close>

definition qemu_init_isa :: "'q server \<Rightarrow> (nat \<Rightarrow> u8) \<Rightarrow> qemu_isa \<Rightarrow> 'q gdb_conn \<Rightarrow> 'q gdb_conn run" where
  "qemu_init_isa srv junk isa conn =
     (if isa = QEMU_x86 then
        bind_run (gdb_memcpy_to_qemu srv junk 0x7c00 mbr (length mbr) conn) (\<lambda>(ok, conn1).
        bind_run (Some (assert_then ok (Inr ()))) (\<lambda>_.
        bind_run (gdb_getregs srv junk conn1) (\<lambda>(r, conn2).
        bind_run (gdb_setregs srv junk (r[8 := 0x7c00, 10 := 0]) conn2) (\<lambda>(ok, conn3).
        bind_run (Some (assert_then ok (Inr ()))) (\<lambda>_.
        qemu_difftest_exec srv junk 20 conn3)))))
      else Some (Inr conn))"

text \<open>What the host's socket calls answer to one attempt to connect.\<close>

datatype 'q attempt = SocketFails | ConnectFails | SetsockoptFails | Connected 'q

fun gdb_begin_inet :: "'q server \<Rightarrow> 'q attempt \<Rightarrow> 'q gdb_conn option res" where
  "gdb_begin_inet srv SocketFails = Inl (HostExit 1)"
| "gdb_begin_inet srv ConnectFails = Inr None"
| "gdb_begin_inet srv SetsockoptFails = Inl AssertFail"
| "gdb_begin_inet srv (Connected q) = Inr (Some (gdb_begin srv q))"

partial_function (option) gdb_connect_qemu :: "'q server \<Rightarrow> (nat \<Rightarrow> 'q attempt) \<Rightarrow> nat \<Rightarrow> 'q gdb_conn run" where
  "gdb_connect_qemu srv attempts k =
     bind_run (Some (gdb_begin_inet srv (attempts k))) (\<lambda>c.
     case c of None \<Rightarrow> gdb_connect_qemu srv attempts (k + 1) | Some conn \<Rightarrow> Some (Inr conn))"

fun qemu_bin :: "qemu_isa \<Rightarrow> string" where
  "qemu_bin QEMU_mips32 = ''qemu-system-mipsel''"
| "qemu_bin QEMU_riscv32 = ''qemu-system-riscv32''"
| "qemu_bin QEMU_x86 = ''qemu-system-i386''"
| "qemu_bin QEMU_loongarch32r = ''qemu-system-loongarch32''"

fun qemu_args :: "string \<Rightarrow> qemu_isa \<Rightarrow> string list" where
  "qemu_args nemu_home QEMU_mips32 = [''-machine'', ''mipssim'', ''-kernel'', nemu_home @ ''/resource/mips-elf/mips.dummy'']"
| "qemu_args nemu_home QEMU_riscv32 = [''-bios'', ''none'']"
| "qemu_args nemu_home QEMU_x86 = []"
| "qemu_args nemu_home QEMU_loongarch32r = [''-M'', ''ls3a5k32'']"

fun dec_number :: "nat \<Rightarrow> string" where
  "dec_number n = (if n < 10 then [char_of (48 + n)] else dec_number (n div 10) @ [char_of (48 + n mod 10)])"

declare dec_number.simps [simp del]

text \<open>
  \<open>difftest_init\<close> forks: what the system calls answer is a record; the process ends up as the
  program \<open>execlp\<close> starts or as the connected parent.
\<close>

record fork_env =
  fork_pid :: int
  prctl_result :: int
  same_parent :: bool
  exec_works :: bool

datatype 'q started = Exec "string list" | Parent "'q gdb_conn"

definition qemu_difftest_init ::
    "'q server \<Rightarrow> (nat \<Rightarrow> u8) \<Rightarrow> qemu_isa \<Rightarrow> string \<Rightarrow> fork_env \<Rightarrow> (nat \<Rightarrow> 'q attempt) \<Rightarrow> nat \<Rightarrow> 'q started run" where
  "qemu_difftest_init srv junk isa nemu_home env attempts port =
     (if fork_pid env = -1 then Some (Inl AssertFail)
      else if fork_pid env = 0 then
        (if prctl_result env = -1 then Some (Inl AssertFail)
         else if \<not> same_parent env then Some (Inl AssertFail)
         else if exec_works env then
           Some (Inr (Exec ([qemu_bin isa] @ qemu_args nemu_home isa @ [''-S'', ''-gdb'', ''tcp::'' @ dec_number port,
             ''-nographic'', ''-serial'', ''none'', ''-monitor'', ''none''])))
         else Some (Inl AssertFail))
      else
        bind_run (gdb_connect_qemu srv attempts 0) (\<lambda>conn.
        bind_run (qemu_init_isa srv junk isa conn) (\<lambda>conn1. Some (Inr (Parent conn1)))))"

end
