(* ===== verification/GdbTarget.thy ===== *)
theory GdbTarget
  imports GdbSpec GdbHost
begin

text \<open>
  How a target reads the commands of the client, independently of how the client writes them,
  and that it reads back what the client meant; and that the client reads the registers back
  from the text of a reply.
\<close>

section \<open>Reading the commands\<close>

definition hex_value :: "u8 \<Rightarrow> nat" where
  "hex_value c = unat (hex_nibble c)"

fun read_number :: "nat \<Rightarrow> u8 list \<Rightarrow> nat \<times> u8 list" where
  "read_number n [] = (n, [])"
| "read_number n (c # s) = (if c_isxdigit c then read_number (16 * n + hex_value c) s else (n, c # s))"

text \<open>\<open>strtoul\<close> to base 16, which skips a prefix \<open>0x\<close>.\<close>

definition read_hex :: "u8 list \<Rightarrow> nat \<times> u8 list" where
  "read_hex s = (case s of a # b # c # t \<Rightarrow> if a = 0x30 \<and> (b = 0x78 \<or> b = 0x58) \<and> c_isxdigit c then read_number 0 (c # t)
     else read_number 0 s | _ \<Rightarrow> read_number 0 s)"

fun read_bytes :: "u8 list \<Rightarrow> u8 list option" where
  "read_bytes [] = Some []"
| "read_bytes [c] = None"
| "read_bytes (a # b # s) = (if c_isxdigit a \<and> c_isxdigit b then
     map_option (\<lambda>bs. of_nat (16 * hex_value a + hex_value b) # bs) (read_bytes s) else None)"

text \<open>\<open>M addr,length:XX...\<close>\<close>

definition parse_M :: "u8 list \<Rightarrow> (u32 \<times> u8 list) option" where
  "parse_M cmd = (case cmd of [] \<Rightarrow> None | c # s \<Rightarrow> if c \<noteq> 0x4D then None else
     case read_hex s of (a, s1) \<Rightarrow> (case s1 of [] \<Rightarrow> None | c1 # s2 \<Rightarrow> if c1 \<noteq> 0x2C then None else
     case read_hex s2 of (n, s3) \<Rightarrow> (case s3 of [] \<Rightarrow> None | c2 # s4 \<Rightarrow> if c2 \<noteq> 0x3A then None else
     case read_bytes s4 of None \<Rightarrow> None | Some bs \<Rightarrow> if length bs = n then Some (of_nat a, bs) else None)))"

fun words_of :: "u8 list \<Rightarrow> u32 list" where
  "words_of (a # b # c # d # s) = le_word [a, b, c, d] # words_of s"
| "words_of _ = []"

definition parse_G :: "u8 list \<Rightarrow> u32 list option" where
  "parse_G cmd = (case cmd of [] \<Rightarrow> None | c # s \<Rightarrow> if c \<noteq> 0x47 then None else map_option words_of (read_bytes s))"

lemma hex_value_encode: "h < 16 \<Longrightarrow> hex_value (hex_encode h) = unat h"
  by (simp add: hex_value_def hex_digits_read)

lemma hex_pair_div: "hex_pair b = [hex_encode (b div 16), hex_encode (b mod 16)]"
proof -
  have "drop_bit 4 b = b div 16" by (simp add: drop_bit_eq_div)
  moreover have "b AND 0xF = b mod 16"
    using take_bit_eq_mask [of 4 b] take_bit_eq_mod [of 4 b] by (simp add: mask_eq_exp_minus_1)
  ultimately show ?thesis by (simp add: hex_pair_def)
qed

lemma hex_pair_value:
  "c_isxdigit (hex_encode (b div 16))" "c_isxdigit (hex_encode (b mod 16))"
  "of_nat (16 * hex_value (hex_encode (b div 16)) + hex_value (hex_encode (b mod 16))) = b"
proof -
  note h = hex_byte(2,3) [of b]
  show "c_isxdigit (hex_encode (b div 16))" "c_isxdigit (hex_encode (b mod 16))" using h by (simp_all add: hex_digits_read)
  have "16 * unat (b div 16) + unat (b mod 16) = unat b" by (simp add: unat_div unat_mod)
  then show "of_nat (16 * hex_value (hex_encode (b div 16)) + hex_value (hex_encode (b mod 16))) = b"
    using h by (simp only: hex_value_encode) simp
qed

lemma read_bytes_hex_text [simp]: "read_bytes (hex_text bs) = Some bs"
proof (induction bs)
  case Nil
  then show ?case by (simp add: hex_text_def)
next
  case (Cons b bs)
  then show ?case using hex_pair_value [of b] by (simp add: hex_text_def hex_pair_div)
qed

lemma read_number_append:
  "list_all c_isxdigit ds \<Longrightarrow> (s = [] \<or> \<not> c_isxdigit (hd s)) \<Longrightarrow>
   read_number n (ds @ s) = (foldl (\<lambda>n c. 16 * n + hex_value c) n ds, s)"
  by (induction ds arbitrary: n; cases s) auto

lemma hex_number_digits: "list_all c_isxdigit (hex_number n) \<and> foldl (\<lambda>n c. 16 * n + hex_value c) 0 (hex_number n) = n \<and> hex_number n \<noteq> []"
proof (induction n rule: hex_number.induct)
  case (1 n)
  have lt: "(of_nat (n mod 16) :: u8) < 16" by (simp add: word_less_nat_alt unat_of_nat take_bit_eq_mod)
  have u: "unat (of_nat (n mod 16) :: u8) = n mod 16"
  proof -
    have "n mod 16 < 256" by (rule less_trans [OF mod_less_divisor]) simp_all
    then show ?thesis by (simp add: unat_of_nat take_bit_eq_mod)
  qed
  show ?case
  proof (cases "n < 16")
    case True
    then show ?thesis using lt u hex_digits_read [OF lt] hex_value_encode [OF lt] by (simp add: hex_number.simps [of n])
  next
    case False
    from 1 [OF False] show ?thesis using lt u hex_digits_read [OF lt] hex_value_encode [OF lt] False
      by (simp add: hex_number.simps [of n])
  qed
qed

lemma read_hex_number:
  assumes "s = [] \<or> \<not> c_isxdigit (hd s) \<and> hd s \<noteq> 0x78 \<and> hd s \<noteq> 0x58"
  shows "read_hex (hex_number n @ s) = (n, s)" and "read_hex (ascii ''0x'' @ hex_number n @ s) = (n, s)"
proof -
  note d = hex_number_digits [of n]
  have num: "read_number 0 (hex_number n @ s) = (n, s)" using read_number_append [of "hex_number n" s 0] d assms by auto
  obtain c t where ct: "hex_number n = c # t" using d by (cases "hex_number n") auto
  then show "read_hex (ascii ''0x'' @ hex_number n @ s) = (n, s)"
    using num d by (simp add: read_hex_def ascii_def)
  have "\<not> c_isxdigit 0x78" "\<not> c_isxdigit 0x58" by (simp_all add: c_isxdigit_def c_isdigit_def)
  then have "list_all (\<lambda>c. c \<noteq> 0x78 \<and> c \<noteq> 0x58) (hex_number n)" using d by (auto simp: list_all_iff)
  then show "read_hex (hex_number n @ s) = (n, s)"
    using num assms ct by (cases t; cases s) (auto simp: read_hex_def split: list.splits)
qed

text \<open>The command \<open>gdb_memcpy_to_qemu_small\<close> writes is read back as its address and bytes.\<close>

lemma parse_M_text:
  "parse_M (ascii ''M0x'' @ hex_number (unat dest) @ ascii '','' @ hex_number (length bs) @ ascii '':'' @ hex_text bs)
   = Some (dest, bs)"
proof -
  have 1: "read_hex (ascii ''0x'' @ hex_number (unat dest) @ 0x2C # s) = (unat dest, 0x2C # s)" for s
    by (rule read_hex_number(2)) (simp add: c_isxdigit_def c_isdigit_def)
  have 2: "read_hex (hex_number (length bs) @ 0x3A # s) = (length bs, 0x3A # s)" for s
    by (rule read_hex_number(1)) (simp add: c_isxdigit_def c_isdigit_def)
  show ?thesis using 1 2 by (simp add: parse_M_def ascii_def)
qed

lemma words_of_bytes [simp]: "words_of (concat (map (le_bytes 4) ws)) = ws"
proof (induction ws)
  case (Cons w ws)
  have "le_bytes 4 w = [le_bytes 4 w ! 0, le_bytes 4 w ! 1, le_bytes 4 w ! 2, le_bytes 4 w ! 3]"
    by (simp add: le_bytes_def upt_rec)
  then obtain a b c d where e: "le_bytes 4 w = [a, b, c, d]" by blast
  then have "le_word [a, b, c, d] = w" using le_word_le_bytes4 [of w] by simp
  then show ?case using Cons.IH by (simp add: e del: le_word.simps)
qed simp

lemma parse_G_text: "parse_G (ascii ''G'' @ hex_text (concat (map (le_bytes 4) ws))) = Some ws"
  by (simp add: parse_G_def ascii_def)

section \<open>Reading the registers\<close>

lemma ucast_through: "ucast (ucast (b :: u8) :: u16) = (ucast b :: u64)" "ucast (ucast (b :: u8) :: u64) = (ucast b :: u32)"
  by (rule bit_word_eqI, auto simp: bit_simps dest: bit_imp_le_length)+

lemma ucast_of_int_low: "(ucast (word_of_int k :: u64) :: u32) = word_of_int k"
  by (rule bit_word_eqI) (simp add: bit_simps)

lemma ucast_low:
  fixes x y :: u64
  shows "(ucast (x + y) :: u32) = ucast x + ucast y" "(ucast (x * y) :: u32) = ucast x * ucast y"
proof -
  have "(ucast (word_of_int (uint x) + word_of_int (uint y) :: u64) :: u32) = word_of_int (uint x) + word_of_int (uint y)"
    "(ucast (word_of_int (uint x) * word_of_int (uint y) :: u64) :: u32) = word_of_int (uint x) * word_of_int (uint y)"
    by (simp_all only: ucast_of_int_low flip: of_int_add of_int_mult)
  then show "(ucast (x + y) :: u32) = ucast x + ucast y" "(ucast (x * y) :: u32) = ucast x * ucast y"
    by (simp_all only: word_of_int_uint ucast_eq)
qed

primrec le_value :: "u8 list \<Rightarrow> u64" where
  "le_value [] = 0"
| "le_value (b # bs) = ucast b + 256 * le_value bs"

lemma decode_hex_loop_text:
  assumes "\<forall>k < length (hex_text bs). buf (p + k) = hex_text bs ! k" and "buf (p + length (hex_text bs)) = 0"
    and "p + length (hex_text bs) < cap"
  shows "decode_hex_loop buf cap p v w = Inr (v + w * le_value bs)"
  using assms
proof (induction bs arbitrary: p v w)
  case Nil
  then show ?case by (simp add: decode_hex_loop.simps hex_text_def c_isxdigit_def c_isdigit_def)
next
  case (Cons b bs)
  have t: "hex_text (b # bs) = hex_encode (b div 16) # hex_encode (b mod 16) # hex_text bs"
    by (simp add: hex_text_def hex_pair_div)
  have d: "buf p = hex_encode (b div 16)" "buf (p + 1) = hex_encode (b mod 16)"
    using Cons.prems(1) [rule_format, of 0] Cons.prems(1) [rule_format, of 1] by (simp_all add: t)
  have "buf (p + 2 + k) = hex_text bs ! k" if "k < length (hex_text bs)" for k
    using Cons.prems(1) [rule_format, of "k + 2"] that by (simp add: t)
  moreover have "buf (p + 2 + length (hex_text bs)) = 0" "p + 2 + length (hex_text bs) < cap"
    using Cons.prems(2,3) by (simp_all add: t)
  ultimately have IH: "decode_hex_loop buf cap (p + 2) v w = Inr (v + w * le_value bs)" for v w using Cons.IH by blast
  have "decode_hex_loop buf cap p v w = decode_hex_loop buf cap (p + 2) (v + w * ucast (gdb_decode_hex (buf p) (buf (p + 1)))) (w * (16 * 16))"
    using hex_pair_value(1,2) [of b] d Cons.prems(3) by (subst decode_hex_loop.simps) (simp add: t)
  also have "\<dots> = Inr (v + w * ucast b + w * 256 * le_value bs)"
    unfolding IH d by (simp add: ucast_through)
  finally show ?case by (simp add: algebra_simps)
qed

lemma le_word_value: "ucast (le_value bs) = le_word bs"
proof (induction bs)
  case (Cons b bs)
  have "ucast b OR push_bit 8 (le_word bs) = ucast b + push_bit 8 (le_word bs)"
    by (rule disjunctive_add [symmetric]) (auto simp: bit_simps dest: bit_imp_le_length)
  then show ?case using Cons.IH
    by (simp add: push_bit_eq_mult ucast_low ucast_through mult.commute [of _ 256])
qed simp

text \<open>Reading a register stays in the buffer whatever is in it, and ends at the zero.\<close>

lemma decode_hex_loop_total:
  "buf e = 0 \<Longrightarrow> p \<le> e \<Longrightarrow> e < cap \<Longrightarrow> \<exists>x. decode_hex_loop buf cap p v w = Inr x"
proof (induction buf cap p v w rule: decode_hex_loop.induct)
  case (1 buf cap p v w)
  have z: "\<not> c_isxdigit 0" by (simp add: c_isxdigit_def c_isdigit_def)
  show ?case
  proof (cases "c_isxdigit (buf p) \<and> c_isxdigit (buf (p + 1))")
    case True
    then have "p \<noteq> e" "p + 1 \<noteq> e" using 1(2) z by metis+
    then have e: "p + 2 \<le> e" "p + 1 < cap" using 1(3,4) by simp_all
    from 1(1) [OF _ _ _ _ 1(2) e(1) 1(4)] True e(2) show ?thesis
      by (subst decode_hex_loop.simps) auto
  next
    case False
    then show ?thesis using 1(2-4) z by (subst decode_hex_loop.simps) (cases "p = e"; auto)
  qed
qed

lemma gdb_reg_word_total: "p + 8 < rcap r \<Longrightarrow> \<exists>w. gdb_reg_word r p = Inr w"
  using decode_hex_loop_total [of "(rbuf r)(p + 8 := 0)" "p + 8" p "rcap r" 0 1]
  by (auto simp: gdb_reg_word_def gdb_decode_hex_str_def)

lemma getregs_loop_total:
  "p + 8 * n < rcap r \<Longrightarrow> \<exists>ws. getregs_loop n r p = Inr ws \<and> length ws = n \<and> (\<forall>i < n. gdb_reg_word r (p + 8 * i) = Inr (ws ! i))"
proof (induction n arbitrary: p)
  case (Suc n)
  obtain w where w: "gdb_reg_word r p = Inr w" using gdb_reg_word_total [of p r] Suc.prems by auto
  obtain ws where ws: "getregs_loop n r (p + 8) = Inr ws" "length ws = n" "\<forall>i < n. gdb_reg_word r (p + 8 + 8 * i) = Inr (ws ! i)"
    using Suc.IH [of "p + 8"] Suc.prems by auto
  have "\<forall>i < Suc n. gdb_reg_word r (p + 8 * i) = Inr ((w # ws) ! i)"
    using w ws(3) by (auto simp: less_Suc_eq_0_disj add.assoc)
  then show ?case using w ws by auto
qed simp

lemma hex_text_append: "hex_text (a @ b) = hex_text a @ hex_text b"
  by (simp add: hex_text_def)

lemma length_hex_text: "length (hex_text bs) = 2 * length bs"
  by (induction bs) (simp_all add: hex_text_def hex_pair_def)

lemma regs_text_nth:
  assumes "i < length ws" and "k < 8"
  shows "hex_text (concat (map (le_bytes 4) ws)) ! (8 * i + k) = hex_text (le_bytes 4 (ws ! i)) ! k"
  using assms
proof (induction ws arbitrary: i)
  case (Cons w ws)
  have len: "length (hex_text (le_bytes 4 w)) = 8" by (simp add: length_hex_text)
  show ?case
  proof (cases i)
    case 0
    then show ?thesis using Cons.prems(2) len by (simp add: hex_text_append nth_append)
  next
    case (Suc j)
    then show ?thesis using Cons.IH [of j] Cons.prems len by (simp add: hex_text_append nth_append)
  qed
qed simp

lemma gdb_reg_word_text:
  assumes "rx_bytes r = hex_text (concat (map (le_bytes 4) ws))" and "i < length ws" and "8 * i + 8 < rcap r"
  shows "gdb_reg_word r (8 * i) = Inr (ws ! i)"
proof -
  let ?b = "(rbuf r)(8 * i + 8 := 0)" and ?t = "hex_text (le_bytes 4 (ws ! i))"
  have len: "length ?t = 8" by (simp add: length_hex_text)
  have "length (concat (map (le_bytes 4) ws)) = 4 * length ws" by (induction ws) simp_all
  then have pos: "rpos r = 8 * length ws" using arg_cong [OF assms(1), of length] by (simp add: length_hex_text)
  have "?b (8 * i + k) = ?t ! k" if "k < 8" for k
  proof -
    have k: "8 * i + k < rpos r" using assms(2) that by (simp add: pos)
    have "rbuf r (8 * i + k) = rx_bytes r ! (8 * i + k)" using k by (simp add: rx_bytes_def)
    then show ?thesis using that regs_text_nth [OF assms(2) that] assms(1) by simp
  qed
  then have "decode_hex_loop ?b (rcap r) (8 * i) 0 1 = Inr (0 + 1 * le_value (le_bytes 4 (ws ! i)))"
    using assms(3) len by (intro decode_hex_loop_text) auto
  then show ?thesis using assms(3) by (simp add: gdb_reg_word_def gdb_decode_hex_str_def le_word_value)
qed

end
