(* ===== verification/GdbLink.thy ===== *)
theory GdbLink
  imports GdbTarget
begin

text \<open>
  The interfaces of the peer: a server that acknowledges every packet and answers with a frame
  (\<open>gdb_server\<close>), and a debug target with memory and registers behind it (\<open>gdb_target\<close>), as the
  GDB manual documents the packets \<open>M\<close>, \<open>g\<close>, \<open>G\<close> and \<open>vCont;s\<close>; and what the client computes
  against them.
\<close>

section \<open>Servers\<close>

locale gdb_server =
  fixes srv :: "'q server" and answer :: "u8 list \<Rightarrow> 'q \<Rightarrow> u8 list" and step :: "u8 list \<Rightarrow> 'q \<Rightarrow> 'q"
  assumes ack_quiet: "srv [0x2B] q = Some ([], q)"
    and serves: "\<exists>its bs. frame its bs \<and> items_ok [] its \<and> items_data its = answer cmd q
      \<and> srv (gdb_packet cmd) q = Some (0x2B # bs, step cmd q)"
begin

lemma exchange:
  assumes "inp conn = []" and "ack conn"
  shows "\<exists>conn1 r. gdb_send srv cmd conn = Some (Inr conn1)
    \<and> gdb_recv srv junk conn1 = Some (Inr (r, conn\<lparr>peer := step cmd (peer conn)\<rparr>))
    \<and> rx_bytes r = answer cmd (peer conn) \<and> 4096 \<le> rcap r \<and> rbuf r (rpos r) = 0"
proof -
  obtain its bs where f: "frame its bs" "items_ok [] its" "items_data its = answer cmd (peer conn)"
    and s: "srv (gdb_packet cmd) (peer conn) = Some (0x2B # bs, step cmd (peer conn))" using serves by blast
  define c1 where "c1 = conn\<lparr>inp := bs, peer := step cmd (peer conn)\<rparr>"
  have send: "gdb_send srv cmd conn = Some (Inr c1)"
    using assms s by (subst gdb_send.simps) (simp add: send_packet_def conn_getc_def c1_def)
  obtain r where r: "recv_packet junk (bs @ []) = Inr (r, True, [])" "rx_bytes r = answer cmd (peer conn)"
    "4096 \<le> rcap r" "rbuf r (rpos r) = 0"
    using recv_packet_frame [OF f(1,2), of "[]" junk "[]"] f(3) by auto
  have "gdb_recv srv junk c1 = Some (Inr (r, conn\<lparr>peer := step cmd (peer conn)\<rparr>))"
    using assms r(1) by (subst gdb_recv.simps) (simp add: c1_def conn_flush_def ack_quiet Let_def)
  then show ?thesis using send r by blast
qed

end

lemma reply_ok_text:
  assumes "rx_bytes r = ascii ''OK''" and "rbuf r (rpos r) = 0"
  shows "reply_ok r"
proof -
  have p: "rpos r = 2" using arg_cong [OF assms(1), of length] by (simp add: ascii_def)
  then have "[rbuf r 0, rbuf r 1] = ascii ''OK''" using assms(1) by (simp add: rx_bytes_def upt_rec)
  then show ?thesis using assms(2) p by (simp add: reply_ok_def ascii_def)
qed

section \<open>Targets\<close>

definition poke_at :: "u32 \<Rightarrow> u8 list \<Rightarrow> (u32 \<Rightarrow> u8) \<Rightarrow> u32 \<Rightarrow> u8" where
  "poke_at a bs m = (\<lambda>x. if unat (x - a) < length bs then bs ! unat (x - a) else m x)"

lemma poke_at_append:
  assumes "length b1 + length b2 \<le> 2 ^ 32"
  shows "poke_at (a + of_nat (length b1)) b2 (poke_at a b1 m) = poke_at a (b1 @ b2) m"
proof
  fix x
  define k where "k = unat (x - a)"
  have k: "k < 2 ^ 32" "x - a = of_nat k" using unsigned_less [of "x - a"] by (simp_all add: k_def)
  show "poke_at (a + of_nat (length b1)) b2 (poke_at a b1 m) x = poke_at a (b1 @ b2) m x"
  proof (cases "k < length b1")
    case True
    define d where "d = length b1 - k"
    have d: "0 < d" "d + length b2 \<le> 2 ^ 32" "length b1 = k + d" using True assms by (simp_all add: d_def)
    have "x - (a + of_nat (length b1)) = - of_nat d" using k(2) by (simp add: d(3) algebra_simps)
    moreover have "unat (- of_nat d :: u32) \<ge> length b2"
    proof -
      obtain M where M: "d + M = 2 ^ 32" using d(2) by (metis add_leD1 le_add_diff_inverse)
      have "of_nat d + of_nat M = (of_nat (2 ^ 32) :: u32)" unfolding M [symmetric] by (rule of_nat_add [symmetric])
      also have "\<dots> = 0" by simp
      finally have "- of_nat d = (of_nat M :: u32)" by (rule minus_unique)
      moreover have "unat (of_nat M :: u32) = M" using M d(1) by (simp add: unat_of_nat take_bit_eq_mod)
      ultimately show ?thesis using d(2) M by simp
    qed
    ultimately show ?thesis using True by (simp add: poke_at_def nth_append flip: k_def)
  next
    case False
    have e: "x - (a + of_nat (length b1)) = of_nat (k - length b1)" using k(2) False by (simp add: of_nat_diff algebra_simps)
    have "unat (x - (a + of_nat (length b1))) = k - length b1"
      unfolding e using k(1) by (simp only: unat_of_nat take_bit_eq_mod) simp
    then show ?thesis using False unfolding poke_at_def k_def [symmetric] by (auto simp: nth_append)
  qed
qed

locale gdb_target = gdb_server srv answer step
  for srv :: "'q server" and answer step +
  fixes mem :: "'q \<Rightarrow> u32 \<Rightarrow> u8" and regs :: "'q \<Rightarrow> u32 list" and istep :: "'q \<Rightarrow> 'q"
  assumes store: "parse_M cmd = Some (a, bs) \<Longrightarrow> answer cmd q = ascii ''OK''
      \<and> mem (step cmd q) = poke_at a bs (mem q) \<and> regs (step cmd q) = regs q"
    and read_regs: "answer (ascii ''g'') q = hex_text (concat (map (le_bytes 4) (regs q))) \<and> step (ascii ''g'') q = q"
    and write_regs: "parse_G cmd = Some ws \<Longrightarrow> length (regs q) \<le> length ws \<Longrightarrow> answer cmd q = ascii ''OK''
      \<and> regs (step cmd q) = take (length (regs q)) ws \<and> mem (step cmd q) = mem q"
    and single_step: "step (ascii ''vCont;s:1'') q = istep q"
begin

lemma memcpy_small:
  assumes "inp conn = []" and "ack conn" and "len \<le> length src"
  shows "\<exists>q. gdb_memcpy_to_qemu_small srv junk dest src len conn = Some (Inr (True, conn\<lparr>peer := q\<rparr>))
    \<and> mem q = poke_at dest (take len src) (mem (peer conn)) \<and> regs q = regs (peer conn)"
proof -
  let ?cmd = "ascii ''M0x'' @ hex_number (unat dest) @ ascii '','' @ hex_number len @ ascii '':'' @ hex_text (take len src)"
  have "parse_M ?cmd = Some (dest, take len src)"
    using parse_M_text [of dest "take len src"] assms(3) by simp
  note st = store [OF this, of "peer conn"]
  obtain conn1 r where x: "gdb_send srv ?cmd conn = Some (Inr conn1)"
    "gdb_recv srv junk conn1 = Some (Inr (r, conn\<lparr>peer := step ?cmd (peer conn)\<rparr>))"
    "rx_bytes r = answer ?cmd (peer conn)" "rbuf r (rpos r) = 0"
    using exchange [OF assms(1,2), of ?cmd junk] by blast
  have "reply_ok r" using reply_ok_text x(3,4) st by simp
  then have "gdb_memcpy_to_qemu_small srv junk dest src len conn = Some (Inr (True, conn\<lparr>peer := step ?cmd (peer conn)\<rparr>))"
    using x(1,2) assms(3) by (simp add: gdb_memcpy_to_qemu_small_def Let_def)
  then show ?thesis using st by blast
qed

lemma memcpy_loop_run:
  assumes "inp conn = []" and "ack conn" and "len \<le> length src" and "len \<le> 2 ^ 32"
  shows "\<exists>q. memcpy_loop srv junk ok dest src len conn = Some (Inr (ok, conn\<lparr>peer := q\<rparr>))
    \<and> mem q = poke_at dest (take len src) (mem (peer conn)) \<and> regs q = regs (peer conn)"
  using assms
proof (induction len arbitrary: ok dest src conn rule: less_induct)
  case (less len)
  show ?case
  proof (cases "len > 1500")
    case False
    then show ?thesis using memcpy_small [OF less.prems(1-3), of junk dest]
      by (auto simp: memcpy_loop.simps [of _ _ _ _ _ len])
  next
    case True
    obtain q where q: "gdb_memcpy_to_qemu_small srv junk dest src 1500 conn = Some (Inr (True, conn\<lparr>peer := q\<rparr>))"
      "mem q = poke_at dest (take 1500 src) (mem (peer conn))" "regs q = regs (peer conn)"
      using memcpy_small [OF less.prems(1,2), of 1500 src junk dest] True less.prems(3) by auto
    obtain q' where q': "memcpy_loop srv junk ok (dest + 1500) (drop 1500 src) (len - 1500) (conn\<lparr>peer := q\<rparr>)
        = Some (Inr (ok, conn\<lparr>peer := q'\<rparr>))"
      "mem q' = poke_at (dest + 1500) (take (len - 1500) (drop 1500 src)) (mem q)" "regs q' = regs q"
      using less.IH [of "len - 1500" "conn\<lparr>peer := q\<rparr>" "drop 1500 src" ok "dest + 1500"] True less.prems
        diff_le_mono [OF less.prems(3), of 1500] le_trans [OF diff_le_self less.prems(4), of 1500] by auto
    have split: "take len src = take 1500 src @ take (len - 1500) (drop 1500 src)"
      using True by (simp flip: take_add)
    have len: "length (take 1500 src) = 1500" using True less.prems(3) by simp
    have "length (take 1500 src) + length (take (len - 1500) (drop 1500 src)) \<le> 2 ^ 32"
      using True less.prems(3,4) by simp
    from poke_at_append [OF this, of dest "mem (peer conn)"]
    have "mem q' = poke_at dest (take len src) (mem (peer conn))"
      unfolding q'(2) q(2) split len by simp
    then show ?thesis using True q(1,3) q'(1,3) by (auto simp: memcpy_loop.simps [of _ _ _ _ _ len])
  qed
qed

lemma getregs_run:
  assumes "inp conn = []" and "ack conn" and "length (regs (peer conn)) \<le> 77"
  shows "\<exists>rest. gdb_getregs srv junk conn = Some (Inr (regs (peer conn) @ rest, conn))
    \<and> length (regs (peer conn) @ rest) = 77"
proof -
  let ?ws = "regs (peer conn)"
  obtain conn1 r where x: "gdb_send srv (ascii ''g'') conn = Some (Inr conn1)"
    "gdb_recv srv junk conn1 = Some (Inr (r, conn))"
    "rx_bytes r = hex_text (concat (map (le_bytes 4) ?ws))" "4096 \<le> rcap r"
    using exchange [OF assms(1,2), of "ascii ''g''" junk] read_regs [of "peer conn"] by auto
  obtain ws where ws: "getregs_loop 77 r 0 = Inr ws" "length ws = 77" "\<forall>i < 77. gdb_reg_word r (8 * i) = Inr (ws ! i)"
    using getregs_loop_total [of 0 77 r] x(4) by auto
  have "ws ! i = ?ws ! i" if "i < length ?ws" for i
    using gdb_reg_word_text [OF x(3) that] ws(3) that assms(3) x(4) by auto
  then have "take (length ?ws) ws = ?ws" using ws(2) assms(3) by (intro nth_equalityI) auto
  then have "ws = ?ws @ drop (length ?ws) ws" by (metis append_take_drop_id)
  moreover have "gdb_getregs srv junk conn = Some (Inr (ws, conn))"
    using x(1,2) ws(1) by (simp add: gdb_getregs_def isa_gdb_regs_words_def)
  ultimately show ?thesis using ws(2) by metis
qed

lemma setregs_run:
  assumes "inp conn = []" and "ack conn" and "length (regs (peer conn)) \<le> length ws"
  shows "\<exists>q. gdb_setregs srv junk ws conn = Some (Inr (True, conn\<lparr>peer := q\<rparr>))
    \<and> regs q = take (length (regs (peer conn))) ws \<and> mem q = mem (peer conn)"
proof -
  let ?cmd = "ascii ''G'' @ hex_text (concat (map (le_bytes 4) ws))"
  note st = write_regs [OF parse_G_text assms(3)]
  obtain conn1 r where x: "gdb_send srv ?cmd conn = Some (Inr conn1)"
    "gdb_recv srv junk conn1 = Some (Inr (r, conn\<lparr>peer := step ?cmd (peer conn)\<rparr>))"
    "rx_bytes r = answer ?cmd (peer conn)" "rbuf r (rpos r) = 0"
    using exchange [OF assms(1,2), of ?cmd junk] by blast
  have "reply_ok r" using reply_ok_text x(3,4) st by simp
  then have "gdb_setregs srv junk ws conn = Some (Inr (True, conn\<lparr>peer := step ?cmd (peer conn)\<rparr>))"
    using x(1,2) by (simp add: gdb_setregs_def)
  then show ?thesis using st by blast
qed

lemma exec_run:
  assumes "inp conn = []" and "ack conn"
  shows "qemu_difftest_exec srv junk n conn = Some (Inr (conn\<lparr>peer := (istep ^^ n) (peer conn)\<rparr>))"
  using assms
proof (induction n arbitrary: conn)
  case (Suc n)
  obtain conn1 r where x: "gdb_send srv (ascii ''vCont;s:1'') conn = Some (Inr conn1)"
    "gdb_recv srv junk conn1 = Some (Inr (r, conn\<lparr>peer := istep (peer conn)\<rparr>))"
    using exchange [OF Suc.prems, of "ascii ''vCont;s:1''" junk] single_step [of "peer conn"] by auto
  show ?case using x Suc.IH [of "conn\<lparr>peer := istep (peer conn)\<rparr>"] Suc.prems
    by (simp add: gdb_si_def funpow_swap1)
qed simp

end

end
