(* ===== verification/GdbCorrect.thy ===== *)
theory GdbCorrect
  imports GdbLink
begin

text \<open>
  The correctness theorems of the QEMU client: the protocol layer against arbitrary input, and
  the interface of the differential test against a target that keeps the protocol, with a
  reference target that does.
\<close>

section \<open>The copies of the differential test\<close>

context gdb_target
begin

lemma difftest_memcpy_run:
  assumes "inp conn = []" and "ack conn" and "length buf < 2 ^ 31"
  shows "\<exists>q. qemu_difftest_memcpy srv junk addr buf (length buf) True conn = Some (Inr (conn\<lparr>peer := q\<rparr>))
    \<and> mem q = poke_at addr buf (mem (peer conn)) \<and> regs q = regs (peer conn)"
  using memcpy_loop_run [OF assms(1,2), of "length buf" buf junk True addr] assms(3)
  by (auto simp: qemu_difftest_memcpy_def gdb_memcpy_to_qemu_def)

lemma regcpy_run:
  assumes "inp conn = []" and "ack conn" and "length (regs (peer conn)) \<le> 77"
    and "n = difftest_reg_words isa" and "n \<le> length (regs (peer conn))" and "n \<le> length dut"
  shows "qemu_difftest_regcpy srv junk isa dut False conn = Some (Inr (take n (regs (peer conn)) @ drop n dut, conn))"
    and "\<exists>q. qemu_difftest_regcpy srv junk isa dut True conn = Some (Inr (dut, conn\<lparr>peer := q\<rparr>))
      \<and> regs q = take n dut @ drop n (regs (peer conn)) \<and> mem q = mem (peer conn)"
proof -
  let ?ws = "regs (peer conn)"
  obtain rest where g: "gdb_getregs srv junk conn = Some (Inr (?ws @ rest, conn))" "length (?ws @ rest) = 77"
    using getregs_run [OF assms(1-3), of junk] by blast
  show "qemu_difftest_regcpy srv junk isa dut False conn = Some (Inr (take n ?ws @ drop n dut, conn))"
    using g assms(4-6) by (simp add: qemu_difftest_regcpy_def Let_def)
  have len: "length ?ws \<le> length (take n dut @ drop n (?ws @ rest))" using assms(5,6) g(2) by simp
  obtain q where q: "gdb_setregs srv junk (take n dut @ drop n (?ws @ rest)) conn = Some (Inr (True, conn\<lparr>peer := q\<rparr>))"
    "regs q = take (length ?ws) (take n dut @ drop n (?ws @ rest))" "mem q = mem (peer conn)"
    using setregs_run [OF assms(1,2) len, of junk] by blast
  have "regs q = take n dut @ drop n ?ws" using q(2) assms(5,6) by (simp add: min_def)
  then show "\<exists>q. qemu_difftest_regcpy srv junk isa dut True conn = Some (Inr (dut, conn\<lparr>peer := q\<rparr>))
      \<and> regs q = take n dut @ drop n ?ws \<and> mem q = mem (peer conn)"
    using g q assms(4-6) by (auto simp: qemu_difftest_regcpy_def Let_def)
qed

lemma init_isa_run:
  assumes "inp conn = []" and "ack conn" and "length (regs (peer conn)) \<le> 77"
  shows "\<exists>q. qemu_init_isa srv junk QEMU_x86 conn = Some (Inr (conn\<lparr>peer := (istep ^^ 20) q\<rparr>))
    \<and> mem q = poke_at 0x7c00 mbr (mem (peer conn)) \<and> regs q = (regs (peer conn))[8 := 0x7c00, 10 := 0]"
proof -
  let ?ws = "regs (peer conn)"
  have "length mbr \<le> 2 ^ 32" by (simp add: mbr_def)
  then obtain q1 where q1: "memcpy_loop srv junk True 0x7c00 mbr (length mbr) conn = Some (Inr (True, conn\<lparr>peer := q1\<rparr>))"
    "mem q1 = poke_at 0x7c00 mbr (mem (peer conn))" "regs q1 = ?ws"
    using memcpy_loop_run [OF assms(1,2), where src = mbr and len = "length mbr" and junk = junk and ok = True and dest = "0x7c00"] by auto
  let ?c1 = "conn\<lparr>peer := q1\<rparr>"
  obtain rest where g: "gdb_getregs srv junk ?c1 = Some (Inr (?ws @ rest, ?c1))"
    using getregs_run [where conn = ?c1 and junk = junk] assms q1(3) by auto
  have len: "length (regs (peer ?c1)) \<le> length ((?ws @ rest)[8 := 0x7c00, 10 := 0])" using q1(3) by simp
  have "inp ?c1 = []" "ack ?c1" using assms(1,2) by simp_all
  from setregs_run [OF this len, where junk = junk] obtain q2 where
    q2: "gdb_setregs srv junk ((?ws @ rest)[8 := 0x7c00, 10 := 0]) ?c1 = Some (Inr (True, conn\<lparr>peer := q2\<rparr>))"
      "regs q2 = take (length ?ws) ((?ws @ rest)[8 := 0x7c00, 10 := 0])" "mem q2 = mem q1"
    using q1(3) by auto
  have "regs q2 = ?ws[8 := 0x7c00, 10 := 0]" using q2(2) by (simp add: take_update_swap)
  moreover have "qemu_init_isa srv junk QEMU_x86 conn = Some (Inr (conn\<lparr>peer := (istep ^^ 20) q2\<rparr>))"
    using q1(1) g q2(1) exec_run [where conn = "conn\<lparr>peer := q2\<rparr>" and junk = junk and n = 20] assms(1,2)
    by (simp add: qemu_init_isa_def gdb_memcpy_to_qemu_def)
  ultimately show ?thesis using q1(2) q2(3) by auto
qed

end

section \<open>A reference target\<close>

text \<open>
  A target with memory and registers that reads its commands from the packets and answers in
  escaped frames; \<open>run1\<close> is one instruction.
\<close>

record target =
  tmem :: "u32 \<Rightarrow> u8"
  tregs :: "u32 list"

definition lit_item :: "u8 \<Rightarrow> item" where
  "lit_item c = (if special c then Esc c else Lit c)"

definition frame_text :: "u8 list \<Rightarrow> u8 list" where
  "frame_text data = (let b = body_text (map lit_item data); sum = foldl (+) 0 b in
     [0x24] @ b @ [0x23, hex_encode (sum div 16), hex_encode (sum mod 16)])"

definition target_answer :: "u8 list \<Rightarrow> target \<Rightarrow> u8 list" where
  "target_answer cmd t =
     (if cmd = ascii ''g'' then hex_text (concat (map (le_bytes 4) (tregs t)))
      else if cmd = ascii ''vCont;s:1'' then ascii ''T05''
      else if parse_M cmd \<noteq> None \<or> parse_G cmd \<noteq> None then ascii ''OK'' else [])"

definition target_step :: "(target \<Rightarrow> target) \<Rightarrow> u8 list \<Rightarrow> target \<Rightarrow> target" where
  "target_step run1 cmd t =
     (if cmd = ascii ''g'' then t
      else if cmd = ascii ''vCont;s:1'' then run1 t
      else case parse_M cmd of Some (a, bs) \<Rightarrow> t\<lparr>tmem := poke_at a bs (tmem t)\<rparr>
      | None \<Rightarrow> (case parse_G cmd of Some ws \<Rightarrow> t\<lparr>tregs := take (length (tregs t)) ws\<rparr> | None \<Rightarrow> t))"

definition target_srv :: "(target \<Rightarrow> target) \<Rightarrow> target server" where
  "target_srv run1 bs t =
     (if length bs < 4 then Some ([], t)
      else let cmd = take (length bs - 4) (tl bs) in
        Some (0x2B # frame_text (target_answer cmd t), target_step run1 cmd t))"

lemma lit_items:
  "items_ok acc (map lit_item data) \<and> foldl item_sem acc (map lit_item data) = acc @ data"
proof (induction data arbitrary: acc)
  case (Cons c data)
  have "item_ok acc (lit_item c)" "item_sem acc (lit_item c) = acc @ [c]"
    by (auto simp: lit_item_def special_def)
  then show ?case using Cons.IH [of "acc @ [c]"] by simp
qed simp

lemma frame_text_frame: "frame (map lit_item data) (frame_text data)"
  by (auto simp: frame_def frame_text_def Let_def)

lemma packet_command: "take (length (gdb_packet cmd) - 4) (tl (gdb_packet cmd)) = cmd" "\<not> length (gdb_packet cmd) < 4"
  by (simp_all add: gdb_packet_def Let_def)

lemma commands_apart:
  assumes "parse_M cmd \<noteq> None \<or> parse_G cmd \<noteq> None"
  shows "cmd \<noteq> ascii ''g''" "cmd \<noteq> ascii ''vCont;s:1''"
  using assms by (auto simp: parse_M_def parse_G_def ascii_def)

lemma commands_differ: "parse_M cmd = Some x \<Longrightarrow> parse_G cmd = None"
  by (auto simp: parse_M_def parse_G_def split: list.splits if_splits)

interpretation ref: gdb_target "target_srv run1" target_answer "target_step run1" tmem tregs run1
  for run1 :: "target \<Rightarrow> target"
proof (unfold_locales, goal_cases)
  case (1 q)
  then show ?case by (simp add: target_srv_def)
next
  case (2 cmd q)
  have "target_srv run1 (gdb_packet cmd) q = Some (0x2B # frame_text (target_answer cmd q), target_step run1 cmd q)"
    using packet_command [of cmd] by (simp add: target_srv_def)
  then show ?case using frame_text_frame lit_items [of "[]" "target_answer cmd q"] unfolding items_data_def by fastforce
next
  case (3 cmd a bs q)
  then show ?case using commands_apart [of cmd] by (simp add: target_answer_def target_step_def)
next
  case (4 q)
  then show ?case by (simp add: target_answer_def target_step_def)
next
  case (5 cmd ws q)
  then have "parse_M cmd = None" using commands_differ [of cmd] by (cases "parse_M cmd") auto
  then show ?case using 5 commands_apart [of cmd] by (simp add: target_answer_def target_step_def)
next
  case (6 q)
  have "ascii ''vCont;s:1'' \<noteq> ascii ''g''" by (simp add: ascii_def)
  then show ?case by (simp add: target_step_def)
qed

section \<open>A peer that answers single bytes\<close>

text \<open>Its state is what was sent to it; it answers the \<open>k\<close>-th packet by \<open>f k\<close>, a byte or nothing.\<close>

definition scripted :: "(nat \<Rightarrow> u8 option) \<Rightarrow> u8 list list server" where
  "scripted f bs sent = Some (case f (length sent) of None \<Rightarrow> [] | Some c \<Rightarrow> [c], sent @ [bs])"

lemma gdb_send_step:
  "gdb_send (scripted f) cmd \<lparr>inp = [], ack = True, peer = sent\<rparr> =
     (if f (length sent) = Some 0x2B then Some (Inr \<lparr>inp = [], ack = True, peer = sent @ [gdb_packet cmd]\<rparr>)
      else gdb_send (scripted f) cmd \<lparr>inp = [], ack = True, peer = sent @ [gdb_packet cmd]\<rparr>)"
  by (subst gdb_send.simps)
    (cases "f (length sent)", simp_all add: send_packet_def scripted_def conn_getc_def)

lemma gdb_send_at:
  assumes "f (length sent + k) = Some 0x2B" and "\<forall>j < k. f (length sent + j) \<noteq> Some 0x2B"
  shows "gdb_send (scripted f) cmd \<lparr>inp = [], ack = True, peer = sent\<rparr>
    = Some (Inr \<lparr>inp = [], ack = True, peer = sent @ replicate (Suc k) (gdb_packet cmd)\<rparr>)"
  using assms
proof (induction k arbitrary: sent)
  case 0
  then show ?case by (simp add: gdb_send_step)
next
  case (Suc k)
  have "f (length sent) \<noteq> Some 0x2B" using Suc.prems(2) by force
  moreover have "\<forall>j < k. f (length (sent @ [gdb_packet cmd]) + j) \<noteq> Some 0x2B"
    using Suc.prems(2) by force
  ultimately show ?case using Suc.IH [of "sent @ [gdb_packet cmd]"] Suc.prems(1)
    by (subst gdb_send_step) simp
qed

lemma gdb_send_acks:
  assumes "gdb_send (scripted f) cmd conn = Some y" and "inp conn = []" and "ack conn"
  shows "\<exists>k. f k = Some 0x2B"
proof -
  have "inp conn = [] \<longrightarrow> ack conn \<longrightarrow> scripted f = scripted f \<longrightarrow> (\<exists>k. f k = Some 0x2B)"
  proof (rule gdb_send.raw_induct [where P = "\<lambda>srv cmd conn y. inp conn = [] \<longrightarrow> ack conn \<longrightarrow> srv = scripted f \<longrightarrow> (\<exists>k. f k = Some 0x2B)"])
    show "gdb_send (scripted f) cmd conn = Some y" by (rule assms(1))
  next
    fix send srv command conn y
    assume IH: "\<And>srv command (conn :: u8 list list gdb_conn) y. send srv command conn = Some y \<Longrightarrow>
        inp conn = [] \<longrightarrow> ack conn \<longrightarrow> srv = scripted f \<longrightarrow> (\<exists>k. f k = Some 0x2B)"
      and step: "bind_run (Some (send_packet srv command conn)) (\<lambda>conn1. if \<not> ack conn1 then Some (Inr conn1)
         else case conn_getc conn1 of (c, conn2) \<Rightarrow> if c = Some 0x2B then Some (Inr conn2) else send srv command conn2) = Some y"
    show "inp conn = [] \<longrightarrow> ack conn \<longrightarrow> srv = scripted f \<longrightarrow> (\<exists>k. f k = Some 0x2B)"
    proof (intro impI)
      assume a: "inp conn = []" "ack conn" "srv = scripted f"
      show "\<exists>k. f k = Some 0x2B"
      proof (cases "f (length (peer conn)) = Some 0x2B")
        case False
        then have "send srv command (conn\<lparr>peer := peer conn @ [gdb_packet command], inp := []\<rparr>) = Some y"
          using step a
          by (cases "f (length (peer conn))") (simp_all add: send_packet_def scripted_def conn_getc_def)
        from IH [OF this] show ?thesis using a by simp
      qed blast
    qed
  qed
  then show ?thesis using assms by simp
qed

section \<open>Properties\<close>

text \<open>Four zeros, run-length encoded as in the manual of GDB.\<close>

lemma rle_frame: "frame [Lit 0x30, Rep 3] [0x24, 0x30, 0x2A, 0x20, 0x23, 0x37, 0x61]"
proof -
  have "body_text [Lit 0x30, Rep 3] = [0x30, 0x2A, 0x20]" by (simp add: body_text_def)
  moreover have "gdb_decode_hex 0x37 0x61 = 0x7A"
    by (simp add: gdb_decode_hex_def c_isxdigit_def c_isdigit_def hex_nibble_def c_tolower_def)
  ultimately show ?thesis
    unfolding frame_def by (intro exI [of _ "0x37"] exI [of _ "0x61"] conjI) simp_all
qed

text \<open>
  C33: the receiver decodes every encoding of a packet. Whatever arrives before it without a
  \<open>$\<close>, whatever follows and whatever the heap holds, a frame whose body is any sequence of literal
  bytes, escaped bytes and run-length repetitions with a matching checksum is accepted, the
  buffer holds the decoded bytes and a zero, and the bytes after the frame are still unread.
\<close>

theorem recv_packet_decodes:
  assumes "frame its bs" and "items_ok [] its" and "0x24 \<notin> set noise"
  shows "\<exists>r. recv_packet junk (noise @ bs @ rest) = Inr (r, True, rest)
     \<and> map (rbuf r) [0..<rpos r] = items_data its \<and> rbuf r (rpos r) = 0 \<and> rpos r < rcap r"
  using recv_packet_frame [OF assms, of junk rest] by (auto simp: rx_bytes_def)

theorem recv_packet_decodes_witness:
  "\<exists>r. recv_packet (\<lambda>_. 0) ([0x2B] @ [0x24, 0x30, 0x2A, 0x20, 0x23, 0x37, 0x61] @ []) = Inr (r, True, [])
     \<and> map (rbuf r) [0..<rpos r] = [0x30, 0x30, 0x30, 0x30]"
proof -
  have i: "items_ok [] [Lit 0x30, Rep 3]" by (simp add: special_def)
  have n: "(0x24 :: u8) \<notin> set [0x2B]" by simp
  have d: "items_data [Lit 0x30, Rep 3] = [0x30, 0x30, 0x30, 0x30]" unfolding items_data_def by (simp add: numeral_3_eq_3)
  show ?thesis
    using recv_packet_decodes [OF rle_frame i n, of "\<lambda>_. 0" "[]", unfolded d] by (elim exE conjE) (rule exI, rule conjI)
qed

text \<open>
  C34: for every input and every content of the heap the receiver either exits because the
  connection was closed or returns with its terminating zero inside the buffer; no write is ever
  outside the allocated bytes.
\<close>

theorem recv_packet_in_bounds:
  "case recv_packet junk s of Inl e \<Rightarrow> e = HostExit 0
   | Inr (r, ok, rest) \<Rightarrow> rpos r < rcap r \<and> rbuf r (rpos r) = 0 \<and> length rest \<le> length s"
proof -
  have "length (skip_to_start s) \<le> length s" by (induction s) auto
  then have "rx_result (length s) (recv_packet junk s)"
    unfolding recv_packet_def by (intro rx_result_mono [OF recv_loop_result]) (simp_all add: rx_ok_def)
  then show ?thesis by (auto simp: rx_result_def split: sum.splits)
qed

text \<open>
  C35: \<open>gdb_send\<close> against a peer that answers each transmission with at most one byte: it returns
  after the first acknowledgement, having sent the packet once more than it was refused, and if
  no answer is ever \<open>+\<close> it does not return. An answer that is missing because the peer has closed
  its side counts as a refusal.
\<close>

theorem gdb_send_retransmits:
  "gdb_send (scripted f) cmd \<lparr>inp = [], ack = True, peer = []\<rparr> =
     (if \<exists>k. f k = Some 0x2B
      then Some (Inr \<lparr>inp = [], ack = True, peer = replicate (Suc (LEAST k. f k = Some 0x2B)) (gdb_packet cmd)\<rparr>)
      else None)"
proof (cases "\<exists>k. f k = Some 0x2B")
  case True
  let ?k = "LEAST k. f k = Some 0x2B"
  have "f ?k = Some 0x2B" by (rule LeastI_ex [OF True])
  moreover have "\<forall>j < ?k. f j \<noteq> Some 0x2B" using not_less_Least by blast
  ultimately have "gdb_send (scripted f) cmd \<lparr>inp = [], ack = True, peer = []\<rparr>
      = Some (Inr \<lparr>inp = [], ack = True, peer = [] @ replicate (Suc ?k) (gdb_packet cmd)\<rparr>)"
    by (intro gdb_send_at) (simp_all only: list.size add_0)
  then show ?thesis unfolding if_P [OF True] append_Nil .
next
  case False
  then have "gdb_send (scripted f) cmd \<lparr>inp = [], ack = True, peer = []\<rparr> \<noteq> Some y" for y
    using gdb_send_acks [of f cmd "\<lparr>inp = [], ack = True, peer = []\<rparr>" y] by auto
  then show ?thesis unfolding if_not_P [OF False] using not_None_eq by blast
qed

text \<open>
  C36: copying memory to the reference. Against any debug target, \<open>difftest_memcpy\<close> sends the
  buffer in pieces of at most 1500 bytes, returns, and the target's memory then holds exactly the
  buffer at the address, with its registers unchanged.
\<close>

theorem qemu_memcpy_stores:
  assumes "gdb_target srv answer step mem regs istep"
    and "inp conn = []" and "ack conn" and "length buf < 2 ^ 31"
  shows "\<exists>q. qemu_difftest_memcpy srv junk addr buf (length buf) True conn = Some (Inr (conn\<lparr>peer := q\<rparr>))
    \<and> mem q = poke_at addr buf (mem (peer conn)) \<and> regs q = regs (peer conn)"
  by (rule gdb_target.difftest_memcpy_run [OF assms])

theorem qemu_memcpy_stores_witness:
  "\<exists>q. qemu_difftest_memcpy (target_srv id) (\<lambda>_. 0) 0x80000000 (replicate 1600 7) 1600 True
       \<lparr>inp = [], ack = True, peer = \<lparr>tmem = (\<lambda>_. 0), tregs = []\<rparr>\<rparr>
     = Some (Inr \<lparr>inp = [], ack = True, peer = q\<rparr>) \<and> tmem q 0x8000063F = 7 \<and> tmem q 0x80000640 = 0"
proof -
  let ?conn = "\<lparr>inp = [], ack = True, peer = \<lparr>tmem = (\<lambda>_. 0), tregs = []\<rparr>\<rparr>"
  have "\<exists>q. qemu_difftest_memcpy (target_srv id) (\<lambda>_. 0) 0x80000000 (replicate 1600 7) (length (replicate 1600 (7 :: u8))) True ?conn
      = Some (Inr (?conn\<lparr>peer := q\<rparr>)) \<and> tmem q = poke_at 0x80000000 (replicate 1600 7) (tmem (peer ?conn))
      \<and> tregs q = tregs (peer ?conn)"
    by (rule qemu_memcpy_stores [OF ref.gdb_target_axioms]) simp_all
  then show ?thesis by (auto simp: poke_at_def)
qed

text \<open>
  C37: copying registers to the reference and back. Against a target with at most 77 registers,
  of which the guest compares the first, \<open>difftest_regcpy\<close> to the reference sets exactly the
  compared registers of the target and keeps its others and its memory, and copying back returns
  what was set, whatever the heap behind the reply contains.
\<close>

theorem qemu_regcpy_roundtrip:
  assumes "gdb_target srv answer step mem regs istep"
    and "inp conn = []" and "ack conn" and "length (regs (peer conn)) \<le> 77"
    and "n = difftest_reg_words isa" and "n \<le> length (regs (peer conn))" and "n \<le> length dut" and "n \<le> length dut'"
  shows "\<exists>q. qemu_difftest_regcpy srv junk isa dut True conn = Some (Inr (dut, conn\<lparr>peer := q\<rparr>))
    \<and> regs q = take n dut @ drop n (regs (peer conn)) \<and> mem q = mem (peer conn)
    \<and> qemu_difftest_regcpy srv junk isa dut' False (conn\<lparr>peer := q\<rparr>)
      = Some (Inr (take n dut @ drop n dut', conn\<lparr>peer := q\<rparr>))"
proof -
  obtain q where q: "qemu_difftest_regcpy srv junk isa dut True conn = Some (Inr (dut, conn\<lparr>peer := q\<rparr>))"
    "regs q = take n dut @ drop n (regs (peer conn))" "mem q = mem (peer conn)"
    using gdb_target.regcpy_run(2) [OF assms(1-7), of junk] by blast
  let ?c = "conn\<lparr>peer := q\<rparr>"
  have "inp ?c = []" "ack ?c" "length (regs (peer ?c)) \<le> 77" "n \<le> length (regs (peer ?c))"
    using assms(2-4,6,7) q(2) by auto
  from gdb_target.regcpy_run(1) [OF assms(1) this(1-3) assms(5) this(4) assms(8), of junk]
  have "qemu_difftest_regcpy srv junk isa dut' False ?c = Some (Inr (take n dut @ drop n dut', ?c))"
    using q(2) assms(7) by simp
  then show ?thesis using q by blast
qed

theorem qemu_regcpy_roundtrip_witness:
  "\<exists>q. qemu_difftest_regcpy (target_srv id) (\<lambda>_. 0x30) QEMU_riscv32 (replicate 33 5) True
         \<lparr>inp = [], ack = True, peer = \<lparr>tmem = (\<lambda>_. 0), tregs = replicate 33 0\<rparr>\<rparr>
       = Some (Inr (replicate 33 5, \<lparr>inp = [], ack = True, peer = q\<rparr>)) \<and> tregs q = replicate 33 5"
proof -
  let ?conn = "\<lparr>inp = [], ack = True, peer = \<lparr>tmem = (\<lambda>_. 0), tregs = replicate 33 0\<rparr>\<rparr>"
  have "\<exists>q. qemu_difftest_regcpy (target_srv id) (\<lambda>_. 0x30) QEMU_riscv32 (replicate 33 5) True ?conn
        = Some (Inr (replicate 33 5, ?conn\<lparr>peer := q\<rparr>))
     \<and> tregs q = take 33 (replicate 33 5) @ drop 33 (tregs (peer ?conn)) \<and> tmem q = tmem (peer ?conn)
     \<and> qemu_difftest_regcpy (target_srv id) (\<lambda>_. 0x30) QEMU_riscv32 (replicate 33 0) False (?conn\<lparr>peer := q\<rparr>)
      = Some (Inr (take 33 (replicate 33 5) @ drop 33 (replicate 33 0), ?conn\<lparr>peer := q\<rparr>))"
    by (rule qemu_regcpy_roundtrip [OF ref.gdb_target_axioms]) simp_all
  then show ?thesis by auto
qed

end
