(* ===== verification/Int64.thy ===== *)
theory Int64
  imports Prelude
begin

text \<open>
  64-bit division for 32-bit processors, \<open>abstract-machine/klib/src/int64.c\<close>. The unions of a
  double word with its halves are read by \<open>uhigh\<close> and \<open>ulow\<close> and built by \<open>dwords\<close>. Signed
  integers are two's complement and shift arithmetically to the right, as the code assumes; a
  shift by the width or more is \<open>BadShift\<close>. On a processor without bit counting the compiler
  turns \<open>__builtin_clz\<close> and \<open>__builtin_ctz\<close> into \<open>__clzsi2\<close> and \<open>__ctzsi2\<close> of the same file.
\<close>

section \<open>Double words\<close>

definition uhigh :: "u64 \<Rightarrow> u32" where
  "uhigh x = ucast (drop_bit 32 x)"

definition ulow :: "u64 \<Rightarrow> u32" where
  "ulow x = ucast x"

definition dwords :: "u32 \<Rightarrow> u32 \<Rightarrow> u64" where
  "dwords high low = push_bit 32 (ucast high) OR ucast low"

definition shl32 :: "u32 \<Rightarrow> u32 \<Rightarrow> u32 res" where
  "shl32 x k = (if k < 32 then Inr (push_bit (unat k) x) else Inl BadShift)"

definition shr32 :: "u32 \<Rightarrow> u32 \<Rightarrow> u32 res" where
  "shr32 x k = (if k < 32 then Inr (drop_bit (unat k) x) else Inl BadShift)"

definition udiv32 :: "u32 \<Rightarrow> u32 \<Rightarrow> u32 res" where
  "udiv32 x y = (if y = 0 then Inl DivTrap else Inr (x div y))"

definition umod32 :: "u32 \<Rightarrow> u32 \<Rightarrow> u32 res" where
  "umod32 x y = (if y = 0 then Inl DivTrap else Inr (x mod y))"

definition c_bool :: "bool \<Rightarrow> u32" where
  "c_bool b = (if b then 1 else 0)"

section \<open>Counting zeros\<close>

definition clzsi2 :: "u32 \<Rightarrow> u32" where
  "clzsi2 a =
     (let x = a;
          t = push_bit 4 (c_bool (x AND 0xFFFF0000 = 0)); x = drop_bit (unat (16 - t)) x; r = t;
          t = push_bit 3 (c_bool (x AND 0xFF00 = 0)); x = drop_bit (unat (8 - t)) x; r = r + t;
          t = push_bit 2 (c_bool (x AND 0xF0 = 0)); x = drop_bit (unat (4 - t)) x; r = r + t;
          t = push_bit 1 (c_bool (x AND 0xC = 0)); x = drop_bit (unat (2 - t)) x; r = r + t
      in r + ((2 - x) AND - c_bool (x AND 2 = 0)))"

definition ctzsi2 :: "u32 \<Rightarrow> u32" where
  "ctzsi2 a =
     (let x = a;
          t = push_bit 4 (c_bool (x AND 0x0000FFFF = 0)); x = drop_bit (unat t) x; r = t;
          t = push_bit 3 (c_bool (x AND 0x00FF = 0)); x = drop_bit (unat t) x; r = r + t;
          t = push_bit 2 (c_bool (x AND 0x0F = 0)); x = drop_bit (unat t) x; r = r + t;
          t = push_bit 1 (c_bool (x AND 0x3 = 0)); x = drop_bit (unat t) x; x = x AND 3; r = r + t
      in r + ((2 - drop_bit 1 x) AND - c_bool (x AND 1 = 0)))"

definition ctzdi2 :: "u64 \<Rightarrow> u32" where
  "ctzdi2 a = (let f = - c_bool (ulow a = 0) in
     ctzsi2 ((uhigh a AND f) OR (ulow a AND NOT f)) + (f AND 32))"

definition clzdi2 :: "u64 \<Rightarrow> u32" where
  "clzdi2 a = (let f = - c_bool (uhigh a = 0) in
     clzsi2 ((uhigh a AND NOT f) OR (ulow a AND f)) + (f AND 32))"

section \<open>Unsigned division\<close>

text \<open>The body of the loop, lines 600 to 614, on \<open>q\<close>, \<open>r\<close> and \<open>carry\<close>.\<close>

definition udiv_step :: "u64 \<Rightarrow> u64 \<times> u64 \<times> u32 \<Rightarrow> u64 \<times> u64 \<times> u32" where
  "udiv_step d = (\<lambda>(q, r, carry).
     let rh = push_bit 1 (uhigh r) OR drop_bit 31 (ulow r);
         rl = push_bit 1 (ulow r) OR drop_bit 31 (uhigh q);
         qh = push_bit 1 (uhigh q) OR drop_bit 31 (ulow q);
         ql = push_bit 1 (ulow q) OR carry;
         r = dwords rh rl;
         s = signed_drop_bit 63 (d - r - 1);
         carry = ucast (s AND 1)
     in (dwords qh ql, r - (d AND s), carry))"

primrec udiv_loop :: "nat \<Rightarrow> u64 \<Rightarrow> u64 \<times> u64 \<times> u32 \<Rightarrow> u64 \<times> u64 \<times> u32" where
  "udiv_loop 0 d st = st"
| "udiv_loop (Suc sr) d st = udiv_loop sr d (udiv_step d st)"

text \<open>From the loop to the end: quotient and remainder.\<close>

definition udiv_run :: "u32 \<Rightarrow> u64 \<Rightarrow> u64 \<Rightarrow> u64 \<Rightarrow> u64 \<times> u64" where
  "udiv_run sr d q r = (case udiv_loop (unat sr) d (q, r, 0) of (q, r, carry) \<Rightarrow> (push_bit 1 q OR ucast carry, r))"

text \<open>\<open>q = n << (64 - sr)\<close> and \<open>r = n >> sr\<close> on the halves, for \<open>sr < 32\<close>.\<close>

definition setup_low :: "u64 \<Rightarrow> u32 \<Rightarrow> (u64 \<times> u64) res" where
  "setup_low n sr =
     bind_res (shl32 (ulow n) (32 - sr)) (\<lambda>qh.
     bind_res (shr32 (uhigh n) sr) (\<lambda>rh.
     bind_res (shl32 (uhigh n) (32 - sr)) (\<lambda>h.
     bind_res (shr32 (ulow n) sr) (\<lambda>l.
     Inr (dwords qh 0, dwords rh (h OR l))))))"

definition udivmoddi4 :: "u64 \<Rightarrow> u64 \<Rightarrow> (u64 \<times> u64) res" where
  "udivmoddi4 n d =
    (if uhigh n = 0 then
       if uhigh d = 0 then
         bind_res (umod32 (ulow n) (ulow d)) (\<lambda>m.
         bind_res (udiv32 (ulow n) (ulow d)) (\<lambda>q. Inr (ucast q, ucast m)))
       else Inr (0, ucast (ulow n))
     else if ulow d = 0 then
       if uhigh d = 0 then
         bind_res (umod32 (uhigh n) (ulow d)) (\<lambda>m.
         bind_res (udiv32 (uhigh n) (ulow d)) (\<lambda>q. Inr (ucast q, ucast m)))
       else if ulow n = 0 then
         bind_res (umod32 (uhigh n) (uhigh d)) (\<lambda>m.
         bind_res (udiv32 (uhigh n) (uhigh d)) (\<lambda>q. Inr (ucast q, dwords m 0)))
       else if uhigh d AND (uhigh d - 1) = 0 then
         bind_res (shr32 (uhigh n) (ctzsi2 (uhigh d))) (\<lambda>q.
         Inr (ucast q, dwords (uhigh n AND (uhigh d - 1)) (ulow n)))
       else let sr = clzsi2 (uhigh d) - clzsi2 (uhigh n) in
         if sr > 30 then Inr (0, n)
         else let sr = sr + 1 in
           bind_res (setup_low n sr) (\<lambda>(q, r). Inr (udiv_run sr d q r))
     else if uhigh d = 0 then
       if ulow d AND (ulow d - 1) = 0 then
         if ulow d = 1 then Inr (n, ucast (ulow n AND (ulow d - 1)))
         else let sr = ctzsi2 (ulow d) in
           bind_res (shr32 (uhigh n) sr) (\<lambda>qh.
           bind_res (shl32 (uhigh n) (32 - sr)) (\<lambda>h.
           bind_res (shr32 (ulow n) sr) (\<lambda>l.
           Inr (dwords qh (h OR l), ucast (ulow n AND (ulow d - 1))))))
       else let sr = 1 + 32 + clzsi2 (ulow d) - clzsi2 (uhigh n) in
         if sr = 32 then Inr (udiv_run sr d (dwords (ulow n) 0) (dwords 0 (uhigh n)))
         else if sr < 32 then bind_res (setup_low n sr) (\<lambda>(q, r). Inr (udiv_run sr d q r))
         else
           bind_res (shl32 (ulow n) (64 - sr)) (\<lambda>ql.
           bind_res (shl32 (uhigh n) (64 - sr)) (\<lambda>h.
           bind_res (shr32 (ulow n) (sr - 32)) (\<lambda>l.
           bind_res (shr32 (uhigh n) (sr - 32)) (\<lambda>rl.
           Inr (udiv_run sr d (dwords (h OR l) ql) (dwords 0 rl))))))
     else let sr = clzsi2 (uhigh d) - clzsi2 (uhigh n) in
       if sr > 31 then Inr (0, n)
       else let sr = sr + 1 in
         if sr = 32 then Inr (udiv_run sr d (dwords (ulow n) 0) (dwords 0 (uhigh n)))
         else bind_res (setup_low n sr) (\<lambda>(q, r). Inr (udiv_run sr d q r)))"

definition udivdi3 :: "u64 \<Rightarrow> u64 \<Rightarrow> u64 res" where
  "udivdi3 a b = bind_res (udivmoddi4 a b) (\<lambda>(q, r). Inr q)"

definition umoddi3 :: "u64 \<Rightarrow> u64 \<Rightarrow> u64 res" where
  "umoddi3 a b = bind_res (udivmoddi4 a b) (\<lambda>(q, r). Inr r)"

section \<open>Signed division\<close>

definition divdi3 :: "u64 \<Rightarrow> u64 \<Rightarrow> u64 res" where
  "divdi3 a b =
     (let s_a = signed_drop_bit 63 a; s_b = signed_drop_bit 63 b;
          a = (a XOR s_a) - s_a; b = (b XOR s_b) - s_b; s_a = s_a XOR s_b
      in bind_res (udivmoddi4 a b) (\<lambda>(q, r). Inr ((q XOR s_a) - s_a)))"

definition divmoddi4 :: "u64 \<Rightarrow> u64 \<Rightarrow> (u64 \<times> u64) res" where
  "divmoddi4 a b = bind_res (divdi3 a b) (\<lambda>d. Inr (d, a - d * b))"

definition moddi3 :: "u64 \<Rightarrow> u64 \<Rightarrow> u64 res" where
  "moddi3 a b =
     (let s = signed_drop_bit 63 b; b = (b XOR s) - s; s = signed_drop_bit 63 a; a = (a XOR s) - s
      in bind_res (udivmoddi4 a b) (\<lambda>(q, r). Inr ((r XOR s) - s)))"

end
