(* ===== verification/Int64Bits.thy ===== *)
theory Int64Bits
  imports Int64
begin

text \<open>
  Counting zeros: \<open>clzsi2\<close> is 32 less the bit length, \<open>ctzsi2\<close> the exponent of the largest power
  of two that divides, each by one lemma per halving step.
\<close>

section \<open>Bit length\<close>

fun bitlen :: "nat \<Rightarrow> nat" where
  "bitlen n = (if n = 0 then 0 else Suc (bitlen (n div 2)))"

declare bitlen.simps [simp del]

lemma bitlen_le_iff: "bitlen n \<le> k \<longleftrightarrow> n < 2 ^ k"
proof (induction n arbitrary: k rule: bitlen.induct)
  case (1 n)
  show ?case
  proof (cases "n = 0")
    case True
    then show ?thesis by (simp add: bitlen.simps)
  next
    case False
    show ?thesis
    proof (cases k)
      case 0
      then show ?thesis using False by (simp add: bitlen.simps [of n])
    next
      case (Suc m)
      have "bitlen n \<le> k \<longleftrightarrow> bitlen (n div 2) \<le> m" using False Suc by (simp add: bitlen.simps [of n])
      also have "\<dots> \<longleftrightarrow> n div 2 < 2 ^ m" by (rule 1 [OF False])
      also have "\<dots> \<longleftrightarrow> n < 2 ^ k" by (simp add: Suc div_less_iff_less_mult mult.commute)
      finally show ?thesis .
    qed
  qed
qed

lemma bitlen_upper: "n < 2 ^ bitlen n"
  using bitlen_le_iff [of n "bitlen n"] by simp

lemma bitlen_lower: "n \<noteq> 0 \<Longrightarrow> 2 ^ (bitlen n - 1) \<le> n"
  using bitlen_le_iff [of n "bitlen n - 1"] bitlen_le_iff [of n 0] by (cases "bitlen n") auto

lemma bitlen_eqI: "n < 2 ^ k \<Longrightarrow> 2 ^ (k - 1) \<le> n \<Longrightarrow> 0 < k \<Longrightarrow> bitlen n = k"
  using bitlen_le_iff [of n k] bitlen_le_iff [of n "k - 1"] by auto

lemma bitlen_div: "bitlen (n div 2 ^ m) = bitlen n - m"
proof -
  have "bitlen (n div 2 ^ m) \<le> k \<longleftrightarrow> bitlen n - m \<le> k" for k
    by (simp add: bitlen_le_iff div_less_iff_less_mult power_add le_diff_conv flip: bitlen_le_iff [of n "k + m"])
  then show ?thesis by (meson le_antisym order_refl)
qed

section \<open>Leading zeros\<close>

lemma unat_below_32: "unat (x :: u32) < 2 ^ 32"
  using unsigned_less [of x] by simp

lemma unat_drop_bit32: "unat (drop_bit k (x :: u32)) = unat x div 2 ^ k"
  using unat_drop_bit_eq [of k x] drop_bit_eq_div [of k "unat x"] by (simp only:)

lemma bit_below: "unat (x :: 'a :: len word) < 2 ^ k \<Longrightarrow> bit x i \<Longrightarrow> i < k"
proof -
  assume a: "unat x < 2 ^ k" "bit x i"
  have "take_bit k (unat x) = unat x" using a(1) by (simp add: take_bit_nat_eq_self)
  moreover have "bit (unat x) i" using a(2) by (simp add: bit_unsigned_iff)
  ultimately show ?thesis by (metis bit_take_bit_iff)
qed

lemma high_mask_zero:
  fixes x mask :: u32
  assumes "unat x < 2 ^ (m + m)" and "m + m \<le> 32" and "mask = push_bit m (2 ^ m - 1)"
  shows "x AND mask = 0 \<longleftrightarrow> unat x < 2 ^ m"
proof -
  have hi: "\<not> bit x i" if "i \<ge> m + m" for i
    using bit_below [OF assms(1), of i] that by auto
  have b: "bit mask i \<longleftrightarrow> m \<le> i \<and> i < m + m" if "i < 32" for i
    using that assms(2) by (auto simp: assms(3) bit_simps mask_eq_exp_minus_1 [symmetric])
  have "x AND mask = 0 \<longleftrightarrow> drop_bit m x = 0"
  proof
    assume z: "x AND mask = 0"
    show "drop_bit m x = 0"
    proof (rule bit_word_eqI)
      fix i assume i: "i < LENGTH(32)"
      have "\<not> bit (x AND mask) (m + i)" using z by simp
      then show "bit (drop_bit m x) i = bit (0 :: u32) i"
        using hi [of "m + i"] b [of "m + i"] bit_imp_le_length [of x "m + i"]
        by (auto simp: bit_simps not_less)
    qed
  next
    assume z: "drop_bit m x = 0"
    show "x AND mask = 0"
    proof (rule bit_word_eqI)
      fix i assume i: "i < LENGTH(32)"
      have "\<not> bit (drop_bit m x) (i - m)" using z by simp
      then show "bit (x AND mask) i = bit (0 :: u32) i" using b [of i] i by (auto simp: bit_simps)
    qed
  qed
  also have "\<dots> \<longleftrightarrow> unat x < 2 ^ m"
    by (simp add: unat_eq_0 [symmetric] unat_drop_bit32 div_eq_0_iff)
  finally show ?thesis .
qed

text \<open>One halving: from width \<open>2 m\<close> to \<open>m\<close>, with \<open>t\<close> zeros counted.\<close>

lemma clz_stage:
  fixes x mask t w :: u32
  assumes x: "unat x < 2 ^ (m + m)" and m: "m + m \<le> 32" and mask: "mask = push_bit m (2 ^ m - 1)"
    and w: "w = of_nat m"
    and t: "t = (if x AND mask = 0 then w else 0)"
  shows "unat (drop_bit (unat (w - t)) x) < 2 ^ m" and "unat t \<le> m"
    and "m - bitlen (unat (drop_bit (unat (w - t)) x)) + unat t = m + m - bitlen (unat x)"
proof -
  have small: "m < 2 ^ 32" using m by (rule le_less_trans [OF add_leD1]) simp
  then have u: "unat w = m" unfolding w by (simp add: unat_of_nat take_bit_eq_mod)
  note z = high_mask_zero [OF x m mask]
  have "unat (drop_bit (unat (w - t)) x) < 2 ^ m \<and> unat t \<le> m
      \<and> m - bitlen (unat (drop_bit (unat (w - t)) x)) + unat t = m + m - bitlen (unat x)"
  proof (cases "x AND mask = 0")
    case True
    then show ?thesis using z u t bitlen_le_iff [of "unat x" m] by simp
  next
    case False
    then have "\<not> bitlen (unat x) \<le> m" using z by (simp add: bitlen_le_iff)
    then show ?thesis using False z u t x
      by (simp add: unat_drop_bit32 bitlen_div div_less_iff_less_mult power_add)
  qed
  then show "unat (drop_bit (unat (w - t)) x) < 2 ^ m" "unat t \<le> m"
    "m - bitlen (unat (drop_bit (unat (w - t)) x)) + unat t = m + m - bitlen (unat x)" by simp_all
qed

lemma word_below_4:
  assumes "unat (x :: u32) < 4"
  shows "x = 0 \<or> x = 1 \<or> x = 2 \<or> x = 3"
proof -
  have "unat x = 0 \<or> unat x = 1 \<or> unat x = 2 \<or> unat x = 3" using assms by linarith
  then have "of_nat (unat x) = (0 :: u32) \<or> of_nat (unat x) = (1 :: u32) \<or> of_nat (unat x) = (2 :: u32) \<or> of_nat (unat x) = (3 :: u32)"
    by (elim disjE) simp_all
  then show ?thesis by simp
qed

lemma clz_last:
  assumes "unat x < 2 ^ 2"
  shows "unat ((2 - x) AND - c_bool (x AND 2 = 0)) = 2 - bitlen (unat x)"
proof -
  have b: "bitlen 0 = 0" "bitlen (Suc 0) = 1" "bitlen 2 = 2" "bitlen 3 = 2"
    by (simp_all add: bitlen.simps [of 0] bitlen.simps [of "Suc 0"] bitlen.simps [of 2] bitlen.simps [of 3])
  have "x = 0 \<or> x = 1 \<or> x = 2 \<or> x = 3" using assms by (intro word_below_4) simp
  then show ?thesis using b by (elim disjE) (simp_all add: c_bool_def)
qed

lemma shifted_bools: "push_bit 4 (c_bool b) = (if b then 16 else 0)" "push_bit 3 (c_bool b) = (if b then 8 else 0)"
  "push_bit 2 (c_bool b) = (if b then 4 else 0)" "push_bit 1 (c_bool b) = (if b then 2 else 0)"
  by (simp_all add: c_bool_def)

lemma clz_masks: "(0xFFFF0000 :: u32) = push_bit 16 (2 ^ 16 - 1)" "(0xFF00 :: u32) = push_bit 8 (2 ^ 8 - 1)"
  "(0xF0 :: u32) = push_bit 4 (2 ^ 4 - 1)" "(0xC :: u32) = push_bit 2 (2 ^ 2 - 1)"
  "(16 :: u32) = of_nat 16" "(8 :: u32) = of_nat 8" "(4 :: u32) = of_nat 4" "(2 :: u32) = of_nat 2"
  by simp_all

lemma widths: "16 + 16 \<le> (32 :: nat)" "8 + 8 \<le> (32 :: nat)" "4 + 4 \<le> (32 :: nat)" "2 + 2 \<le> (32 :: nat)"
  by simp_all

theorem clzsi2_bitlen: "unat (clzsi2 x) = 32 - bitlen (unat x)"
proof -
  define t1 where "t1 = (if x AND 0xFFFF0000 = 0 then 16 else (0 :: u32))"
  define x1 where "x1 = drop_bit (unat (16 - t1)) x"
  define t2 where "t2 = (if x1 AND 0xFF00 = 0 then 8 else (0 :: u32))"
  define x2 where "x2 = drop_bit (unat (8 - t2)) x1"
  define t3 where "t3 = (if x2 AND 0xF0 = 0 then 4 else (0 :: u32))"
  define x3 where "x3 = drop_bit (unat (4 - t3)) x2"
  define t4 where "t4 = (if x3 AND 0xC = 0 then 2 else (0 :: u32))"
  define x4 where "x4 = drop_bit (unat (2 - t4)) x3"
  define l where "l = (2 - x4) AND - c_bool (x4 AND 2 = 0)"
  have e: "clzsi2 x = t1 + t2 + t3 + t4 + l"
    unfolding clzsi2_def Let_def shifted_bools l_def x4_def t4_def x3_def t3_def x2_def t2_def x1_def t1_def ..
  have "unat x < 2 ^ (16 + 16)" using unat_below_32 [of x] by simp
  from clz_stage [OF this widths(1) clz_masks(1,5) t1_def, folded x1_def] have s1: "unat x1 < 2 ^ 16" "unat t1 \<le> 16"
    "16 - bitlen (unat x1) + unat t1 = 32 - bitlen (unat x)" by simp_all
  from s1(1) have "unat x1 < 2 ^ (8 + 8)" by simp
  from clz_stage [OF this widths(2) clz_masks(2,6) t2_def, folded x2_def] have s2: "unat x2 < 2 ^ 8" "unat t2 \<le> 8"
    "8 - bitlen (unat x2) + unat t2 = 16 - bitlen (unat x1)" by simp_all
  from s2(1) have "unat x2 < 2 ^ (4 + 4)" by simp
  from clz_stage [OF this widths(3) clz_masks(3,7) t3_def, folded x3_def] have s3: "unat x3 < 2 ^ 4" "unat t3 \<le> 4"
    "4 - bitlen (unat x3) + unat t3 = 8 - bitlen (unat x2)" by simp_all
  from s3(1) have "unat x3 < 2 ^ (2 + 2)" by simp
  from clz_stage [OF this widths(4) clz_masks(4,8) t4_def, folded x4_def] have s4: "unat x4 < 2 ^ 2" "unat t4 \<le> 2"
    "2 - bitlen (unat x4) + unat t4 = 4 - bitlen (unat x3)" by simp_all
  have s5: "unat l = 2 - bitlen (unat x4)" unfolding l_def by (rule clz_last [OF s4(1)])
  have total: "unat t1 + unat t2 + unat t3 + unat t4 + unat l = 32 - bitlen (unat x)"
    using s1(3) s2(3) s3(3) s4(3) s5 by linarith
  have "clzsi2 x = of_nat (unat t1 + unat t2 + unat t3 + unat t4 + unat l)" unfolding e by simp
  then show ?thesis unfolding total by (simp add: unat_of_nat take_bit_eq_mod)
qed

section \<open>Trailing zeros\<close>

lemma low_mask_zero:
  fixes x :: u32
  assumes "k < 32"
  shows "x AND (2 ^ k - 1) = 0 \<longleftrightarrow> 2 ^ k dvd unat x"
proof -
  have "x AND (2 ^ k - 1) = take_bit k x" by (simp add: take_bit_eq_mask mask_eq_exp_minus_1)
  then have "x AND (2 ^ k - 1) = 0 \<longleftrightarrow> unat (take_bit k x) = 0" by (simp add: word_unat_eq_iff)
  also have "unat (take_bit k x) = unat x mod 2 ^ k" unfolding unsigned_take_bit_eq unfolding take_bit_eq_mod ..
  finally show ?thesis by (simp add: dvd_eq_mod_eq_0)
qed

text \<open>One halving: \<open>y\<close> is \<open>x\<close> followed by \<open>r\<close> zeros.\<close>

lemma ctz_stage:
  fixes x t w mask :: u32
  assumes nz: "\<not> 2 ^ (m + m) dvd unat x" and m: "0 < m" "m + m \<le> 32" and y: "y = unat x * 2 ^ r"
    and w: "w = of_nat m"
    and mask: "mask = 2 ^ m - 1" and t: "t = (if x AND mask = 0 then w else 0)"
  shows "\<not> 2 ^ m dvd unat (drop_bit (unat t) x)" and "y = unat (drop_bit (unat t) x) * 2 ^ (r + unat t)" and "unat t \<le> m"
proof -
  have small: "m < 2 ^ 32" using m(2) by (rule le_less_trans [OF add_leD1]) simp
  then have u: "unat w = m" unfolding w by (simp add: unat_of_nat take_bit_eq_mod)
  have z: "x AND mask = 0 \<longleftrightarrow> 2 ^ m dvd unat x" unfolding mask using m by (intro low_mask_zero) simp
  have "\<not> 2 ^ m dvd unat (drop_bit (unat t) x) \<and> y = unat (drop_bit (unat t) x) * 2 ^ (r + unat t) \<and> unat t \<le> m"
  proof (cases "2 ^ m dvd unat x")
    case True
    then obtain k where k: "unat x = 2 ^ m * k" by blast
    have t': "unat t = m" using True z t u by simp
    have "unat (drop_bit m x) = k" by (simp add: unat_drop_bit32 k)
    moreover have "\<not> 2 ^ m dvd k" using nz by (simp add: k power_add)
    ultimately show ?thesis using t' by (simp add: y k power_add ac_simps)
  next
    case False
    then show ?thesis using z t y by simp
  qed
  then show "\<not> 2 ^ m dvd unat (drop_bit (unat t) x)" "y = unat (drop_bit (unat t) x) * 2 ^ (r + unat t)" "unat t \<le> m"
    by blast+
qed

lemma ctz_last:
  fixes x :: u32
  assumes "\<not> 2 ^ 2 dvd unat x"
  shows "\<exists>k. unat x = (2 * k + 1) * 2 ^ unat ((2 - drop_bit 1 (x AND 3)) AND - c_bool ((x AND 3) AND 1 = 0))"
    and "unat ((2 - drop_bit 1 (x AND 3)) AND - c_bool ((x AND 3) AND 1 = 0)) \<le> 1"
proof -
  have a: "x AND 3 = take_bit 2 x" using take_bit_eq_mask [of 2 x] by (simp add: mask_eq_exp_minus_1)
  have r: "unat (x AND 3) = unat x mod 4" unfolding a unsigned_take_bit_eq unfolding take_bit_eq_mod by simp
  have "unat (x AND 3) < 4" by (simp add: r)
  then have c: "x AND 3 = 0 \<or> x AND 3 = 1 \<or> x AND 3 = 2 \<or> x AND 3 = 3" by (rule word_below_4)
  have d: "unat x = 4 * (unat x div 4) + unat x mod 4" by simp
  have "(\<exists>k. unat x = (2 * k + 1) * 2 ^ unat ((2 - drop_bit 1 (x AND 3)) AND - c_bool ((x AND 3) AND 1 = 0)))
      \<and> unat ((2 - drop_bit 1 (x AND 3)) AND - c_bool ((x AND 3) AND 1 = 0)) \<le> 1"
    using c
  proof (elim disjE)
    assume "x AND 3 = 0"
    then have "unat x mod 4 = 0" using r by simp
    then show ?thesis using assms by (simp add: dvd_eq_mod_eq_0)
  next
    assume e: "x AND 3 = 1"
    have l: "unat ((2 - drop_bit 1 (1 :: u32)) AND - c_bool ((1 :: u32) AND 1 = 0)) = 0" by (simp add: c_bool_def)
    have "unat x mod 4 = 1" using e r by simp
    then have "unat x = (2 * (2 * (unat x div 4)) + 1) * 2 ^ 0" using d unfolding power_0 power_one_right mult_1_right by linarith
    then show ?thesis unfolding e l by (intro conjI) (rule exI, assumption, simp)
  next
    assume e: "x AND 3 = 2"
    have l: "unat ((2 - drop_bit 1 (2 :: u32)) AND - c_bool ((2 :: u32) AND 1 = 0)) = 1" by (simp add: c_bool_def)
    have "unat x mod 4 = 2" using e r by simp
    then have "unat x = (2 * (unat x div 4) + 1) * 2 ^ 1" using d by (simp only: power_one_right distrib_right)
    then show ?thesis unfolding e l by (intro conjI) (rule exI, assumption, simp)
  next
    assume e: "x AND 3 = 3"
    have l: "unat ((2 - drop_bit 1 (3 :: u32)) AND - c_bool ((3 :: u32) AND 1 = 0)) = 0" by (simp add: c_bool_def)
    have "unat x mod 4 = 3" using e r by simp
    then have "unat x = (2 * (2 * (unat x div 4) + 1) + 1) * 2 ^ 0" using d by simp
    then show ?thesis unfolding e l by (intro conjI) (rule exI, assumption, simp)
  qed
  then show "\<exists>k. unat x = (2 * k + 1) * 2 ^ unat ((2 - drop_bit 1 (x AND 3)) AND - c_bool ((x AND 3) AND 1 = 0))"
    "unat ((2 - drop_bit 1 (x AND 3)) AND - c_bool ((x AND 3) AND 1 = 0)) \<le> 1" by blast+
qed

theorem ctzsi2_factor:
  assumes "x \<noteq> 0"
  shows "unat (ctzsi2 x) < 32 \<and> (\<exists>k. unat x = (2 * k + 1) * 2 ^ unat (ctzsi2 x))"
proof -
  define t1 where "t1 = (if x AND 0xFFFF = 0 then 16 else (0 :: u32))"
  define x1 where "x1 = drop_bit (unat t1) x"
  define t2 where "t2 = (if x1 AND 0xFF = 0 then 8 else (0 :: u32))"
  define x2 where "x2 = drop_bit (unat t2) x1"
  define t3 where "t3 = (if x2 AND 0xF = 0 then 4 else (0 :: u32))"
  define x3 where "x3 = drop_bit (unat t3) x2"
  define t4 where "t4 = (if x3 AND 3 = 0 then 2 else (0 :: u32))"
  define x4 where "x4 = drop_bit (unat t4) x3"
  define l where "l = (2 - drop_bit 1 (x4 AND 3)) AND - c_bool ((x4 AND 3) AND 1 = 0)"
  have e: "ctzsi2 x = t1 + t2 + t3 + t4 + l"
    unfolding ctzsi2_def Let_def shifted_bools l_def x4_def t4_def x3_def t3_def x2_def t2_def x1_def t1_def ..
  have "\<not> 2 ^ (16 + 16) dvd unat x"
  proof
    assume "2 ^ (16 + 16) dvd unat x"
    then have "2 ^ 32 \<le> unat x" using assms by (intro dvd_imp_le) (simp_all add: unat_gt_0)
    then show False using unat_below_32 [of x] by linarith
  qed
  from ctz_stage [OF this _ _ _ _ _ t1_def, where y = "unat x" and r = 0] have s1: "\<not> 2 ^ 16 dvd unat x1" "unat x = unat x1 * 2 ^ unat t1" "unat t1 \<le> 16"
    by (simp_all add: x1_def)
  from s1(1) have "\<not> 2 ^ (8 + 8) dvd unat x1" by simp
  from ctz_stage [OF this _ _ s1(2) _ _ t2_def] have s2: "\<not> 2 ^ 8 dvd unat x2" "unat x = unat x2 * 2 ^ (unat t1 + unat t2)" "unat t2 \<le> 8"
    by (simp_all add: x2_def)
  from s2(1) have "\<not> 2 ^ (4 + 4) dvd unat x2" by simp
  from ctz_stage [OF this _ _ s2(2) _ _ t3_def] have s3: "\<not> 2 ^ 4 dvd unat x3" "unat x = unat x3 * 2 ^ (unat t1 + unat t2 + unat t3)" "unat t3 \<le> 4"
    by (simp_all add: x3_def)
  from s3(1) have "\<not> 2 ^ (2 + 2) dvd unat x3" by simp
  from ctz_stage [OF this _ _ s3(2) _ _ t4_def] have s4: "\<not> 2 ^ 2 dvd unat x4" "unat x = unat x4 * 2 ^ (unat t1 + unat t2 + unat t3 + unat t4)" "unat t4 \<le> 2"
    by (simp_all add: x4_def)
  obtain k where k: "unat x4 = (2 * k + 1) * 2 ^ unat l" using ctz_last(1) [OF s4(1)] unfolding l_def by blast
  have l: "unat l \<le> 1" using ctz_last(2) [OF s4(1)] unfolding l_def .
  let ?s = "unat t1 + unat t2 + unat t3 + unat t4 + unat l"
  have s: "?s < 32" using s1(3) s2(3) s3(3) s4(3) l by linarith
  have "ctzsi2 x = of_nat ?s" unfolding e by simp
  then have c: "unat (ctzsi2 x) = ?s" using s by (simp only: unat_of_nat take_bit_eq_mod) simp
  have "unat x = (2 * k + 1) * 2 ^ ?s" unfolding s4(2) k by (simp only: power_add ac_simps)
  then show ?thesis unfolding c using s by blast
qed

end
