(* ===== verification/Int64Div.thy ===== *)
theory Int64Div
  imports Int64Bits
begin

text \<open>
  The restoring division of \<open>udivmoddi4\<close>: one turn of the loop as an operation on whole double
  words and then on numbers, its invariant, and the result of every path through the function.
\<close>

section \<open>Halves\<close>

lemma bit_dwords: "bit (dwords h l) i \<longleftrightarrow> (if i < 32 then bit l i else i < 64 \<and> bit h (i - 32))"
  by (auto simp: dwords_def bit_simps dest: bit_imp_le_length)

lemma bit_uhigh: "bit (uhigh x) i \<longleftrightarrow> i < 32 \<and> bit x (i + 32)"
  by (auto simp: uhigh_def bit_simps ac_simps)

lemma bit_ulow: "bit (ulow x) i \<longleftrightarrow> i < 32 \<and> bit x i"
  by (auto simp: ulow_def bit_simps)

lemmas bit_halves = bit_dwords bit_uhigh bit_ulow

lemma dwords_parts [simp]: "dwords (uhigh x) (ulow x) = x" "uhigh (dwords h l) = h" "ulow (dwords h l) = l"
  by (rule bit_word_eqI, auto simp: bit_halves dest: bit_imp_le_length)+

lemma unat_dwords: "unat (dwords h l) = 2 ^ 32 * unat h + unat l"
proof -
  have "dwords h l = push_bit 32 (ucast h) + ucast l"
    unfolding dwords_def by (rule disjunctive_add [symmetric]) (auto simp: bit_simps dest: bit_imp_le_length)
  also have "\<dots> = of_nat (2 ^ 32 * unat h + unat l)"
    by (simp add: push_bit_eq_mult unsigned_ucast_eq)
  finally have e: "dwords h l = of_nat (2 ^ 32 * unat h + unat l)" .
  have "2 ^ 32 * unat h + unat l < 2 ^ 32 * (unat h + 1)" using unat_below_32 [of l] by simp
  also have "\<dots> \<le> 2 ^ 32 * 2 ^ 32" using unat_below_32 [of h] by (intro mult_left_mono) simp_all
  finally have "2 ^ 32 * unat h + unat l < 2 ^ 64" by (simp flip: power_add)
  then show ?thesis unfolding e by (simp only: unat_of_nat take_bit_eq_mod) simp
qed

lemma unat_halves: "unat x = 2 ^ 32 * unat (uhigh x) + unat (ulow x)"
  using unat_dwords [of "uhigh x" "ulow x"] by simp

lemma unat_below_64: "unat (x :: u64) < 2 ^ 64"
  using unsigned_less [of x] by simp

section \<open>One turn of the loop\<close>

definition shifted_r :: "u64 \<Rightarrow> u64 \<Rightarrow> u64" where
  "shifted_r q r = push_bit 1 r OR drop_bit 63 q"

lemma halves_shift:
  "i < LENGTH(64) \<Longrightarrow> bit (dwords (push_bit 1 (uhigh r) OR drop_bit 31 (ulow r)) (push_bit 1 (ulow r) OR drop_bit 31 (uhigh q))) i
    \<longleftrightarrow> bit (push_bit 1 r OR drop_bit 63 q) i"
  using bit_imp_le_length [of q "63 + i"]
  by (cases "i = 0"; cases "i = 32"; cases "i < 32") (auto simp: bit_halves bit_simps simp del: push_bit_Suc One_nat_def, simp_all)

lemma halves_shift_in:
  "i < LENGTH(64) \<Longrightarrow> bit (dwords (push_bit 1 (uhigh q) OR drop_bit 31 (ulow q)) (push_bit 1 (ulow q) OR carry)) i
    \<longleftrightarrow> bit (push_bit 1 q OR ucast carry) i"
  using bit_imp_le_length [of carry i]
  by (cases "i = 0"; cases "i = 32"; cases "i < 32") (auto simp: bit_halves bit_simps simp del: push_bit_Suc One_nat_def, simp_all)

lemma udiv_step_whole:
  "udiv_step d (q, r, carry) =
     (let r = shifted_r q r; s = signed_drop_bit 63 (d - r - 1)
      in (push_bit 1 q OR ucast carry, r - (d AND s), ucast (s AND 1)))"
proof -
  have "dwords (push_bit 1 (uhigh r) OR drop_bit 31 (ulow r)) (push_bit 1 (ulow r) OR drop_bit 31 (uhigh q)) = shifted_r q r"
    unfolding shifted_r_def by (rule bit_word_eqI) (rule halves_shift)
  moreover have "dwords (push_bit 1 (uhigh q) OR drop_bit 31 (ulow q)) (push_bit 1 (ulow q) OR carry) = push_bit 1 q OR ucast carry"
    by (rule bit_word_eqI) (rule halves_shift_in)
  ultimately show ?thesis by (simp add: udiv_step_def Let_def)
qed

text \<open>The comparison by the sign of the difference.\<close>

lemma sint_bounds: "- (2 ^ 63) \<le> sint (x :: u64)" "sint (x :: u64) < 2 ^ 63"
  using sint_greater_eq [of x] sint_less [of x] by simp_all

lemma sign_mask: "signed_drop_bit 63 (x :: u64) = (if sint x < 0 then - 1 else 0)"
proof -
  have "signed_drop_bit 63 x = word_of_int (sint (signed_drop_bit 63 x))" by simp
  also have "sint (signed_drop_bit 63 x) = sint x div 2 ^ 63"
    unfolding sint_signed_drop_bit_eq by (rule drop_bit_eq_div)
  also have "\<dots> = (if sint x < 0 then - 1 else 0)"
  proof (cases "sint x < 0")
    case True
    have "sint x div 2 ^ 63 = - 1"
      by (rule int_div_pos_eq [where r = "sint x + 2 ^ 63"]) (use True sint_bounds [of x] in simp_all)
    then show ?thesis using True by simp
  next
    case False
    then have "sint x div 2 ^ 63 = 0" using sint_bounds(2) [of x] by (intro div_pos_pos_trivial) simp_all
    then show ?thesis using False by simp
  qed
  finally show ?thesis by simp
qed

lemma borrow_mask:
  fixes d r :: u64
  assumes "unat d < unat r + 1 + 2 ^ 63" and "unat r < unat d + 2 ^ 63"
  shows "signed_drop_bit 63 (d - r - 1) = (if unat d \<le> unat r then - 1 else 0)"
proof -
  define k where "k = int (unat d) - int (unat r) - 1"
  have "int (unat d) < int (unat r + 1 + 2 ^ 63)" "int (unat r) < int (unat d + 2 ^ 63)"
    using assms by (simp_all only: of_nat_less_iff)
  then have k: "- (2 ^ 63) \<le> k" "k < 2 ^ 63" by (simp_all add: k_def)
  have e: "d - r - 1 = word_of_int k" by (simp add: k_def)
  have "sint (d - r - 1) = k"
    unfolding e sint_sbintrunc' using k by (intro signed_take_bit_int_eq_self) simp_all
  moreover have "k < 0 \<longleftrightarrow> unat d \<le> unat r"
    unfolding k_def word_le_nat_alt [symmetric] word_le_def by simp linarith
  ultimately show ?thesis by (simp only: sign_mask)
qed

section \<open>The invariant\<close>

text \<open>
  With \<open>k\<close> turns to go, \<open>r\<close> is the remainder and \<open>Q\<close> the quotient of the upper part of the
  dividend; \<open>q\<close> has the lower part on top and \<open>Q\<close> but for its last bit below, which is \<open>carry\<close>.
\<close>

definition div_inv :: "nat \<Rightarrow> nat \<Rightarrow> nat \<Rightarrow> nat \<Rightarrow> u64 \<times> u64 \<times> u32 \<Rightarrow> bool" where
  "div_inv N D k Q = (\<lambda>(q, r, c). N div 2 ^ k = Q * D + unat r \<and> unat r < D
     \<and> unat q = (N mod 2 ^ k) * 2 ^ (64 - k) + Q div 2 \<and> unat c = Q mod 2)"

lemma power_split: "a \<le> b \<Longrightarrow> (2 :: nat) ^ b = 2 ^ a * 2 ^ (b - a)"
  by (simp only: power_add [symmetric] le_add_diff_inverse)

lemma div_step_numbers:
  fixes N k Q R D q :: nat
  assumes "N < 2 ^ 64" and "k \<le> 62" and N: "N div 2 ^ Suc k = Q * D + R" and "0 < D"
    and q: "q = (N mod 2 ^ Suc k) * 2 ^ (64 - Suc k) + Q div 2"
  defines "b \<equiv> (N div 2 ^ k) mod 2"
  shows "q div 2 ^ 63 = b" and "(2 * q) mod 2 ^ 64 + Q mod 2 = (N mod 2 ^ k) * 2 ^ (64 - k) + Q"
    and "N div 2 ^ k = 2 * (Q * D + R) + b"
proof -
  define m h where "m = N mod 2 ^ k" and "h = Q div 2"
  have p: "(2 :: nat) ^ 63 = 2 ^ k * 2 ^ (63 - k)" "(2 :: nat) ^ 64 = 2 ^ Suc k * 2 ^ (63 - k)" "64 - k = Suc (63 - k)"
    using assms(2) power_split [of k 63] power_split [of "Suc k" 64] by simp_all
  have "N div 2 ^ k = 2 * (N div 2 ^ k div 2) + b" unfolding b_def by simp
  also have "N div 2 ^ k div 2 = N div 2 ^ Suc k" by (simp only: div_mult2_eq power_Suc2)
  also note N
  finally show "N div 2 ^ k = 2 * (Q * D + R) + b" .
  have "N mod (2 ^ k * 2) = 2 ^ k * b + m" unfolding b_def m_def by (rule mod_mult2_eq)
  then have low: "N mod 2 ^ Suc k = 2 ^ k * b + m" by (simp add: mult.commute)
  have "N div 2 ^ Suc k < 2 ^ (63 - k)"
    using assms(1) unfolding p(2) by (intro less_mult_imp_div_less) (simp only: mult.commute)
  moreover have "Q \<le> N div 2 ^ Suc k" using N assms(4) by (metis le_add1 le_trans mult_le_mono2 mult_1_right Suc_leI One_nat_def)
  ultimately have Q: "Q < 2 ^ (63 - k)" by linarith
  then have h: "h < 2 ^ (63 - k)" unfolding h_def by simp
  have m: "m < 2 ^ k" unfolding m_def by simp
  then have "(m + 1) * 2 ^ (63 - k) \<le> 2 ^ k * 2 ^ (63 - k)" by (intro mult_right_mono) simp_all
  then have u: "m * 2 ^ (63 - k) + h < 2 ^ 63" using h unfolding p(1) by (simp add: add_mult_distrib)
  have q': "q = b * 2 ^ 63 + (m * 2 ^ (63 - k) + h)"
  proof -
    have "64 - Suc k = 63 - k" by simp
    then have "q = (2 ^ k * b + m) * 2 ^ (63 - k) + h" using q low h_def by simp
    also have "\<dots> = b * (2 ^ k * 2 ^ (63 - k)) + (m * 2 ^ (63 - k) + h)" by (simp add: algebra_simps)
    finally show ?thesis unfolding p(1) .
  qed
  show "q div 2 ^ 63 = b" unfolding q' using u by (simp only: div_mult_self3 div_less)
  have "2 * q = b * 2 ^ 64 + 2 * (m * 2 ^ (63 - k) + h)" unfolding q' by simp
  moreover have "2 * (m * 2 ^ (63 - k) + h) < 2 ^ 64" using u by simp
  ultimately have "(2 * q) mod 2 ^ 64 = 2 * (m * 2 ^ (63 - k) + h)" by (simp only: mod_mult_self3 mod_less)
  also have "\<dots> = m * 2 ^ (64 - k) + 2 * h" unfolding p(3) by (simp add: algebra_simps)
  finally show "(2 * q) mod 2 ^ 64 + Q mod 2 = (N mod 2 ^ k) * 2 ^ (64 - k) + Q" unfolding m_def [symmetric] h_def by simp
qed

lemma unat_shift_in:
  fixes q :: u64
  assumes "unat c \<le> 1"
  shows "unat (push_bit 1 q OR ucast (c :: u32)) = (2 * unat q) mod 2 ^ 64 + unat c"
proof -
  have "\<not> bit c i" if "0 < i" for i
    using bit_below [of c 1 i] assms that by auto
  then have "push_bit 1 q OR ucast c = push_bit 1 q + ucast c"
    by (intro disjunctive_add [symmetric]) (auto simp: bit_simps simp del: push_bit_Suc One_nat_def)
  also have "\<dots> = of_nat (2 * unat q + unat c)" by (simp add: unsigned_ucast_eq)
  finally have e: "push_bit 1 q OR ucast c = of_nat (2 * unat q + unat c)" .
  have "2 * unat q mod 2 ^ 64 + unat c < 2 ^ 64"
  proof -
    have "2 * unat q mod 2 ^ 64 = 2 * (unat q mod 2 ^ 63)" using mult_mod_right [of 2 "unat q" "2 ^ 63"] by simp
    moreover have "unat q mod 2 ^ 63 < 2 ^ 63" by simp
    ultimately show ?thesis using assms by simp
  qed
  then have "(2 * unat q + unat c) mod 2 ^ 64 = 2 * unat q mod 2 ^ 64 + unat c"
    by (metis mod_add_left_eq mod_less)
  then show ?thesis unfolding e by (simp only: unat_of_nat take_bit_eq_mod) simp
qed

lemma unat_shifted_r:
  assumes "2 * unat r + unat q div 2 ^ 63 < 2 ^ 64"
  shows "unat (shifted_r q r) = 2 * unat r + unat q div 2 ^ 63"
proof -
  have "shifted_r q r = push_bit 1 r + drop_bit 63 q"
    unfolding shifted_r_def
    by (intro disjunctive_add [symmetric]) (auto simp: bit_simps dest: bit_imp_le_length simp del: push_bit_Suc One_nat_def)
  also have "\<dots> = of_nat (2 * unat r + unat (drop_bit 63 q))" by simp
  also have "unat (drop_bit 63 q) = unat q div 2 ^ 63"
    using unat_drop_bit_eq [of 63 q] drop_bit_eq_div [of 63 "unat q"] by (simp only:)
  finally show ?thesis using assms by (simp only: unat_of_nat take_bit_eq_mod) simp
qed

lemma div_inv_step:
  fixes n d :: u64
  assumes inv: "div_inv (unat n) (unat d) (Suc k) Q st" and k: "k \<le> 62"
    and top: "unat d < 2 ^ 63 \<or> k = 0 \<and> Q = 0 \<and> 2 ^ 63 \<le> unat n"
  shows "\<exists>Q'. div_inv (unat n) (unat d) k Q' (udiv_step d st)"
proof -
  obtain q r c where st: "st = (q, r, c)" by (cases st) auto
  let ?N = "unat n" and ?D = "unat d"
  have i: "?N div 2 ^ Suc k = Q * ?D + unat r" "unat r < ?D" "unat q = (?N mod 2 ^ Suc k) * 2 ^ (64 - Suc k) + Q div 2" "unat c = Q mod 2"
    using inv by (simp_all add: st div_inv_def)
  define b where "b = (?N div 2 ^ k) mod 2"
  have "0 < ?D" using i(2) by simp
  note num = div_step_numbers [OF unat_below_64 k i(1) this i(3), folded b_def]
  define r' where "r' = shifted_r q r"
  have sum: "?N div 2 ^ k = 2 * Q * ?D + (2 * unat r + b)" using num(3) by (simp add: algebra_simps)
  have "?N div 2 ^ k \<le> ?N" by (rule div_le_dividend)
  then have "2 * unat r + b < 2 ^ 64" using sum unat_below_64 [of n] by linarith
  then have r': "unat r' = 2 * unat r + b" using unat_shifted_r [of r q] num(1) by (simp add: r'_def)
  have b1: "b \<le> 1" by (simp add: b_def)
  have range: "?D < unat r' + 1 + 2 ^ 63 \<and> unat r' < ?D + 2 ^ 63"
  proof (cases "?D < 2 ^ 63")
    case True
    then show ?thesis using r' i(2) b1 by linarith
  next
    case False
    then have t: "k = 0 \<and> Q = 0 \<and> 2 ^ 63 \<le> ?N" using top by blast
    then have "unat r' = ?N" using sum r' by simp
    then show ?thesis using False t unat_below_64 [of n] unat_below_64 [of d] by simp
  qed
  let ?c = "?D \<le> unat r'"
  have m: "signed_drop_bit 63 (d - r' - 1) = (if ?c then - 1 else 0)" using borrow_mask range by blast
  have carry: "ucast (signed_drop_bit 63 (d - r' - 1) AND 1) = (of_bool ?c :: u32)" unfolding m by simp
  have q': "unat (push_bit 1 q OR ucast c) = (?N mod 2 ^ k) * 2 ^ (64 - k) + Q"
    using unat_shift_in [of c q] i(4) num(2) by simp
  have rem: "unat (r' - (d AND signed_drop_bit 63 (d - r' - 1))) = (if ?c then unat r' - ?D else unat r')"
    unfolding m by (simp add: unat_sub_if')
  have "div_inv ?N ?D k (2 * Q + of_bool ?c) (udiv_step d st)"
    unfolding st udiv_step_whole Let_def r'_def [symmetric] div_inv_def case_prod_conv carry q' rem
    using sum r' i(2) b1 by (auto simp: algebra_simps)
  then show ?thesis by blast
qed

lemma div_inv_loop:
  fixes n d :: u64
  assumes "div_inv (unat n) (unat d) k Q st" and "k \<le> 63" and "unat d < 2 ^ 63 \<or> k = 1 \<and> Q = 0 \<and> 2 ^ 63 \<le> unat n"
  shows "\<exists>Q'. div_inv (unat n) (unat d) 0 Q' (udiv_loop k d st)"
  using assms
proof (induction k arbitrary: Q st)
  case (Suc k)
  from Suc.prems(2,3) have k: "k \<le> 62" "unat d < 2 ^ 63 \<or> k = 0 \<and> Q = 0 \<and> 2 ^ 63 \<le> unat n" by auto
  obtain Q' where i: "div_inv (unat n) (unat d) k Q' (udiv_step d st)" using div_inv_step [OF Suc.prems(1) k] by blast
  show ?case
  proof (cases "k = 0")
    case True
    then show ?thesis using i by auto
  next
    case False
    then show ?thesis using Suc.IH [OF i] k by simp
  qed
qed auto

lemma udiv_run_result:
  assumes "div_inv (unat n) (unat d) (unat sr) 0 (q, r, 0)" and "unat sr \<le> 63"
    and "unat d < 2 ^ 63 \<or> unat sr = 1 \<and> 2 ^ 63 \<le> unat n"
  shows "udiv_run sr d q r = (n div d, n mod d)"
proof -
  obtain q' r' c' where l: "udiv_loop (unat sr) d (q, r, 0) = (q', r', c')" by (metis prod_cases3)
  obtain Q where i: "div_inv (unat n) (unat d) 0 Q (q', r', c')" using div_inv_loop [OF assms(1,2)] assms(3) l by auto
  then have f: "unat n = Q * unat d + unat r'" "unat r' < unat d" "unat q' = Q div 2" "unat c' = Q mod 2"
    by (simp_all add: div_inv_def)
  have "Q \<le> unat n" using f(1,2) by (cases "unat d") auto
  then have "Q < 2 ^ 64" using unat_below_64 [of n] by linarith
  then have "2 * (Q div 2) mod 2 ^ 64 + Q mod 2 = Q" by simp
  then have "unat (push_bit 1 q' OR ucast c') = Q" using unat_shift_in [of c' q'] f(3,4) by simp
  also have "Q = unat n div unat d" using f(1,2) by simp
  finally have "push_bit 1 q' OR ucast c' = n div d" by (simp add: word_unat_eq_iff unat_div)
  moreover have "r' = n mod d" using f(1,2) by (simp add: word_unat_eq_iff unat_mod)
  ultimately show ?thesis by (simp add: udiv_run_def l)
qed

end
