(* ===== verification/Int64Correct.thy ===== *)
theory Int64Correct
  imports Int64Div
begin

text \<open>
  The division routines compute division: every path of \<open>udivmoddi4\<close> gives quotient and
  remainder, the signed routines those of C, and a zero divisor traps.
\<close>

section \<open>Powers of two\<close>

lemma div_top: "0 < b \<Longrightarrow> (a * b + (b - 1)) div (b :: nat) = a"
  by (rule div_nat_eqI) (simp_all add: algebra_simps)

lemma power_of_two:
  assumes "x \<noteq> 0" and "x AND (x - 1) = 0"
  shows "unat x = 2 ^ unat (ctzsi2 x)"
proof -
  let ?c = "unat (ctzsi2 x)"
  obtain k where k: "unat x = (2 * k + 1) * 2 ^ ?c" using ctzsi2_factor [OF assms(1)] by blast
  have "k = 0"
  proof (rule ccontr)
    assume "k \<noteq> 0"
    then obtain j where j: "bit k j" by (metis bit_eqI bit_0_eq bot_apply bot_bool_def)
    let ?i = "?c + (1 + j)"
    have x1: "unat (x - 1) = unat x - 1" using assms(1) by (simp add: unat_minus_one)
    have "unat x div 2 ^ ?i = k div 2 ^ j"
      unfolding power_add by (simp add: div_mult2_eq k)
    moreover have "(unat x - 1) div 2 ^ ?i = k div 2 ^ j"
    proof -
      have "unat x - 1 = 2 * k * 2 ^ ?c + (2 ^ ?c - 1)" using k by (simp add: algebra_simps)
      then have "(unat x - 1) div 2 ^ ?c = 2 * k" by (simp only: div_top zero_less_power zero_less_numeral)
      then show ?thesis unfolding power_add by (simp add: div_mult2_eq)
    qed
    ultimately have "bit (unat x) ?i" "bit (unat (x - 1)) ?i"
      using j unfolding bit_iff_odd x1 by simp_all
    then have "bit (x AND (x - 1)) ?i" by (simp add: bit_unsigned_iff bit_and_iff)
    then show False using assms(2) by simp
  qed
  then show ?thesis using k by simp
qed

lemma power_mask:
  fixes y :: u32
  assumes "unat x = 2 ^ c" and "c < 32"
  shows "unat (y AND (x - 1)) = unat y mod 2 ^ c"
proof -
  have "x = of_nat (unat x)" by simp
  also note assms(1)
  finally have e: "y AND (x - 1) = take_bit c y" by (simp add: take_bit_eq_mask mask_eq_exp_minus_1)
  show ?thesis unfolding e unsigned_take_bit_eq by (simp add: take_bit_eq_mod)
qed

section \<open>The start of the loop\<close>

lemma unat_push_bit64: "unat (push_bit k (x :: u64)) = unat x * 2 ^ k mod 2 ^ 64"
  unfolding unsigned_push_bit_eq by (simp add: push_bit_eq_mult take_bit_eq_mod)

lemma unat_drop_bit64: "unat (drop_bit k (x :: u64)) = unat x div 2 ^ k"
  using unat_drop_bit_eq [of k x] drop_bit_eq_div [of k "unat x"] by (simp only:)

lemma udiv_run_starts:
  fixes n d :: u64
  assumes d: "d \<noteq> 0" and le: "bitlen (unat d) \<le> bitlen (unat n)"
    and k: "unat sr = bitlen (unat n) - bitlen (unat d) + 1" "unat sr \<le> 63"
  shows "udiv_run sr d (push_bit (64 - unat sr) n) (drop_bit (unat sr) n) = (n div d, n mod d)"
proof (rule udiv_run_result [OF _ k(2)])
  let ?N = "unat n" and ?D = "unat d" and ?k = "unat sr"
  have pos: "?D \<noteq> 0" using d by (simp add: unat_eq_0)
  then have D1: "0 < bitlen ?D" using bitlen_le_iff [of ?D 0] by simp
  have low: "2 ^ (bitlen ?D - 1) \<le> ?D" by (rule bitlen_lower [OF pos])
  have e: "bitlen ?N = (bitlen ?D - 1) + ?k" using k(1) le D1 by simp
  have "?N < 2 ^ (bitlen ?D - 1) * 2 ^ ?k" using bitlen_upper [of ?N] unfolding e power_add .
  then have "?N div 2 ^ ?k < 2 ^ (bitlen ?D - 1)" by (rule less_mult_imp_div_less)
  then have r: "?N div 2 ^ ?k < ?D" using low by linarith
  have q: "?N * 2 ^ (64 - ?k) mod 2 ^ 64 = (?N mod 2 ^ ?k) * 2 ^ (64 - ?k)"
    using power_split [of ?k 64] k(2) by (simp only: mult_mod_left)
  show "div_inv ?N ?D ?k 0 (push_bit (64 - ?k) n, drop_bit ?k n, 0)"
    using r q by (simp add: div_inv_def unat_push_bit64 unat_drop_bit64)
  show "?D < 2 ^ 63 \<or> ?k = 1 \<and> 2 ^ 63 \<le> ?N"
  proof (cases "?D < 2 ^ 63")
    case False
    then have "\<not> bitlen ?D \<le> 63" by (simp add: bitlen_le_iff)
    moreover have "bitlen ?N \<le> 64" using unat_below_64 [of n] by (simp only: bitlen_le_iff)
    ultimately have "bitlen ?N = 64" "?k = 1" using le k(1) by simp_all
    moreover have "?N \<noteq> 0" using \<open>bitlen ?N = 64\<close> bitlen.simps [of 0] by (intro notI) simp
    ultimately show ?thesis using bitlen_lower [of ?N] by simp
  qed simp
qed

lemma setup_low_run:
  assumes "0 < unat sr" and "unat sr < 32"
  shows "setup_low n sr = Inr (push_bit (64 - unat sr) n, drop_bit (unat sr) n)"
proof -
  have s: "sr < 32" using assms(2) by (simp add: word_less_nat_alt)
  have u: "unat (32 - sr) = 32 - unat sr" using assms(2) by (simp add: unat_sub word_le_nat_alt)
  then have s': "32 - sr < 32" using assms by (simp add: word_less_nat_alt)
  have "dwords (push_bit (32 - unat sr) (ulow n)) 0 = push_bit (64 - unat sr) n"
    by (rule bit_word_eqI) (use assms in \<open>auto simp: bit_halves bit_simps\<close>)
  moreover have "dwords (drop_bit (unat sr) (uhigh n)) (push_bit (32 - unat sr) (uhigh n) OR drop_bit (unat sr) (ulow n)) = drop_bit (unat sr) n"
    by (rule bit_word_eqI) (use assms in \<open>auto simp: bit_halves bit_simps ac_simps dest: bit_imp_le_length\<close>)
  ultimately show ?thesis by (simp add: setup_low_def shl32_def shr32_def s s' u)
qed

section \<open>Every path\<close>

lemma clz_difference:
  fixes x y :: u32
  assumes "x \<noteq> 0" and "y \<noteq> 0"
  defines "a \<equiv> bitlen (unat x)" and "b \<equiv> bitlen (unat y)"
  shows "a \<le> b \<Longrightarrow> unat (clzsi2 x - clzsi2 y) = b - a" and "b < a \<Longrightarrow> 31 < unat (clzsi2 x - clzsi2 y)"
    and "0 < a" and "0 < b" and "a \<le> 32" and "b \<le> 32"
proof -
  show p: "0 < a" "0 < b" "a \<le> 32" "b \<le> 32"
    using assms(1,2) bitlen_le_iff [of "unat x" 0] bitlen_le_iff [of "unat y" 0] unat_below_32 [of x] unat_below_32 [of y]
    by (auto simp: a_def b_def bitlen_le_iff unat_eq_0)
  have c: "unat (clzsi2 x) = 32 - a" "unat (clzsi2 y) = 32 - b" by (simp_all add: clzsi2_bitlen a_def b_def)
  show "a \<le> b \<Longrightarrow> unat (clzsi2 x - clzsi2 y) = b - a"
    using c p by (simp add: unat_sub_if')
  show "b < a \<Longrightarrow> 31 < unat (clzsi2 x - clzsi2 y)"
    using c p by (simp add: unat_sub_if') arith
qed

lemma bitlen_dwords:
  assumes "uhigh n \<noteq> 0"
  shows "bitlen (unat n) = 32 + bitlen (unat (uhigh n))"
proof -
  have "unat (uhigh n) = unat n div 2 ^ 32" using unat_halves [of n] unat_below_32 [of "ulow n"] by simp
  then have "bitlen (unat (uhigh n)) = bitlen (unat n) - 32" by (simp only: bitlen_div)
  moreover have "unat (uhigh n) \<noteq> 0" using assms by (simp add: unat_eq_0)
  then have "bitlen (unat (uhigh n)) \<noteq> 0" using bitlen_le_iff [of "unat (uhigh n)" 0] by simp
  ultimately show ?thesis by simp
qed

lemma shorter_less: "bitlen (unat n) < bitlen (unat d) \<Longrightarrow> n div d = 0 \<and> n mod (d :: u64) = n"
proof -
  assume a: "bitlen (unat n) < bitlen (unat d)"
  then have "\<not> bitlen (unat d) \<le> bitlen (unat n)" by simp
  then have "unat n < unat d" using bitlen_upper [of "unat n"] by (simp add: bitlen_le_iff)
  then show ?thesis by (simp add: word_unat_eq_iff unat_div unat_mod)
qed

lemma ucast_low_eq: "uhigh n = 0 \<Longrightarrow> ucast (ulow n) = n"
  by (rule bit_word_eqI) (metis bit_ulow bit_ucast_iff dwords_parts(1) bit_dwords bit_0_eq bot_apply bot_bool_def
    bit_imp_le_length)

text \<open>What the numbers of the halves say about the numbers of the wholes.\<close>

lemma divmod_eqI:
  fixes n d :: u64
  assumes "unat q = unat n div unat d" and "unat r = unat n mod unat d"
  shows "(q, r) = (n div d, n mod d)"
  using assms by (simp add: word_unat_eq_iff unat_div unat_mod)

lemma unat_ucast_64 [simp]: "unat (ucast (x :: u32) :: u64) = unat x"
proof -
  have "unat x < 2 ^ 64" using unat_below_32 [of x] by simp
  then show ?thesis by (simp add: unsigned_ucast_eq take_bit_nat_eq_self)
qed

lemma high_high:
  fixes q m :: u32
  assumes "ulow d = 0" and "uhigh d \<noteq> 0" and "unat q = unat (uhigh n) div unat (uhigh d)"
    and "unat m = unat (uhigh n) mod unat (uhigh d)"
  shows "(ucast q, dwords m (ulow n)) = (n div d, n mod d)"
proof (rule divmod_eqI)
  have d: "unat d = 2 ^ 32 * unat (uhigh d)" using unat_halves [of d] assms(1) by simp
  have n: "unat n = 2 ^ 32 * unat (uhigh n) + unat (ulow n)" by (rule unat_halves)
  have l: "unat (ulow n) < 2 ^ 32" by (rule unat_below_32)
  have h: "unat n div 2 ^ 32 = unat (uhigh n)" "unat n mod 2 ^ 32 = unat (ulow n)" using n l by simp_all
  show "unat (ucast q :: u64) = unat n div unat d"
    unfolding d div_mult2_eq h by (simp add: assms(3))
  show "unat (dwords m (ulow n)) = unat n mod unat d"
    unfolding d mod_mult2_eq h unat_dwords assms(4) ..
qed

lemma shifted_quotient:
  assumes "0 < c" and "c < 32" and "unat sr = c"
  shows "bind_res (shr32 (uhigh n) sr) (\<lambda>qh. bind_res (shl32 (uhigh n) (32 - sr)) (\<lambda>h.
     bind_res (shr32 (ulow n) sr) (\<lambda>l. Inr (dwords qh (h OR l), x)))) = Inr (drop_bit c n, x)"
proof -
  have s: "sr < 32" using assms by (simp add: word_less_nat_alt)
  have u: "unat (32 - sr) = 32 - c" using assms by (simp add: unat_sub word_le_nat_alt)
  then have s': "32 - sr < 32" using assms by (simp add: word_less_nat_alt)
  have "dwords (drop_bit c (uhigh n)) (push_bit (32 - c) (uhigh n) OR drop_bit c (ulow n)) = drop_bit c n"
    by (rule bit_word_eqI) (use assms in \<open>auto simp: bit_halves bit_simps ac_simps dest: bit_imp_le_length\<close>)
  then show ?thesis by (simp add: shl32_def shr32_def s s' u assms(3))
qed

lemma setup_mid:
  assumes "unat sr = 32"
  shows "dwords (ulow n) 0 = push_bit (64 - unat sr) n" "dwords 0 (uhigh n) = drop_bit (unat sr) n"
  by (rule bit_word_eqI, use assms in \<open>auto simp: bit_halves bit_simps ac_simps dest: bit_imp_le_length\<close>)+

lemma setup_high:
  assumes "32 < unat sr" and "unat sr \<le> 63"
  shows "bind_res (shl32 (ulow n) (64 - sr)) (\<lambda>ql. bind_res (shl32 (uhigh n) (64 - sr)) (\<lambda>h.
     bind_res (shr32 (ulow n) (sr - 32)) (\<lambda>l. bind_res (shr32 (uhigh n) (sr - 32)) (\<lambda>rl.
     Inr (udiv_run sr d (dwords (h OR l) ql) (dwords 0 rl))))))
   = Inr (udiv_run sr d (push_bit (64 - unat sr) n) (drop_bit (unat sr) n))"
proof -
  let ?k = "unat sr"
  have u: "unat (64 - sr) = 64 - ?k" "unat (sr - 32) = ?k - 32"
    using assms by (simp_all add: unat_sub word_le_nat_alt)
  then have s: "64 - sr < 32" "sr - 32 < 32" using assms by (simp_all add: word_less_nat_alt)
  have "dwords (push_bit (64 - ?k) (uhigh n) OR drop_bit (?k - 32) (ulow n)) (push_bit (64 - ?k) (ulow n)) = push_bit (64 - ?k) n"
    by (rule bit_word_eqI) (use assms in \<open>auto simp: bit_halves bit_simps ac_simps dest: bit_imp_le_length\<close>)
  moreover have "dwords 0 (drop_bit (?k - 32) (uhigh n)) = drop_bit ?k n"
    by (rule bit_word_eqI) (use assms in \<open>auto simp: bit_halves bit_simps ac_simps dest: bit_imp_le_length\<close>)
  ultimately show ?thesis by (simp add: shl32_def shr32_def s u)
qed

text \<open>The paths that end in the loop.\<close>

lemma loop_paths:
  assumes "uhigh n \<noteq> 0" and "d \<noteq> 0" and "bitlen (unat d) \<le> bitlen (unat n)"
    and "unat sr = bitlen (unat n) - bitlen (unat d) + 1" and "unat sr \<le> 63"
  shows "unat sr < 32 \<Longrightarrow> bind_res (setup_low n sr) (\<lambda>(q, r). Inr (udiv_run sr d q r)) = Inr (n div d, n mod d)"
    and "unat sr = 32 \<Longrightarrow> udiv_run sr d (dwords (ulow n) 0) (dwords 0 (uhigh n)) = (n div d, n mod d)"
    and "32 < unat sr \<Longrightarrow> udiv_run sr d (push_bit (64 - unat sr) n) (drop_bit (unat sr) n) = (n div d, n mod d)"
  using udiv_run_starts [OF assms(2-5)] setup_low_run [of sr n] setup_mid [of sr n] assms(4) by simp_all

lemma long_divisor:
  assumes "uhigh n \<noteq> 0" and "uhigh d \<noteq> 0"
  defines "sr \<equiv> clzsi2 (uhigh d) - clzsi2 (uhigh n)"
  shows "31 < sr \<Longrightarrow> (0, n) = (n div d, n mod d)"
    and "\<not> 31 < sr \<Longrightarrow> d \<noteq> 0 \<and> bitlen (unat d) \<le> bitlen (unat n)
       \<and> unat (sr + 1) = bitlen (unat n) - bitlen (unat d) + 1 \<and> unat (sr + 1) \<le> 32"
proof -
  let ?a = "bitlen (unat (uhigh d))" and ?b = "bitlen (unat (uhigh n))"
  note c = clz_difference [OF assms(2,1), folded sr_def]
  have l: "bitlen (unat n) = 32 + ?b" "bitlen (unat d) = 32 + ?a" by (rule bitlen_dwords, fact)+
  have "d \<noteq> 0" using assms(2) by (auto simp: uhigh_def)
  have lt: "31 < sr \<longleftrightarrow> 31 < unat sr" by (simp add: word_less_nat_alt)
  have short: "31 < unat sr \<longleftrightarrow> ?b < ?a"
  proof (cases "?a \<le> ?b")
    case True
    then show ?thesis using c(1,4,5,6) c(3) by simp
  next
    case False
    then show ?thesis using c(2) by simp
  qed
  show "31 < sr \<Longrightarrow> (0, n) = (n div d, n mod d)"
    using shorter_less [of n d] lt short l by simp
  assume "\<not> 31 < sr"
  then have "?a \<le> ?b" "unat sr = ?b - ?a" "unat sr \<le> 31" using lt short c(1) by simp_all
  moreover from this(3) have "unat (sr + 1) = unat sr + 1" by (simp add: unat_word_ariths)
  ultimately show "d \<noteq> 0 \<and> bitlen (unat d) \<le> bitlen (unat n)
       \<and> unat (sr + 1) = bitlen (unat n) - bitlen (unat d) + 1 \<and> unat (sr + 1) \<le> 32"
    using \<open>d \<noteq> 0\<close> l by simp
qed

lemma udivmoddi4_long:
  assumes n: "uhigh n \<noteq> 0" and d: "ulow d \<noteq> 0" "uhigh d \<noteq> 0"
  shows "udivmoddi4 n d = Inr (n div d, n mod d)"
proof (cases "31 < clzsi2 (uhigh d) - clzsi2 (uhigh n)")
  case True
  then show ?thesis using n d long_divisor(1) [OF n d(2)] by (simp add: udivmoddi4_def Let_def)
next
  case False
  let ?sr = "clzsi2 (uhigh d) - clzsi2 (uhigh n) + 1"
  note l = long_divisor(2) [OF n d(2) False]
  have k: "unat ?sr \<le> 63" using l by linarith
  from l loop_paths [OF n _ _ _ k] have p: "unat ?sr < 32 \<Longrightarrow> bind_res (setup_low n ?sr) (\<lambda>(q, r). Inr (udiv_run ?sr d q r)) = Inr (n div d, n mod d)"
    "unat ?sr = 32 \<Longrightarrow> udiv_run ?sr d (dwords (ulow n) 0) (dwords 0 (uhigh n)) = (n div d, n mod d)" by blast+
  have eq: "?sr = 32 \<longleftrightarrow> unat ?sr = 32" by (simp add: word_unat_eq_iff)
  show ?thesis
  proof (cases "?sr = 32")
    case True
    then show ?thesis using n d False p(2) eq by (simp add: udivmoddi4_def Let_def)
  next
    case ne: False
    then have "unat ?sr < 32" using l eq by linarith
    then show ?thesis using n d False p(1) ne by (simp add: udivmoddi4_def Let_def)
  qed
qed

lemma not_power_long: "x AND (x - 1) \<noteq> 0 \<Longrightarrow> 2 \<le> bitlen (unat (x :: u32))"
proof -
  assume a: "x AND (x - 1) \<noteq> 0"
  have "\<not> unat x < 2 ^ 1"
  proof
    assume "unat x < 2 ^ 1"
    then have "unat x = 0 \<or> unat x = 1" by auto
    then have "x = 0 \<or> x = 1" by (simp add: word_unat_eq_iff)
    then show False using a by auto
  qed
  then show ?thesis using bitlen_le_iff [of "unat x" 1] by simp
qed

lemma udivmoddi4_round:
  assumes n: "uhigh n \<noteq> 0" and d: "ulow d = 0" "uhigh d \<noteq> 0"
  shows "udivmoddi4 n d = Inr (n div d, n mod d)"
proof (cases "ulow n = 0")
  case True
  have "(ucast (uhigh n div uhigh d), dwords (uhigh n mod uhigh d) (ulow n)) = (n div d, n mod d)"
    by (rule high_high [OF d]) (simp_all add: unat_div unat_mod)
  then show ?thesis using n d True by (simp add: udivmoddi4_def umod32_def udiv32_def)
next
  case l: False
  show ?thesis
  proof (cases "uhigh d AND (uhigh d - 1) = 0")
    case True
    let ?c = "unat (ctzsi2 (uhigh d))"
    have p: "unat (uhigh d) = 2 ^ ?c" by (rule power_of_two [OF d(2) True])
    have c: "?c < 32" using ctzsi2_factor [OF d(2)] by blast
    then have "ctzsi2 (uhigh d) < 32" by (simp add: word_less_nat_alt)
    moreover have "(ucast (drop_bit ?c (uhigh n)), dwords (uhigh n AND (uhigh d - 1)) (ulow n)) = (n div d, n mod d)"
      by (rule high_high [OF d]) (simp_all add: p power_mask [OF p c] unat_drop_bit32)
    ultimately show ?thesis using n d l True by (simp add: udivmoddi4_def shr32_def)
  next
    case np: False
    let ?sr = "clzsi2 (uhigh d) - clzsi2 (uhigh n)"
    note cd = clz_difference [OF d(2) n]
    have le: "30 < ?sr \<longleftrightarrow> 31 < ?sr"
    proof (cases "bitlen (unat (uhigh d)) \<le> bitlen (unat (uhigh n))")
      case True
      then have "unat ?sr \<le> 30" using cd(1,6) not_power_long [OF np] by simp
      then show ?thesis by (simp add: word_less_nat_alt)
    next
      case False
      then show ?thesis using cd(2) by (simp add: word_less_nat_alt)
    qed
    show ?thesis
    proof (cases "31 < ?sr")
      case True
      then have "30 < ?sr" using le by blast
      then show ?thesis using n d l np long_divisor(1) [OF n d(2) True] by (simp add: udivmoddi4_def Let_def)
    next
      case False
      then have s: "\<not> 30 < ?sr" using le by blast
      note ld = long_divisor(2) [OF n d(2) False]
      have "unat ?sr \<le> 30" using s by (simp add: word_less_nat_alt not_less)
      then have "unat (?sr + 1) < 32" by (simp add: unat_word_ariths)
      then have "bind_res (setup_low n (?sr + 1)) (\<lambda>(q, r). Inr (udiv_run (?sr + 1) d q r)) = Inr (n div d, n mod d)"
        using loop_paths(1) [OF n, of d "?sr + 1"] ld by simp
      then show ?thesis using n d l np s by (simp add: udivmoddi4_def Let_def)
    qed
  qed
qed

lemma udivmoddi4_short_power:
  assumes n: "uhigh n \<noteq> 0" and d: "ulow d \<noteq> 0" "uhigh d = 0" and p2: "ulow d AND (ulow d - 1) = 0"
  shows "udivmoddi4 n d = Inr (n div d, n mod d)"
proof -
  let ?c = "unat (ctzsi2 (ulow d))"
  have p: "unat (ulow d) = 2 ^ ?c" by (rule power_of_two [OF d(1) p2])
  have c: "?c < 32" using ctzsi2_factor [OF d(1)] by blast
  have ud: "unat d = 2 ^ ?c" using unat_halves [of d] d(2) p by simp
  have "unat n = 2 ^ ?c * (2 ^ (32 - ?c) * unat (uhigh n)) + unat (ulow n)"
    using unat_halves [of n] power_split [of ?c 32] c by (simp only: mult.assoc less_imp_le)
  then have "unat (ulow n) mod 2 ^ ?c = unat n mod 2 ^ ?c" by (simp only: mod_mult_self4)
  then have "(drop_bit ?c n, ucast (ulow n AND (ulow d - 1))) = (n div d, n mod d)"
    by (intro divmod_eqI) (simp_all add: ud unat_drop_bit64 power_mask [OF p c])
  moreover have "?c = 0 \<longleftrightarrow> ulow d = 1" using p by (simp add: word_unat_eq_iff)
  ultimately show ?thesis
    using n d p2 c shifted_quotient [of ?c "ctzsi2 (ulow d)" n "n mod d"]
    by (cases "ulow d = 1") (simp_all add: udivmoddi4_def Let_def)
qed

lemma udivmoddi4_short:
  assumes n: "uhigh n \<noteq> 0" and d: "ulow d \<noteq> 0" "uhigh d = 0" and np: "ulow d AND (ulow d - 1) \<noteq> 0"
  shows "udivmoddi4 n d = Inr (n div d, n mod d)"
proof -
  define sr where "sr = 1 + 32 + clzsi2 (ulow d) - clzsi2 (uhigh n)"
  have e: "udivmoddi4 n d =
     (if sr = 32 then Inr (udiv_run sr d (dwords (ulow n) 0) (dwords 0 (uhigh n)))
      else if sr < 32 then bind_res (setup_low n sr) (\<lambda>(q, r). Inr (udiv_run sr d q r))
      else bind_res (shl32 (ulow n) (64 - sr)) (\<lambda>ql. bind_res (shl32 (uhigh n) (64 - sr)) (\<lambda>h.
           bind_res (shr32 (ulow n) (sr - 32)) (\<lambda>l. bind_res (shr32 (uhigh n) (sr - 32)) (\<lambda>rl.
           Inr (udiv_run sr d (dwords (h OR l) ql) (dwords 0 rl)))))))"
    unfolding udivmoddi4_def Let_def sr_def by (simp only: n d np if_False if_True simp_thms)
  let ?a = "bitlen (unat (ulow d))" and ?b = "bitlen (unat (uhigh n))"
  have r: "2 \<le> ?a" "?a \<le> 32" "0 < ?b" "?b \<le> 32"
    using not_power_long [OF np] clz_difference(3,5) [OF d(1) n] clz_difference(4,6) [OF d(1) n] by simp_all
  have "sr = of_nat (33 + (32 - ?a)) - of_nat (32 - ?b)"
    unfolding sr_def clzsi2_bitlen [symmetric] by simp
  also have "\<dots> = of_nat (33 + (32 - ?a) - (32 - ?b))" by (rule of_nat_diff [symmetric]) simp
  also have "33 + (32 - ?a) - (32 - ?b) = 33 + ?b - ?a" using r by simp
  finally have "unat sr = 33 + ?b - ?a" using r by (simp only: unat_of_nat take_bit_eq_mod) simp
  moreover have "unat d = unat (ulow d)" using unat_halves [of d] d(2) by simp
  ultimately have k: "unat sr = bitlen (unat n) - bitlen (unat d) + 1" "bitlen (unat d) \<le> bitlen (unat n)" "unat sr \<le> 63"
    using bitlen_dwords [OF n] r by simp_all
  have "d \<noteq> 0" using d(1) by (auto simp: ulow_def)
  note paths = loop_paths [OF n this k(2,1,3)]
  have eq: "sr = 32 \<longleftrightarrow> unat sr = 32" "sr < 32 \<longleftrightarrow> unat sr < 32" by (simp_all add: word_unat_eq_iff word_less_nat_alt)
  consider "sr = 32" | "sr \<noteq> 32" "sr < 32" | (high) "sr \<noteq> 32" "\<not> sr < 32" by blast
  then show ?thesis
  proof cases
    case 1
    then show ?thesis unfolding e using paths(2) eq by simp
  next
    case 2
    then show ?thesis unfolding e using paths(1) eq by simp
  next
    case high
    then have "32 < unat sr" using eq by linarith
    with paths(3) setup_high [OF this k(3), of n d] show ?thesis unfolding e using high by simp
  qed
qed

section \<open>Unsigned division\<close>

lemma halves_zero: "d = 0 \<longleftrightarrow> uhigh d = 0 \<and> ulow d = 0"
proof -
  have "dwords 0 0 = 0" by (simp add: dwords_def)
  then show ?thesis by (metis dwords_parts)
qed

lemma udivmoddi4_low:
  assumes "uhigh n = 0" and "d \<noteq> 0"
  shows "udivmoddi4 n d = Inr (n div d, n mod d)"
proof -
  have n: "unat n = unat (ulow n)" using unat_halves [of n] assms(1) by simp
  show ?thesis
  proof (cases "uhigh d = 0")
    case True
    have d: "unat d = unat (ulow d)" using unat_halves [of d] True by simp
    have "ulow d \<noteq> 0" using True assms(2) halves_zero by blast
    moreover have "(ucast (ulow n div ulow d), ucast (ulow n mod ulow d)) = (n div d, n mod d)"
      by (rule divmod_eqI) (simp_all add: n d unat_div unat_mod)
    ultimately show ?thesis using assms True by (simp add: udivmoddi4_def umod32_def udiv32_def)
  next
    case False
    then have "1 \<le> unat (uhigh d)" by (simp add: unat_gt_0 Suc_le_eq)
    then have "unat n < unat d" using n unat_below_32 [of "ulow n"] unat_halves [of d] by simp
    then have "(0, ucast (ulow n)) = (n div d, n mod d)"
      by (intro divmod_eqI) (simp_all add: n [symmetric])
    then show ?thesis using assms False by (simp add: udivmoddi4_def)
  qed
qed

lemma udivmoddi4_zero: "udivmoddi4 n 0 = Inl DivTrap"
proof -
  have "uhigh 0 = 0" "ulow 0 = 0" using halves_zero by blast+
  then show ?thesis by (simp add: udivmoddi4_def umod32_def)
qed

lemma udivmoddi4_result: "udivmoddi4 n d = (if d = 0 then Inl DivTrap else Inr (n div d, n mod d))"
proof (cases "d = 0")
  case True
  then show ?thesis by (simp add: udivmoddi4_zero)
next
  case False
  consider "uhigh n = 0" | "uhigh n \<noteq> 0" "ulow d = 0" "uhigh d \<noteq> 0" | "uhigh n \<noteq> 0" "ulow d \<noteq> 0" "uhigh d = 0" "ulow d AND (ulow d - 1) = 0"
    | "uhigh n \<noteq> 0" "ulow d \<noteq> 0" "uhigh d = 0" "ulow d AND (ulow d - 1) \<noteq> 0" | "uhigh n \<noteq> 0" "ulow d \<noteq> 0" "uhigh d \<noteq> 0"
    using False halves_zero by blast
  then have "udivmoddi4 n d = Inr (n div d, n mod d)"
  proof cases
    case 1
    then show ?thesis using False by (rule udivmoddi4_low)
  next
    case 2
    then show ?thesis by (rule udivmoddi4_round)
  next
    case 3
    then show ?thesis by (rule udivmoddi4_short_power)
  next
    case 4
    then show ?thesis by (rule udivmoddi4_short)
  next
    case 5
    then show ?thesis by (rule udivmoddi4_long)
  qed
  then show ?thesis using False by simp
qed

section \<open>Signed division\<close>

lemma negate_by_mask: "(x XOR - 1) - (- 1) = - (x :: u64)"
proof -
  have "x XOR - 1 = NOT x" by simp
  then show ?thesis using minus_eq_not_plus_1 [of x] by simp
qed

lemma mask_negates: "s = (if c then - 1 else 0) \<Longrightarrow> (x XOR s) - s = (if c then - x else (x :: u64))"
  by (cases c) (simp_all only: if_True if_False negate_by_mask xor.right_neutral diff_zero)

lemma absolute_value:
  fixes a :: u64
  defines "s \<equiv> signed_drop_bit 63 a"
  shows "uint ((a XOR s) - s) = \<bar>sint a\<bar>"
proof -
  define z where "z = sint a"
  have a: "a = word_of_int z" by (simp add: z_def)
  have z: "- (2 ^ 63) \<le> z" "z < 2 ^ 63" unfolding z_def by (rule sint_bounds)+
  have "(a XOR s) - s = (if z < 0 then - a else a)"
    unfolding z_def by (rule mask_negates) (simp only: s_def sign_mask)
  also have "\<dots> = word_of_int \<bar>z\<bar>" unfolding a by (simp add: abs_if)
  finally have e: "(a XOR s) - s = word_of_int \<bar>z\<bar>" .
  have "\<bar>z\<bar> < 2 ^ 64" using z by (simp add: abs_less_iff)
  then have "uint (word_of_int \<bar>z\<bar> :: u64) = \<bar>z\<bar>" unfolding unsigned_of_int by (simp add: take_bit_int_eq_self)
  then show ?thesis unfolding e z_def .
qed

lemma word_of_uint_op:
  fixes x y :: u64
  shows "x div y = word_of_int (uint x div uint y)" "x mod y = word_of_int (uint x mod uint y)"
  by (simp_all flip: uint_div uint_mod)

lemma absolute_zero: "(a XOR signed_drop_bit 63 a) - signed_drop_bit 63 a = 0 \<longleftrightarrow> a = (0 :: u64)"
proof -
  have "(a XOR signed_drop_bit 63 a) - signed_drop_bit 63 a = 0 \<longleftrightarrow> uint ((a XOR signed_drop_bit 63 a) - signed_drop_bit 63 a) = 0"
    by (simp only: uint_0_iff)
  also have "\<dots> \<longleftrightarrow> sint a = 0" unfolding absolute_value by simp
  also have "\<dots> \<longleftrightarrow> a = 0" by (metis of_int_0 scast_id of_int_sint sint_0)
  finally show ?thesis .
qed

lemma divdi3_result: "divdi3 a b = (if b = 0 then Inl DivTrap else Inr (word_of_int (c_div (sint a) (sint b))))"
proof (cases "b = 0")
  case True
  then show ?thesis by (simp add: divdi3_def udivmoddi4_zero)
next
  case False
  let ?s = "signed_drop_bit 63 a" and ?t = "signed_drop_bit 63 b"
  let ?q = "((a XOR ?s) - ?s) div ((b XOR ?t) - ?t)"
  define y z where "y = sint a" and "z = sint b"
  have q: "?q = word_of_int (\<bar>y\<bar> div \<bar>z\<bar>)" unfolding word_of_uint_op absolute_value y_def z_def ..
  have nb: "(b XOR ?t) - ?t \<noteq> 0" using False absolute_zero by blast
  have "divdi3 a b = Inr ((?q XOR (?s XOR ?t)) - (?s XOR ?t))"
    using nb by (simp add: divdi3_def Let_def udivmoddi4_result)
  also have "(?q XOR (?s XOR ?t)) - (?s XOR ?t) = (if (y < 0) \<noteq> (z < 0) then - ?q else ?q)"
    by (rule mask_negates) (auto simp: sign_mask y_def z_def)
  also have "\<dots> = word_of_int (c_div y z)"
    unfolding q by (auto simp: c_div_def sgn_if)
  finally show ?thesis using False unfolding y_def z_def by simp
qed

lemma moddi3_result: "moddi3 a b = (if b = 0 then Inl DivTrap else Inr (word_of_int (c_mod (sint a) (sint b))))"
proof (cases "b = 0")
  case True
  then show ?thesis by (simp add: moddi3_def udivmoddi4_zero)
next
  case False
  let ?s = "signed_drop_bit 63 a" and ?t = "signed_drop_bit 63 b"
  let ?r = "((a XOR ?s) - ?s) mod ((b XOR ?t) - ?t)"
  define y z where "y = sint a" and "z = sint b"
  have r: "?r = word_of_int (\<bar>y\<bar> mod \<bar>z\<bar>)" unfolding word_of_uint_op absolute_value y_def z_def ..
  have nb: "(b XOR ?t) - ?t \<noteq> 0" using False absolute_zero by blast
  have "moddi3 a b = Inr ((?r XOR ?s) - ?s)"
    using nb by (simp add: moddi3_def Let_def udivmoddi4_result)
  also have "(?r XOR ?s) - ?s = (if y < 0 then - ?r else ?r)"
    by (rule mask_negates) (simp only: sign_mask y_def)
  also have "\<dots> = word_of_int (c_mod y z)"
    unfolding r by (auto simp: c_mod_sgn sgn_if)
  finally show ?thesis using False unfolding y_def z_def by simp
qed

section \<open>Counting zeros of double words\<close>

lemma c_bool_mask: "- c_bool b = (if b then - 1 else 0)"
  by (simp add: c_bool_def)

lemma clzdi2_bitlen: "unat (clzdi2 a) = 64 - bitlen (unat a)"
proof (cases "uhigh a = 0")
  case True
  then have a: "unat a = unat (ulow a)" using unat_halves [of a] by simp
  have "unat (clzsi2 (ulow a)) = 32 - bitlen (unat a)" by (simp add: clzsi2_bitlen a)
  moreover have "bitlen (unat a) \<le> 32" unfolding a bitlen_le_iff by (rule unat_below_32)
  ultimately show ?thesis using True by (simp add: clzdi2_def c_bool_mask Let_def unat_word_ariths)
next
  case False
  then show ?thesis using bitlen_dwords [OF False] by (simp add: clzdi2_def c_bool_mask Let_def clzsi2_bitlen)
qed

lemma ctzdi2_factor:
  assumes "a \<noteq> 0"
  shows "unat (ctzdi2 a) < 64 \<and> (\<exists>k. unat a = (2 * k + 1) * 2 ^ unat (ctzdi2 a))"
proof (cases "ulow a = 0")
  case True
  then have h: "uhigh a \<noteq> 0" using assms halves_zero by blast
  then obtain k where k: "unat (uhigh a) = (2 * k + 1) * 2 ^ unat (ctzsi2 (uhigh a))" "unat (ctzsi2 (uhigh a)) < 32"
    using ctzsi2_factor by blast
  have "ctzdi2 a = ctzsi2 (uhigh a) + 32" using True by (simp add: ctzdi2_def c_bool_mask Let_def)
  then have c: "unat (ctzdi2 a) = unat (ctzsi2 (uhigh a)) + 32" using k(2) by (simp add: unat_word_ariths)
  have "unat a = 2 ^ 32 * unat (uhigh a)" using unat_halves [of a] True by simp
  also have "\<dots> = (2 * k + 1) * 2 ^ (unat (ctzsi2 (uhigh a)) + 32)"
    unfolding k(1) power_add by (simp only: mult_ac)
  finally show ?thesis using k(2) unfolding c by auto
next
  case False
  then obtain k where k: "unat (ulow a) = (2 * k + 1) * 2 ^ unat (ctzsi2 (ulow a))" "unat (ctzsi2 (ulow a)) < 32"
    using ctzsi2_factor by blast
  let ?c = "unat (ctzsi2 (ulow a))"
  have c: "ctzdi2 a = ctzsi2 (ulow a)" using False by (simp add: ctzdi2_def c_bool_mask Let_def)
  have s: "32 - ?c = Suc (31 - ?c)" using k(2) by simp
  have "(2 :: nat) ^ 32 = 2 ^ ?c * (2 * 2 ^ (31 - ?c))"
    using power_split [of ?c 32] k(2) unfolding s power_Suc by (simp only: less_imp_le)
  then have "unat a = (2 * (2 ^ (31 - ?c) * unat (uhigh a) + k) + 1) * 2 ^ ?c"
    using unat_halves [of a] unfolding k(1) by (simp add: algebra_simps)
  then have "\<exists>k. unat a = (2 * k + 1) * 2 ^ ?c" by (rule exI)
  then show ?thesis unfolding c using k(2) by simp
qed

section \<open>Properties\<close>

text \<open>
  C38: the 64-bit division routine, with its special cases, its branch-free comparison and its
  shift-and-subtract loop, is division: for every dividend and divisor it returns quotient and
  remainder, and a zero divisor ends in a division by zero. No shift is by the width or more.
\<close>

theorem udivmoddi4_correct:
  "udivmoddi4 n d = (if d = 0 then Inl DivTrap else Inr (n div d, n mod d))
   \<and> udivdi3 n d = (if d = 0 then Inl DivTrap else Inr (n div d))
   \<and> umoddi3 n d = (if d = 0 then Inl DivTrap else Inr (n mod d))"
  by (simp add: udivmoddi4_result udivdi3_def umoddi3_def)

text \<open>
  C39: signed division truncates towards zero and the remainder has the sign of the dividend, as C
  demands; the one quotient that does not fit, the least number by -1, wraps to the least number.
\<close>

theorem signed_division_correct:
  "divdi3 a b = (if b = 0 then Inl DivTrap else Inr (word_of_int (c_div (sint a) (sint b))))
   \<and> moddi3 a b = (if b = 0 then Inl DivTrap else Inr (word_of_int (c_mod (sint a) (sint b))))
   \<and> divmoddi4 a b = (if b = 0 then Inl DivTrap else
       Inr (word_of_int (c_div (sint a) (sint b)), word_of_int (c_mod (sint a) (sint b))))"
proof -
  have "a - word_of_int q * b = word_of_int (sint a - q * sint b)" for q by simp
  then have "a - word_of_int (c_div (sint a) (sint b)) * b = word_of_int (c_mod (sint a) (sint b))"
    unfolding c_mod_def by blast
  then show ?thesis unfolding divmoddi4_def divdi3_result moddi3_result by auto
qed

text \<open>
  C40: the routines that count zeros by halving the word are right for every number but zero: the
  leading zeros locate the highest one bit, the trailing zeros are the power of two that divides.
\<close>

theorem count_zeros_correct:
  assumes "a \<noteq> 0"
  shows "2 ^ (63 - unat (clzdi2 a)) \<le> unat a \<and> unat a < 2 ^ (64 - unat (clzdi2 a))
     \<and> 2 ^ unat (ctzdi2 a) dvd unat a \<and> \<not> 2 ^ (unat (ctzdi2 a) + 1) dvd unat a"
proof -
  have nz: "unat a \<noteq> 0" using assms by (simp add: unat_eq_0)
  have "bitlen (unat a) \<le> 64" unfolding bitlen_le_iff by (rule unat_below_64)
  then have c: "64 - unat (clzdi2 a) = bitlen (unat a)" "63 - unat (clzdi2 a) = bitlen (unat a) - 1"
    by (simp_all add: clzdi2_bitlen)
  obtain k where k: "unat a = (2 * k + 1) * 2 ^ unat (ctzdi2 a)" using ctzdi2_factor [OF assms] by blast
  then have e: "unat a = 2 ^ unat (ctzdi2 a) * (2 * k + 1)" by (simp only: mult.commute)
  have "\<not> 2 ^ unat (ctzdi2 a) * 2 dvd 2 ^ unat (ctzdi2 a) * (2 * k + 1)"
    unfolding nat_mult_dvd_cancel_disj by simp
  then have "2 ^ unat (ctzdi2 a) dvd unat a" "\<not> 2 ^ (unat (ctzdi2 a) + 1) dvd unat a"
    unfolding power_add power_one_right using e by (metis dvd_triv_left)+
  then show ?thesis unfolding c using bitlen_upper bitlen_lower [OF nz] by blast
qed

theorem count_zeros_correct_witness:
  "2 ^ (63 - unat (clzdi2 0x500000000)) \<le> unat (0x500000000 :: u64) \<and> 2 ^ unat (ctzdi2 0x500000000) dvd unat (0x500000000 :: u64)"
  using count_zeros_correct [of "0x500000000"] by simp

end
