(* ===== verification/Klib.thy ===== *)
theory Klib
  imports Prelude
begin

text \<open>
  \<open>abstract-machine/klib/src/stdlib.c\<close>: the pseudo-random numbers, \<open>abs\<close>, \<open>atoi\<close> and the
  unimplemented \<open>malloc\<close>. The generator keeps an \<open>unsigned long\<close>, whose width is that of the
  machine: the model is generic in it. A string is the list of its bytes with the terminating
  zero. Signed sums wrap, as on the machines the library is compiled for.
\<close>

section \<open>Definitions\<close>

definition klib_rand :: "'l :: len word \<Rightarrow> u32 \<times> 'l word" where
  "klib_rand nxt = (let nxt = nxt * 1103515245 + 12345 in (ucast (nxt div 65536) mod 32768, nxt))"

definition klib_srand :: "u32 \<Rightarrow> 'l :: len word" where
  "klib_srand seed = ucast seed"

definition klib_abs :: "u32 \<Rightarrow> u32" where
  "klib_abs x = (if sint x < 0 then - x else x)"

fun atoi_skip :: "u8 list \<Rightarrow> u8 list res" where
  "atoi_skip [] = Inl OutOfBounds"
| "atoi_skip (c # s) = (if c = 0x20 then atoi_skip s else Inr (c # s))"

fun atoi_loop :: "u32 \<Rightarrow> u8 list \<Rightarrow> u32 res" where
  "atoi_loop x [] = Inl OutOfBounds"
| "atoi_loop x (c # s) = (if 0x30 \<le> c \<and> c \<le> 0x39 then atoi_loop (x * 10 + ucast c - 0x30) s else Inr x)"

definition klib_atoi :: "u8 list \<Rightarrow> u32 res" where
  "klib_atoi nptr = bind_res (atoi_skip nptr) (atoi_loop 0)"

text \<open>\<open>malloc\<close> panics, except on the native platform, where it returns a null pointer.\<close>

definition klib_malloc :: "bool \<Rightarrow> u32 \<Rightarrow> 'a option res" where
  "klib_malloc native nbytes = (if native then Inr None else Inl Panic)"

section \<open>The generator\<close>

fun klib_rands :: "nat \<Rightarrow> 'l :: len word \<Rightarrow> u32 list" where
  "klib_rands 0 nxt = []"
| "klib_rands (Suc n) nxt = (case klib_rand nxt of (r, nxt) \<Rightarrow> r # klib_rands n nxt)"

lemma rand_bits:
  assumes "32 \<le> LENGTH('l :: len)"
  shows "ucast ((x :: 'l word) div 65536) mod 32768 = (ucast x div 65536 :: u32) mod 32768"
proof -
  have d: "x div 65536 = drop_bit 16 x" "y div 65536 = drop_bit 16 y" "y mod 32768 = take_bit 15 y" for y :: u32
    by (simp_all add: drop_bit_eq_div take_bit_eq_mod)
  show ?thesis unfolding d by (rule bit_word_eqI) (use assms in \<open>auto simp: bit_simps\<close>)
qed

lemma ucast_of_int_down: "LENGTH('b) \<le> LENGTH('l) \<Longrightarrow> (ucast (word_of_int k :: 'l :: len word) :: 'b :: len word) = word_of_int k"
  by (rule bit_word_eqI) (simp add: bit_simps)

lemma rand_step_down:
  fixes x :: "'l :: len word"
  assumes "32 \<le> LENGTH('l)"
  shows "(ucast (x * 1103515245 + 12345) :: u32) = ucast x * 1103515245 + 12345"
proof -
  have "(ucast (word_of_int (uint x * 1103515245 + 12345) :: 'l word) :: u32) = word_of_int (uint x * 1103515245 + 12345)"
    by (rule ucast_of_int_down) (use assms in simp)
  then show ?thesis by (simp only: of_int_add of_int_mult of_int_numeral word_of_int_uint ucast_eq)
qed

lemma rands_down:
  fixes x :: "'l :: len word"
  assumes "32 \<le> LENGTH('l)"
  shows "klib_rands n x = klib_rands n (ucast x :: u32)"
proof (induction n arbitrary: x)
  case (Suc n)
  show ?case using Suc.IH [of "x * 1103515245 + 12345"] rand_bits [OF assms] rand_step_down [OF assms, of x]
    by (simp add: klib_rand_def Let_def)
qed simp

section \<open>Numbers\<close>

fun dec_text :: "nat \<Rightarrow> u8 list" where
  "dec_text n = (if n < 10 then [of_nat (48 + n)] else dec_text (n div 10) @ [of_nat (48 + n mod 10)])"

declare dec_text.simps [simp del]

lemma dec_digit:
  assumes "d < 10"
  shows "0x30 \<le> (of_nat (48 + d) :: u8)" "(of_nat (48 + d) :: u8) \<le> 0x39" "(ucast (of_nat (48 + d) :: u8) :: u32) = 0x30 + of_nat d"
proof -
  have u: "unat (of_nat (48 + d) :: u8) = 48 + d" using assms by (simp only: unat_of_nat take_bit_eq_mod) simp
  show "0x30 \<le> (of_nat (48 + d) :: u8)" "(of_nat (48 + d) :: u8) \<le> 0x39"
    using assms unfolding word_le_nat_alt u by simp_all
  have "(ucast (of_nat (48 + d) :: u8) :: u32) = of_nat (unat (of_nat (48 + d) :: u8))" by (simp only: of_nat_unat)
  then show "(ucast (of_nat (48 + d) :: u8) :: u32) = 0x30 + of_nat d" unfolding u by simp
qed

lemma atoi_loop_digits:
  "atoi_loop 0 (dec_text n @ s) = atoi_loop (of_nat n) s"
proof (induction n arbitrary: s rule: dec_text.induct)
  case (1 n)
  show ?case
  proof (cases "n < 10")
    case True
    then show ?thesis using dec_digit [OF True] by (simp add: dec_text.simps [of n] del: of_nat_add)
  next
    case False
    have d: "n mod 10 < 10" by simp
    have "n div 10 * 10 + n mod 10 = n" by simp
    then have "(of_nat (n div 10) * 10 + of_nat (n mod 10) :: u32) = of_nat n" by (metis of_nat_add of_nat_mult of_nat_numeral)
    then show ?thesis using 1 [OF False] dec_digit [OF d] False
      by (simp add: dec_text.simps [of n] add.assoc del: of_nat_add)
  qed
qed

lemma dec_text_first: "\<exists>d s. dec_text n = of_nat (48 + d) # s \<and> d < 10"
proof (induction n rule: dec_text.induct)
  case (1 n)
  then show ?case by (cases "n < 10") (auto simp: dec_text.simps [of n])
qed

lemma klib_atoi_text:
  assumes "\<not> (0x30 \<le> c \<and> c \<le> 0x39)"
  shows "klib_atoi (replicate k 0x20 @ dec_text n @ c # s) = Inr (of_nat n)"
proof -
  obtain d t where d: "dec_text n = of_nat (48 + d) # t" "d < 10" using dec_text_first by blast
  then have "of_nat (48 + d) \<noteq> (0x20 :: u8)" using dec_digit(1) [OF d(2)] by (auto simp del: of_nat_add)
  then have "atoi_skip (dec_text n @ c # s) = Inr (dec_text n @ c # s)" using d(1) by simp
  then have "atoi_skip (replicate k 0x20 @ dec_text n @ c # s) = Inr (dec_text n @ c # s)"
    by (induction k) simp_all
  then show ?thesis using assms by (auto simp: klib_atoi_def atoi_loop_digits)
qed

section \<open>What they compute\<close>

text \<open>
  The pseudo-random sequence does not depend on the width of \<open>unsigned long\<close>: from the same
  seed a machine with a generator of at least 32 bits draws the numbers a 32-bit machine draws,
  each below 32768; and \<open>atoi\<close> reads back every decimal number, whatever spaces precede it and
  whatever follows it that is no digit, modulo \<open>2^32\<close>.
\<close>

theorem klib_rand_atoi_correct:
  assumes "32 \<le> LENGTH('l :: len)" and "\<not> (0x30 \<le> c \<and> c \<le> 0x39)"
  shows "klib_rands n (klib_srand seed :: 'l word) = klib_rands n (klib_srand seed :: u32)
     \<and> list_all (\<lambda>r. r < 32768) (klib_rands n (klib_srand seed :: u32))
     \<and> klib_atoi (replicate k 0x20 @ dec_text m @ c # s) = Inr (of_nat m)"
proof -
  have "list_all (\<lambda>r. r < 32768) (klib_rands n (x :: u32))" for x
  proof (induction n arbitrary: x)
    case (Suc n)
    have "y mod 32768 < (32768 :: u32)" for y by (simp add: word_less_nat_alt unat_mod)
    then show ?case using Suc.IH by (simp add: klib_rand_def Let_def)
  qed simp
  moreover have "(ucast (ucast seed :: 'l word) :: u32) = ucast seed"
    by (rule bit_word_eqI) (use assms(1) in \<open>auto simp: bit_simps\<close>)
  then have "klib_rands n (klib_srand seed :: 'l word) = klib_rands n (klib_srand seed :: u32)"
    using rands_down [OF assms(1), of n "klib_srand seed"] by (simp add: klib_srand_def)
  ultimately show ?thesis using klib_atoi_text [OF assms(2)] by blast
qed

theorem klib_rand_atoi_correct_witness:
  "klib_rands 2 (klib_srand 1 :: u64) = klib_rands 2 (klib_srand 1 :: u32) \<and> klib_atoi ([0x20] @ dec_text 42 @ [0]) = Inr 42"
  using klib_rand_atoi_correct [where ?'l = 64 and n = 2 and seed = 1 and c = 0 and k = 1 and m = 42 and s = "[]"] by simp

end
