(* ===== verification/Spec2Isabelle.thy ===== *)
theory Spec2Isabelle
  imports Prelude Decode Host Utils Bus Devices Sdcard DeviceTop Memory Isa Riscv32
    RiscvSpec RiscvRefine SdbExpr SdbExprSpec Watchpoint CpuExec GuestRun RiscvRun
    Sdb NemuMain Mips32 Loongarch32r X86 Difftest
    Nes NesBus NesCpu NesRun NesAlu NesPpu NesRaster NesFce
    Hart Minirv MinirvLut MinirvExec MinirvShift MinirvBranch MinirvSpec MinirvCorrect
    Gdb GdbSpec GdbHost GdbTarget GdbLink GdbCorrect
    Int64 Int64Bits Int64Div Int64Correct Klib
begin

text \<open>
  Verification library for the ysyx workbench. Four programs of the repository are modelled: NEMU,
  the instruction-set emulator under \<open>ysyx-workbench/nemu\<close>, with its four guests, devices,
  debugger and differential tester; LiteNES, the NES emulator under
  \<open>ysyx-workbench/am-kernels/kernels/litenes\<close>; the run-time library
  \<open>ysyx-workbench/abstract-machine/klib\<close>; and the macros of the abstract machine that turn
  RISC-V programs into programs of the minirv processor
  (\<open>ysyx-workbench/abstract-machine/tools/minirv\<close>).

  \<^bold>\<open>How the models read.\<close> A C function is a definition of the same name. Structures are records,
  enumerations datatypes, integers are words of their width (\<open>Prelude\<close>) where they can wrap,
  and \<open>int\<close> where they cannot. File-level variables are fields of a state record that the
  functions take and return; the state of NEMU grows by record extension as the components
  are added (\<open>bus\<close>, \<open>mem\<close>, \<open>nemu\<close>, \<open>sdb\<close>), that of LiteNES is the record \<open>nes\<close>. In NEMU
  every way a run can stop abnormally - \<open>assert\<close>, \<open>panic\<close>, an access outside an array, a null
  pointer, a trap of the host's division - is a value of \<open>c_error\<close>, and functions that can stop
  return \<open>c_error + 'a\<close>. LiteNES has no error handling of its own; there the first such event is
  kept in the field \<open>fault\<close> of the state. A loop that may not end is a partial function to
  \<open>option\<close>, \<open>None\<close> being that it does not return, and where it does return this is a lemma.

  \<^bold>\<open>NEMU: the machine.\<close> \<open>Decode\<close> models the decoder macros of \<open>include/cpu/decode.h\<close> (pattern
  strings to key, mask and shift) and shows that a pattern accepts exactly the words it spells.
  \<open>Host\<close>, \<open>Utils\<close>, \<open>Bus\<close>, \<open>Devices\<close>, \<open>Sdcard\<close> and \<open>DeviceTop\<close> model host memory, timer and
  state, the I/O maps with their callbacks, and the devices; they show that the regions of the
  bus stay disjoint, that an access reaches the one region that holds it, and that the keyboard
  queue refines a bounded queue. \<open>Memory\<close> puts guest memory in front of the bus
  (\<open>src/memory\<close>) and shows what a load after a store gives. \<open>Isa\<close> has the instruction fetch,
  traps and the interface of a guest.

  \<^bold>\<open>NEMU: the guests.\<close> \<open>Riscv32\<close>, \<open>Mips32\<close>, \<open>Loongarch32r\<close> and \<open>X86\<close> model the decoders and
  executors of \<open>src/isa\<close> from their \<open>INSTPAT\<close> tables on, with register names, built-in image,
  reset and system stubs. \<open>RiscvSpec\<close> is an abstract RV32IM: instructions as data, their
  encoding and their architectural step; \<open>RiscvRefine\<close> shows that decoding and executing an
  encoded instruction is that step, and states where the code departs from it. For MIPS and
  LoongArch the tables are shown equal to a decoder by opcode fields; for x86 that decoding ends
  and what a move does.

  \<^bold>\<open>NEMU: running and debugging.\<close> \<open>SdbExpr\<close> models the lexer and evaluator of \<open>expr.c\<close>, and
  \<open>SdbExprSpec\<close> an expression grammar with its meaning: the evaluator returns the meaning of every
  well-formed expression, and diverges on some other input. \<open>Watchpoint\<close> models the pool of
  \<open>watchpoint.c\<close> as two linked lists in an array of 32 nodes and shows that they always
  partition it. \<open>CpuExec\<close> models \<open>cpu-exec.c\<close> over any guest; the locales there
  (\<open>guest_isa\<close>, and \<open>word_guest\<close> in \<open>GuestRun\<close>) state what a guest promises, and every guest is
  an interpretation; \<open>RiscvRun\<close> has the state machine of \<open>cpu_exec\<close> and the run of the built-in
  image. \<open>Sdb\<close> and \<open>NemuMain\<close> model the commands, the monitor and \<open>main\<close>. \<open>Difftest\<close> models
  \<open>difftest/dut.c\<close> over an arbitrary reference.

  \<^bold>\<open>NEMU: QEMU as the reference.\<close> \<open>Gdb\<close> models the GDB protocol client of
  \<open>tools/qemu-diff/src/protocol.c\<close> over a peer that is a parameter, \<open>GdbHost\<close> the commands
  (\<open>gdb-host.c\<close>), the start of a guest and the interface of the differential test
  (\<open>isa.c\<close>, \<open>diff-test.c\<close>). \<open>GdbSpec\<close> has the encodings of a packet and shows that the receiver
  decodes each of them and never leaves its buffer; \<open>GdbTarget\<close> reads the commands back, as a
  target does; \<open>GdbLink\<close> has the locales \<open>gdb_server\<close> and \<open>gdb_target\<close>, what the GDB manual
  documents of the peer, and \<open>GdbCorrect\<close> the results against any such target and a reference
  target that interprets the locales. At the end of its input the client reads \<open>EOF\<close>; a peer
  that is silent without closing would block it.

  \<^bold>\<open>LiteNES.\<close> \<open>Nes\<close> has the state and \<open>common.c\<close>. \<open>NesBus\<close> has everything the processor reaches
  through an address: \<open>memory.c\<close>, \<open>mmc.c\<close>, \<open>psg.c\<close> and the ports of \<open>ppu.c\<close>; it collects what an
  access leaves alone (\<open>core\<close>) and shows that no access leaves an array (\<open>sound\<close>). \<open>NesCpu\<close> has
  the addressing modes and handlers; the locale \<open>bus_client\<close> states what they need of the bus and
  carries any predicate the bus keeps through all of them, once. \<open>NesRun\<close> has the instruction
  table and \<open>cpu_run\<close> (\<open>clock_client\<close> extends the locale to whole runs) and shows that it
  returns. \<open>NesAlu\<close> says what arithmetic, calls and the RAM mirrors compute. \<open>NesPpu\<close> has the
  renderer and \<open>ppu_cycle\<close>, \<open>NesRaster\<close> the period of the raster and the array accesses of drawing,
  \<open>NesFce\<close> the cartridge loader, the frame loop and \<open>main\<close>.

  \<^bold>\<open>minirv.\<close> The minirv processor has eight instructions; \<open>inst-replace.h\<close> is a file of assembler
  macros that replace every other instruction of RV32I by sequences of these eight, with tables
  that \<open>gen-lut.c\<close> generates. \<open>Hart\<close> is a machine for the instructions of \<open>RiscvSpec\<close> with
  fetching at addresses; \<open>MinirvLut\<close> has the tables and \<open>Minirv\<close> one definition per macro, from
  its operands to a list of instructions, calling the macros it calls. \<open>MinirvExec\<close>,
  \<open>MinirvShift\<close> and \<open>MinirvBranch\<close> run the macros symbolically: each ends in a state that is
  the effect of the original instruction up to \<open>noise\<close>, the registers \<open>gp\<close> and \<open>tp\<close> and 28 bytes
  below the stack pointer. \<open>MinirvSpec\<close> collects them per instruction and branch, and
  \<open>MinirvCorrect\<close> states the result for programs, branches, and the one macro that is wrong.

  \<^bold>\<open>klib.\<close> \<open>Int64\<close> models \<open>int64.c\<close>, the 64-bit division and zero counting a 32-bit processor
  calls, on the halves of the words as the code has them. \<open>Int64Bits\<close> shows what the counting
  routines count, \<open>Int64Div\<close> the invariant of the shift-and-subtract loop, \<open>Int64Correct\<close> that every
  path gives quotient and remainder. \<open>Klib\<close> models \<open>stdlib.c\<close>: the random numbers do not depend
  on the width of \<open>long\<close>, and \<open>atoi\<close> reads back what is printed.

  \<^bold>\<open>Bounds and fuel.\<close> There is no fuel; loops that the code bounds are recursions on the bound.
  The loop of \<open>cpu_run\<close> ends by the lexicographic measure of cycles left and the distance of
  \<open>PC\<close> from 0x2000, where the bus reads 0xFF, an opcode that costs cycles. The evaluator of
  expressions is a partial function; its correctness theorem includes that it returns on every
  text of a well-formed expression that fits the 32 tokens of 32 characters of the code.
  \<open>psg_detect_key\<close> and \<open>wait_for_frame\<close> wait for devices and need not return.

  \<^bold>\<open>Environment.\<close> Outside \<open>src\<close>, hence parameters: the host clock and \<open>rand\<close>, files,
  \<open>readline\<close>, \<open>getopt_long\<close>, the regular expressions of the C library (their documented
  matching), the difftest reference, the peer of the GDB client with the sockets and processes around it,
  fresh heap memory, and the devices of the abstract machine under LiteNES.
  What is printed is kept where the code computes it.

  \<^bold>\<open>Not modelled.\<close> The disassembler and trace text; SDL; signals; the reference sides for
  KVM and Spike; kconfig, fixdep and libgcc, which are vendored; the abstract machine (start-up
  code and assembly); \<open>stdio.c\<close> and \<open>string.c\<close> of klib, which only panic; benchmarks, demos
  and tests; the Verilog and Chisel designs. C leaves the order of the two byte reads of a word
  in LiteNES open; the model reads the low byte first.
\<close>

end
